(* ===== verification/Prelude.thy ===== *)
theory Prelude
  imports Main "HOL-Library.Signed_Division" "HOL-Library.Monad_Syntax"
    "HOL-Library.Char_ord" "HOL-Library.List_Lexorder" "HOL-Library.Multiset"
begin

text \<open>
  Shared vocabulary of the development: the ranges of Rust's fixed-width integers, the
  truncating division of Rust's \<open>/\<close> and \<open>%\<close>, strings as lists of UTF-8 bytes with the
  handful of \<open>str\<close> methods the code calls, and the generic list facts the components
  share. Two collections carry the automation: \<open>griffe_range\<close> (facts that a value stays
  within its machine width) and \<open>griffe_sums\<close> (rewriting of sums over filtered lists).
\<close>

named_theorems griffe_range "values that stay inside their machine width"
named_theorems griffe_sums "sums over filtered and concatenated lists"

section \<open>Machine integers\<close>

text \<open>
  Amounts are \<open>i64\<close> cents. They are modelled as \<open>int\<close>; the places where the code checks
  the width (\<open>checked_mul\<close>, \<open>i64::try_from(..).expect(..)\<close>) test these predicates.
\<close>

definition in_i64 :: "int \<Rightarrow> bool" where
  "in_i64 x \<longleftrightarrow> - (2 ^ 63) \<le> x \<and> x < 2 ^ 63"

definition in_u32 :: "int \<Rightarrow> bool" where
  "in_u32 x \<longleftrightarrow> 0 \<le> x \<and> x < 2 ^ 32"

definition u32_max :: nat where
  "u32_max = 4294967295"

definition i64_try_from :: "int \<Rightarrow> int option" where
  "i64_try_from x = (if in_i64 x then Some x else None)"

lemma i64_try_from_Some [simp]: "in_i64 x \<Longrightarrow> i64_try_from x = Some x"
  by (simp add: i64_try_from_def)

lemma i64_try_from_eq_Some: "i64_try_from x = Some y \<longleftrightarrow> in_i64 x \<and> y = x"
  by (auto simp: i64_try_from_def)

lemma in_i64_abs_mono [griffe_range]:
  "in_i64 x \<Longrightarrow> \<bar>y\<bar> \<le> \<bar>x\<bar> \<Longrightarrow> x \<noteq> - (2 ^ 63) \<Longrightarrow> in_i64 y"
  by (auto simp: in_i64_def)

text \<open>Rust's signed division truncates towards zero and its remainder follows the dividend.\<close>

lemma sdiv_nonneg: "0 \<le> a \<Longrightarrow> 0 < b \<Longrightarrow> a sdiv b = a div (b::int)"
  by (auto simp: signed_divide_int_def sgn_if zdiv_zminus1_eq_if)

lemma smod_eq: "(a::int) smod b = a - (a sdiv b) * b"
  by (simp add: minus_sdiv_mult_eq_smod)

lemma smod_nonneg: "0 \<le> a \<Longrightarrow> 0 < b \<Longrightarrow> a smod b = a mod (b::int)"
  by (simp add: smod_eq sdiv_nonneg minus_div_mult_eq_mod)

lemma smod_abs: "0 < b \<Longrightarrow> \<bar>a smod b\<bar> = \<bar>a\<bar> mod (b::int)"
  by (cases "a = 0") (auto simp: signed_modulo_int_def abs_mult)

lemma sdiv_abs: "0 < b \<Longrightarrow> \<bar>a sdiv b\<bar> = \<bar>a\<bar> div (b::int)"
  by (cases "a = 0") (auto simp: signed_divide_int_def abs_mult pos_imp_zdiv_nonneg_iff)

section \<open>Strings\<close>

text \<open>
  A Rust \<open>str\<close> is its UTF-8 bytes: \<open>len\<close> counts bytes, \<open>starts_with\<close> and the order
  compare bytes. Non-ASCII literals are spelled byte by byte.
\<close>

abbreviation starts_with :: "string \<Rightarrow> string \<Rightarrow> bool" where
  "starts_with s p \<equiv> take (length p) s = p"

definition e_acute :: string where "e_acute = [CHR 0xC3, CHR 0xA9]"
definition e_acute_upper :: string where "e_acute_upper = [CHR 0xC3, CHR 0x89]"
definition a_grave_upper :: string where "a_grave_upper = [CHR 0xC3, CHR 0x80]"
definition e_grave :: string where "e_grave = [CHR 0xC3, CHR 0xA8]"
definition o_circ :: string where "o_circ = [CHR 0xC3, CHR 0xB4]"
definition em_dash :: string where "em_dash = [CHR 0xE2, CHR 0x80, CHR 0x94]"

definition is_ascii_digit :: "char \<Rightarrow> bool" where
  "is_ascii_digit c \<longleftrightarrow> 48 \<le> (of_char c :: nat) \<and> (of_char c :: nat) \<le> 57"

definition digit_value :: "char \<Rightarrow> nat" where
  "digit_value c = of_char c - 48"

definition digit_char :: "nat \<Rightarrow> char" where
  "digit_char d = char_of (48 + d)"

definition nat_of_digits :: "string \<Rightarrow> nat" where
  "nat_of_digits s = foldl (\<lambda>acc c. acc * 10 + digit_value c) 0 s"

fun show_nat :: "nat \<Rightarrow> string" where
  "show_nat n = (if n < 10 then [digit_char n] else show_nat (n div 10) @ [digit_char (n mod 10)])"

declare show_nat.simps [simp del]

definition show_int :: "int \<Rightarrow> string" where
  "show_int x = (if x < 0 then ''-'' else []) @ show_nat (nat \<bar>x\<bar>)"

text \<open>\<open>{:02}\<close> of a number below 100.\<close>

definition show_2 :: "nat \<Rightarrow> string" where
  "show_2 n = (if n < 10 then ''0'' @ show_nat n else show_nat n)"

text \<open>Zero padding to a width, as \<open>{:0w}\<close> does: the sign counts.\<close>

definition zero_pad :: "nat \<Rightarrow> string \<Rightarrow> string" where
  "zero_pad k s = replicate (k - length s) (CHR ''0'') @ s"

definition pad_int :: "nat \<Rightarrow> int \<Rightarrow> string" where
  "pad_int k x = (if x < 0 then ''-'' @ zero_pad (k - 1) (show_nat (nat \<bar>x\<bar>)) else zero_pad k (show_nat (nat x)))"

lemma of_char_digit_char: "d < 10 \<Longrightarrow> (of_char (digit_char d) :: nat) = 48 + d"
  by (simp add: digit_char_def)

lemma digit_char_digit [simp]: "d < 10 \<Longrightarrow> is_ascii_digit (digit_char d)"
  by (simp add: is_ascii_digit_def of_char_digit_char)

lemma digit_value_digit_char [simp]: "d < 10 \<Longrightarrow> digit_value (digit_char d) = d"
  by (simp add: digit_value_def of_char_digit_char)

lemma digit_char_neq [simp]:
  "d < 10 \<Longrightarrow> \<not> is_ascii_digit c \<Longrightarrow> digit_char d \<noteq> c"
  using digit_char_digit by blast

lemma nat_of_digits_snoc: "nat_of_digits (s @ [c]) = nat_of_digits s * 10 + digit_value c"
  by (simp add: nat_of_digits_def)

lemma show_nat_digits [simp]: "list_all is_ascii_digit (show_nat n)"
proof (induction n rule: show_nat.induct)
  case (1 n)
  then show ?case by (subst show_nat.simps) simp
qed

lemma show_nat_nonempty [simp]: "show_nat n \<noteq> []"
  by (subst show_nat.simps) simp

lemma nat_of_digits_show_nat [simp]: "nat_of_digits (show_nat n) = n"
proof (induction n rule: show_nat.induct)
  case (1 n)
  show ?case
  proof (cases "n < 10")
    case True
    then show ?thesis by (subst show_nat.simps) (simp add: nat_of_digits_def)
  next
    case False
    with 1 show ?thesis by (subst show_nat.simps) (simp add: nat_of_digits_snoc)
  qed
qed

lemma show_2_digits [simp]: "list_all is_ascii_digit (show_2 n)"
  by (simp add: show_2_def is_ascii_digit_def)

lemma length_show_2 [simp]: "n < 100 \<Longrightarrow> length (show_2 n) = 2"
proof -
  assume "n < 100"
  have small: "length (show_nat m) = 1" if "m < 10" for m
    using that by (subst show_nat.simps) simp
  from \<open>n < 100\<close> have "n div 10 < 10" by simp
  then show ?thesis
    by (cases "n < 10") (simp_all add: show_2_def small, subst show_nat.simps, simp add: small)
qed

lemma nat_of_digits_show_2 [simp]: "nat_of_digits (show_2 n) = n"
proof (cases "n < 10")
  case True
  have "nat_of_digits (''0'' @ s) = nat_of_digits s" for s
    by (simp add: nat_of_digits_def digit_value_def)
  with True show ?thesis by (simp add: show_2_def)
qed (simp add: show_2_def)

lemma nat_of_digits_append:
  "nat_of_digits (s @ t) = nat_of_digits s * 10 ^ length t + nat_of_digits t"
proof (induction t rule: rev_induct)
  case (snoc c t)
  have "nat_of_digits (s @ t @ [c]) = nat_of_digits (s @ t) * 10 + digit_value c"
    using nat_of_digits_snoc [of "s @ t" c] by simp
  with snoc show ?case by (simp add: nat_of_digits_snoc algebra_simps)
qed (simp add: nat_of_digits_def)

lemma nat_of_digits_bound: "list_all is_ascii_digit s \<Longrightarrow> nat_of_digits s < 10 ^ length s"
proof (induction s rule: rev_induct)
  case (snoc c s)
  then have "digit_value c < 10" by (auto simp: is_ascii_digit_def digit_value_def)
  with snoc show ?case by (simp add: nat_of_digits_snoc)
qed (simp add: nat_of_digits_def)

text \<open>Digit strings of one length compare as the numbers they denote.\<close>

lemma digit_order:
  "is_ascii_digit c \<Longrightarrow> is_ascii_digit c' \<Longrightarrow> c < c' \<longleftrightarrow> digit_value c < digit_value c'"
  by (auto simp: less_char_def is_ascii_digit_def digit_value_def)

lemma digit_eq:
  "is_ascii_digit c \<Longrightarrow> is_ascii_digit c' \<Longrightarrow> digit_value c = digit_value c' \<longleftrightarrow> c = c'"
  by (auto simp: is_ascii_digit_def digit_value_def eq_diff_iff)

lemma digits_order:
  assumes "length s = length t" "list_all is_ascii_digit s" "list_all is_ascii_digit t"
  shows "s < t \<longleftrightarrow> nat_of_digits s < nat_of_digits t"
  using assms
proof (induction s t rule: list_induct2)
  case (Cons c s d t)
  have cons: "nat_of_digits (x # xs) = digit_value x * 10 ^ length xs + nat_of_digits xs" for x xs
    using nat_of_digits_append [of "[x]" xs] by (simp add: nat_of_digits_def)
  have "nat_of_digits s < 10 ^ length t" "nat_of_digits t < 10 ^ length t"
    using Cons nat_of_digits_bound [of s] nat_of_digits_bound [of t] by simp_all
  moreover have "a * N + x < b * N + y" if "a < b" "x < N" for a b x y N :: nat
  proof -
    have "Suc a * N \<le> b * N" using that(1) by (intro mult_le_mono1) simp
    with that(2) show ?thesis by simp
  qed
  ultimately show ?case
    using Cons digit_order [of c d] digit_eq [of c d]
    by (simp add: cons) (metis linorder_neqE_nat nat_add_left_cancel_less order_less_asym)
qed simp

lemma append_order:
  "length a = length c \<Longrightarrow> a @ b < c @ d \<longleftrightarrow> a < c \<or> a = c \<and> b < (d :: string)"
  by (induction a c rule: list_induct2) auto

text \<open>\<open>split_once\<close> and \<open>rsplit_once\<close> at a one-byte separator.\<close>

fun split_once :: "char \<Rightarrow> string \<Rightarrow> (string \<times> string) option" where
  "split_once c [] = None"
| "split_once c (x # xs) =
     (if x = c then Some ([], xs)
      else map_option (\<lambda>(a, b). (x # a, b)) (split_once c xs))"

definition rsplit_once :: "char \<Rightarrow> string \<Rightarrow> (string \<times> string) option" where
  "rsplit_once c s = map_option (\<lambda>(a, b). (rev b, rev a)) (split_once c (rev s))"

lemma split_once_append: "c \<notin> set a \<Longrightarrow> split_once c (a @ c # b) = Some (a, b)"
  by (induction a) auto

lemma split_once_none: "c \<notin> set s \<Longrightarrow> split_once c s = None"
  by (induction s) auto

lemma split_once_Some:
  "split_once c s = Some (a, b) \<Longrightarrow> s = a @ c # b \<and> c \<notin> set a"
  by (induction s arbitrary: a b) (auto split: if_splits)

lemma rsplit_once_append: "c \<notin> set b \<Longrightarrow> rsplit_once c (a @ c # b) = Some (a, b)"
  by (simp add: rsplit_once_def split_once_append)

text \<open>
  \<open>trim\<close>: the characters with the Unicode property \<open>White_Space\<close>, as UTF-8 byte
  sequences, removed at both ends.
\<close>

definition white_space :: "string list" where
  "white_space =
     [[CHR 0x09], [CHR 0x0A], [CHR 0x0B], [CHR 0x0C], [CHR 0x0D], [CHR 0x20],
      [CHR 0xC2, CHR 0x85], [CHR 0xC2, CHR 0xA0], [CHR 0xE1, CHR 0x9A, CHR 0x80],
      [CHR 0xE2, CHR 0x80, CHR 0x80], [CHR 0xE2, CHR 0x80, CHR 0x81],
      [CHR 0xE2, CHR 0x80, CHR 0x82], [CHR 0xE2, CHR 0x80, CHR 0x83],
      [CHR 0xE2, CHR 0x80, CHR 0x84], [CHR 0xE2, CHR 0x80, CHR 0x85],
      [CHR 0xE2, CHR 0x80, CHR 0x86], [CHR 0xE2, CHR 0x80, CHR 0x87],
      [CHR 0xE2, CHR 0x80, CHR 0x88], [CHR 0xE2, CHR 0x80, CHR 0x89],
      [CHR 0xE2, CHR 0x80, CHR 0x8A], [CHR 0xE2, CHR 0x80, CHR 0xA8],
      [CHR 0xE2, CHR 0x80, CHR 0xA9], [CHR 0xE2, CHR 0x80, CHR 0xAF],
      [CHR 0xE2, CHR 0x81, CHR 0x9F], [CHR 0xE3, CHR 0x80, CHR 0x80]]"

definition white_prefix :: "string list \<Rightarrow> string \<Rightarrow> nat" where
  "white_prefix ws s = (case find (starts_with s) ws of None \<Rightarrow> 0 | Some w \<Rightarrow> length w)"

fun trim_fuel :: "nat \<Rightarrow> string list \<Rightarrow> string \<Rightarrow> string" where
  "trim_fuel 0 ws s = s"
| "trim_fuel (Suc k) ws s =
     (let n = white_prefix ws s in if n = 0 then s else trim_fuel k ws (drop n s))"

definition trim_start :: "string \<Rightarrow> string" where
  "trim_start s = trim_fuel (length s) white_space s"

definition trim_end :: "string \<Rightarrow> string" where
  "trim_end s = rev (trim_fuel (length s) (map rev white_space) (rev s))"

definition trim :: "string \<Rightarrow> string" where
  "trim s = trim_end (trim_start s)"

end
