(* ===== verification/Money.thy ===== *)
theory Money
  imports Prelude "HOL-Library.Product_Lexorder"
begin

text \<open>
  \<open>domain/money.rs\<close>: amounts in whole euro cents. \<open>Money(i64)\<close> is an \<open>int\<close>; the additive
  operators (which abort on overflow, \<open>overflow-checks = true\<close>) are \<open>int\<close> arithmetic, and
  every operation whose body says \<open>expect\<close> or \<open>assert!\<close> returns an \<open>option\<close>, where
  \<open>None\<close> is the panic. A quantity of days (an \<open>f64\<close>) enters a computation only through
  \<open>hundredths_of_day\<close>, an integer number of hundredths; the model's argument is that integer.
  The two allocators are the interface \<open>lossless_allocation\<close>, which the clients of
  \<open>allocate_proportionally\<close> rest on.
\<close>

section \<open>Definitions\<close>

type_synonym money = int

definition MAX_INPUT :: money where
  "MAX_INPUT = 10000000000000"

definition round_half_to_even :: "int \<Rightarrow> int \<Rightarrow> int" where
  "round_half_to_even product divisor =
     (let quotient = product sdiv divisor;
          remainder = product smod divisor;
          twice_abs = \<bar>remainder\<bar> * 2
      in if twice_abs > divisor \<or> (twice_abs = divisor \<and> quotient smod 2 \<noteq> 0)
         then quotient + sgn remainder else quotient)"

definition multiply_by_days :: "money \<Rightarrow> int \<Rightarrow> money option" where
  "multiply_by_days m hundredths = i64_try_from (round_half_to_even (m * hundredths) 100)"

definition multiply_by_quantity :: "money \<Rightarrow> int \<Rightarrow> money option" where
  "multiply_by_quantity m quantity_hundredths = multiply_by_days m quantity_hundredths"

definition divide_by_days :: "money \<Rightarrow> int \<Rightarrow> money option" where
  "divide_by_days m hundredths =
     (if hundredths \<le> 0 then Some 0
      else i64_try_from (round_half_to_even (m * 100) hundredths))"

definition apply_rate_bps :: "money \<Rightarrow> nat \<Rightarrow> money option" where
  "apply_rate_bps m bps = i64_try_from (round_half_to_even (m * int bps) 10000)"

definition scale :: "money \<Rightarrow> money \<Rightarrow> money \<Rightarrow> money option" where
  "scale m numerator denominator =
     (if denominator = 0 then Some 0
      else if numerator = denominator then Some m
      else i64_try_from ((m * numerator) sdiv denominator))"

definition split_equally :: "money \<Rightarrow> nat \<Rightarrow> money list option" where
  "split_equally m parts =
     (if parts = 0 then None
      else let base = m sdiv int parts;
               remainder = m smod int parts;
               bonus = sgn remainder;
               extra_recipients = nat \<bar>remainder\<bar>
           in Some (map (\<lambda>i. base + (if i < extra_recipients then bonus else 0)) [0..<parts]))"

text \<open>
  The largest-remainder allocation: every weight gets its truncated share, then one cent each
  to the largest remainders (ties by position) until the total is reached. A share is
  \<open>(position, base, remainder)\<close>.
\<close>

definition raw_shares :: "nat \<Rightarrow> nat list \<Rightarrow> (nat \<times> nat \<times> nat) list" where
  "raw_shares magnitude weights =
     (let total_weight = sum_list weights
      in map (\<lambda>(i, w). (i, magnitude * w div total_weight, magnitude * w mod total_weight))
             (enumerate 0 weights))"

definition by_remainder :: "(nat \<times> nat \<times> nat) list \<Rightarrow> (nat \<times> nat \<times> nat) list" where
  "by_remainder = sort_key (\<lambda>(i, base, rest). (- int rest, i))"

fun write_bases :: "(nat \<times> nat \<times> nat) list \<Rightarrow> nat list \<Rightarrow> nat list" where
  "write_bases [] result = result"
| "write_bases ((i, base, _) # shares) result = write_bases shares (result[i := base])"

fun hand_out :: "nat \<Rightarrow> (nat \<times> nat \<times> nat) list \<Rightarrow> nat list \<Rightarrow> nat list" where
  "hand_out remaining [] result = result"
| "hand_out remaining ((i, _) # shares) result =
     (if remaining = 0 then result
      else hand_out (remaining - 1) shares (result[i := result ! i + 1]))"

definition allocate_magnitude :: "nat \<Rightarrow> nat list \<Rightarrow> nat list" where
  "allocate_magnitude magnitude weights =
     (let shares = raw_shares magnitude weights;
          allocated = sum_list (map (\<lambda>(i, base, rest). base) shares);
          sorted_shares = by_remainder shares
      in hand_out (magnitude - allocated) sorted_shares
           (write_bases sorted_shares (replicate (length weights) 0)))"

definition allocate_proportionally :: "money \<Rightarrow> nat list \<Rightarrow> money list option" where
  "allocate_proportionally m weights =
     (if weights = [] \<or> sum_list weights = 0 then None
      else let result = allocate_magnitude (nat \<bar>m\<bar>) weights
           in if list_all (\<lambda>v. in_i64 (int v)) result
              then Some (map (\<lambda>v. if m < 0 then - int v else int v) result)
              else None)"

definition to_decimal_string :: "money \<Rightarrow> string" where
  "to_decimal_string m =
     (let magnitude = nat \<bar>m\<bar>
      in (if m < 0 then ''-'' else []) @ show_nat (magnitude div 100) @ ''.''
         @ show_2 (magnitude mod 100))"

definition parse_decimal :: "string \<Rightarrow> string + money" where
  "parse_decimal s =
     (let normalized = map (\<lambda>c. if c = CHR '','' then CHR ''.'' else c) s;
          (sign, unsigned) =
            (if starts_with normalized ''-'' then (- 1, tl normalized) else (1, normalized));
          (integer_part, fractional_part) =
            (case split_once CHR ''.'' unsigned of
               Some (a, b) \<Rightarrow> (a, b) | None \<Rightarrow> (unsigned, ''0''))
      in if integer_part = [] \<or> \<not> list_all is_ascii_digit integer_part then Inl s
         else if 2 < length fractional_part \<or> \<not> list_all is_ascii_digit fractional_part then Inl s
         else (case i64_try_from (int (nat_of_digits integer_part)) of
             None \<Rightarrow> Inl s
           | Some integer \<Rightarrow>
               (let fractional_cents =
                      (if fractional_part = [] then 0
                       else if length fractional_part = 1 then int (nat_of_digits fractional_part) * 10
                       else int (nat_of_digits fractional_part))
                in (case Option.bind (Option.bind (i64_try_from (integer * 100))
                             (\<lambda>c. i64_try_from (c + fractional_cents)))
                             (\<lambda>c. i64_try_from (c * sign)) of
                      None \<Rightarrow> Inl s
                    | Some cents \<Rightarrow> if MAX_INPUT < \<bar>cents\<bar> then Inl s else Inr cents))))"

definition checked_add :: "money \<Rightarrow> money \<Rightarrow> money option" where
  "checked_add a b = i64_try_from (a + b)"

text \<open>The human rendering: thousands grouped by U+202F, a comma, U+00A0 and the euro sign.\<close>

fun group_rev :: "nat \<Rightarrow> string \<Rightarrow> string" where
  "group_rev i [] = []"
| "group_rev i (c # cs) =
     (if 0 < i \<and> i mod 3 = 0 then [CHR 0xAF, CHR 0x80, CHR 0xE2, c] else [c]) @ group_rev (Suc i) cs"

definition display_money :: "money \<Rightarrow> string" where
  "display_money m =
     (let magnitude = nat \<bar>m\<bar>; euros = magnitude div 100; cents = magnitude mod 100
      in (if m < 0 then ''-'' else []) @ rev (group_rev 0 (rev (show_nat euros))) @ '',''
         @ show_2 cents @ [CHR 0xC2, CHR 0xA0, CHR 0xE2, CHR 0x82, CHR 0xAC])"

section \<open>Rounding\<close>

lemma round_half_to_even_neg:
  "0 < d \<Longrightarrow> round_half_to_even (- p) d = - round_half_to_even p d"
  by (simp add: round_half_to_even_def Let_def)

text \<open>The rounding of a non-negative dividend, by its Euclidean quotient and remainder.\<close>

lemma round_half_to_even_pos:
  assumes "0 \<le> r" "r < d" "0 \<le> q"
  shows "round_half_to_even (q * d + r) d =
     q + (if 2 * r > d \<or> 2 * r = d \<and> odd q then 1 else 0)"
proof -
  have "0 \<le> q * d + r" "0 < d" using assms by simp_all
  then have "(q * d + r) sdiv d = q" "(q * d + r) smod d = r"
    using assms by (simp_all add: sdiv_nonneg smod_nonneg)
  moreover have "q smod 2 = q mod 2" using assms by (simp add: smod_nonneg)
  ultimately show ?thesis
    using assms by (auto simp: round_half_to_even_def Let_def sgn_if odd_iff_mod_2_eq_one)
qed

lemma even_smod: "even x \<longleftrightarrow> (x::int) smod 2 = 0"
proof -
  have "x smod 2 = 0 \<longleftrightarrow> \<bar>x\<bar> mod 2 = 0" by (auto simp: signed_modulo_int_def sgn_eq_0_iff)
  then show ?thesis by (simp add: even_iff_mod_2_eq_zero [symmetric])
qed

lemma round_half_to_even_abs:
  assumes "0 < d"
  shows "\<bar>2 * (round_half_to_even p d * d - p)\<bar> \<le> d"
proof -
  have pos: "\<bar>2 * (round_half_to_even p d * d - p)\<bar> \<le> d" if "0 \<le> p" for p
  proof -
    define q r where "q = p div d" and "r = p mod d"
    have qr: "p = q * d + r" "0 \<le> r" "r < d" "0 \<le> q"
      using assms that by (simp_all add: q_def r_def pos_imp_zdiv_nonneg_iff)
    show ?thesis
      unfolding qr(1) round_half_to_even_pos [OF qr(2-4)]
      using qr by (auto simp: algebra_simps)
  qed
  show ?thesis
  proof (cases "0 \<le> p")
    case False
    then have "\<bar>2 * (round_half_to_even (- p) d * d - (- p))\<bar> \<le> d" by (intro pos) simp
    with assms show ?thesis by (simp add: round_half_to_even_neg)
  qed (rule pos)
qed

lemma round_half_to_even_tie:
  assumes "0 < d" "2 * \<bar>p smod d\<bar> = d"
  shows "even (round_half_to_even p d)"
proof -
  have "even (p sdiv d) \<longleftrightarrow> (p sdiv d) smod 2 = 0"
    by (rule even_smod)
  then show ?thesis
    using assms by (auto simp: round_half_to_even_def Let_def sgn_if)
qed

text \<open>A multiple of the divisor is rounded exactly.\<close>

lemma round_half_to_even_exact [simp]: "0 < d \<Longrightarrow> round_half_to_even (q * d) d = q"
proof -
  assume d: "0 < d"
  let ?e = "2 * (round_half_to_even (q * d) d - q)"
  have "2 * (round_half_to_even (q * d) d * d - q * d) = ?e * d" by (simp add: algebra_simps)
  then have "\<bar>?e\<bar> * d \<le> 1 * d"
    using round_half_to_even_abs [OF d, of "q * d"] d by (simp add: abs_mult)
  with d have "\<bar>?e\<bar> \<le> 1" by (simp only: mult_le_cancel_right)
  then show ?thesis by arith
qed

lemma round_half_to_even_zero [simp]: "round_half_to_even 0 d = 0"
  by (simp add: round_half_to_even_def signed_divide_int_def signed_modulo_int_def)

lemma round_half_to_even_nonneg:
  assumes "0 < d" "0 \<le> p"
  shows "0 \<le> round_half_to_even p d"
proof -
  have "0 \<le> (p div d)" using assms by (simp add: pos_imp_zdiv_nonneg_iff)
  moreover have "p = p div d * d + p mod d" by simp
  ultimately show ?thesis
    using round_half_to_even_pos [of "p mod d" d "p div d"] assms by simp
qed

text \<open>Rounding \<open>m * k / d\<close> with \<open>k \<le> d\<close> never grows the amount.\<close>

lemma round_half_to_even_le:
  assumes "0 < d" "0 \<le> p" "p \<le> q * d"
  shows "round_half_to_even p d \<le> q"
proof (rule ccontr)
  assume "\<not> ?thesis"
  then have "(q + 1) * d \<le> round_half_to_even p d * d"
    using assms(1) by (intro mult_right_mono) auto
  moreover have "2 * (round_half_to_even p d * d - p) \<le> d"
    using round_half_to_even_abs [OF assms(1), of p] by linarith
  ultimately have "2 * ((q + 1) * d) \<le> d + 2 * (q * d)"
    using assms(3) by (simp add: algebra_simps)
  then show False using assms(1) by (simp add: algebra_simps)
qed

lemma round_half_to_even_rate:
  assumes "k \<le> d" "0 < d" "0 \<le> k"
  shows "\<bar>round_half_to_even (m * k) d\<bar> \<le> \<bar>m\<bar>"
proof -
  have pos: "\<bar>round_half_to_even (m * k) d\<bar> \<le> \<bar>m\<bar>" if "0 \<le> m" for m
  proof -
    have "0 \<le> m * k" "m * k \<le> m * d" using assms that by (simp_all add: mult_left_mono)
    then show ?thesis
      using round_half_to_even_le [OF assms(2)] round_half_to_even_nonneg [OF assms(2)] that
      by fastforce
  qed
  show ?thesis
  proof (cases "0 \<le> m")
    case False
    then have "\<bar>round_half_to_even (- m * k) d\<bar> \<le> \<bar>- m\<bar>" by (intro pos) simp
    with assms show ?thesis by (simp add: round_half_to_even_neg)
  qed (rule pos)
qed

lemma round_half_to_even_mono:
  assumes "0 < d" "0 \<le> p" "p \<le> p'"
  shows "round_half_to_even p d \<le> round_half_to_even p' d"
proof -
  define q r q' r' where "q = p div d" "r = p mod d" "q' = p' div d" "r' = p' mod d"
  note defs = this
  have qr: "p = q * d + r" "0 \<le> r" "r < d" "0 \<le> q"
    and qr': "p' = q' * d + r'" "0 \<le> r'" "r' < d" "0 \<le> q'"
    using assms by (simp_all add: defs pos_imp_zdiv_nonneg_iff)
  have "q \<le> q'" using assms by (simp add: defs zdiv_mono1)
  moreover have "r \<le> r'" if "q = q'" using assms(3) that by (simp add: qr qr')
  ultimately show ?thesis
    unfolding qr(1) qr'(1) round_half_to_even_pos [OF qr(2-4)] round_half_to_even_pos [OF qr'(2-4)]
    by (cases "q = q'") auto
qed

section \<open>Rates and shares of a price\<close>

lemma apply_rate_bps_total [griffe_range]:
  assumes "in_i64 m" "m \<noteq> - (2 ^ 63)" "bps \<le> 10000"
  shows "apply_rate_bps m bps = Some (round_half_to_even (m * int bps) 10000)"
proof -
  have "\<bar>round_half_to_even (m * int bps) 10000\<bar> \<le> \<bar>m\<bar>"
    using assms(3) by (intro round_half_to_even_rate) auto
  then have "in_i64 (round_half_to_even (m * int bps) 10000)"
    by (rule in_i64_abs_mono [OF assms(1) _ assms(2)])
  then show ?thesis by (simp add: apply_rate_bps_def)
qed

lemma scale_total [griffe_range]:
  assumes "in_i64 m" "m \<noteq> - (2 ^ 63)" "0 \<le> a" "a \<le> b" "b \<noteq> 0"
  shows "scale m a b = Some (if a = b then m else (m * a) sdiv b)"
    and "\<bar>(m * a) sdiv b\<bar> \<le> \<bar>m\<bar>"
proof -
  have "\<bar>m\<bar> * a \<le> \<bar>m\<bar> * b" using assms by (intro mult_left_mono) auto
  then have "\<bar>m\<bar> * a div b \<le> \<bar>m\<bar> * b div b" using assms by (intro zdiv_mono1) auto
  then show le: "\<bar>(m * a) sdiv b\<bar> \<le> \<bar>m\<bar>"
    using assms by (simp add: sdiv_abs abs_mult)
  show "scale m a b = Some (if a = b then m else (m * a) sdiv b)"
    using in_i64_abs_mono [OF assms(1) le assms(2)] assms(5) by (simp add: scale_def)
qed

section \<open>Equal parts\<close>

lemma sum_list_leading_ones:
  "sum_list (map (\<lambda>i. a + (if i < k then b else 0)) [0..<n]) = int n * a + int (min k n) * b"
proof (induction n)
  case (Suc n)
  then show ?case by (cases "k = Suc n") (auto simp: algebra_simps min_def split: if_splits)
qed simp

lemma split_equally_Some: "0 < n \<Longrightarrow> \<exists>parts. split_equally m n = Some parts"
  by (simp add: split_equally_def Let_def)

lemma split_equally_sum:
  assumes "split_equally m n = Some parts"
  shows "length parts = n" "sum_list parts = m"
proof -
  from assms have n: "0 < n"
    and parts: "parts = map (\<lambda>i. m sdiv int n + (if i < nat \<bar>m smod int n\<bar> then sgn (m smod int n) else 0)) [0..<n]"
    by (auto simp: split_equally_def Let_def split: if_splits)
  show "length parts = n" by (simp add: parts)
  have "nat \<bar>m smod int n\<bar> \<le> n"
    using n by (simp add: smod_abs) (metis pos_mod_bound of_nat_0_less_iff less_imp_le nat_le_iff)
  then have "sum_list parts = int n * (m sdiv int n) + m smod int n"
    by (simp add: parts sum_list_leading_ones min_absorb1 abs_mult_sgn)
  also have "\<dots> = m" using sdiv_mult_smod_eq [of m "int n"] by (simp add: mult.commute)
  finally show "sum_list parts = m" .
qed

lemma split_equally_spread:
  assumes "split_equally m n = Some parts" "x \<in> set parts" "y \<in> set parts"
  shows "\<bar>x - y\<bar> \<le> 1"
proof -
  have "z = m sdiv int n \<or> z = m sdiv int n + sgn (m smod int n)" if "z \<in> set parts" for z
    using assms(1) that by (auto simp: split_equally_def Let_def split: if_splits)
  from this [OF assms(2)] this [OF assms(3)] show ?thesis
    by (auto simp: sgn_if)
qed

section \<open>Largest remainders\<close>

lemma length_raw_shares [simp]: "length (raw_shares mag ws) = length ws"
  by (simp add: raw_shares_def Let_def)

lemma raw_shares_positions: "map fst (raw_shares mag ws) = [0..<length ws]"
  by (simp add: raw_shares_def Let_def comp_def case_prod_unfold)

lemma raw_shares_mem:
  "(i, base, rest) \<in> set (raw_shares mag ws) \<Longrightarrow>
     i < length ws \<and> base = mag * ws ! i div sum_list ws \<and> rest = mag * ws ! i mod sum_list ws"
  by (auto simp: raw_shares_def Let_def in_set_enumerate_eq)

lemma by_remainder_perm: "mset (by_remainder xs) = mset xs"
  by (simp add: by_remainder_def)

lemma by_remainder_set [simp]: "set (by_remainder xs) = set xs"
  by (simp add: by_remainder_def)

lemma by_remainder_sorted:
  "sorted (map (\<lambda>(i, base, rest). (- int rest, i)) (by_remainder xs))"
  by (simp add: by_remainder_def)

lemma by_remainder_positions:
  "distinct (map fst (by_remainder (raw_shares mag ws)))"
  "fst ` set (by_remainder (raw_shares mag ws)) = {0..<length ws}"
proof -
  have "mset (map fst (by_remainder (raw_shares mag ws))) = mset (map fst (raw_shares mag ws))"
    by (simp only: mset_map by_remainder_perm)
  then have "mset (map fst (by_remainder (raw_shares mag ws))) = mset [0..<length ws]"
    by (simp only: raw_shares_positions)
  then show "distinct (map fst (by_remainder (raw_shares mag ws)))"
    by (metis distinct_upt mset_eq_imp_distinct_iff)
  show "fst ` set (by_remainder (raw_shares mag ws)) = {0..<length ws}"
    using raw_shares_positions [of mag ws] by (metis by_remainder_set list.set_map set_upt)
qed

lemma length_write_bases [simp]: "length (write_bases xs res) = length res"
  by (induction xs res rule: write_bases.induct) auto

lemma length_hand_out [simp]: "length (hand_out k xs res) = length res"
  by (induction k xs res rule: hand_out.induct) auto

lemma write_bases_nth:
  assumes "\<forall>(i, base, rest) \<in> set xs. base = f i" "j < length res"
  shows "write_bases xs res ! j = (if j \<in> fst ` set xs then f j else res ! j)"
  using assms by (induction xs res rule: write_bases.induct) (auto simp: nth_list_update)

lemma hand_out_nth:
  assumes "distinct (map fst xs)" "j < length res"
  shows "hand_out k xs res ! j = res ! j + (if j \<in> fst ` set (take k xs) then 1 else 0)"
  using assms
proof (induction k xs res rule: hand_out.induct)
  case (2 k i x xs res)
  show ?case
  proof (cases k)
    case (Suc k')
    have "i \<notin> fst ` set (take k' xs)"
      using "2.prems"(1) by (auto dest: in_set_takeD simp: image_iff)
    moreover have "i \<noteq> j" if "j \<in> fst ` set (take k' xs)" using that calculation by blast
    ultimately show ?thesis using "2" Suc by (simp add: nth_list_update image_iff)
  qed simp
qed simp

lemma hand_out_sum:
  assumes "\<forall>s \<in> set xs. fst s < length res"
  shows "sum_list (hand_out k xs res) = sum_list res + min k (length xs)"
  using assms
proof (induction k xs res rule: hand_out.induct)
  case (2 k i x xs res)
  then show ?case
    by (cases k) (auto simp: sum_list_update elem_le_sum_list trans_le_add1)
qed simp

lemma sum_list_nth: "sum_list xs = (\<Sum>i<length xs. xs ! i)"
  by (simp add: sum_list_sum_nth atLeast0LessThan)

text \<open>
  The cents left after the truncated shares: fewer than the shares with a non-zero remainder
  if there is any, so every share that receives one was really truncated.
\<close>

lemma div_shares_total:
  "(\<Sum>w\<leftarrow>ws. mag * w div (T::nat)) * T + (\<Sum>w\<leftarrow>ws. mag * w mod T) = mag * sum_list ws"
  by (induction ws) (auto simp: algebra_simps)

lemma raw_shares_bases:
  "sum_list (map (\<lambda>(i, base, rest). base) (raw_shares mag ws)) = (\<Sum>w\<leftarrow>ws. mag * w div sum_list ws)"
  "map (\<lambda>(i, base, rest). rest) (raw_shares mag ws) = map (\<lambda>w. mag * w mod sum_list ws) ws"
proof -
  have "map (\<lambda>(i, base, rest). f base rest) (raw_shares mag ws) =
      map (\<lambda>w. f (mag * w div sum_list ws) (mag * w mod sum_list ws)) ws" for f :: "nat \<Rightarrow> nat \<Rightarrow> nat"
    by (subst map_snd_enumerate [of 0 ws, symmetric], simp only: map_map)
       (simp add: raw_shares_def Let_def comp_def case_prod_unfold)
  from this [of "\<lambda>b r. b"] this [of "\<lambda>b r. r"]
  show "sum_list (map (\<lambda>(i, base, rest). base) (raw_shares mag ws)) = (\<Sum>w\<leftarrow>ws. mag * w div sum_list ws)"
    "map (\<lambda>(i, base, rest). rest) (raw_shares mag ws) = map (\<lambda>w. mag * w mod sum_list ws) ws"
    by simp_all
qed

lemma sum_list_bounded:
  assumes "\<forall>x \<in> set xs. x < (T::nat)" "xs \<noteq> []"
  shows "sum_list xs < length xs * T"
  using assms
proof (induction xs)
  case (Cons x xs)
  then show ?case by (cases "xs = []") (auto intro: add_less_mono)
qed simp

lemma leading_positive:
  fixes xs :: "nat list"
  assumes sorted: "sorted (rev xs)" and bound: "\<forall>x \<in> set xs. x < T"
    and total: "sum_list xs = k * T" and T: "0 < T"
  shows "k \<le> length xs" "\<forall>x \<in> set (take k xs). 0 < x"
proof -
  show le: "k \<le> length xs"
  proof (rule ccontr)
    assume "\<not> k \<le> length xs"
    then have "xs \<noteq> [] \<Longrightarrow> False"
      using sum_list_bounded [OF bound] total by (metis mult_le_mono1 nat_le_linear not_le)
    then show False using \<open>\<not> k \<le> length xs\<close> total T by (cases "xs = []") auto
  qed
  show "\<forall>x \<in> set (take k xs). 0 < x"
  proof (rule ccontr)
    assume "\<not> ?thesis"
    then obtain p where p: "p < k" "xs ! p = 0"
      using le by (auto simp: in_set_conv_nth)
    have "xs ! q = 0" if "p \<le> q" "q < length xs" for q
      using sorted_rev_nth_mono [OF sorted that] p by simp
    then have "sum_list (drop p xs) = 0" by (auto simp: in_set_conv_nth)
    then have "sum_list xs = sum_list (take p xs)"
      by (metis add.right_neutral append_take_drop_id sum_list_append)
    moreover have "sum_list (take p xs) \<le> p * T"
    proof -
      have "\<forall>x \<in> set (take p xs). x < T" using bound by (auto dest: in_set_takeD)
      from sum_list_bounded [OF this] show ?thesis
        using p le by (cases "take p xs = []") auto
    qed
    ultimately have "k * T \<le> p * T" using total by simp
    then show False using p T by simp
  qed
qed

text \<open>The allocation of a magnitude, position by position.\<close>

lemma allocate_magnitude_nth:
  fixes mag :: nat and ws :: "nat list"
  assumes "0 < sum_list ws"
  defines "T \<equiv> sum_list ws"
  defines "res \<equiv> allocate_magnitude mag ws"
  shows "length res = length ws" "sum_list res = mag"
    "j < length ws \<Longrightarrow> res ! j = mag * ws ! j div T \<or>
       res ! j = mag * ws ! j div T + 1 \<and> 0 < mag * ws ! j mod T"
proof -
  let ?xs = "by_remainder (raw_shares mag ws)" and ?n = "length ws"
  let ?bases = "write_bases ?xs (replicate ?n 0)"
  define k where "k = mag - (\<Sum>w\<leftarrow>ws. mag * w div T)"
  have res: "res = hand_out k ?xs ?bases"
    by (simp add: res_def allocate_magnitude_def Let_def k_def raw_shares_bases T_def)
  have mem: "i < ?n \<and> base = mag * ws ! i div T \<and> rest = mag * ws ! i mod T"
    if "(i, base, rest) \<in> set ?xs" for i base rest
    using that raw_shares_mem by (simp add: T_def)
  then have nth: "?bases ! j = mag * ws ! j div T" if "j < ?n" for j
    using that write_bases_nth [of ?xs "\<lambda>i. mag * ws ! i div T" j "replicate ?n 0"]
      by_remainder_positions(2) [of mag ws] by fastforce
  then have bases: "?bases = map (\<lambda>w. mag * w div T) ws" by (auto intro: nth_equalityI)
  have rests: "sum_list (map (\<lambda>(i, base, rest). rest) ?xs) = k * T"
  proof -
    have "mset (map (\<lambda>(i, base, rest). rest) ?xs) = mset (map (\<lambda>(i, base, rest). rest) (raw_shares mag ws))"
      by (simp only: mset_map by_remainder_perm)
    then have "sum_list (map (\<lambda>(i, base, rest). rest) ?xs) = (\<Sum>w\<leftarrow>ws. mag * w mod T)"
      by (metis raw_shares_bases(2) sum_mset_sum_list T_def)
    also have "\<dots> = k * T"
      using div_shares_total [of mag T ws] by (simp add: k_def T_def diff_mult_distrib)
    finally show ?thesis .
  qed
  have sorted: "sorted (rev (map (\<lambda>(i, base, rest). rest) ?xs))"
  proof -
    have "sorted (map (\<lambda>(i, base, rest). - int rest) ?xs)"
      using by_remainder_sorted [of "raw_shares mag ws"]
      by (simp add: sorted_map) (erule sorted_wrt_mono_rel [rotated], auto)
    then show ?thesis
      by (simp add: sorted_map sorted_wrt_rev sorted_wrt_map) (erule sorted_wrt_mono_rel [rotated], auto)
  qed
  have lt: "\<forall>x \<in> set (map (\<lambda>(i, base, rest). rest) ?xs). x < T"
    using mem assms(1) by (fastforce simp: T_def)
  have "0 < T" using assms(1) by (simp add: T_def)
  note lead = leading_positive [OF sorted lt rests this]
  show "length res = length ws" by (simp add: res)
  have "(\<Sum>w\<leftarrow>ws. mag * w div T) \<le> mag"
    using div_shares_total [of mag T ws] assms(1)
    by (metis T_def le_add1 mult_le_cancel2)
  moreover have "\<forall>s \<in> set ?xs. fst s < length ?bases" using mem by fastforce
  ultimately show "sum_list res = mag"
    using lead(1) by (simp add: res hand_out_sum bases k_def)
  show "res ! j = mag * ws ! j div T \<or> res ! j = mag * ws ! j div T + 1 \<and> 0 < mag * ws ! j mod T"
    if "j < length ws"
  proof (cases "j \<in> fst ` set (take k ?xs)")
    case True
    then obtain base rest where jr: "(j, base, rest) \<in> set (take k ?xs)" by auto
    then have "rest \<in> set (take k (map (\<lambda>(i, base, rest). rest) ?xs))"
      by (force simp: take_map)
    then have "0 < rest" using lead(2) by blast
    with jr mem have "0 < mag * ws ! j mod T" by (metis in_set_takeD)
    with True that show ?thesis
      by (simp add: res hand_out_nth by_remainder_positions nth)
  next
    case False
    with that show ?thesis by (simp add: res hand_out_nth by_remainder_positions nth)
  qed
qed

lemma in_i64_nat_abs: "in_i64 m \<Longrightarrow> m \<noteq> - (2 ^ 63) \<Longrightarrow> v \<le> nat \<bar>m\<bar> \<Longrightarrow> in_i64 (int v)"
  by (auto simp: in_i64_def)

lemma allocate_proportionally_Some:
  assumes "allocate_proportionally m ws = Some parts"
  shows "ws \<noteq> []" "0 < sum_list ws"
    "parts = map (\<lambda>v. if m < 0 then - int v else int v) (allocate_magnitude (nat \<bar>m\<bar>) ws)"
  using assms by (auto simp: allocate_proportionally_def Let_def simp del: sum_list_eq_0_iff split: if_splits)

lemma sum_list_int: "(\<Sum>v\<leftarrow>vs. int v) = int (sum_list vs)"
  by (induction vs) auto

lemma sum_list_neg: "(\<Sum>v\<leftarrow>vs. - (f v :: int)) = - (\<Sum>v\<leftarrow>vs. f v)"
  by (induction vs) auto

lemma allocate_proportionally_total:
  assumes "in_i64 m" "m \<noteq> - (2 ^ 63)" "0 < sum_list ws"
  shows "\<exists>parts. allocate_proportionally m ws = Some parts"
proof -
  have "in_i64 (int v)" if "v \<in> set (allocate_magnitude (nat \<bar>m\<bar>) ws)" for v
    using in_i64_nat_abs [OF assms(1,2)] member_le_sum_list [OF that]
      allocate_magnitude_nth(2) [OF assms(3), of "nat \<bar>m\<bar>"] by simp
  then have "list_all (\<lambda>v. in_i64 (int v)) (allocate_magnitude (nat \<bar>m\<bar>) ws)"
    by (simp add: list_all_iff)
  with assms(3) show ?thesis
    unfolding allocate_proportionally_def Let_def
    by (cases "ws = []") (simp_all del: sum_list_eq_0_iff)
qed

lemma allocate_proportionally_sum:
  assumes "allocate_proportionally m ws = Some parts"
  shows "length parts = length ws" "sum_list parts = m"
  using allocate_proportionally_Some [OF assms] allocate_magnitude_nth(1,2) [of ws "nat \<bar>m\<bar>"]
  by (cases "m < 0"; simp add: sum_list_int sum_list_neg)+

text \<open>Each part is less than one cent away from the exact proportional share.\<close>

lemma allocate_proportionally_share:
  assumes "allocate_proportionally m ws = Some parts" "j < length ws"
  shows "\<bar>parts ! j * int (sum_list ws) - m * int (ws ! j)\<bar> < int (sum_list ws)"
proof -
  let ?T = "sum_list ws" and ?mag = "nat \<bar>m\<bar>"
  note facts = allocate_proportionally_Some [OF assms(1)]
  define v where "v = allocate_magnitude ?mag ws ! j"
  define b r where "b = ?mag * ws ! j div ?T" and "r = ?mag * ws ! j mod ?T"
  have v: "v = b \<or> v = b + 1 \<and> 0 < r"
    using allocate_magnitude_nth(3) [OF facts(2) assms(2)] by (simp add: v_def b_def r_def)
  have "?mag * ws ! j = b * ?T + r" "r < ?T" using facts(2) by (simp_all add: b_def r_def)
  then have "\<bar>m\<bar> * int (ws ! j) = int b * int ?T + int r" "int r < int ?T"
    by (simp_all flip: of_nat_mult of_nat_add) (metis int_nat_eq abs_ge_zero of_nat_mult of_nat_add)
  then have "\<bar>int v * int ?T - \<bar>m\<bar> * int (ws ! j)\<bar> < int ?T"
    using v by (auto simp: algebra_simps)
  moreover have "parts ! j = (if m < 0 then - int v else int v)"
    using assms(2) facts allocate_magnitude_nth(1) [of ws ?mag] by (simp add: v_def)
  ultimately show ?thesis by (cases "m < 0") (auto simp: algebra_simps abs_if split: if_splits)
qed

section \<open>The interface of an allocation\<close>

text \<open>
  What the clients of an allocation (the installments of a mission, the discount of a quote)
  rely on: it answers with one part per weight, and the parts add up to the amount.
\<close>

locale lossless_allocation =
  fixes alloc :: "money \<Rightarrow> nat list \<Rightarrow> money list option"
  assumes alloc_length: "alloc m ws = Some parts \<Longrightarrow> length parts = length ws"
    and alloc_sum: "alloc m ws = Some parts \<Longrightarrow> sum_list parts = m"
begin

lemma zip_total: "alloc m ws = Some parts \<Longrightarrow> length xs = length ws \<Longrightarrow>
    sum_list (map snd (zip xs parts)) = m"
  using alloc_length alloc_sum by fastforce

lemma net_total: "alloc m ws = Some parts \<Longrightarrow> length gross = length ws \<Longrightarrow>
    (\<Sum>(g, d) \<leftarrow> zip gross parts. g - d) = sum_list gross - m"
proof -
  assume a: "alloc m ws = Some parts" and l: "length gross = length ws"
  have "length xs = length ys \<Longrightarrow> (\<Sum>(g, d) \<leftarrow> zip xs ys. g - d) = sum_list xs - sum_list ys"
    for xs ys :: "money list"
    by (induction xs ys rule: list_induct2) auto
  with a l show ?thesis using alloc_length alloc_sum by metis
qed

end

interpretation proportional: lossless_allocation allocate_proportionally
  by unfold_locales (rule allocate_proportionally_sum; assumption)+

section \<open>Properties\<close>

text \<open>C27: Splitting an amount over positive weights by largest remainders never panics on a
  representable amount, returns one part per weight, loses no cent, and every part is less than
  one cent away from its exact proportional share.\<close>

theorem allocate_proportionally_exact:
  assumes "in_i64 m" "m \<noteq> - (2 ^ 63)" "0 < sum_list ws"
  shows "\<exists>parts. allocate_proportionally m ws = Some parts \<and> length parts = length ws
     \<and> sum_list parts = m
     \<and> (\<forall>j < length ws. \<bar>parts ! j * int (sum_list ws) - m * int (ws ! j)\<bar> < int (sum_list ws))"
  using allocate_proportionally_total [OF assms] allocate_proportionally_sum
    allocate_proportionally_share by fastforce

theorem allocate_proportionally_exact_witness:
  "\<exists>parts. allocate_proportionally (- 1001) [3, 0, 3, 1] = Some parts
     \<and> length parts = length [3::nat, 0, 3, 1] \<and> sum_list parts = - 1001
     \<and> (\<forall>j < length [3::nat, 0, 3, 1].
          \<bar>parts ! j * int (sum_list [3, 0, 3, 1]) - (- 1001) * int ([3, 0, 3, 1] ! j)\<bar>
            < int (sum_list [3, 0, 3, 1]))"
  by (rule allocate_proportionally_exact) (simp_all add: in_i64_def)

text \<open>Splitting an amount into a positive number of equal parts returns that many parts, loses
  no cent, and any two parts differ by at most one cent.\<close>

lemma split_equally_exact:
  assumes "0 < n"
  shows "\<exists>parts. split_equally m n = Some parts \<and> length parts = n \<and> sum_list parts = m
     \<and> (\<forall>x \<in> set parts. \<forall>y \<in> set parts. \<bar>x - y\<bar> \<le> 1)"
  using split_equally_Some [OF assms] split_equally_sum split_equally_spread by metis

text \<open>Applying a rate of at most 100 % to a representable amount never panics and gives the
  nearest cent: the error is at most half a cent, a tie goes to the even cent, and the result is
  never larger than the amount.\<close>

lemma apply_rate_bps_nearest:
  assumes "in_i64 m" "m \<noteq> - (2 ^ 63)" "bps \<le> 10000"
  shows "\<exists>t. apply_rate_bps m bps = Some t \<and> \<bar>2 * (t * 10000 - m * int bps)\<bar> \<le> 10000
     \<and> (2 * \<bar>(m * int bps) smod 10000\<bar> = 10000 \<longrightarrow> even t) \<and> \<bar>t\<bar> \<le> \<bar>m\<bar>"
  using apply_rate_bps_total [OF assms] round_half_to_even_abs [of 10000 "m * int bps"]
    round_half_to_even_tie [of 10000 "m * int bps"] round_half_to_even_rate [of "int bps" 10000 m]
    assms(3) by simp

section \<open>Decimal text\<close>

lemma digits_no_sep:
  "list_all is_ascii_digit s \<Longrightarrow> CHR ''.'' \<notin> set s \<and> CHR '','' \<notin> set s \<and> CHR ''-'' \<notin> set s"
  by (induction s) (auto simp: is_ascii_digit_def)

lemma normalize_digits:
  "list_all is_ascii_digit s \<Longrightarrow> map (\<lambda>c. if c = CHR '','' then CHR ''.'' else c) s = s"
  by (induction s) (auto simp: is_ascii_digit_def)

lemma parse_decimal_digits:
  assumes "list_all is_ascii_digit a" "a \<noteq> []" "list_all is_ascii_digit b" "length b = 2"
    and "int (nat_of_digits a) * 100 + int (nat_of_digits b) \<le> MAX_INPUT"
  shows "parse_decimal (a @ ''.'' @ b) = Inr (int (nat_of_digits a) * 100 + int (nat_of_digits b))"
    and "parse_decimal (''-'' @ a @ ''.'' @ b) =
       Inr (- (int (nat_of_digits a) * 100 + int (nat_of_digits b)))"
proof -
  have split: "split_once CHR ''.'' (a @ CHR ''.'' # b) = Some (a, b)"
    using digits_no_sep [OF assms(1)] by (intro split_once_append) simp
  have ranges: "in_i64 (int (nat_of_digits a))" "in_i64 (int (nat_of_digits a) * 100)"
    "in_i64 (int (nat_of_digits a) * 100 + int (nat_of_digits b))"
    "in_i64 (- (int (nat_of_digits a) * 100) - int (nat_of_digits b))"
    using assms(5) by (auto simp: in_i64_def MAX_INPUT_def)
  have "\<not> starts_with (a @ CHR ''.'' # b) ''-''"
    using assms(1,2) by (cases a) (auto simp: is_ascii_digit_def)
  then show "parse_decimal (a @ ''.'' @ b) = Inr (int (nat_of_digits a) * 100 + int (nat_of_digits b))"
    using assms split ranges by (auto simp: parse_decimal_def Let_def normalize_digits)
  show "parse_decimal (''-'' @ a @ ''.'' @ b) =
       Inr (- (int (nat_of_digits a) * 100 + int (nat_of_digits b)))"
    using assms split ranges by (auto simp: parse_decimal_def Let_def normalize_digits)
qed

lemma parse_to_decimal:
  assumes "\<bar>m\<bar> \<le> MAX_INPUT"
  shows "parse_decimal (to_decimal_string m) = Inr m"
proof -
  let ?mag = "nat \<bar>m\<bar>"
  have eq: "int (nat_of_digits (show_nat (?mag div 100))) * 100 + int (nat_of_digits (show_2 (?mag mod 100))) = \<bar>m\<bar>"
    by simp (metis abs_ge_zero div_mult_mod_eq int_nat_eq of_nat_add of_nat_mult of_nat_numeral)
  note digits = parse_decimal_digits [of "show_nat (?mag div 100)" "show_2 (?mag mod 100)", unfolded eq]
  show ?thesis
    using digits assms by (cases "m < 0") (simp_all add: to_decimal_string_def Let_def)
qed

lemma parse_decimal_range: "parse_decimal s = Inr m \<Longrightarrow> \<bar>m\<bar> \<le> MAX_INPUT"
  by (simp add: parse_decimal_def Let_def split: if_splits option.splits prod.splits)

lemma parse_decimal_error: "parse_decimal s = Inl e \<Longrightarrow> e = s"
  by (simp add: parse_decimal_def Let_def split: if_splits option.splits prod.splits)

text \<open>A printed amount holds digits, a point and a sign.\<close>

lemma to_decimal_string_chars:
  "c \<in> set (to_decimal_string m) \<Longrightarrow> is_ascii_digit c \<or> c = CHR ''.'' \<or> c = CHR ''-''"
  using show_nat_digits [of "nat \<bar>m\<bar> div 100"] show_2_digits [of "nat \<bar>m\<bar> mod 100"]
  by (auto simp: to_decimal_string_def Let_def list_all_iff split: if_splits)

lemma to_decimal_string_nonempty [simp]: "to_decimal_string m \<noteq> []"
  by (simp add: to_decimal_string_def Let_def)

text \<open>Writing an amount as decimal text and reading it back gives the same amount, for every
  amount an input may hold.\<close>

lemma parse_decimal_roundtrip:
  assumes "\<bar>m\<bar> \<le> MAX_INPUT"
  shows "parse_decimal (to_decimal_string m) = Inr m"
  by (rule parse_to_decimal [OF assms])

text \<open>Reading decimal text either rejects it, giving the text back, or yields an amount within
  the input bound, however long the digits are.\<close>

lemma parse_decimal_bounded:
  "case parse_decimal s of Inl e \<Rightarrow> e = s | Inr m \<Rightarrow> \<bar>m\<bar> \<le> MAX_INPUT"
  by (cases "parse_decimal s") (simp_all add: parse_decimal_error parse_decimal_range)

end
