(* ===== verification/Time_Api.thy ===== *)
theory Time_Api
  imports Prelude
begin

text \<open>
  The interface to the \<open>time\<close> crate, which is not part of the repository. A \<open>time::Date\<close> is
  represented by the year, month and day its accessors return. The operations the code calls
  are the fields of a record \<open>time_api\<close>, an argument of every definition that uses them; the
  locale \<open>time_crate\<close> states the crate's documented behaviour (the proleptic Gregorian
  calendar, years \<open>-9999\<close> to \<open>9999\<close>), and \<open>gregorian\<close> is a concrete instance of it.
\<close>

section \<open>Dates\<close>

datatype date = Date (dyear: int) (dmonth: nat) (dday: nat)

instantiation date :: linorder
begin

fun less_eq_date :: "date \<Rightarrow> date \<Rightarrow> bool" where
  "less_eq_date (Date y m d) (Date y' m' d') \<longleftrightarrow>
     y < y' \<or> y = y' \<and> (m < m' \<or> m = m' \<and> d \<le> d')"

fun less_date :: "date \<Rightarrow> date \<Rightarrow> bool" where
  "less_date (Date y m d) (Date y' m' d') \<longleftrightarrow>
     y < y' \<or> y = y' \<and> (m < m' \<or> m = m' \<and> d < d')"

instance
proof
  fix x y z :: date
  show "(x < y) = (x \<le> y \<and> \<not> y \<le> x)" by (cases x; cases y) auto
  show "x \<le> x" by (cases x) auto
  show "x \<le> y \<Longrightarrow> y \<le> z \<Longrightarrow> x \<le> z" by (cases x; cases y; cases z) auto
  show "x \<le> y \<Longrightarrow> y \<le> x \<Longrightarrow> x = y" by (cases x; cases y) auto
  show "x \<le> y \<or> y \<le> x" by (cases x; cases y) auto
qed

end

definition is_leap :: "int \<Rightarrow> bool" where
  "is_leap y \<longleftrightarrow> y mod 4 = 0 \<and> (y mod 100 \<noteq> 0 \<or> y mod 400 = 0)"

definition month_length :: "int \<Rightarrow> nat \<Rightarrow> nat" where
  "month_length y m =
     (if m = 2 then (if is_leap y then 29 else 28)
      else if m = 4 \<or> m = 6 \<or> m = 9 \<or> m = 11 then 30 else 31)"

fun valid_date :: "date \<Rightarrow> bool" where
  "valid_date (Date y m d) \<longleftrightarrow>
     - 9999 \<le> y \<and> y \<le> 9999 \<and> 1 \<le> m \<and> m \<le> 12 \<and> 1 \<le> d \<and> d \<le> month_length y m"

definition days_before_year :: "int \<Rightarrow> int" where
  "days_before_year y = 365 * (y - 1) + (y - 1) div 4 - (y - 1) div 100 + (y - 1) div 400"

fun days_before_month :: "int \<Rightarrow> nat \<Rightarrow> nat" where
  "days_before_month y 0 = 0"
| "days_before_month y (Suc m) = days_before_month y m + (if m = 0 then 0 else month_length y m)"

text \<open>The day count from 1 January of year 1, which was a Monday.\<close>

fun day_number :: "date \<Rightarrow> int" where
  "day_number (Date y m d) = days_before_year y + int (days_before_month y m) + int d"

fun succ_date :: "date \<Rightarrow> date" where
  "succ_date (Date y m d) =
     (if d < month_length y m then Date y m (d + 1)
      else if m < 12 then Date y (m + 1) 1 else Date (y + 1) 1 1)"

fun pred_date :: "date \<Rightarrow> date" where
  "pred_date (Date y m d) =
     (if 1 < d then Date y m (d - 1)
      else if 1 < m then Date y (m - 1) (month_length y (m - 1)) else Date (y - 1) 12 31)"

section \<open>The calls into the crate\<close>

record time_api =
  days_in_month :: "nat \<Rightarrow> int \<Rightarrow> nat"
  from_calendar_date :: "int \<Rightarrow> nat \<Rightarrow> nat \<Rightarrow> date option"
  next_day :: "date \<Rightarrow> date option"
  previous_day :: "date \<Rightarrow> date option"
  add_days :: "date \<Rightarrow> int \<Rightarrow> date option"
  weekday :: "date \<Rightarrow> nat"
  days_since :: "date \<Rightarrow> date \<Rightarrow> int"
  format_ymd :: "date \<Rightarrow> string"
  parse_ymd :: "string \<Rightarrow> date option"

definition show_4 :: "int \<Rightarrow> string" where
  "show_4 y = show_2 (nat y div 100) @ show_2 (nat y mod 100)"

definition ymd :: "date \<Rightarrow> string" where
  "ymd d = show_4 (dyear d) @ ''-'' @ show_2 (dmonth d) @ ''-'' @ show_2 (dday d)"

text \<open>
  The documented behaviour. \<open>add_days\<close> is \<open>Date + Duration::days\<close>, which panics (\<open>None\<close>)
  when the result is out of range; \<open>weekday\<close> counts from Monday as 0; \<open>days_since\<close> is the whole days of a
  difference of dates.
\<close>

locale time_crate =
  fixes T :: time_api
  assumes days_in_month: "1 \<le> m \<Longrightarrow> m \<le> 12 \<Longrightarrow> days_in_month T m y = month_length y m"
    and from_calendar_date: "from_calendar_date T y m k =
       (if valid_date (Date y m k) then Some (Date y m k) else None)"
    and next_day: "valid_date d \<Longrightarrow> next_day T d =
       (if valid_date (succ_date d) then Some (succ_date d) else None)"
    and previous_day: "valid_date d \<Longrightarrow> previous_day T d =
       (if valid_date (pred_date d) then Some (pred_date d) else None)"
    and add_days: "valid_date d \<Longrightarrow>
       add_days T d n = Some e \<longleftrightarrow> valid_date e \<and> day_number e = day_number d + n"
    and weekday: "valid_date d \<Longrightarrow> weekday T d = nat ((day_number d - 1) mod 7)"
    and days_since: "valid_date d \<Longrightarrow> valid_date e \<Longrightarrow> days_since T d e = day_number d - day_number e"
    and format_ymd: "valid_date d \<Longrightarrow> 0 \<le> dyear d \<Longrightarrow> format_ymd T d = ymd d"
    and parse_format: "valid_date d \<Longrightarrow> 0 \<le> dyear d \<Longrightarrow> parse_ymd T (ymd d) = Some d"

section \<open>Day numbers\<close>

lemma month_length_bounds: "28 \<le> month_length y m" "month_length y m \<le> 31"
  by (auto simp: month_length_def)

lemma month_length_pos [simp]: "0 < month_length y m" "Suc 0 \<le> month_length y m"
  using month_length_bounds(1) [of y m] by simp_all

lemma month_length_12 [simp]: "month_length y 12 = 31"
  and month_length_1 [simp]: "month_length y (Suc 0) = 31"
  by (simp_all add: month_length_def)

lemma days_before_month_1 [simp]: "days_before_month y (Suc 0) = 0"
  by simp

lemma days_before_month_12: "days_before_month y 12 = (if is_leap y then 335 else 334)"
  by (simp add: numeral_eq_Suc month_length_def)

lemma days_before_month_mono: "1 \<le> m \<Longrightarrow> m < m' \<Longrightarrow>
    days_before_month y m + month_length y m \<le> days_before_month y m'"
  by (induction m') (auto simp: less_Suc_eq)

lemma div_succ:
  fixes x k :: int
  assumes "0 < k"
  shows "(x + 1) div k = x div k + (if (x + 1) mod k = 0 then 1 else 0)"
proof (cases "x mod k = k - 1")
  case True
  then have x: "x + 1 = (x div k + 1) * k" by (metis add_diff_cancel_left' add_diff_eq
        diff_add_cancel distrib_right div_mult_mod_eq mult_1)
  have "(x + 1) mod k = 0" by (subst x) simp
  moreover have "(x + 1) div k = x div k + 1" using assms by (subst x) simp
  ultimately show ?thesis by simp
next
  case False
  with assms have r: "0 \<le> x mod k + 1" "x mod k + 1 < k"
    using pos_mod_bound [OF assms, of x] pos_mod_sign [OF assms, of x] by linarith+
  have x: "x + 1 = (x div k) * k + (x mod k + 1)" by simp
  have "(x + 1) mod k = (x mod k + 1) mod k" by (simp add: mod_add_left_eq)
  then have "(x + 1) mod k = x mod k + 1" using mod_pos_pos_trivial [OF r] by simp
  moreover have "(x + 1) div k = x div k"
    using r assms by (subst x) (simp only: div_mult_self3, simp)
  moreover have "x mod k + 1 \<noteq> 0" using pos_mod_sign [OF assms, of x] by linarith
  ultimately show ?thesis by simp
qed

lemma nested_indicator:
  "(r \<longrightarrow> q) \<Longrightarrow> (q \<longrightarrow> p) \<Longrightarrow>
     (if p then 1 else 0) - (if q then 1 else 0) + (if r then 1 else 0) =
     (if p \<and> (\<not> q \<or> r) then 1 else (0 :: int))"
  by (cases p; cases q; cases r) simp_all

lemma days_before_year_Suc: "days_before_year (y + 1) = days_before_year y + (if is_leap y then 366 else 365)"
proof -
  have "y div k = (y - 1) div k + (if y mod k = 0 then 1 else 0)" if "0 < k" for k
    using div_succ [OF that, of "y - 1"] by simp
  note steps = this [of 4, simplified] this [of 100, simplified] this [of 400, simplified]
  have "100 dvd y" if "400 dvd y" by (rule dvd_trans [OF _ that]) simp
  moreover have "4 dvd y" if "100 dvd y" by (rule dvd_trans [OF _ that]) simp
  ultimately have "y mod 400 = 0 \<longrightarrow> y mod 100 = 0" "y mod 100 = 0 \<longrightarrow> y mod 4 = 0"
    unfolding mod_eq_0_iff_dvd by blast+
  note mods = this
  have collect: "a + i - (b + j) + (c + k) = a - b + c + l" if "i - j + k = l" for a b c i j k l :: int
    using that by simp
  have "y div 4 - y div 100 + y div 400 =
      (y - 1) div 4 - (y - 1) div 100 + (y - 1) div 400 + (if is_leap y then 1 else 0)"
    unfolding steps is_leap_def by (rule collect, rule nested_indicator [OF mods])
  then show ?thesis by (simp add: days_before_year_def algebra_simps)
qed

lemma days_before_year_mono: "y < y' \<Longrightarrow> days_before_year y + 365 \<le> days_before_year y'"
proof -
  have "days_before_year y + 365 * int (Suc n) \<le> days_before_year (y + int (Suc n))" for n
  proof (induction n)
    case (Suc n)
    then show ?case using days_before_year_Suc [of "y + int (Suc n)"] by (simp add: algebra_simps)
  qed (simp add: days_before_year_Suc)
  from this [of "nat (y' - y - 1)"] show "y < y' \<Longrightarrow> ?thesis" by simp
qed

lemma day_of_year_bounds:
  assumes "valid_date (Date y m d)"
  shows "1 \<le> days_before_month y m + d" "days_before_month y m + d \<le> (if is_leap y then 366 else 365)"
proof -
  from assms have "m < 12 \<or> m = 12" by auto
  then show "days_before_month y m + d \<le> (if is_leap y then 366 else 365)"
    using assms days_before_month_mono [of m 12 y]
    by (auto simp: days_before_month_12 split: if_splits)
qed (use assms in simp)

lemma day_number_strict_mono:
  assumes "valid_date d" "valid_date e" "d < e"
  shows "day_number d < day_number e"
proof (cases d; cases e)
  fix y m k y' m' k'
  assume de: "d = Date y m k" "e = Date y' m' k'"
  consider "y < y'" | "y = y'" "m < m'" | "y = y'" "m = m'" "k < k'"
    using assms(3) by (auto simp: de)
  then show ?thesis
  proof cases
    case 1
    then have "days_before_year (y + 1) \<le> days_before_year y'"
      using days_before_year_mono [of "y + 1" y'] by (cases "y + 1 = y'") auto
    moreover have "int (days_before_month y m + k) \<le> (if is_leap y then 366 else 365)"
      using day_of_year_bounds(2) assms(1) de(1) by (metis of_nat_le_iff of_nat_numeral)
    moreover have "1 \<le> int (days_before_month y' m' + k')"
      using day_of_year_bounds(1) assms(2) de(2) by (metis of_nat_le_iff of_nat_1)
    ultimately show ?thesis using days_before_year_Suc [of y] by (simp add: de split: if_splits)
  next
    case 2
    then show ?thesis using days_before_month_mono [of m m' y] assms(1,2) by (auto simp: de)
  qed (simp add: de)
qed

lemma day_number_less_iff: "valid_date d \<Longrightarrow> valid_date e \<Longrightarrow> day_number d < day_number e \<longleftrightarrow> d < e"
  using day_number_strict_mono by (metis less_asym linorder_neqE)

lemma day_number_eq_iff: "valid_date d \<Longrightarrow> valid_date e \<Longrightarrow> day_number d = day_number e \<longleftrightarrow> d = e"
  using day_number_strict_mono by (metis linorder_neqE order_less_irrefl)

lemma day_number_le_iff: "valid_date d \<Longrightarrow> valid_date e \<Longrightarrow> day_number d \<le> day_number e \<longleftrightarrow> d \<le> e"
  using day_number_less_iff by (metis linorder_not_le)

lemma day_number_succ: "valid_date d \<Longrightarrow> day_number (succ_date d) = day_number d + 1"
  by (cases d) (auto simp: days_before_year_Suc days_before_month_12 le_antisym
      dest!: le_neq_implies_less split: if_splits)

lemma valid_succ_date: "valid_date d \<Longrightarrow> valid_date (succ_date d) \<longleftrightarrow> d \<noteq> Date 9999 12 31"
  by (cases d) (auto split: if_splits)

lemma pred_succ_date: "valid_date d \<Longrightarrow> pred_date (succ_date d) = d"
  by (cases d) (auto split: if_splits)

lemma succ_pred_date: "valid_date d \<Longrightarrow> succ_date (pred_date d) = d"
  by (cases d) (auto split: if_splits)

lemma valid_pred_date: "valid_date d \<Longrightarrow> valid_date (pred_date d) \<longleftrightarrow> d \<noteq> Date (- 9999) 1 1"
  by (cases d) (auto split: if_splits)

lemma day_number_pred: "valid_date d \<Longrightarrow> valid_date (pred_date d) \<Longrightarrow>
    day_number (pred_date d) = day_number d - 1"
  using day_number_succ [of "pred_date d"] by (simp add: succ_pred_date)

lemma succ_date_greater: "valid_date d \<Longrightarrow> d < succ_date d"
  by (cases d) auto

lemma less_succ_date: "valid_date d \<Longrightarrow> valid_date e \<Longrightarrow> valid_date (succ_date d) \<Longrightarrow>
    e < succ_date d \<longleftrightarrow> e \<le> d"
  using day_number_less_iff day_number_le_iff day_number_succ by (metis zless_add1_eq order_le_less)

section \<open>A concrete calendar\<close>

definition shift_date :: "date \<Rightarrow> int \<Rightarrow> date" where
  "shift_date d n = (if 0 \<le> n then (succ_date ^^ nat n) d else (pred_date ^^ nat (- n)) d)"

definition gregorian :: time_api where
  "gregorian =
     \<lparr>days_in_month = (\<lambda>m y. month_length y m),
      from_calendar_date = (\<lambda>y m d. if valid_date (Date y m d) then Some (Date y m d) else None),
      next_day = (\<lambda>d. if valid_date (succ_date d) then Some (succ_date d) else None),
      previous_day = (\<lambda>d. if valid_date (pred_date d) then Some (pred_date d) else None),
      add_days = (\<lambda>d n. let e = shift_date d n
         in if valid_date e \<and> day_number e = day_number d + n then Some e else None),
      weekday = (\<lambda>d. nat ((day_number d - 1) mod 7)),
      days_since = (\<lambda>d e. day_number d - day_number e),
      format_ymd = ymd,
      parse_ymd = (\<lambda>s. let d = Date (int (nat_of_digits (take 4 s)))
           (nat_of_digits (take 2 (drop 5 s))) (nat_of_digits (take 2 (drop 8 s)))
         in if valid_date d \<and> ymd d = s then Some d else None)\<rparr>"

lemma iterate_succ:
  "valid_date d \<Longrightarrow> valid_date e \<Longrightarrow> day_number e = day_number d + int n \<Longrightarrow>
     (succ_date ^^ n) d = e \<and> (pred_date ^^ n) e = d"
proof (induction n arbitrary: e)
  case 0
  then show ?case by (simp add: day_number_eq_iff)
next
  case (Suc n)
  then have "d < e" by (subst day_number_less_iff [symmetric]) simp_all
  then have "e \<noteq> Date (- 9999) 1 1" using Suc.prems(1) by (cases d) auto
  then have p: "valid_date (pred_date e)" using Suc.prems(2) by (simp add: valid_pred_date)
  then have "day_number (pred_date e) = day_number d + int n"
    using Suc.prems by (simp add: day_number_pred)
  with Suc.IH [OF Suc.prems(1) p] Suc.prems(2) show ?case
    by (simp add: succ_pred_date funpow_swap1)
qed

lemma shift_date_unique:
  assumes "valid_date d" "valid_date e" "day_number e = day_number d + n"
  shows "shift_date d n = e"
  using assms iterate_succ [of d e "nat n"] iterate_succ [of e d "nat (- n)"]
  by (simp add: shift_date_def)

lemma show_4_digits [simp]: "list_all is_ascii_digit (show_4 y)"
  by (simp add: show_4_def)

lemma length_show_4 [simp]: "0 \<le> y \<Longrightarrow> y \<le> 9999 \<Longrightarrow> length (show_4 y) = 4"
  by (simp add: show_4_def less_mult_imp_div_less nat_less_iff)

lemma nat_of_digits_show_4 [simp]: "0 \<le> y \<Longrightarrow> y \<le> 9999 \<Longrightarrow> nat_of_digits (show_4 y) = nat y"
  by (simp add: show_4_def nat_of_digits_append)

lemma valid_date_components:
  "valid_date d \<Longrightarrow> dmonth d \<le> 12 \<and> dday d \<le> 31 \<and> dyear d \<le> 9999"
  using month_length_bounds(2) by (cases d) (auto intro: le_trans)

text \<open>The text form of dates sorts as the dates do.\<close>

lemma ymd_order:
  assumes "valid_date d" "valid_date e" "0 \<le> dyear d" "0 \<le> dyear e"
  shows "ymd d < ymd e \<longleftrightarrow> d < e"
proof -
  have two: "show_2 a < show_2 b \<longleftrightarrow> a < b" "show_2 a = show_2 b \<longleftrightarrow> a = b"
    if "a < 100" "b < 100" for a b
    using that digits_order [of "show_2 a" "show_2 b"] nat_of_digits_show_2 [of a]
      nat_of_digits_show_2 [of b] by (simp, metis)
  have four: "show_4 x < show_4 y \<longleftrightarrow> x < y"
    if "0 \<le> x" "x \<le> 9999" "0 \<le> y" "y \<le> 9999" for x y
    using that digits_order [of "show_4 x" "show_4 y"] by auto
  have four_eq: "show_4 x = show_4 y \<longleftrightarrow> x = y"
    if "0 \<le> x" "x \<le> 9999" "0 \<le> y" "y \<le> 9999" for x y
    using that nat_of_digits_show_4 [of x] nat_of_digits_show_4 [of y] by (metis eq_nat_nat_iff)
  have "dmonth d < 100" "dmonth e < 100" "dday d < 100" "dday e < 100" "dyear d \<le> 9999" "dyear e \<le> 9999"
    using valid_date_components [OF assms(1)] valid_date_components [OF assms(2)] by simp_all
  with assms show ?thesis
    by (cases d; cases e) (simp add: ymd_def append_order two four four_eq)
qed

lemma parse_ymd_ymd:
  assumes "valid_date d" "0 \<le> dyear d"
  shows "take 4 (ymd d) = show_4 (dyear d)" "take 2 (drop 5 (ymd d)) = show_2 (dmonth d)"
    "take 2 (drop 8 (ymd d)) = show_2 (dday d)"
  using assms valid_date_components [OF assms(1)] by (simp_all add: ymd_def)

interpretation gregorian: time_crate gregorian
proof
  fix d e :: date and n :: int
  assume d: "valid_date d"
  show "(add_days gregorian d n = Some e) = (valid_date e \<and> day_number e = day_number d + n)"
    using d shift_date_unique by (auto simp: gregorian_def Let_def)
next
  fix d :: date
  assume d: "valid_date d" "0 \<le> dyear d"
  then show "parse_ymd gregorian (ymd d) = Some d"
    using valid_date_components [OF d(1)]
    by (simp add: gregorian_def Let_def parse_ymd_ymd [OF d] del: valid_date.simps)
qed (simp_all add: gregorian_def)

section \<open>Consequences of the interface\<close>

context time_crate
begin

lemma next_day_Some:
  "valid_date d \<Longrightarrow> next_day T d = Some e \<Longrightarrow> valid_date e \<and> e = succ_date d \<and> day_number e = day_number d + 1"
  by (auto simp: next_day day_number_succ split: if_splits)

lemma previous_day_Some:
  "valid_date d \<Longrightarrow> previous_day T d = Some e \<Longrightarrow> valid_date e \<and> e = pred_date d \<and> day_number e = day_number d - 1"
  by (auto simp: previous_day day_number_pred split: if_splits)

lemma next_day_total: "valid_date d \<Longrightarrow> d \<noteq> Date 9999 12 31 \<Longrightarrow> next_day T d = Some (succ_date d)"
  by (simp add: next_day valid_succ_date)

lemma previous_day_total: "valid_date d \<Longrightarrow> d \<noteq> Date (- 9999) 1 1 \<Longrightarrow> previous_day T d = Some (pred_date d)"
  by (simp add: previous_day valid_pred_date)

lemma weekday_range: "valid_date d \<Longrightarrow> weekday T d < 7"
  by (simp add: weekday nat_less_iff)

end

end
