(* ===== verification/Period.thy ===== *)
theory Period
  imports Time_Api
begin

text \<open>
  \<open>domain/period.rs\<close>: calendar months, fiscal years, the recurring closing date of the
  articles of association, and the VAT regime. Every \<open>expect\<close> on a date is an \<open>option\<close>
  whose \<open>None\<close> is the panic. The recurring closing date is the provider of the interface
  \<open>exercise_chain\<close>: fiscal years that tile the calendar.
\<close>

section \<open>Definitions\<close>

definition format_date :: "time_api \<Rightarrow> date \<Rightarrow> string" where
  "format_date T d = format_ymd T d"

definition parse_date :: "time_api \<Rightarrow> string \<Rightarrow> date option" where
  "parse_date T s = parse_ymd T s"

datatype month_error = MonthError nat

record month =
  m_year :: int
  m_month :: nat

definition month_new :: "int \<Rightarrow> nat \<Rightarrow> month_error + month" where
  "month_new y m = (if m = 0 \<or> m > 12 then Inl (MonthError m) else Inr \<lparr>m_year = y, m_month = m\<rparr>)"

definition month_succ :: "month \<Rightarrow> month" where
  "month_succ mo =
     (if m_month mo = 12 then \<lparr>m_year = m_year mo + 1, m_month = 1\<rparr>
      else \<lparr>m_year = m_year mo, m_month = m_month mo + 1\<rparr>)"

definition month_pred :: "month \<Rightarrow> month" where
  "month_pred mo =
     (if m_month mo = 1 then \<lparr>m_year = m_year mo - 1, m_month = 12\<rparr>
      else \<lparr>m_year = m_year mo, m_month = m_month mo - 1\<rparr>)"

definition first_day :: "time_api \<Rightarrow> month \<Rightarrow> date option" where
  "first_day T mo = from_calendar_date T (m_year mo) (m_month mo) 1"

definition last_day :: "time_api \<Rightarrow> month \<Rightarrow> date option" where
  "last_day T mo = Option.bind (first_day T (month_succ mo)) (previous_day T)"

definition display_month :: "month \<Rightarrow> string" where
  "display_month mo =
     (if m_year mo < 0 then ''-'' @ zero_pad 3 (show_nat (nat (- m_year mo)))
      else zero_pad 4 (show_nat (nat (m_year mo)))) @ ''-'' @ show_2 (m_month mo)"

record fiscal_year =
  fy_start :: date
  fy_end :: date

definition fiscal_year_new :: "date \<Rightarrow> date \<Rightarrow> fiscal_year" where
  "fiscal_year_new s e = \<lparr>fy_start = s, fy_end = e\<rparr>"

definition fiscal_year_calendar :: "time_api \<Rightarrow> int \<Rightarrow> fiscal_year option" where
  "fiscal_year_calendar T y =
     do { s \<leftarrow> from_calendar_date T y 1 1;
          e \<leftarrow> from_calendar_date T y 12 31;
          Some \<lparr>fy_start = s, fy_end = e\<rparr> }"

definition fy_contains :: "fiscal_year \<Rightarrow> date \<Rightarrow> bool" where
  "fy_contains fy d \<longleftrightarrow> fy_start fy \<le> d \<and> d \<le> fy_end fy"

datatype fiscal_year_end_error = FyeMonth nat | FyeDay nat

record fiscal_year_end =
  fye_month :: nat
  fye_day :: nat

definition fiscal_year_end_new :: "nat \<Rightarrow> nat \<Rightarrow> fiscal_year_end_error + fiscal_year_end" where
  "fiscal_year_end_new m d =
     (if m = 0 \<or> m > 12 then Inl (FyeMonth m)
      else if d = 0 \<or> d > 31 then Inl (FyeDay d)
      else Inr \<lparr>fye_month = m, fye_day = d\<rparr>)"

definition fye_CALENDAR :: fiscal_year_end where
  "fye_CALENDAR = \<lparr>fye_month = 12, fye_day = 31\<rparr>"

definition end_in_year :: "time_api \<Rightarrow> fiscal_year_end \<Rightarrow> int \<Rightarrow> date option" where
  "end_in_year T fye y =
     (case month_new y (fye_month fye) of
        Inl _ \<Rightarrow> None
      | Inr mo \<Rightarrow> do { last \<leftarrow> last_day T mo;
           from_calendar_date T y (fye_month fye) (min (fye_day fye) (dday last)) })"

definition containing :: "time_api \<Rightarrow> fiscal_year_end \<Rightarrow> date \<Rightarrow> fiscal_year option" where
  "containing T fye d =
     do { this_year_end \<leftarrow> end_in_year T fye (dyear d);
          e \<leftarrow> (if d \<le> this_year_end then Some this_year_end
                else end_in_year T fye (dyear d + 1));
          previous_end \<leftarrow> end_in_year T fye (dyear e - 1);
          s \<leftarrow> next_day T previous_end;
          Some (fiscal_year_new s e) }"

definition current_fiscal_year :: "time_api \<Rightarrow> fiscal_year_end \<Rightarrow> date \<Rightarrow> fiscal_year option" where
  "current_fiscal_year T fye today = containing T fye today"

definition previous_fiscal_year ::
    "time_api \<Rightarrow> fiscal_year_end \<Rightarrow> fiscal_year \<Rightarrow> fiscal_year option" where
  "previous_fiscal_year T fye fy =
     do { day_before_start \<leftarrow> previous_day T (fy_start fy);
          containing T fye day_before_start }"

datatype vat_regime = RealNormalMonthly | RealNormalQuarterly | RealSimplified | Franchise

fun vat_regime_as_str :: "vat_regime \<Rightarrow> string" where
  "vat_regime_as_str RealNormalMonthly = ''real_normal_monthly''"
| "vat_regime_as_str RealNormalQuarterly = ''real_normal_quarterly''"
| "vat_regime_as_str RealSimplified = ''real_simplified''"
| "vat_regime_as_str Franchise = ''franchise''"

definition vat_regime_from_str :: "string \<Rightarrow> string + vat_regime" where
  "vat_regime_from_str s =
     (if s = ''real_normal_monthly'' then Inr RealNormalMonthly
      else if s = ''real_normal_quarterly'' then Inr RealNormalQuarterly
      else if s = ''real_simplified'' then Inr RealSimplified
      else if s = ''franchise'' then Inr Franchise
      else Inl s)"

section \<open>Months\<close>

definition valid_month :: "month \<Rightarrow> bool" where
  "valid_month mo \<longleftrightarrow> 1 \<le> m_month mo \<and> m_month mo \<le> 12"

lemma month_new_valid: "month_new y m = Inr mo \<Longrightarrow> valid_month mo \<and> m_year mo = y \<and> m_month mo = m"
  by (auto simp: month_new_def valid_month_def split: if_splits)

lemma month_succ_valid: "valid_month mo \<Longrightarrow> valid_month (month_succ mo)"
  by (auto simp: month_succ_def valid_month_def)

lemma month_pred_succ: "valid_month mo \<Longrightarrow> month_pred (month_succ mo) = mo"
  by (cases mo) (auto simp: month_succ_def month_pred_def valid_month_def)

lemma month_succ_pred: "valid_month mo \<Longrightarrow> month_succ (month_pred mo) = mo"
  by (cases mo) (auto simp: month_succ_def month_pred_def valid_month_def)

section \<open>Closing dates\<close>

text \<open>The closing date of a year, its day cut to the length of the month.\<close>

definition closing_date :: "fiscal_year_end \<Rightarrow> int \<Rightarrow> date" where
  "closing_date fye y = Date y (fye_month fye) (min (fye_day fye) (month_length y (fye_month fye)))"

definition valid_fye :: "fiscal_year_end \<Rightarrow> bool" where
  "valid_fye fye \<longleftrightarrow> 1 \<le> fye_month fye \<and> fye_month fye \<le> 12 \<and> 1 \<le> fye_day fye"

lemma fiscal_year_end_new_valid: "fiscal_year_end_new m d = Inr fye \<Longrightarrow> valid_fye fye"
  by (auto simp: fiscal_year_end_new_def valid_fye_def split: if_splits)

lemma closing_date_year [simp]: "dyear (closing_date fye y) = y"
  by (simp add: closing_date_def)

lemma closing_date_mono: "y < y' \<Longrightarrow> closing_date fye y < closing_date fye y'"
  by (simp add: closing_date_def)

lemma closing_date_le_iff: "closing_date fye y \<le> closing_date fye y' \<longleftrightarrow> y \<le> y'"
  by (metis closing_date_mono linorder_not_le order_le_less)

lemma closing_date_less_iff: "closing_date fye y < closing_date fye y' \<longleftrightarrow> y < y'"
  by (metis closing_date_le_iff linorder_not_le)

lemma valid_closing_date:
  "valid_fye fye \<Longrightarrow> - 9999 \<le> y \<Longrightarrow> y \<le> 9999 \<Longrightarrow> valid_date (closing_date fye y)"
  by (simp add: closing_date_def valid_fye_def)

context time_crate
begin

lemma last_day_eq:
  assumes "valid_month mo" "- 9999 \<le> m_year mo" "m_year mo \<le> 9998"
  shows "last_day T mo = Some (Date (m_year mo) (m_month mo) (month_length (m_year mo) (m_month mo)))"
proof -
  have "valid_date (Date (m_year (month_succ mo)) (m_month (month_succ mo)) 1)"
    using assms by (auto simp: month_succ_def valid_month_def)
  moreover from this have "previous_day T (Date (m_year (month_succ mo)) (m_month (month_succ mo)) 1)
      = Some (Date (m_year mo) (m_month mo) (month_length (m_year mo) (m_month mo)))"
    using assms by (subst previous_day) (auto simp: month_succ_def valid_month_def)
  ultimately show ?thesis by (simp add: last_day_def first_day_def from_calendar_date)
qed

lemma end_in_year_eq:
  assumes "valid_fye fye" "- 9999 \<le> y" "y \<le> 9998"
  shows "end_in_year T fye y = Some (closing_date fye y)"
proof -
  have "month_new y (fye_month fye) = Inr \<lparr>m_year = y, m_month = fye_month fye\<rparr>"
    using assms(1) by (auto simp: month_new_def valid_fye_def)
  moreover have "last_day T \<lparr>m_year = y, m_month = fye_month fye\<rparr> =
      Some (Date y (fye_month fye) (month_length y (fye_month fye)))"
    using assms last_day_eq [of "\<lparr>m_year = y, m_month = fye_month fye\<rparr>"]
    by (simp add: valid_month_def valid_fye_def)
  ultimately show ?thesis
    using valid_closing_date [OF assms(1)] assms(2,3)
    by (simp add: end_in_year_def from_calendar_date closing_date_def)
qed

text \<open>The exercise of a date runs from the day after one closing to the next closing.\<close>

lemma containing_eq:
  assumes "valid_fye fye" "valid_date d" "- 9998 \<le> dyear d" "dyear d \<le> 9997"
  defines "y \<equiv> (if d \<le> closing_date fye (dyear d) then dyear d else dyear d + 1)"
  shows "containing T fye d =
     Some \<lparr>fy_start = succ_date (closing_date fye (y - 1)), fy_end = closing_date fye y\<rparr>"
    and "closing_date fye (y - 1) < d" "d \<le> closing_date fye y"
proof -
  have y: "- 9998 \<le> y" "y \<le> 9998" using assms by (auto simp: y_def)
  have ends: "end_in_year T fye (dyear d) = Some (closing_date fye (dyear d))"
    "end_in_year T fye (dyear d + 1) = Some (closing_date fye (dyear d + 1))"
    "end_in_year T fye (y - 1) = Some (closing_date fye (y - 1))"
    using assms(1,3,4) y by (auto intro: end_in_year_eq)
  have prev: "next_day T (closing_date fye (y - 1)) = Some (succ_date (closing_date fye (y - 1)))"
    using valid_closing_date [OF assms(1), of "y - 1"] y
    by (intro next_day_total) (auto simp: closing_date_def)
  show "containing T fye d =
     Some \<lparr>fy_start = succ_date (closing_date fye (y - 1)), fy_end = closing_date fye y\<rparr>"
    using ends prev by (auto simp: containing_def fiscal_year_new_def y_def)
  show "d \<le> closing_date fye y" by (cases d) (auto simp: y_def closing_date_def)
  show "closing_date fye (y - 1) < d"
    by (cases d) (auto simp: y_def closing_date_def not_le)
qed

end

section \<open>The interface of a chain of exercises\<close>

text \<open>
  What the derivation of the books relies on: an exercise finder whose answers contain the
  date asked for, agree on every date of the answer, and meet end to start. \<open>inside\<close> is the
  range of dates on which the finder answers.
\<close>

locale exercise_chain =
  fixes find_fy :: "date \<Rightarrow> fiscal_year option" and inside :: "date \<Rightarrow> bool"
  assumes find_total: "inside d \<Longrightarrow> \<exists>fy. find_fy d = Some fy"
    and find_contains: "inside d \<Longrightarrow> find_fy d = Some fy \<Longrightarrow> fy_contains fy d"
    and find_stable: "inside d \<Longrightarrow> inside e \<Longrightarrow> find_fy d = Some fy \<Longrightarrow> fy_contains fy e \<Longrightarrow>
       find_fy e = Some fy"
begin

lemma exercises_disjoint:
  assumes "inside d" "inside e" "inside x" "find_fy d = Some fy" "find_fy e = Some fy'"
    and "fy_contains fy x" "fy_contains fy' x"
  shows "fy = fy'"
  using assms find_stable by (metis option.inject)

lemma exercise_unique:
  assumes "inside d" "find_fy e = Some fy" "inside e"
  shows "fy_contains fy d \<longleftrightarrow> find_fy d = Some fy"
  using assms find_stable find_contains by blast

end

definition in_calendar :: "date \<Rightarrow> bool" where
  "in_calendar d \<longleftrightarrow> valid_date d \<and> - 9998 \<le> dyear d \<and> dyear d \<le> 9997"

locale closing_chain = time_crate +
  fixes fye :: fiscal_year_end
  assumes fye: "valid_fye fye"
begin

lemma containing_at:
  assumes "in_calendar d" "closing_date fye (y - 1) < d" "d \<le> closing_date fye y"
  shows "containing T fye d =
     Some \<lparr>fy_start = succ_date (closing_date fye (y - 1)), fy_end = closing_date fye y\<rparr>"
proof -
  let ?z = "if d \<le> closing_date fye (dyear d) then dyear d else dyear d + 1"
  have d: "valid_date d" "- 9998 \<le> dyear d" "dyear d \<le> 9997"
    using assms(1) by (simp_all add: in_calendar_def)
  have "closing_date fye (?z - 1) < closing_date fye y"
    using containing_eq(2) [OF fye d] assms(3) by (rule less_le_trans)
  moreover have "closing_date fye (y - 1) < closing_date fye ?z"
    using assms(2) containing_eq(3) [OF fye d] by (rule less_le_trans)
  ultimately have "?z - 1 < y" "y - 1 < ?z" by (simp_all only: closing_date_less_iff)
  then have "?z = y" by linarith
  with containing_eq(1) [OF fye d] show ?thesis by simp
qed

lemma containing_cases:
  assumes "in_calendar d" "containing T fye d = Some fy"
  obtains y where "closing_date fye (y - 1) < d" "d \<le> closing_date fye y"
    "fy = \<lparr>fy_start = succ_date (closing_date fye (y - 1)), fy_end = closing_date fye y\<rparr>"
    "- 9998 \<le> y" "y \<le> 9998" "y = dyear d \<or> y = dyear d + 1"
proof -
  have d: "valid_date d" "- 9998 \<le> dyear d" "dyear d \<le> 9997"
    using assms(1) by (simp_all add: in_calendar_def)
  show thesis
    using containing_eq [OF fye d] assms(2) d
    by (intro that [of "if d \<le> closing_date fye (dyear d) then dyear d else dyear d + 1"]) auto
qed

lemma after_closing:
  assumes "valid_date d" "- 9999 \<le> y" "y \<le> 9998"
  shows "succ_date (closing_date fye y) \<le> d \<longleftrightarrow> closing_date fye y < d"
proof -
  have v: "valid_date (closing_date fye y)" using assms by (intro valid_closing_date fye) auto
  then have "valid_date (succ_date (closing_date fye y))"
    using assms by (subst valid_succ_date) (auto simp: closing_date_def)
  from less_succ_date [OF v assms(1) this] show ?thesis by (metis linorder_not_le)
qed

end

sublocale closing_chain \<subseteq> exercises: exercise_chain "containing T fye" in_calendar
proof unfold_locales
  fix d
  assume "in_calendar d"
  then show "\<exists>fy. containing T fye d = Some fy"
    using containing_eq(1) [OF fye] by (auto simp: in_calendar_def)
next
  fix d fy
  assume d: "in_calendar d" and fy: "containing T fye d = Some fy"
  then obtain y where y: "- 9998 \<le> y" "y \<le> 9998" "closing_date fye (y - 1) < d" "d \<le> closing_date fye y"
    "fy = \<lparr>fy_start = succ_date (closing_date fye (y - 1)), fy_end = closing_date fye y\<rparr>"
    by (rule containing_cases)
  with d after_closing [of d "y - 1"] show "fy_contains fy d"
    by (simp add: fy_contains_def in_calendar_def)
next
  fix d e fy
  assume d: "in_calendar d" and e: "in_calendar e"
    and fy: "containing T fye d = Some fy" "fy_contains fy e"
  from d fy(1) obtain y where y: "- 9998 \<le> y" "y \<le> 9998"
    "fy = \<lparr>fy_start = succ_date (closing_date fye (y - 1)), fy_end = closing_date fye y\<rparr>"
    by (rule containing_cases)
  with fy(2) e after_closing [of e "y - 1"] have "closing_date fye (y - 1) < e" "e \<le> closing_date fye y"
    by (auto simp: fy_contains_def in_calendar_def)
  with containing_at [OF e] y(3) show "containing T fye e = Some fy" by simp
qed

context closing_chain
begin

lemma partitions: "in_calendar d \<Longrightarrow> \<exists>fy. containing T fye d = Some fy \<and> fy_contains fy d
     \<and> (\<forall>e. in_calendar e \<and> fy_contains fy e \<longrightarrow> containing T fye e = Some fy)"
  using exercises.find_total exercises.find_contains exercises.find_stable by blast

end

interpretation civil: closing_chain gregorian fye_CALENDAR
  by unfold_locales (simp add: valid_fye_def fye_CALENDAR_def)

section \<open>Properties\<close>

lemma closing_chainI: "time_crate T \<Longrightarrow> valid_fye fye \<Longrightarrow> closing_chain T fye"
  by (simp add: closing_chain_def closing_chain_axioms_def)

text \<open>For any closing day of the year, 29 February and the 31st of a short month included, every
  date has exactly one exercise: the exercise found contains the date, and any other date inside
  it is given the same exercise, so two exercises of one closing day never overlap.\<close>

lemma containing_partitions:
  assumes "time_crate T" "valid_fye fye" "in_calendar d"
  shows "\<exists>fy. containing T fye d = Some fy \<and> fy_contains fy d
     \<and> (\<forall>e. in_calendar e \<and> fy_contains fy e \<longrightarrow> containing T fye e = Some fy)"
  using closing_chain.partitions [OF closing_chainI] assms by blast

text \<open>The exercise before an exercise ends on the day before that exercise starts.\<close>

lemma previous_exercise_meets:
  assumes "time_crate T" "valid_fye fye" "in_calendar d" "- 9996 \<le> dyear d"
    and "containing T fye d = Some fy"
  shows "\<exists>prev. previous_fiscal_year T fye fy = Some prev
     \<and> next_day T (fy_end prev) = Some (fy_start fy)"
proof -
  have chain: "closing_chain T fye" by (rule closing_chainI) fact+
  obtain y where "y \<le> 9998" and yd: "y = dyear d \<or> y = dyear d + 1"
      and fy: "fy = \<lparr>fy_start = succ_date (closing_date fye (y - 1)), fy_end = closing_date fye y\<rparr>"
    by (rule closing_chain.containing_cases [OF chain assms(3,5)])
  then have y: "- 9998 \<le> y - 1" "y \<le> 9998" using assms(4) by auto
  let ?p = "closing_date fye (y - 1)"
  have "?p \<noteq> Date 9999 12 31"
  proof
    assume "?p = Date 9999 12 31"
    then have "y - 1 = 9999" by (metis closing_date_year date.sel(1))
    with y show False by simp
  qed
  then have p: "valid_date ?p" "valid_date (succ_date ?p)" "?p \<noteq> Date 9999 12 31"
    using valid_closing_date [OF assms(2), of "y - 1"] y valid_succ_date [of ?p] by simp_all
  have "in_calendar ?p" using p y assms(3) by (auto simp: in_calendar_def)
  moreover have "closing_date fye (y - 1 - 1) < ?p" by (intro closing_date_mono) simp
  ultimately have "containing T fye ?p = Some \<lparr>fy_start = succ_date (closing_date fye (y - 1 - 1)), fy_end = ?p\<rparr>"
    by (intro closing_chain.containing_at [OF chain]) simp_all
  moreover have "previous_day T (succ_date ?p) = Some ?p"
    using p by (simp add: time_crate.previous_day [OF assms(1)] pred_succ_date)
  moreover have "next_day T ?p = Some (succ_date ?p)"
    using p by (simp add: time_crate.next_day_total [OF assms(1)])
  ultimately show ?thesis by (simp add: previous_fiscal_year_def fy)
qed

text \<open>The text form of dates, the one stored in the database, sorts byte by byte as the dates
  sort, and reads back as the date it came from.\<close>

lemma format_date_sorts:
  assumes "time_crate T" "valid_date d" "valid_date e" "0 \<le> dyear d" "0 \<le> dyear e"
  shows "(format_date T d < format_date T e \<longleftrightarrow> d < e) \<and> parse_date T (format_date T d) = Some d"
  using ymd_order [OF assms(2-5)] time_crate.format_ymd [OF assms(1)] time_crate.parse_format [OF assms(1)] assms
  by (simp_all add: format_date_def parse_date_def)

text \<open>The last day of a month is the date one day short of the next month, never a panic below
  the last month of the calendar.\<close>

lemma last_day_correct:
  assumes "time_crate T" "valid_month mo" "- 9999 \<le> m_year mo" "m_year mo \<le> 9998"
  shows "last_day T mo = Some (Date (m_year mo) (m_month mo) (month_length (m_year mo) (m_month mo)))
     \<and> Option.bind (last_day T mo) (next_day T) = first_day T (month_succ mo)"
proof -
  have last: "last_day T mo = Some (Date (m_year mo) (m_month mo) (month_length (m_year mo) (m_month mo)))"
    by (rule time_crate.last_day_eq) fact+
  have "Option.bind (last_day T mo) (next_day T) = first_day T (month_succ mo)"
    using assms(2-4) unfolding last
    by (auto simp: first_day_def time_crate.from_calendar_date [OF assms(1)] time_crate.next_day [OF assms(1)]
        month_succ_def valid_month_def)
  with last show ?thesis by blast
qed

end
