(* ===== verification/Calendar.thy ===== *)
theory Calendar
  imports Period
begin

text \<open>
  \<open>domain/calendar.rs\<close>: Easter, the French public holidays, business days and the walks over
  days. \<open>None\<close> is a panic; the loops are \<open>partial_function\<close>s, so that not returning is
  \<open>None\<close> as well, and the properties show that they return.
\<close>

section \<open>Definitions\<close>

definition u8_try_from :: "int \<Rightarrow> nat option" where
  "u8_try_from x = (if 0 \<le> x \<and> x \<le> 255 then Some (nat x) else None)"

definition easter_sunday :: "time_api \<Rightarrow> int \<Rightarrow> date option" where
  "easter_sunday T year =
     (let a = year smod 19;
          b = year sdiv 100;
          c = year smod 100;
          d = b sdiv 4;
          e = b smod 4;
          f = (b + 8) sdiv 25;
          g = (b - f + 1) sdiv 3;
          h = (19 * a + b - d - g + 15) smod 30;
          i = c sdiv 4;
          k = c smod 4;
          l = (32 + 2 * e + 2 * i - h - k) smod 7;
          m = (a + 11 * h + 22 * l) sdiv 451;
          mon = (h + l - 7 * m + 114) sdiv 31;
          day = (h + l - 7 * m + 114) smod 31 + 1
      in do { mon8 \<leftarrow> u8_try_from mon;
              day8 \<leftarrow> u8_try_from day;
              from_calendar_date T year mon8 day8 })"

definition french_public_holidays :: "time_api \<Rightarrow> int \<Rightarrow> date list option" where
  "french_public_holidays T year =
     do { easter \<leftarrow> easter_sunday T year;
          new_year \<leftarrow> from_calendar_date T year 1 1;
          easter_monday \<leftarrow> add_days T easter 1;
          labour_day \<leftarrow> from_calendar_date T year 5 1;
          victory_1945 \<leftarrow> from_calendar_date T year 5 8;
          ascension \<leftarrow> add_days T easter 39;
          whit_monday \<leftarrow> add_days T easter 50;
          national_day \<leftarrow> from_calendar_date T year 7 14;
          assumption_day \<leftarrow> from_calendar_date T year 8 15;
          all_saints \<leftarrow> from_calendar_date T year 11 1;
          armistice \<leftarrow> from_calendar_date T year 11 11;
          christmas \<leftarrow> from_calendar_date T year 12 25;
          Some [new_year, easter_monday, labour_day, victory_1945, ascension, whit_monday,
                national_day, assumption_day, all_saints, armistice, christmas] }"

definition is_weekend :: "time_api \<Rightarrow> date \<Rightarrow> bool" where
  "is_weekend T d \<longleftrightarrow> weekday T d = 5 \<or> weekday T d = 6"

definition is_french_business_day :: "time_api \<Rightarrow> date \<Rightarrow> bool option" where
  "is_french_business_day T d =
     (if is_weekend T d then Some False
      else do { holidays \<leftarrow> french_public_holidays T (dyear d);
                Some (d \<notin> set holidays) })"

partial_function (option) next_french_business_day_on_or_after :: "time_api \<Rightarrow> date \<Rightarrow> date option" where
  "next_french_business_day_on_or_after T current =
     do { business \<leftarrow> is_french_business_day T current;
          if business then Some current
          else do { next \<leftarrow> next_day T current;
                    next_french_business_day_on_or_after T next } }"

partial_function (option) weekdays_loop :: "time_api \<Rightarrow> date \<Rightarrow> int \<Rightarrow> date option" where
  "weekdays_loop T current left =
     (if 0 < left then
        do { next \<leftarrow> next_day T current;
             weekdays_loop T next (if is_weekend T next then left else left - 1) }
      else Some current)"

definition add_weekdays :: "time_api \<Rightarrow> date \<Rightarrow> int \<Rightarrow> date option" where
  "add_weekdays T d days = (if days \<le> 0 then Some d else weekdays_loop T d days)"

partial_function (option) business_days_loop :: "time_api \<Rightarrow> date \<Rightarrow> date \<Rightarrow> nat \<Rightarrow> nat option" where
  "business_days_loop T current stop n =
     do { business \<leftarrow> is_french_business_day T current;
          let n' = (if business then n + 1 else n) in
          if current = stop then Some n'
          else do { next \<leftarrow> next_day T current;
                    business_days_loop T next stop n' } }"

definition french_business_days_in :: "time_api \<Rightarrow> date \<Rightarrow> date \<Rightarrow> nat option" where
  "french_business_days_in T first stop =
     (if stop < first then Some 0 else business_days_loop T first stop 0)"

section \<open>Easter\<close>

lemma u8_try_from_Some [simp]: "0 \<le> x \<Longrightarrow> x \<le> 255 \<Longrightarrow> u8_try_from x = Some (nat x)"
  by (simp add: u8_try_from_def)

text \<open>Easter as a number of days after 22 March.\<close>

definition easter_offset :: "int \<Rightarrow> int" where
  "easter_offset year =
     (let a = year mod 19; b = year div 100; c = year mod 100; d = b div 4; e = b mod 4;
          f = (b + 8) div 25; g = (b - f + 1) div 3;
          h = (19 * a + b - d - g + 15) mod 30; i = c div 4; k = c mod 4;
          l = (32 + 2 * e + 2 * i - h - k) mod 7; m = (a + 11 * h + 22 * l) div 451
      in h + l - 7 * m)"

lemma easter_range:
  fixes a h l :: int
  assumes "0 \<le> a" "a < 19" "0 \<le> h" "h < 30" "0 \<le> l" "l < 7"
  defines "m \<equiv> (a + 11 * h + 22 * l) div 451"
  shows "0 \<le> h + l - 7 * m" "h + l - 7 * m \<le> 34"
proof -
  have m: "m = (if 451 \<le> a + 11 * h + 22 * l then 1 else 0)"
    unfolding m_def using assms(1-6) by (auto intro: div_pos_pos_trivial simp: div_pos_geq)
  show "0 \<le> h + l - 7 * m" "h + l - 7 * m \<le> 34"
    unfolding m using assms(1-6) by (auto split: if_splits)
qed

lemma easter_offset_range: "0 \<le> easter_offset year" "easter_offset year \<le> 34"
  unfolding easter_offset_def Let_def by (rule easter_range; simp)+

definition easter_date :: "int \<Rightarrow> date" where
  "easter_date year =
     (if easter_offset year < 10 then Date year 3 (nat (22 + easter_offset year))
      else Date year 4 (nat (easter_offset year - 9)))"

lemma easter_date_number:
  "day_number (easter_date year) = days_before_year year + int (days_before_month year 3) + 22 + easter_offset year"
  using easter_offset_range [of year]
  by (auto simp: easter_date_def numeral_eq_Suc month_length_def)

lemma valid_easter_date: "- 9999 \<le> year \<Longrightarrow> year \<le> 9999 \<Longrightarrow> valid_date (easter_date year)"
  using easter_offset_range [of year] by (auto simp: easter_date_def month_length_def)

lemma easter_date_year [simp]: "dyear (easter_date year) = year"
  by (simp add: easter_date_def)

text \<open>
  Easter is a Sunday: the day count of Easter is a multiple of seven. With the year split as
  \<open>400 d + 100 e + 4 i + k\<close>, the correction \<open>l\<close> cancels the century and the leap years.
\<close>

lemma easter_congruence:
  fixes year :: int
  shows "7 dvd (365 * year + year div 4 - year div 100 + year div 400 - 365 + 59 + 22 + easter_offset year)"
proof -
  define b c where "b = year div 100" and "c = year mod 100"
  define d e i k where "d = b div 4" and "e = b mod 4" and "i = c div 4" and "k = c mod 4"
  have year: "year = 100 * b + c" "b = 4 * d + e" "c = 4 * i + k" "0 \<le> c" "c < 100" "0 \<le> k" "k < 4" "0 \<le> e" "e < 4"
    by (simp_all add: b_def c_def d_def e_def i_def k_def)
  have q4: "year div 4 = 25 * b + i"
    using year by (intro int_div_pos_eq [of _ _ _ k]) simp_all
  have q400: "year div 400 = d"
    using year by (intro int_div_pos_eq [of _ _ _ "100 * e + c"]) simp_all
  obtain h m X where off: "easter_offset year = h + X mod 7 - 7 * m" "X = 32 + 2 * e + 2 * i - h - k"
    unfolding easter_offset_def Let_def b_def [symmetric] c_def [symmetric] d_def [symmetric]
      e_def [symmetric] i_def [symmetric] k_def [symmetric] by blast
  have "X mod 7 = X - 7 * (X div 7)" by (simp add: minus_mult_div_eq_mod)
  then have "365 * year + year div 4 - year div 100 + year div 400 - 365 + 59 + 22 + easter_offset year
      = 7 * (20871 * d + 5218 * e + 209 * i + 52 * k - 36 - X div 7 - m)"
    unfolding q4 q400 b_def [symmetric] off(1) using off(2) year(1-3) by simp
  then show ?thesis by (metis dvd_triv_left)
qed

lemma easter_is_sunday: "(day_number (easter_date year) - 1) mod 7 = 6"
proof -
  have "days_before_year year + int (days_before_month year 3) =
      365 * year + year div 4 - year div 100 + year div 400 - 365 + 59"
    using days_before_year_Suc [of year]
    by (simp add: numeral_eq_Suc month_length_def days_before_year_def [of "year + 1"] split: if_splits)
  then have "7 dvd day_number (easter_date year)"
    using easter_congruence [of year] by (simp only: easter_date_number)
  then show ?thesis by presburger
qed

text \<open>The truncating operations agree with Euclid's on a year of our era.\<close>

lemma easter_month:
  fixes s :: int
  assumes s: "0 \<le> s" "s \<le> 34"
  shows "(s + 114) sdiv 31 = (if s < 10 then 3 else 4)"
    "(s + 114) smod 31 = (if s < 10 then s + 21 else s - 10)"
proof -
  have "(s + 114) div 31 = (if s < 10 then 3 else 4)" using s by (auto simp: div_pos_geq div_pos_pos_trivial)
  then show "(s + 114) sdiv 31 = (if s < 10 then 3 else 4)" 
    "(s + 114) smod 31 = (if s < 10 then s + 21 else s - 10)"
    using s by (simp_all add: sdiv_nonneg smod_nonneg minus_div_mult_eq_mod [symmetric])
qed

lemma century_bound:
  fixes b :: int
  assumes "0 \<le> b"
  shows "(b + 1) div 3 \<le> b - b div 4 + 15" 
proof -
  have "(b + 1) div 3 * 3 \<le> b + 1" "b div 4 * 4 \<le> b" by (simp_all add: minus_mod_eq_div_mult [symmetric] del: minus_mod_eq_mult_div)
  with assms show ?thesis by linarith
qed

context time_crate
begin

lemma easter_sunday_eq:
  assumes "0 \<le> year" "year \<le> 9999"
  shows "easter_sunday T year = Some (easter_date year)"
proof -
  define s where "s = easter_offset year"
  have s: "0 \<le> s" "s \<le> 34" by (simp_all add: s_def easter_offset_range)
  define b c where "b = year div 100" and "c = year mod 100"
  define g where "g = (b - (b + 8) div 25 + 1) div 3"
  define h where "h = (19 * (year mod 19) + b - b div 4 - g + 15) mod 30"
  define l where "l = (32 + 2 * (b mod 4) + 2 * (c div 4) - h - c mod 4) mod 7"
  have b: "0 \<le> b" "0 \<le> c" using assms by (simp_all add: b_def c_def)
  have g0: "0 \<le> b - (b + 8) div 25 + 1" using b by (simp add: zdiv_mono1 le_diff_iff)
  have h0: "0 \<le> 19 * (year mod 19) + b - b div 4 - g + 15"
  proof -
    have "g \<le> (b + 1) div 3" unfolding g_def using b by (intro zdiv_mono1) (auto simp: pos_imp_zdiv_nonneg_iff)
    moreover have "(b + 1) div 3 \<le> b - b div 4 + 15" by (rule century_bound [OF b(1)])
    moreover have "0 \<le> year mod 19" by simp
    ultimately show ?thesis by linarith
  qed
  have hr: "0 \<le> h" "h < 30" by (simp_all add: h_def)
  have l0: "0 \<le> 32 + 2 * (b mod 4) + 2 * (c div 4) - h - c mod 4"
  proof -
    have "c mod 4 < 4" "0 \<le> b mod 4" "0 \<le> c div 4"
      using b by (simp_all add: pos_imp_zdiv_nonneg_iff)
    with hr show ?thesis by linarith
  qed
  have lr: "0 \<le> l" "l < 7" by (simp_all add: l_def)
  have m0: "0 \<le> year mod 19 + 11 * h + 22 * l" using hr lr by simp
  have s_eq: "s = h + l - 7 * ((year mod 19 + 11 * h + 22 * l) div 451)"
    by (simp only: s_def easter_offset_def Let_def b_def c_def g_def h_def l_def)
  have "easter_sunday T year = do { mon8 \<leftarrow> u8_try_from ((s + 114) sdiv 31);
       day8 \<leftarrow> u8_try_from ((s + 114) smod 31 + 1); from_calendar_date T year mon8 day8 }"
  proof -
    have year: "year smod 19 = year mod 19" "year sdiv 100 = b" "year smod 100 = c"
      using assms by (simp_all only: sdiv_nonneg smod_nonneg b_def c_def zero_less_numeral)
    have century: "b sdiv 4 = b div 4" "b smod 4 = b mod 4" "(b + 8) sdiv 25 = (b + 8) div 25"
      "c sdiv 4 = c div 4" "c smod 4 = c mod 4"
      using b by (simp_all only: sdiv_nonneg smod_nonneg zero_less_numeral add_nonneg_nonneg zero_le_numeral)
    have rest: "(b - (b + 8) div 25 + 1) sdiv 3 = g"
      "(19 * (year mod 19) + b - b div 4 - g + 15) smod 30 = h"
      "(32 + 2 * (b mod 4) + 2 * (c div 4) - h - c mod 4) smod 7 = l"
      "(year mod 19 + 11 * h + 22 * l) sdiv 451 = (year mod 19 + 11 * h + 22 * l) div 451"
      using g0 h0 l0 m0
      by (simp_all only: sdiv_nonneg smod_nonneg zero_less_numeral g_def h_def l_def)
    show ?thesis
      unfolding easter_sunday_def Let_def year century rest s_eq [symmetric] by (rule refl)
  qed
  moreover note easter_month [OF s]
  ultimately show ?thesis
    using s assms by (auto simp: from_calendar_date month_length_def s_def easter_date_def)
qed

lemma easter_weekday:
  "0 \<le> year \<Longrightarrow> year \<le> 9999 \<Longrightarrow> weekday T (easter_date year) = 6"
  using easter_is_sunday [of year] by (simp add: weekday valid_easter_date)

end

section \<open>Public holidays\<close>

definition fixed_holidays :: "(nat \<times> nat) list" where
  "fixed_holidays = [(1, 1), (5, 1), (5, 8), (7, 14), (8, 15), (11, 1), (11, 11), (12, 25)]"

definition movable_offsets :: "int list" where
  "movable_offsets = [1, 39, 50]"

definition is_fixed_holiday :: "date \<Rightarrow> bool" where
  "is_fixed_holiday d \<longleftrightarrow> (dmonth d, dday d) \<in> set fixed_holidays"

definition is_movable_holiday :: "date \<Rightarrow> bool" where
  "is_movable_holiday d \<longleftrightarrow>
     (\<exists>n \<in> set movable_offsets. day_number d = day_number (easter_date (dyear d)) + n)"

definition is_holiday :: "date \<Rightarrow> bool" where
  "is_holiday d \<longleftrightarrow> is_fixed_holiday d \<or> is_movable_holiday d"

text \<open>The day of the year of a date, and the dates of a year by their day of the year.\<close>

lemma day_number_in_year:
  assumes "1 \<le> n" "n \<le> 365" "- 9999 \<le> year" "year \<le> 9999"
  obtains d where "valid_date d" "dyear d = year" "day_number d = days_before_year year + n"
proof -
  have "\<exists>d. valid_date d \<and> dyear d = year \<and> day_number d = days_before_year year + int (Suc m)"
    if "Suc m \<le> 365" for m
    using that
  proof (induction m)
    case 0
    then show ?case using assms by (intro exI [of _ "Date year 1 1"]) simp
  next
    case (Suc m)
    then obtain d where d: "valid_date d" "dyear d = year" "day_number d = days_before_year year + int (Suc m)"
      by auto
    have "d \<noteq> Date year 12 31"
      using d(3) Suc.prems by (auto simp: days_before_month_12 split: if_splits)
    then have "dyear (succ_date d) = year" "valid_date (succ_date d)"
      using d(1,2) by (cases d; auto split: if_splits)+
    with d(1,3) day_number_succ [OF d(1)] show ?case by (intro exI [of _ "succ_date d"]) auto
  qed
  from this [of "nat (n - 1)"] have
    "\<exists>d. valid_date d \<and> dyear d = year \<and> day_number d = days_before_year year + n"
    using assms by simp
  then show thesis using that by blast
qed

lemma dyear_of_number:
  assumes "valid_date d" "days_before_year year < day_number d"
    "day_number d \<le> days_before_year year + (if is_leap year then 366 else 365)"
  shows "dyear d = year"
proof -
  obtain y m k where d: "d = Date y m k" by (cases d)
  note own = day_of_year_bounds [OF assms(1) [unfolded d]]
  have "\<not> y < year"
  proof
    assume "y < year"
    then have "days_before_year (y + 1) \<le> days_before_year year"
      using days_before_year_mono [of "y + 1" year] by (cases "y + 1 = year") auto
    moreover have "int (days_before_month y m + k) \<le> (if is_leap y then 366 else 365)"
      using own(2) by (metis of_nat_le_iff of_nat_numeral)
    ultimately show False using assms(2) days_before_year_Suc [of y] by (simp add: d split: if_splits)
  qed
  moreover have "\<not> year < y"
  proof
    assume "year < y"
    then have "days_before_year (year + 1) \<le> days_before_year y"
      using days_before_year_mono [of "year + 1" y] by (cases "year + 1 = y") auto
    then show False
      using assms(3) own(1) days_before_year_Suc [of year] by (simp add: d split: if_splits)
  qed
  ultimately show ?thesis by (simp add: d)
qed

lemma easter_day_of_year:
  "81 \<le> day_number (easter_date year) - days_before_year year"
  "day_number (easter_date year) - days_before_year year \<le> 116"
  using easter_offset_range [of year]
  by (simp_all add: easter_date_number numeral_eq_Suc month_length_def)

context time_crate
begin

lemma add_days_easter:
  assumes "1 \<le> n" "n \<le> 50" "0 \<le> year" "year \<le> 9999"
  obtains d where "add_days T (easter_date year) n = Some d" "valid_date d" "dyear d = year"
    "day_number d = day_number (easter_date year) + n"
proof -
  let ?n = "day_number (easter_date year) - days_before_year year + n"
  have n: "1 \<le> ?n" "?n \<le> 365" "- 9999 \<le> year"
    using easter_day_of_year [of year] assms by linarith+
  obtain d where d: "valid_date d" "dyear d = year" "day_number d = days_before_year year + ?n"
    by (rule day_number_in_year [OF n assms(4)])
  then have "day_number d = day_number (easter_date year) + n" by simp
  with d(1) assms(3,4) have "add_days T (easter_date year) n = Some d"
    by (subst add_days [OF valid_easter_date]) auto
  with d \<open>day_number d = day_number (easter_date year) + n\<close> show thesis by (intro that)
qed

lemma holidays_total:
  assumes "0 \<le> year" "year \<le> 9999"
  obtains hs where "french_public_holidays T year = Some hs" "length hs = 11"
    "\<And>d. valid_date d \<Longrightarrow> dyear d = year \<Longrightarrow> d \<in> set hs \<longleftrightarrow> is_fixed_holiday d \<or> is_movable_holiday d"
    "\<And>d. d \<in> set hs \<Longrightarrow> valid_date d \<and> dyear d = year"
proof -
  obtain e1 where e1: "add_days T (easter_date year) 1 = Some e1" "valid_date e1" "dyear e1 = year"
    "day_number e1 = day_number (easter_date year) + 1" by (rule add_days_easter [of 1 year]) (use assms in auto)
  obtain e2 where e2: "add_days T (easter_date year) 39 = Some e2" "valid_date e2" "dyear e2 = year"
    "day_number e2 = day_number (easter_date year) + 39" by (rule add_days_easter [of 39 year]) (use assms in auto)
  obtain e3 where e3: "add_days T (easter_date year) 50 = Some e3" "valid_date e3" "dyear e3 = year"
    "day_number e3 = day_number (easter_date year) + 50" by (rule add_days_easter [of 50 year]) (use assms in auto)
  let ?hs = "[Date year 1 1, e1, Date year 5 1, Date year 5 8, e2, e3, Date year 7 14,
     Date year 8 15, Date year 11 1, Date year 11 11, Date year 12 25]"
  have "from_calendar_date T year m k = Some (Date year m k)" if "(m, k) \<in> set fixed_holidays" for m k
    using that assms by (auto simp: fixed_holidays_def from_calendar_date month_length_def)
  then have "french_public_holidays T year = Some ?hs"
    using assms e1(1) e2(1) e3(1)
    by (simp add: french_public_holidays_def easter_sunday_eq fixed_holidays_def)
  moreover have "d \<in> set ?hs \<longleftrightarrow> is_fixed_holiday d \<or> is_movable_holiday d"
    if "valid_date d" "dyear d = year" for d
  proof -
    have "is_movable_holiday d \<longleftrightarrow> d = e1 \<or> d = e2 \<or> d = e3"
      using that e1(2,4) e2(2,4) e3(2,4) day_number_eq_iff [of d]
      by (auto simp: is_movable_holiday_def movable_offsets_def) metis+
    moreover have "is_fixed_holiday d \<longleftrightarrow> d \<in> (\<lambda>(m, k). Date year m k) ` set fixed_holidays"
      using that(2) by (cases d) (force simp: is_fixed_holiday_def image_iff)
    ultimately show ?thesis by (auto simp: fixed_holidays_def)
  qed
  moreover have "valid_date d \<and> dyear d = year" if "d \<in> set ?hs" for d
    using that assms e1 e2 e3 by (auto simp: month_length_def)
  ultimately show thesis by (intro that [of ?hs]) simp_all
qed

lemma business_day_eq:
  assumes "valid_date d" "0 \<le> dyear d"
  shows "is_french_business_day T d = Some (\<not> is_weekend T d \<and> \<not> is_holiday d)"
proof -
  have "dyear d \<le> 9999" using valid_date_components [OF assms(1)] by simp
  with assms(2) obtain hs where hs: "french_public_holidays T (dyear d) = Some hs"
    "\<And>e. valid_date e \<Longrightarrow> dyear e = dyear d \<Longrightarrow>
       e \<in> set hs \<longleftrightarrow> is_fixed_holiday e \<or> is_movable_holiday e"
    by (rule holidays_total) blast
  from hs(2) [OF assms(1) refl] have "d \<in> set hs \<longleftrightarrow> is_holiday d"
    by (simp only: is_holiday_def)
  with hs(1) show ?thesis by (simp add: is_french_business_day_def)
qed

end

section \<open>Two holidays of one kind are at least a week apart\<close>

lemma fixed_day_offset:
  assumes "is_fixed_holiday d"
  shows "\<exists>k \<in> {1, 121, 128, 195, 227, 305, 315, 359}.
     day_number d = days_before_year (dyear d) + k + (if is_leap (dyear d) \<and> k \<noteq> 1 then 1 else 0)"
  using assms
  by (cases d) (auto simp: is_fixed_holiday_def fixed_holidays_def numeral_eq_Suc month_length_def)

lemma fixed_day_of_year:
  assumes "is_fixed_holiday d"
  shows "1 \<le> day_number d - days_before_year (dyear d)"
    "day_number d - days_before_year (dyear d) \<le> (if is_leap (dyear d) then 360 else 359)"
  using fixed_day_offset [OF assms] by auto

lemma movable_day_of_year:
  assumes "is_movable_holiday d"
  shows "82 \<le> day_number d - days_before_year (dyear d)"
    "day_number d - days_before_year (dyear d) \<le> (if is_leap (dyear d) then 360 else 359)"
  using assms easter_day_of_year [of "dyear d"]
  by (auto simp: is_movable_holiday_def movable_offsets_def)

lemma year_apart:
  assumes "dyear d < dyear e" "1 \<le> day_number e - days_before_year (dyear e)"
    "day_number d - days_before_year (dyear d) \<le> (if is_leap (dyear d) then 360 else 359)"
  shows "day_number d + 7 \<le> day_number e"
proof -
  have "days_before_year (dyear d + 1) \<le> days_before_year (dyear e)"
    using assms(1) days_before_year_mono [of "dyear d + 1" "dyear e"]
    by (cases "dyear d + 1 = dyear e") auto
  with assms(2,3) days_before_year_Suc [of "dyear d"] show ?thesis by (simp split: if_splits)
qed

lemma fixed_same_year:
  assumes "is_fixed_holiday d" "is_fixed_holiday e" "day_number d < day_number e" "dyear d = dyear e"
  shows "day_number d + 7 \<le> day_number e"
proof -
  obtain k where k: "k \<in> {1, 121, 128, 195, 227, 305, 315, 359}"
    "day_number d = days_before_year (dyear d) + k + (if is_leap (dyear d) \<and> k \<noteq> 1 then 1 else 0)"
    using fixed_day_offset [OF assms(1)] by blast
  obtain l where l: "l \<in> {1, 121, 128, 195, 227, 305, 315, 359}"
    "day_number e = days_before_year (dyear d) + l + (if is_leap (dyear d) \<and> l \<noteq> 1 then 1 else 0)"
    using fixed_day_offset [OF assms(2), folded assms(4)] by blast
  have "k < l"
  proof (rule ccontr)
    assume "\<not> k < l"
    then have "l = k \<or> (1 < k \<and> l \<le> k)" using l(1) by auto
    then show False using assms(3) by (cases "is_leap (dyear d)") (auto simp: k(2) l(2) split: if_splits)
  qed
  then have "k + 7 \<le> l \<and> 1 < l" using k(1) l(1) by (elim insertE emptyE) simp_all
  then show ?thesis by (cases "is_leap (dyear d)") (simp_all add: k(2) l(2))
qed

lemma fixed_holidays_apart:
  assumes "is_fixed_holiday d" "is_fixed_holiday e" "day_number d < day_number e"
  shows "day_number d + 7 \<le> day_number e"
proof -
  have False if "dyear e < dyear d"
    using year_apart [OF that] fixed_day_of_year [OF assms(1)] fixed_day_of_year [OF assms(2)] assms(3)
    by simp
  moreover have ?thesis if "dyear d < dyear e"
    using year_apart [OF that] fixed_day_of_year [OF assms(1)] fixed_day_of_year [OF assms(2)] by simp
  moreover have ?thesis if "dyear d = dyear e"
    by (rule fixed_same_year [OF assms that])
  ultimately show ?thesis by (cases "dyear d" "dyear e" rule: linorder_cases) auto
qed

lemma movable_holidays_apart:
  assumes "is_movable_holiday d" "is_movable_holiday e" "day_number d < day_number e"
  shows "day_number d + 7 \<le> day_number e"
proof -
  have False if "dyear e < dyear d"
    using year_apart [OF that] movable_day_of_year [OF assms(1)] movable_day_of_year [OF assms(2)] assms(3)
    by simp
  moreover have ?thesis if "dyear d < dyear e"
    using year_apart [OF that] movable_day_of_year [OF assms(1)] movable_day_of_year [OF assms(2)] by simp
  moreover have ?thesis if "dyear d = dyear e"
    using assms that by (auto simp: is_movable_holiday_def movable_offsets_def)
  ultimately show ?thesis by (cases "dyear d" "dyear e" rule: linorder_cases) auto
qed

text \<open>Hence no three holidays fit in seven consecutive days.\<close>

lemma three_holidays:
  assumes "is_holiday d" "is_holiday e" "is_holiday f"
    and "day_number d < day_number e" "day_number e < day_number f" "day_number f < day_number d + 7"
  shows False
  using assms fixed_holidays_apart [of d e] fixed_holidays_apart [of e f] fixed_holidays_apart [of d f]
    movable_holidays_apart [of d e] movable_holidays_apart [of e f] movable_holidays_apart [of d f]
  unfolding is_holiday_def by linarith

section \<open>Walking over days\<close>

abbreviation "last_date \<equiv> Date 9999 12 31"

lemma day_number_last: "day_number last_date = 3652059"
  by (simp add: days_before_year_def numeral_eq_Suc month_length_def is_leap_def)

lemma day_number_before_last:
  assumes "valid_date d" "dyear d \<le> 9998"
  shows "day_number d + 365 \<le> day_number last_date"
proof -
  have "valid_date (Date 9998 12 31)" "d \<le> Date 9998 12 31"
    using assms month_length_bounds(2) by (cases d; auto intro: le_trans)+
  then have "day_number d \<le> day_number (Date 9998 12 31)"
    using day_number_le_iff [OF assms(1)] by blast
  then show ?thesis
    by (simp add: days_before_year_def numeral_eq_Suc month_length_def is_leap_def)
qed

lemma iterate_succ_valid:
  assumes "valid_date d" "day_number d + int n \<le> day_number last_date"
  shows "valid_date ((succ_date ^^ n) d)" "day_number ((succ_date ^^ n) d) = day_number d + int n"
  using assms
proof (induction n)
  case (Suc n)
  { case 1
    then have "(succ_date ^^ n) d \<noteq> last_date" using Suc by auto
    with 1 Suc show ?case by (simp add: valid_succ_date) }
  { case 2
    then show ?case using Suc by (simp add: day_number_succ) }
qed simp_all

lemma iterate_succ_year:
  assumes "valid_date d" "day_number d + int n \<le> day_number last_date"
  shows "dyear d \<le> dyear ((succ_date ^^ n) d)"
proof -
  have "day_number d \<le> day_number ((succ_date ^^ n) d)"
    using iterate_succ_valid(2) [OF assms] by simp
  then have "d \<le> (succ_date ^^ n) d"
    using day_number_le_iff [OF assms(1) iterate_succ_valid(1) [OF assms]] by blast
  then show ?thesis by (cases d; cases "(succ_date ^^ n) d") auto
qed

definition work_day :: "time_api \<Rightarrow> date \<Rightarrow> bool" where
  "work_day T d \<longleftrightarrow> \<not> is_weekend T d \<and> \<not> is_holiday d"

lemma weekday_window:
  assumes "w < (7::nat)"
  shows "\<exists>i j k. i < j \<and> j < k \<and> k \<le> (4::nat)
     \<and> (w + i) mod 7 < 5 \<and> (w + j) mod 7 < 5 \<and> (w + k) mod 7 < 5"
proof -
  consider "w \<le> 2" | "w = 3" | "w = 4" | "w = 5" | "w = 6" using assms by linarith
  then show ?thesis
  proof cases
    case 1
    then show ?thesis by (intro exI [of _ 0] exI [of _ 1] exI [of _ 2]) simp
  next
    case 2
    then show ?thesis by (intro exI [of _ 0] exI [of _ 1] exI [of _ 4]) simp
  next
    case 3
    then show ?thesis by (intro exI [of _ 0] exI [of _ 3] exI [of _ 4]) simp
  next
    case 4
    then show ?thesis by (intro exI [of _ 2] exI [of _ 3] exI [of _ 4]) simp
  next
    case 5
    then show ?thesis by (intro exI [of _ 1] exI [of _ 2] exI [of _ 3]) simp
  qed
qed

context time_crate
begin

lemma weekday_shift:
  assumes "valid_date d" "day_number d + int n \<le> day_number last_date"
  shows "weekday T ((succ_date ^^ n) d) = (weekday T d + n) mod 7"
proof -
  have "nat ((x + int n) mod 7) = (nat (x mod 7) + n) mod 7" for x
    by (simp add: nat_mod_as_int mod_add_left_eq)
  from this [of "day_number d - 1"] show ?thesis
    using iterate_succ_valid [OF assms] assms(1) by (simp add: weekday algebra_simps)
qed

text \<open>Among five consecutive days at least one is a business day.\<close>

lemma business_day_soon:
  assumes "valid_date d" "day_number d + 4 \<le> day_number last_date"
  shows "\<exists>n \<le> 4. work_day T ((succ_date ^^ n) d)"
proof (rule ccontr)
  assume no: "\<not> ?thesis"
  have le: "day_number d + int n \<le> day_number last_date" if "n \<le> 4" for n using that assms(2) by linarith
  have holiday: "is_holiday ((succ_date ^^ n) d)" if "n \<le> 4" "(weekday T d + n) mod 7 < 5" for n
    using no that weekday_shift [OF assms(1) le [OF that(1)]]
    by (auto simp: work_day_def is_weekend_def)
  obtain i j k where "i < j" "j < k" "k \<le> (4::nat)" "(weekday T d + i) mod 7 < 5"
    "(weekday T d + j) mod 7 < 5" "(weekday T d + k) mod 7 < 5"
    using weekday_window [OF weekday_range [OF assms(1)]] by blast
  then show False
    using three_holidays [OF holiday [of i] holiday [of j] holiday [of k]]
      iterate_succ_valid(2) [OF assms(1) le] by simp
qed

lemma business_day_iff:
  "valid_date d \<Longrightarrow> 0 \<le> dyear d \<Longrightarrow> is_french_business_day T d = Some (work_day T d)"
  by (simp add: business_day_eq work_day_def)

lemma next_business_day_walk:
  assumes "valid_date d" "0 \<le> dyear d" "day_number d + int n \<le> day_number last_date"
    and "\<forall>k < n. \<not> work_day T ((succ_date ^^ k) d)" "work_day T ((succ_date ^^ n) d)"
  shows "next_french_business_day_on_or_after T d = Some ((succ_date ^^ n) d)"
  using assms
proof (induction n arbitrary: d)
  case 0
  then show ?case
    by (subst next_french_business_day_on_or_after.simps) (simp add: business_day_iff)
next
  case (Suc n)
  have "d \<noteq> last_date" using Suc.prems(3) by auto
  then have nxt: "next_day T d = Some (succ_date d)" "valid_date (succ_date d)"
    using Suc.prems(1) by (simp_all add: next_day_total valid_succ_date)
  have year: "0 \<le> dyear (succ_date d)"
    using iterate_succ_year [of d 1] Suc.prems by simp
  have shift: "(succ_date ^^ k) (succ_date d) = (succ_date ^^ Suc k) d" for k
    by (simp add: funpow_swap1)
  have bound: "day_number (succ_date d) + int n \<le> day_number last_date"
    using Suc.prems(3) by (simp only: day_number_succ [OF Suc.prems(1)] of_nat_Suc)
  have skipped: "\<forall>k < n. \<not> work_day T ((succ_date ^^ k) (succ_date d))"
    unfolding shift using Suc.prems(4) by (meson Suc_less_eq)
  have found: "work_day T ((succ_date ^^ n) (succ_date d))"
    unfolding shift by (rule Suc.prems(5))
  have "next_french_business_day_on_or_after T (succ_date d) = Some ((succ_date ^^ n) (succ_date d))"
    by (rule Suc.IH [OF nxt(2) year bound skipped found])
  moreover have "\<not> work_day T d" using Suc.prems(4) by force
  ultimately show ?case
    using Suc.prems(1,2) nxt
    by (subst next_french_business_day_on_or_after.simps) (simp add: business_day_iff funpow_swap1)
qed

lemma between_iterate:
  assumes "valid_date d" "valid_date x" "d \<le> x"
  obtains k where "x = (succ_date ^^ k) d" "day_number x = day_number d + int k"
proof -
  have "day_number d \<le> day_number x" using assms by (simp add: day_number_le_iff)
  then have "day_number x = day_number d + int (nat (day_number x - day_number d))" by simp
  then show thesis using iterate_succ [OF assms(1,2)] that by metis
qed

end

section \<open>Properties\<close>

text \<open>From any date between year 0 and year 9998 the loop stops, at the first business day on or
  after the date, at most four days later; every day it skips is not a business day.\<close>

lemma next_business_day_correct:
  assumes "time_crate T" "valid_date d" "0 \<le> dyear d" "dyear d \<le> 9998"
  shows "\<exists>e. next_french_business_day_on_or_after T d = Some e \<and> valid_date e \<and> d \<le> e
     \<and> day_number e \<le> day_number d + 4 \<and> is_french_business_day T e = Some True
     \<and> (\<forall>x. valid_date x \<and> d \<le> x \<and> x < e \<longrightarrow> is_french_business_day T x = Some False)"
proof -
  have le: "day_number d + int n \<le> day_number last_date" if "n \<le> 4" for n
    using day_number_before_last [OF assms(2,4)] that by linarith
  define n where "n = (LEAST n. work_day T ((succ_date ^^ n) d))"
  have "\<exists>n \<le> 4. work_day T ((succ_date ^^ n) d)"
    using le [of 4] by (intro time_crate.business_day_soon assms(1,2)) simp
  then have n: "n \<le> 4" "work_day T ((succ_date ^^ n) d)" "\<forall>k < n. \<not> work_day T ((succ_date ^^ k) d)"
    unfolding n_def by (auto intro: LeastI Least_le order_trans dest: not_less_Least)
  let ?e = "(succ_date ^^ n) d"
  have e: "valid_date ?e" "day_number ?e = day_number d + int n" "0 \<le> dyear ?e"
    using iterate_succ_valid [OF assms(2) le [OF n(1)]] iterate_succ_year [OF assms(2) le [OF n(1)]] assms(3)
    by simp_all
  have "is_french_business_day T x = Some False" if "valid_date x" "d \<le> x" "x < ?e" for x
  proof -
    note x = that
    obtain k where k: "x = (succ_date ^^ k) d" "day_number x = day_number d + int k"
      by (rule time_crate.between_iterate [OF assms(1,2) x(1,2)])
    then have "k < n" using day_number_less_iff [OF that(1) e(1)] that(3) e(2) by simp
    moreover have "0 \<le> dyear x" using that(2) assms(3) by (cases d; cases x) auto
    ultimately show ?thesis
      using time_crate.business_day_iff [OF assms(1) that(1)] n(3) k(1) by simp
  qed
  moreover have "d \<le> ?e"
    by (subst day_number_le_iff [OF assms(2) e(1), symmetric]) (simp add: e(2))
  ultimately show ?thesis
    using time_crate.next_business_day_walk [OF assms(1-3) le [OF n(1)] n(3,2)]
      time_crate.business_day_iff [OF assms(1) e(1,3)] e n(1,2)
    by (intro exI [of _ ?e]) simp
qed

text \<open>For every year from 0 to 9999 the Easter algorithm returns, without panicking, a Sunday
  between 22 March and 25 April.\<close>

lemma easter_sunday_is_sunday:
  assumes "time_crate T" "0 \<le> year" "year \<le> 9999"
  shows "\<exists>d. easter_sunday T year = Some d \<and> valid_date d \<and> weekday T d = 6
     \<and> Date year 3 22 \<le> d \<and> d \<le> Date year 4 25"
proof -
  have "Date year 3 22 \<le> easter_date year \<and> easter_date year \<le> Date year 4 25"
    using easter_offset_range [of year] by (auto simp: easter_date_def nat_le_iff)
  then show ?thesis
    using time_crate.easter_sunday_eq [OF assms] time_crate.easter_weekday [OF assms]
      valid_easter_date [of year] assms(2,3) by simp
qed

end
