(* ===== verification/Text.thy ===== *)
theory Text
  imports Prelude
begin

text \<open>
  The \<open>str\<close> and \<open>char\<close> methods the identifier parsers use: the characters of a UTF-8 byte
  string, the removal of white space, the ASCII classes, \<open>contains\<close>, \<open>split_at\<close> with its
  panic, and \<open>to_uppercase\<close> over a character table.
\<close>

section \<open>Characters\<close>

definition byte :: "char \<Rightarrow> nat" where
  "byte c = of_char c"

text \<open>The bytes of the character a leading byte opens.\<close>

definition char_length :: "char \<Rightarrow> nat" where
  "char_length c =
     (if byte c < 0xC0 then 1 else if byte c < 0xE0 then 2 else if byte c < 0xF0 then 3 else 4)"

lemma char_length_pos [simp]: "0 < char_length c"
  by (simp add: char_length_def)

fun chars :: "string \<Rightarrow> string list" where
  "chars [] = []"
| "chars (c # cs) = (c # take (char_length c - 1) cs) # chars (drop (char_length c - 1) cs)"

declare chars.simps(2) [simp del]

definition is_ascii :: "char \<Rightarrow> bool" where
  "is_ascii c \<longleftrightarrow> byte c < 128"

definition is_ascii_uppercase :: "char \<Rightarrow> bool" where
  "is_ascii_uppercase c \<longleftrightarrow> 65 \<le> byte c \<and> byte c \<le> 90"

definition is_ascii_lowercase :: "char \<Rightarrow> bool" where
  "is_ascii_lowercase c \<longleftrightarrow> 97 \<le> byte c \<and> byte c \<le> 122"

definition is_ascii_alphabetic :: "char \<Rightarrow> bool" where
  "is_ascii_alphabetic c \<longleftrightarrow> is_ascii_uppercase c \<or> is_ascii_lowercase c"

definition is_ascii_alphanumeric :: "char \<Rightarrow> bool" where
  "is_ascii_alphanumeric c \<longleftrightarrow> is_ascii_alphabetic c \<or> is_ascii_digit c"

definition to_ascii_uppercase :: "char \<Rightarrow> char" where
  "to_ascii_uppercase c = (if is_ascii_lowercase c then char_of (byte c - 32) else c)"

definition to_ascii_lowercase :: "char \<Rightarrow> char" where
  "to_ascii_lowercase c = (if is_ascii_uppercase c then char_of (byte c + 32) else c)"

text \<open>\<open>s.chars().filter(|c| !c.is_whitespace()).collect()\<close>.\<close>

definition without_whitespace :: "string \<Rightarrow> string" where
  "without_whitespace s = concat (filter (\<lambda>c. c \<notin> set white_space) (chars s))"

text \<open>The number of characters of a one-character predicate over ASCII.\<close>

definition count_chars :: "(char \<Rightarrow> bool) \<Rightarrow> string \<Rightarrow> nat" where
  "count_chars P s = length (filter (\<lambda>c. case c of [b] \<Rightarrow> P b | _ \<Rightarrow> False) (chars s))"

fun contains :: "string \<Rightarrow> string \<Rightarrow> bool" where
  "contains [] p \<longleftrightarrow> p = []"
| "contains (c # cs) p \<longleftrightarrow> starts_with (c # cs) p \<or> contains cs p"

text \<open>\<open>split_at\<close> panics off a character boundary.\<close>

definition is_char_boundary :: "nat \<Rightarrow> string \<Rightarrow> bool" where
  "is_char_boundary n s \<longleftrightarrow>
     n = 0 \<or> n = length s \<or> n < length s \<and> \<not> (0x80 \<le> byte (s ! n) \<and> byte (s ! n) < 0xC0)"

definition split_at :: "nat \<Rightarrow> string \<Rightarrow> (string \<times> string) option" where
  "split_at n s = (if is_char_boundary n s then Some (take n s, drop n s) else None)"

text \<open>
  \<open>to_uppercase\<close> maps every character by the Unicode table \<open>up\<close>, a parameter here. What is
  used of the table: ASCII is mapped as \<open>to_ascii_uppercase\<close> does, and the accented e.
\<close>

definition to_uppercase :: "(string \<Rightarrow> string) \<Rightarrow> string \<Rightarrow> string" where
  "to_uppercase up s = concat (map up (chars s))"

definition unicode_upper :: "(string \<Rightarrow> string) \<Rightarrow> bool" where
  "unicode_upper up \<longleftrightarrow>
     (\<forall>c. is_ascii c \<longrightarrow> up [c] = [to_ascii_uppercase c]) \<and> up e_acute = e_acute_upper"

text \<open>A concrete table: ASCII and the accented e.\<close>

definition latin_upper :: "string \<Rightarrow> string" where
  "latin_upper s = (if s = e_acute then e_acute_upper else map to_ascii_uppercase s)"

section \<open>ASCII strings\<close>

lemma unicode_upper_latin [simp]: "unicode_upper latin_upper"
  by (simp add: unicode_upper_def latin_upper_def e_acute_def)

lemma ascii_classes:
  "is_ascii_digit c \<Longrightarrow> is_ascii c"
  "is_ascii_alphanumeric c \<Longrightarrow> is_ascii c"
  "is_ascii_uppercase c \<Longrightarrow> is_ascii c"
  by (auto simp: is_ascii_digit_def is_ascii_def is_ascii_alphanumeric_def is_ascii_alphabetic_def
      is_ascii_uppercase_def is_ascii_lowercase_def byte_def)

lemma chars_ascii_Cons [simp]: "is_ascii c \<Longrightarrow> chars (c # s) = [c] # chars s"
  by (simp add: chars.simps(2) char_length_def is_ascii_def)

lemma chars_ascii: "list_all is_ascii s \<Longrightarrow> chars s = map (\<lambda>c. [c]) s"
  by (induction s) auto

lemma to_uppercase_ascii:
  assumes "unicode_upper up" "list_all is_ascii s"
  shows "to_uppercase up s = map to_ascii_uppercase s"
  using assms(2) assms(1)[unfolded unicode_upper_def]
  by (induction s) (auto simp: to_uppercase_def)

lemma to_ascii_uppercase_id [simp]: "\<not> is_ascii_lowercase c \<Longrightarrow> to_ascii_uppercase c = c"
  by (simp add: to_ascii_uppercase_def)

lemma white_space_not_alphanumeric: "is_ascii_alphanumeric c \<Longrightarrow> [c] \<notin> set white_space"
  by (auto simp: white_space_def is_ascii_alphanumeric_def is_ascii_alphabetic_def
      is_ascii_uppercase_def is_ascii_lowercase_def is_ascii_digit_def byte_def)

lemma without_whitespace_alphanumeric [simp]:
  assumes "list_all is_ascii_alphanumeric s"
  shows "without_whitespace s = s"
  using assms by (induction s) (auto simp: without_whitespace_def white_space_not_alphanumeric ascii_classes)

lemma list_all_digits_alphanumeric: "list_all is_ascii_digit s \<Longrightarrow> list_all is_ascii_alphanumeric s"
  by (induction s) (auto simp: is_ascii_alphanumeric_def)

lemma count_chars_digits [simp]:
  "list_all is_ascii s \<Longrightarrow> count_chars P s = length (filter P s)"
  by (induction s) (auto simp: count_chars_def chars_ascii_Cons)

lemma ascii_boundary: "list_all is_ascii s \<Longrightarrow> n \<le> length s \<Longrightarrow> is_char_boundary n s"
  by (auto simp: is_char_boundary_def is_ascii_def list_all_length dest!: spec [of _ n])

section \<open>Trimming\<close>

lemma find_SomeD: "find P xs = Some w \<Longrightarrow> w \<in> set xs \<and> P w"
  by (auto simp: find_Some_iff)

lemma white_prefix_zero_iff:
  "[] \<notin> set ws \<Longrightarrow> white_prefix ws s = 0 \<longleftrightarrow> (\<forall>w \<in> set ws. \<not> starts_with s w)"
  by (auto simp: white_prefix_def find_None_iff split: option.splits dest!: find_SomeD)

lemma white_prefix_length: "white_prefix ws s \<le> length s"
  by (auto simp: white_prefix_def split: option.splits dest!: find_SomeD)
    (metis length_take min.cobounded1)

lemma white_prefix_Nil: "[] \<notin> set ws \<Longrightarrow> white_prefix ws [] = 0"
  by (auto simp: white_prefix_zero_iff)

lemma trim_fuel_id: "white_prefix ws s = 0 \<Longrightarrow> trim_fuel k ws s = s"
  by (cases k) simp_all

text \<open>As many rounds as bytes are enough.\<close>

lemma trim_fuel_done:
  "[] \<notin> set ws \<Longrightarrow> length s \<le> k \<Longrightarrow> white_prefix ws (trim_fuel k ws s) = 0"
proof (induction k arbitrary: s)
  case (Suc k)
  show ?case
  proof (cases "white_prefix ws s = 0")
    case False
    then have "length (drop (white_prefix ws s) s) \<le> k" using Suc.prems(2) by simp
    with False Suc.IH [OF Suc.prems(1)] show ?thesis by (simp add: Let_def)
  qed simp
qed (simp add: white_prefix_Nil)

lemma trim_fuel_suffix: "\<exists>n. trim_fuel k ws s = drop n s"
proof (induction k arbitrary: s)
  case (Suc k)
  obtain n where "trim_fuel k ws (drop (white_prefix ws s) s) = drop n (drop (white_prefix ws s) s)"
    using Suc by blast
  then show ?case
    by (auto simp: Let_def intro: exI [of _ "n + white_prefix ws s"] exI [of _ 0])
qed (auto intro: exI [of _ 0])

lemma white_space_nonempty [simp]: "[] \<notin> set white_space" "[] \<notin> rev ` set white_space"
  by (auto simp: white_space_def)

definition trimmed :: "string \<Rightarrow> bool" where
  "trimmed s \<longleftrightarrow> white_prefix white_space s = 0 \<and> white_prefix (map rev white_space) (rev s) = 0"

lemma trim_trimmed: "trimmed s \<Longrightarrow> trim s = s"
  by (simp add: trimmed_def trim_def trim_start_def trim_end_def trim_fuel_id)

lemma trimmed_trim: "trimmed (trim s)"
proof -
  let ?b = "map rev white_space"
  have start: "white_prefix white_space (trim_start s) = 0"
    by (simp add: trim_start_def trim_fuel_done)
  obtain n where n: "trim_fuel (length (trim_start s)) ?b (rev (trim_start s)) = drop n (rev (trim_start s))"
    using trim_fuel_suffix by blast
  then have t: "trim s = take (length (trim_start s) - n) (trim_start s)"
    by (simp add: trim_def trim_end_def rev_drop)
  have "white_prefix white_space (take m x) = 0" if "white_prefix white_space x = 0" for m x
    using that by (auto simp: white_prefix_zero_iff) (metis append_take_drop_id append_eq_conv_conj take_all_iff linorder_le_cases take_take min_def)
  then have "white_prefix white_space (trim s) = 0" using start by (simp add: t)
  moreover have "white_prefix ?b (rev (trim s)) = 0"
    unfolding trim_def trim_end_def rev_rev_ident by (rule trim_fuel_done) simp_all
  ultimately show ?thesis by (simp add: trimmed_def)
qed

lemma trim_trim [simp]: "trim (trim s) = trim s"
  by (rule trim_trimmed [OF trimmed_trim])

text \<open>Text that neither begins nor ends with a byte of a white-space character is trimmed.\<close>

lemma trimmed_by_ends:
  assumes "s \<noteq> []" "hd s \<notin> hd ` set white_space" "List.last s \<notin> List.last ` set white_space"
  shows "trimmed s"
proof -
  have "\<not> starts_with s w" if w: "w \<in> set white_space" for w
  proof
    assume "starts_with s w"
    then have "hd s = hd w"
      using w assms(1) white_space_nonempty(1) by (metis hd_append2 append_take_drop_id)
    then show False using assms(2) w by blast
  qed
  moreover have "\<not> starts_with (rev s) (rev w)" if w: "w \<in> set white_space" for w
  proof
    assume "starts_with (rev s) (rev w)"
    then have "hd (rev s) = hd (rev w)"
      using w assms(1) white_space_nonempty(1) by (metis hd_append2 append_take_drop_id rev_is_Nil_conv)
    then have "List.last s = List.last w" by (simp add: hd_rev)
    then show False using assms(3) w by force
  qed
  ultimately show ?thesis
    by (simp add: trimmed_def white_prefix_zero_iff)
qed

lemma trimmed_decimal:
  assumes "s \<noteq> []" "\<forall>c \<in> set s. is_ascii_digit c \<or> c = CHR ''.'' \<or> c = CHR ''-''"
  shows "trim s = s"
proof -
  have "c \<notin> hd ` set white_space" "c \<notin> List.last ` set white_space"
    if "is_ascii_digit c \<or> c = CHR ''.'' \<or> c = CHR ''-''" for c
    using that by (auto simp: white_space_def is_ascii_digit_def)
  then show ?thesis using assms by (intro trim_trimmed trimmed_by_ends) auto
qed

end
