(* ===== verification/Siren.thy ===== *)
theory Siren
  imports Text
begin

text \<open>
  \<open>domain/siren.rs\<close>: the nine-digit company identifier with its Luhn key, and the intra-community
  VAT number with its French modulo-97 key. A panic is \<open>None\<close>; the errors are the code's own.
\<close>

section \<open>Definitions\<close>

datatype siren = Siren (digits: "nat list")

datatype siren_error = WrongLength nat | InvalidChecksum string

definition luhn_digit :: "nat \<Rightarrow> nat \<Rightarrow> nat" where
  "luhn_digit i d = (if i mod 2 = 1 then (if 9 < d * 2 then d * 2 - 9 else d * 2) else d)"

definition luhn_valid :: "nat list \<Rightarrow> bool" where
  "luhn_valid ds \<longleftrightarrow> sum_list (map (\<lambda>(i, d). luhn_digit i d) (enumerate 0 (rev ds))) mod 10 = 0"

definition siren_parse :: "string \<Rightarrow> siren_error + siren" where
  "siren_parse input =
     (let cleaned = without_whitespace input
      in if length cleaned \<noteq> 9 \<or> \<not> list_all is_ascii_digit cleaned
         then Inl (WrongLength (count_chars is_ascii_digit cleaned))
         else let ds = map digit_value cleaned
              in if luhn_valid ds then Inr (Siren ds) else Inl (InvalidChecksum cleaned))"

definition leading_pair :: "siren \<Rightarrow> nat" where
  "leading_pair s = digits s ! 0 * 10 + digits s ! 1"

definition as_u32 :: "siren \<Rightarrow> nat" where
  "as_u32 s = foldl (\<lambda>acc d. acc * 10 + d) 0 (digits s)"

definition display_siren :: "siren \<Rightarrow> string" where
  "display_siren s = concat (map show_nat (digits s))"

record vat_number =
  country :: string
  rest :: string

datatype vat_number_error =
    TooShort
  | InvalidFormat string
  | InvalidFrenchSiren siren_error
  | InvalidFrenchKey nat nat

definition validate_french_key :: "string \<Rightarrow> vat_number_error + unit" where
  "validate_french_key r =
     (if length r \<noteq> 11 \<or> \<not> list_all is_ascii_digit r then Inr ()
      else let key_str = take 2 r; siren_str = drop 2 r
           in case siren_parse siren_str of
                Inl e \<Rightarrow> Inl (InvalidFrenchSiren e)
              | Inr s \<Rightarrow>
                  (let expected = (12 + 3 * (as_u32 s mod 97)) mod 97;
                       actual = nat_of_digits key_str
                   in if expected = actual then Inr () else Inl (InvalidFrenchKey expected actual)))"

definition vat_number_parse ::
    "(string \<Rightarrow> string) \<Rightarrow> string \<Rightarrow> (vat_number_error + vat_number) option" where
  "vat_number_parse up input =
     (let cleaned = without_whitespace input
      in if length cleaned < 4 then Some (Inl TooShort)
         else do { (country_str, r) \<leftarrow> split_at 2 (to_uppercase up cleaned);
                   let rest_len = length (chars r) in
                   if \<not> list_all is_ascii_uppercase country_str
                      \<or> \<not> (2 \<le> rest_len \<and> rest_len \<le> 12)
                      \<or> \<not> list_all is_ascii_alphanumeric r
                   then Some (Inl (InvalidFormat cleaned))
                   else if country_str = ''FR''
                   then Some (case validate_french_key r of
                                Inl e \<Rightarrow> Inl e
                              | Inr _ \<Rightarrow> Inr \<lparr>country = country_str, rest = r\<rparr>)
                   else Some (Inr \<lparr>country = country_str, rest = r\<rparr>) })"

definition is_french :: "vat_number \<Rightarrow> bool" where
  "is_french v \<longleftrightarrow> country v = ''FR''"

definition display_vat_number :: "vat_number \<Rightarrow> string" where
  "display_vat_number v = country v @ rest v"

section \<open>Parsing and printing a SIREN\<close>

definition valid_siren :: "siren \<Rightarrow> bool" where
  "valid_siren s \<longleftrightarrow> length (digits s) = 9 \<and> list_all (\<lambda>d. d < 10) (digits s) \<and> luhn_valid (digits s)"

lemma digit_value_less [simp]: "is_ascii_digit c \<Longrightarrow> digit_value c < 10"
  by (auto simp: is_ascii_digit_def digit_value_def)

lemma siren_parse_valid: "siren_parse s = Inr n \<Longrightarrow> valid_siren n"
  by (auto simp: siren_parse_def valid_siren_def Let_def list_all_length split: if_splits)

lemma show_digit: "d < 10 \<Longrightarrow> show_nat d = [digit_char d]"
  by (subst show_nat.simps) simp

lemma display_digits: "list_all (\<lambda>d. d < 10) ds \<Longrightarrow> concat (map show_nat ds) = map digit_char ds"
  by (induction ds) (auto simp: show_digit)

lemma siren_parse_digits:
  "list_all is_ascii_digit s \<Longrightarrow> length s = 9 \<Longrightarrow>
   siren_parse s = (if luhn_valid (map digit_value s) then Inr (Siren (map digit_value s))
                    else Inl (InvalidChecksum s))"
  by (simp add: siren_parse_def list_all_digits_alphanumeric)

lemma siren_parse_display: "valid_siren n \<Longrightarrow> siren_parse (display_siren n) = Inr n"
proof -
  assume v: "valid_siren n"
  then have "map digit_value (map digit_char (digits n)) = digits n"
    by (auto simp: valid_siren_def list_all_iff intro!: map_idI)
  moreover have "list_all is_ascii_digit (map digit_char (digits n))"
    using v by (auto simp: valid_siren_def list_all_iff)
  ultimately show ?thesis
    using v siren_parse_digits [of "map digit_char (digits n)"]
    by (simp add: display_siren_def display_digits valid_siren_def)
qed

lemma as_u32_digits: "as_u32 (Siren (map digit_value s)) = nat_of_digits s"
  by (simp add: as_u32_def nat_of_digits_def foldl_map)

section \<open>The Luhn key\<close>

lemma luhn_digit_mod: "d < 10 \<Longrightarrow> luhn_digit i d < 10"
  by (auto simp: luhn_digit_def)

lemma luhn_digit_inj: "d < 10 \<Longrightarrow> e < 10 \<Longrightarrow> luhn_digit i d = luhn_digit i e \<Longrightarrow> d = e"
  by (auto simp: luhn_digit_def split: if_splits; presburger)

lemma luhn_update:
  assumes "i < length ds"
  shows "sum_list (map (\<lambda>(i, d). luhn_digit i d) (enumerate 0 (ds[i := d]))) + luhn_digit i (ds ! i) =
         sum_list (map (\<lambda>(i, d). luhn_digit i d) (enumerate 0 ds)) + luhn_digit i d"
proof -
  have "map (\<lambda>(i, d). luhn_digit i d) (enumerate 0 (ds[i := d])) =
        (map (\<lambda>(i, d). luhn_digit i d) (enumerate 0 ds))[i := luhn_digit i d]"
    using assms by (intro nth_equalityI) (auto simp: nth_enumerate_eq nth_list_update)
  then show ?thesis
    using assms member_le_sum_list [of "luhn_digit i (ds ! i)" "map (\<lambda>(i, d). luhn_digit i d) (enumerate 0 ds)"]
      nth_mem [of i "map (\<lambda>(i, d). luhn_digit i d) (enumerate 0 ds)"]
    by (simp add: sum_list_update nth_enumerate_eq)
qed

lemma digit_of_multiples:
  "s' + a = s + b \<Longrightarrow> s mod 10 = 0 \<Longrightarrow> s' mod 10 = 0 \<Longrightarrow> a < 10 \<Longrightarrow> b < 10 \<Longrightarrow> a = (b :: nat)"
  by presburger

lemma luhn_single_error:
  assumes "luhn_valid ds" "i < length ds" "ds ! i < 10" "d < 10" "luhn_valid (ds[i := d])"
  shows "d = ds ! i"
proof -
  let ?r = "rev ds" and ?j = "length ds - Suc i"
  have r: "?r ! ?j = ds ! i" "?j < length ?r" "rev (ds[i := d]) = ?r[?j := d]"
    using assms(2) by (simp_all add: rev_nth rev_update)
  let ?a = "luhn_digit ?j (ds ! i)" and ?b = "luhn_digit ?j d"
  have "?a < 10" "?b < 10" using assms by (simp_all add: luhn_digit_mod)
  then have "?a = ?b"
    using digit_of_multiples [OF luhn_update [OF r(2), of d, unfolded r(1)]] assms(1,5)
    unfolding luhn_valid_def r by simp
  with assms(3,4) show ?thesis by (metis luhn_digit_inj)
qed

section \<open>VAT numbers\<close>

text \<open>What a parsed number looks like.\<close>

definition valid_vat_number :: "vat_number \<Rightarrow> bool" where
  "valid_vat_number v \<longleftrightarrow>
     length (country v) = 2 \<and> list_all is_ascii_uppercase (country v)
     \<and> 2 \<le> length (rest v) \<and> length (rest v) \<le> 12 \<and> list_all is_ascii_alphanumeric (rest v)
     \<and> list_all (\<lambda>c. \<not> is_ascii_lowercase c) (rest v)
     \<and> (is_french v \<longrightarrow> validate_french_key (rest v) = Inr ())"

lemma list_all_ascii:
  "list_all is_ascii_uppercase s \<Longrightarrow> list_all is_ascii s"
  "list_all is_ascii_alphanumeric s \<Longrightarrow> list_all is_ascii s"
  "list_all is_ascii_digit s \<Longrightarrow> list_all is_ascii s"
  by (induction s) (auto simp: ascii_classes)

lemma uppercase_not_lowercase: "is_ascii_uppercase c \<Longrightarrow> \<not> is_ascii_lowercase c"
  by (auto simp: is_ascii_uppercase_def is_ascii_lowercase_def)

lemma vat_number_parse_display:
  assumes "unicode_upper up" "valid_vat_number v"
  shows "vat_number_parse up (display_vat_number v) = Some (Inr v)"
proof -
  let ?s = "display_vat_number v"
  have v: "length (country v) = 2" "list_all is_ascii_uppercase (country v)" "2 \<le> length (rest v)"
    "length (rest v) \<le> 12" "list_all is_ascii_alphanumeric (rest v)"
    "list_all (\<lambda>c. \<not> is_ascii_lowercase c) (rest v)"
    "country v = ''FR'' \<longrightarrow> validate_french_key (rest v) = Inr ()"
    using assms(2) by (simp_all add: valid_vat_number_def is_french_def)
  have "list_all is_ascii_alphanumeric (country v)"
    using v(2) by (induction "country v") (auto simp: list_all_iff is_ascii_alphanumeric_def is_ascii_alphabetic_def)
  then have alnum: "list_all is_ascii_alphanumeric ?s" using v(5) by (simp add: display_vat_number_def)
  have "list_all (\<lambda>c. \<not> is_ascii_lowercase c) ?s"
    using v(2,6) by (auto simp: display_vat_number_def list_all_iff uppercase_not_lowercase)
  then have "map to_ascii_uppercase ?s = ?s" by (auto simp: list_all_iff intro!: map_idI)
  then have up: "to_uppercase up ?s = ?s"
    using to_uppercase_ascii [OF assms(1) list_all_ascii(2) [OF alnum]] by simp
  have split: "split_at 2 ?s = Some (country v, rest v)"
    using ascii_boundary [OF list_all_ascii(2) [OF alnum], of 2] v(1)
    by (simp add: split_at_def display_vat_number_def)
  have len: "\<not> length ?s < 4" using v(1,3) by (simp add: display_vat_number_def)
  show ?thesis
    using v len by (simp add: vat_number_parse_def alnum up split chars_ascii list_all_ascii)
qed

lemma map_uppercase: "list_all (\<lambda>c. \<not> is_ascii_lowercase c) (map to_ascii_uppercase s)"
proof -
  have "\<not> is_ascii_lowercase (to_ascii_uppercase c)" for c
    by (auto simp: is_ascii_lowercase_def to_ascii_uppercase_def byte_def)
  then show ?thesis by (simp add: list_all_iff)
qed

lemma vat_number_parse_ascii_total:
  assumes "unicode_upper up" "list_all is_ascii (without_whitespace s)"
  shows "\<exists>r. vat_number_parse up s = Some r"
proof (cases "length (without_whitespace s) < 4")
  case False
  let ?u = "map to_ascii_uppercase (without_whitespace s)"
  have "is_ascii (to_ascii_uppercase c)" if "is_ascii c" for c
    using that by (auto simp: is_ascii_def to_ascii_uppercase_def byte_def is_ascii_lowercase_def)
  then have "list_all is_ascii ?u" using assms(2) by (simp add: list_all_iff)
  then have "split_at 2 ?u = Some (take 2 ?u, drop 2 ?u)"
    using False ascii_boundary [of ?u 2] by (simp add: split_at_def)
  then show ?thesis
    using False assms by (auto simp: vat_number_parse_def to_uppercase_ascii Let_def)
qed (simp add: vat_number_parse_def)

lemma vat_number_parse_valid:
  assumes "unicode_upper up" "list_all is_ascii (without_whitespace s)"
    and "vat_number_parse up s = Some (Inr v)"
  shows "valid_vat_number v"
proof -
  let ?u = "map to_ascii_uppercase (without_whitespace s)"
  have up: "to_uppercase up (without_whitespace s) = ?u"
    using assms by (simp add: to_uppercase_ascii)
  have v: "country v = take 2 ?u" "rest v = drop 2 ?u" "4 \<le> length ?u"
    "list_all is_ascii_uppercase (country v)" "2 \<le> length (chars (rest v))"
    "length (chars (rest v)) \<le> 12" "list_all is_ascii_alphanumeric (rest v)"
    "is_french v \<longrightarrow> validate_french_key (rest v) = Inr ()"
    using assms(3) unfolding vat_number_parse_def
    by (auto simp: up split_at_def Let_def is_french_def split: if_splits sum.splits bind_splits)
  moreover have "list_all (\<lambda>c. \<not> is_ascii_lowercase c) (rest v)"
    using map_uppercase [of "without_whitespace s"] unfolding v(2)
    by (metis append_take_drop_id list_all_append)
  ultimately show ?thesis
    by (simp add: valid_vat_number_def chars_ascii list_all_ascii)
qed

section \<open>Properties\<close>

text \<open>A SIREN that parses has nine digits and a correct Luhn key, prints to a text that parses
  back to it, and no other number that differs from it in a single digit parses: the key catches
  every error on one digit.\<close>

lemma siren_roundtrip_and_key:
  assumes "siren_parse s = Inr n"
  shows "length (digits n) = 9 \<and> luhn_valid (digits n) \<and> siren_parse (display_siren n) = Inr n
     \<and> (\<forall>i d. i < 9 \<and> d < 10 \<and> d \<noteq> digits n ! i \<longrightarrow>
          siren_parse (display_siren (Siren ((digits n)[i := d]))) =
            Inl (InvalidChecksum (display_siren (Siren ((digits n)[i := d])))))"
proof -
  have v: "valid_siren n" by (rule siren_parse_valid [OF assms])
  note n = v [unfolded valid_siren_def]
  have "siren_parse (display_siren (Siren ((digits n)[i := d]))) =
          Inl (InvalidChecksum (display_siren (Siren ((digits n)[i := d]))))"
    if d: "i < 9" "d < 10" "d \<noteq> digits n ! i" for i d
  proof -
    let ?ds = "(digits n)[i := d]"
    have small: "list_all (\<lambda>d. d < 10) ?ds"
      using n d by (auto simp: list_all_length nth_list_update)
    have "\<not> luhn_valid ?ds"
      using luhn_single_error [of "digits n" i d] n d by (auto simp: list_all_length)
    moreover have "map digit_value (map digit_char ?ds) = ?ds"
      using small by (auto simp: list_all_iff intro!: map_idI)
    moreover have "list_all is_ascii_digit (map digit_char ?ds)"
      using small by (auto simp: list_all_iff)
    ultimately show ?thesis
      using small n siren_parse_digits [of "map digit_char ?ds"]
      by (simp add: display_siren_def display_digits)
  qed
  then show ?thesis using siren_parse_display [OF v] n by simp
qed

text \<open>On ASCII input the VAT number parser returns without panicking; a number it accepts prints
  to a text that parses back to it, and a French number with an eleven-digit body carries a valid
  SIREN and the key (12 + 3 * (SIREN mod 97)) mod 97.\<close>

lemma vat_number_parse_sound:
  assumes "unicode_upper up" "list_all is_ascii (without_whitespace s)"
  shows "\<exists>r. vat_number_parse up s = Some r \<and>
     (\<forall>v. r = Inr v \<longrightarrow> vat_number_parse up (display_vat_number v) = Some (Inr v) \<and>
        (is_french v \<and> length (rest v) = 11 \<and> list_all is_ascii_digit (rest v) \<longrightarrow>
          (\<exists>n. siren_parse (drop 2 (rest v)) = Inr n \<and>
               nat_of_digits (take 2 (rest v)) = (12 + 3 * (nat_of_digits (drop 2 (rest v)) mod 97)) mod 97)))"
proof -
  obtain r where r: "vat_number_parse up s = Some r"
    using vat_number_parse_ascii_total [OF assms] by blast
  have "vat_number_parse up (display_vat_number v) = Some (Inr v) \<and>
        (is_french v \<and> length (rest v) = 11 \<and> list_all is_ascii_digit (rest v) \<longrightarrow>
          (\<exists>n. siren_parse (drop 2 (rest v)) = Inr n \<and>
               nat_of_digits (take 2 (rest v)) = (12 + 3 * (nat_of_digits (drop 2 (rest v)) mod 97)) mod 97))"
    if "r = Inr v" for v
  proof -
    have v: "valid_vat_number v" by (rule vat_number_parse_valid [OF assms r [unfolded that]])
    have key: "\<exists>n. siren_parse (drop 2 (rest v)) = Inr n \<and>
               nat_of_digits (take 2 (rest v)) = (12 + 3 * (nat_of_digits (drop 2 (rest v)) mod 97)) mod 97"
      if f: "is_french v" "length (rest v) = 11" "list_all is_ascii_digit (rest v)"
    proof -
      have d: "list_all is_ascii_digit (drop 2 (rest v))" "length (drop 2 (rest v)) = 9"
        using f by (auto simp: list_all_iff dest: in_set_dropD)
      have "validate_french_key (rest v) = Inr ()" using v f(1) by (simp add: valid_vat_number_def)
      then obtain n where n: "siren_parse (drop 2 (rest v)) = Inr n"
        "(12 + 3 * (as_u32 n mod 97)) mod 97 = nat_of_digits (take 2 (rest v))"
        using f by (auto simp: validate_french_key_def Let_def split: sum.splits if_splits)
      moreover have "as_u32 n = nat_of_digits (drop 2 (rest v))"
        using n(1) as_u32_digits siren_parse_digits [OF d] by (auto split: if_splits)
      ultimately show ?thesis by metis
    qed
    show ?thesis using vat_number_parse_display [OF assms(1) v] key by blast
  qed
  with r show ?thesis by blast
qed

text \<open>Off ASCII the same parser panics: one letter followed by an accented one puts the second
  byte of the text inside a character, where it is split.\<close>

lemma vat_number_parse_panics:
  assumes "unicode_upper up"
  shows "vat_number_parse up (''A'' @ e_acute @ ''12'') = None"
proof -
  have "chars (''A'' @ e_acute @ ''12'') = [''A'', e_acute, ''1'', ''2'']" by code_simp
  moreover have "without_whitespace (''A'' @ e_acute @ ''12'') = ''A'' @ e_acute @ ''12''" by code_simp
  moreover have "up ''A'' = ''A''" "up ''1'' = ''1''" "up ''2'' = ''2''" "up e_acute = e_acute_upper"
    using assms by (simp_all add: unicode_upper_def is_ascii_def byte_def is_ascii_lowercase_def)
  ultimately show ?thesis
    by (simp add: vat_number_parse_def to_uppercase_def split_at_def is_char_boundary_def
        e_acute_def e_acute_upper_def byte_def)
qed

end
