(* ===== verification/Opening.thy ===== *)
theory Opening
  imports Text Money Period
begin

text \<open>
  \<open>domain/opening.rs\<close>: account codes, the sides of a balance, the lines of an opening balance
  with their text form, and the opening balance with its validation, totals and equity. The
  signed balance of the lines under an account prefix is the component's notion the closing chain
  and the ledger read.
\<close>

section \<open>Definitions\<close>

datatype account_code = AccountCode (as_str: string)

datatype account_code_error = AccountCodeError string

definition account_code_parse :: "string \<Rightarrow> account_code_error + account_code" where
  "account_code_parse s0 =
     (let s = trim s0; len = length s
      in if \<not> (3 \<le> len \<and> len \<le> 12) \<or> \<not> list_all is_ascii_digit s then Inl (AccountCodeError s)
         else Inr (AccountCode s))"

definition account_class :: "account_code \<Rightarrow> nat" where
  "account_class a = byte (hd (as_str a)) - byte (CHR ''0'')"

definition is_balance_sheet :: "account_code \<Rightarrow> bool" where
  "is_balance_sheet a \<longleftrightarrow> 1 \<le> account_class a \<and> account_class a \<le> 5"

definition account_starts_with :: "account_code \<Rightarrow> string \<Rightarrow> bool" where
  "account_starts_with a prefix \<longleftrightarrow> starts_with (as_str a) prefix"

datatype side = Debit | Credit

fun side_as_str :: "side \<Rightarrow> string" where
  "side_as_str Debit = ''debit''"
| "side_as_str Credit = ''credit''"

fun side_letter :: "side \<Rightarrow> char" where
  "side_letter Debit = CHR ''D''"
| "side_letter Credit = CHR ''C''"

datatype unknown_side = UnknownSide string

definition side_from_str :: "string \<Rightarrow> unknown_side + side" where
  "side_from_str s0 =
     (let s = map to_ascii_lowercase (trim s0)
      in if s = ''d'' \<or> s = ''debit'' \<or> s = ''d'' @ e_acute @ ''bit'' then Inr Debit
         else if s = ''c'' \<or> s = ''credit'' \<or> s = ''cr'' @ e_acute @ ''dit'' then Inr Credit
         else Inl (UnknownSide s))"

record opening_balance_line =
  obl_account :: account_code
  obl_label :: string
  obl_side :: side
  obl_amount :: money

definition signed :: "opening_balance_line \<Rightarrow> money" where
  "signed l = (case obl_side l of Debit \<Rightarrow> obl_amount l | Credit \<Rightarrow> - obl_amount l)"

datatype opening_balance_line_parse_error = OpeningBalanceLineParseError string

definition line_from_str :: "string \<Rightarrow> opening_balance_line_parse_error + opening_balance_line" where
  "line_from_str s =
     (let err = Inl (OpeningBalanceLineParseError s)
      in case rsplit_once CHR '':'' s of
           None \<Rightarrow> err
         | Some (rest1, amount_str) \<Rightarrow>
         (case rsplit_once CHR '':'' rest1 of
           None \<Rightarrow> err
         | Some (rest2, side_str) \<Rightarrow>
         (case split_once CHR '':'' rest2 of
           None \<Rightarrow> err
         | Some (account_str, label0) \<Rightarrow>
         (case account_code_parse account_str of
           Inl _ \<Rightarrow> err
         | Inr account \<Rightarrow>
           (let label = trim label0
            in if label = [] then err
               else case side_from_str side_str of
                      Inl _ \<Rightarrow> err
                    | Inr sd \<Rightarrow>
                    (case parse_decimal (trim amount_str) of
                       Inl _ \<Rightarrow> err
                     | Inr amount \<Rightarrow>
                         Inr \<lparr>obl_account = account, obl_label = label, obl_side = sd,
                              obl_amount = amount\<rparr>))))))"

definition display_line :: "opening_balance_line \<Rightarrow> string" where
  "display_line l =
     as_str (obl_account l) @ '':'' @ obl_label l @ '':'' @ [side_letter (obl_side l)] @ '':''
     @ to_decimal_string (obl_amount l)"

record opening_balance =
  opens_on :: date
  ob_source :: "string option"
  ob_lines :: "opening_balance_line list"
  tax_losses :: money

datatype opening_balance_error =
    OpeningEmpty
  | Unbalanced string string
  | NotABalanceSheetAccount account_code
  | DuplicateAccount account_code
  | NonPositiveAmount account_code
  | NegativeTaxLosses money

record opening_equity =
  share_capital :: money
  legal_reserve :: money
  retained_earnings :: money

definition total_debit :: "opening_balance \<Rightarrow> money" where
  "total_debit ob = sum_list (map obl_amount (filter (\<lambda>l. obl_side l = Debit) (ob_lines ob)))"

definition total_credit :: "opening_balance \<Rightarrow> money" where
  "total_credit ob = sum_list (map obl_amount (filter (\<lambda>l. obl_side l = Credit) (ob_lines ob)))"

fun validate_lines ::
    "account_code set \<Rightarrow> opening_balance_line list \<Rightarrow> opening_balance_error + unit" where
  "validate_lines seen [] = Inr ()"
| "validate_lines seen (l # ls) =
     (if \<not> is_balance_sheet (obl_account l) then Inl (NotABalanceSheetAccount (obl_account l))
      else if obl_amount l \<le> 0 then Inl (NonPositiveAmount (obl_account l))
      else if obl_account l \<in> seen then Inl (DuplicateAccount (obl_account l))
      else validate_lines (insert (obl_account l) seen) ls)"

definition opening_validate :: "opening_balance \<Rightarrow> opening_balance_error + unit" where
  "opening_validate ob =
     (if ob_lines ob = [] then Inl OpeningEmpty
      else if tax_losses ob < 0 then Inl (NegativeTaxLosses (tax_losses ob))
      else case validate_lines {} (ob_lines ob) of
             Inl e \<Rightarrow> Inl e
           | Inr _ \<Rightarrow>
               (let debit = total_debit ob; credit = total_credit ob
                in if debit \<noteq> credit then Inl (Unbalanced (display_money debit) (display_money credit))
                   else Inr ()))"

definition credit_balance :: "opening_balance \<Rightarrow> string \<Rightarrow> money" where
  "credit_balance ob prefix =
     sum_list (map (\<lambda>l. - signed l)
       (filter (\<lambda>l. account_starts_with (obl_account l) prefix) (ob_lines ob)))"

definition equity :: "opening_balance \<Rightarrow> opening_equity" where
  "equity ob =
     \<lparr>share_capital = credit_balance ob ''101'',
      legal_reserve = credit_balance ob ''1061'',
      retained_earnings = sum_list (map (credit_balance ob) [''110'', ''119'', ''120'', ''129''])\<rparr>"

section \<open>The text form of a line\<close>

definition valid_account :: "account_code \<Rightarrow> bool" where
  "valid_account a \<longleftrightarrow> 3 \<le> length (as_str a) \<and> length (as_str a) \<le> 12 \<and> list_all is_ascii_digit (as_str a)"

lemma account_code_parse_valid: "account_code_parse s = Inr a \<Longrightarrow> valid_account a"
  by (auto simp: account_code_parse_def valid_account_def Let_def split: if_splits)

lemma account_code_parse_digits: "valid_account a \<Longrightarrow> account_code_parse (as_str a) = Inr a"
proof -
  assume a: "valid_account a"
  then have "as_str a \<noteq> []" by (auto simp: valid_account_def)
  then have "trim (as_str a) = as_str a"
    using a by (intro trimmed_decimal) (auto simp: valid_account_def list_all_iff)
  with a show ?thesis by (simp add: account_code_parse_def valid_account_def)
qed

lemma side_from_letter: "side_from_str [side_letter sd] = Inr sd"
proof -
  have "side_from_str ''D'' = Inr Debit" "side_from_str ''C'' = Inr Credit" by code_simp+
  then show ?thesis by (cases sd) simp_all
qed

definition valid_line :: "opening_balance_line \<Rightarrow> bool" where
  "valid_line l \<longleftrightarrow> valid_account (obl_account l) \<and> obl_label l \<noteq> [] \<and> trim (obl_label l) = obl_label l
     \<and> \<bar>obl_amount l\<bar> \<le> MAX_INPUT"

lemma line_from_str_valid: "line_from_str s = Inr l \<Longrightarrow> valid_line l"
  by (auto simp: line_from_str_def valid_line_def Let_def account_code_parse_valid parse_decimal_range
      split: option.splits sum.splits if_splits prod.splits)

lemma line_roundtrip:
  assumes "valid_line l"
  shows "line_from_str (display_line l) = Inr l"
proof -
  let ?a = "as_str (obl_account l)" and ?m = "to_decimal_string (obl_amount l)"
  have v: "valid_account (obl_account l)" "obl_label l \<noteq> []" "trim (obl_label l) = obl_label l"
    "\<bar>obl_amount l\<bar> \<le> MAX_INPUT"
    using assms by (simp_all add: valid_line_def)
  have sep: "CHR '':'' \<notin> set ?m" using to_decimal_string_chars [of "CHR '':''" "obl_amount l"]
    by (auto simp: is_ascii_digit_def)
  have one: "rsplit_once CHR '':'' (display_line l) =
      Some (?a @ CHR '':'' # obl_label l @ CHR '':'' # [side_letter (obl_side l)], ?m)"
    using rsplit_once_append [OF sep, of "?a @ CHR '':'' # obl_label l @ CHR '':'' # [side_letter (obl_side l)]"]
    by (simp add: display_line_def)
  have two: "rsplit_once CHR '':'' (?a @ CHR '':'' # obl_label l @ CHR '':'' # [side_letter (obl_side l)]) =
      Some (?a @ CHR '':'' # obl_label l, [side_letter (obl_side l)])"
    using rsplit_once_append [of "CHR '':''" "[side_letter (obl_side l)]" "?a @ CHR '':'' # obl_label l"]
    by (cases "obl_side l") simp_all
  have "CHR '':'' \<notin> set ?a" using v(1) by (auto simp: valid_account_def list_all_iff is_ascii_digit_def)
  then have three: "split_once CHR '':'' (?a @ CHR '':'' # obl_label l) = Some (?a, obl_label l)"
    by (rule split_once_append)
  have "trim ?m = ?m"
    using to_decimal_string_chars [of _ "obl_amount l"] by (intro trimmed_decimal) simp_all
  then show ?thesis
    using v by (simp add: line_from_str_def one two three account_code_parse_digits side_from_letter
        parse_to_decimal Let_def)
qed

section \<open>Validation and totals\<close>

lemma validate_lines_iff:
  "validate_lines seen ls = Inr () \<longleftrightarrow>
     (\<forall>l \<in> set ls. is_balance_sheet (obl_account l) \<and> 0 < obl_amount l)
     \<and> distinct (map obl_account ls) \<and> obl_account ` set ls \<inter> seen = {}"
  by (induction ls arbitrary: seen) auto

lemma sum_signed: "sum_list (map signed (ob_lines ob)) = total_debit ob - total_credit ob"
proof -
  have "sum_list (map signed ls) =
        sum_list (map obl_amount (filter (\<lambda>l. obl_side l = Debit) ls)) -
        sum_list (map obl_amount (filter (\<lambda>l. obl_side l = Credit) ls))" for ls
    by (induction ls) (auto simp: signed_def split: side.splits)
  then show ?thesis by (simp add: total_debit_def total_credit_def)
qed

lemma opening_validate_iff:
  "opening_validate ob = Inr () \<longleftrightarrow>
     ob_lines ob \<noteq> [] \<and> 0 \<le> tax_losses ob
     \<and> (\<forall>l \<in> set (ob_lines ob). is_balance_sheet (obl_account l) \<and> 0 < obl_amount l)
     \<and> distinct (map obl_account (ob_lines ob)) \<and> sum_list (map signed (ob_lines ob)) = 0"
  unfolding sum_signed
  using validate_lines_iff [of "{}" "ob_lines ob"]
  by (auto simp: opening_validate_def Let_def not_less split: sum.splits)

text \<open>The prefixes of the retained earnings select disjoint accounts, all of class 1.\<close>

lemma credit_balance_split:
  assumes "\<And>l. l \<in> set (ob_lines ob) \<Longrightarrow>
      account_starts_with (obl_account l) p \<longleftrightarrow> (\<exists>q \<in> set qs. account_starts_with (obl_account l) q)"
    and "distinct qs" "\<And>q q'. q \<in> set qs \<Longrightarrow> q' \<in> set qs \<Longrightarrow> length q = length q'"
  shows "credit_balance ob p = sum_list (map (credit_balance ob) qs)"
proof -
  let ?hit = "\<lambda>l q. if account_starts_with (obl_account l) q then - signed l else 0"
  have one: "sum_list (map (?hit l) qs) = (if \<exists>q \<in> set qs. account_starts_with (obl_account l) q then - signed l else 0)"
    for l using assms(2,3)
  proof (induction qs)
    case (Cons q qs)
    have "\<not> (\<exists>q' \<in> set qs. account_starts_with (obl_account l) q')" if "account_starts_with (obl_account l) q"
    proof -
      have "\<not> account_starts_with (obl_account l) q'" if "q' \<in> set qs" for q'
        using Cons.prems(1) Cons.prems(2) [of q q'] that \<open>account_starts_with (obl_account l) q\<close>
        by (auto simp: account_starts_with_def)
      then show ?thesis by blast
    qed
    moreover have "sum_list (map (?hit l) qs) =
        (if \<exists>q \<in> set qs. account_starts_with (obl_account l) q then - signed l else 0)"
      using Cons by (metis distinct.simps(2) list.set_intros(2))
    ultimately show ?case by auto
  qed simp
  have two: "credit_balance ob q = sum_list (map (\<lambda>l. ?hit l q) (ob_lines ob))" for q
    by (simp add: credit_balance_def sum_list_map_filter')
  have "sum_list (map (credit_balance ob) qs) = sum_list (map (\<lambda>l. sum_list (map (?hit l) qs)) (ob_lines ob))"
    unfolding two by (induction qs) (simp_all add: sum_list_addf)
  also have "\<dots> = sum_list (map (\<lambda>l. ?hit l p) (ob_lines ob))"
    unfolding one using assms(1) by (intro arg_cong [of _ _ sum_list] map_cong) auto
  finally show ?thesis by (simp add: two)
qed

lemma class_prefix:
  assumes "valid_account a" "is_balance_sheet a"
  shows "\<exists>q \<in> set [''1'', ''2'', ''3'', ''4'', ''5'']. account_starts_with a q"
proof -
  obtain c cs where a: "as_str a = c # cs"
    using assms(1) by (cases "as_str a") (auto simp: valid_account_def)
  then have "1 \<le> byte c - 48" "byte c - 48 \<le> 5"
    using assms(2) by (simp_all add: is_balance_sheet_def account_class_def byte_def)
  then have "byte c \<in> {49, 50, 51, 52, 53}" by auto
  moreover have c: "c = char_of (byte c)" by (simp add: byte_def)
  moreover have "char_of (49 :: nat) = CHR ''1''" "char_of (50 :: nat) = CHR ''2''"
    "char_of (51 :: nat) = CHR ''3''" "char_of (52 :: nat) = CHR ''4''" "char_of (53 :: nat) = CHR ''5''"
    by code_simp+
  ultimately have "c = CHR ''1'' \<or> c = CHR ''2'' \<or> c = CHR ''3'' \<or> c = CHR ''4'' \<or> c = CHR ''5''"
    using c by (elim insertE emptyE) simp_all
  then show ?thesis by (auto simp: account_starts_with_def a)
qed

section \<open>Properties\<close>

text \<open>A balance line that parses prints to a text that parses back to the same line, even when
  its label holds the separator.\<close>

lemma line_from_str_roundtrip:
  assumes "line_from_str s = Inr l"
  shows "line_from_str (display_line l) = Inr l"
  by (rule line_roundtrip [OF line_from_str_valid [OF assms]])

text \<open>An opening balance is accepted exactly when it has a line, a non-negative stock of losses,
  one strictly positive line per balance-sheet account, and equal totals; then the signed credit
  balances of the five classes of accounts cancel out.\<close>

lemma opening_validate_balanced:
  assumes "\<forall>l \<in> set (ob_lines ob). valid_account (obl_account l)"
  shows "(opening_validate ob = Inr () \<longleftrightarrow>
       ob_lines ob \<noteq> [] \<and> 0 \<le> tax_losses ob
       \<and> (\<forall>l \<in> set (ob_lines ob). is_balance_sheet (obl_account l) \<and> 0 < obl_amount l)
       \<and> distinct (map obl_account (ob_lines ob)) \<and> total_debit ob = total_credit ob)
     \<and> (opening_validate ob = Inr () \<longrightarrow>
          sum_list (map (credit_balance ob) [''1'', ''2'', ''3'', ''4'', ''5'']) = 0)"
proof -
  have "sum_list (map (credit_balance ob) [''1'', ''2'', ''3'', ''4'', ''5'']) = 0"
    if v: "opening_validate ob = Inr ()"
  proof -
    have "credit_balance ob [] = sum_list (map (credit_balance ob) [''1'', ''2'', ''3'', ''4'', ''5''])"
    proof (rule credit_balance_split)
      fix l assume l: "l \<in> set (ob_lines ob)"
      then have "\<exists>q \<in> set [''1'', ''2'', ''3'', ''4'', ''5'']. account_starts_with (obl_account l) q"
        using v assms by (intro class_prefix) (auto simp: opening_validate_iff)
      then show "account_starts_with (obl_account l) [] \<longleftrightarrow>
          (\<exists>q \<in> set [''1'', ''2'', ''3'', ''4'', ''5'']. account_starts_with (obl_account l) q)"
        by (simp add: account_starts_with_def)
    qed auto
    moreover have "credit_balance ob [] = - sum_list (map signed (ob_lines ob))"
      by (simp add: credit_balance_def account_starts_with_def uminus_sum_list_map o_def)
    moreover have "sum_list (map signed (ob_lines ob)) = 0" using v by (simp add: opening_validate_iff)
    ultimately show ?thesis by simp
  qed
  then show ?thesis using opening_validate_iff [of ob] sum_signed [of ob] by auto
qed

definition sample_opening :: opening_balance where
  "sample_opening =
     \<lparr>opens_on = Date 2025 10 1, ob_source = None,
      ob_lines = [\<lparr>obl_account = AccountCode ''512000'', obl_label = ''Banque'', obl_side = Debit, obl_amount = 100000\<rparr>,
                  \<lparr>obl_account = AccountCode ''101000'', obl_label = ''Capital'', obl_side = Credit, obl_amount = 100000\<rparr>],
      tax_losses = 0\<rparr>"

end
