(* ===== verification/Asset.thy ===== *)
theory Asset
  imports Opening
begin

text \<open>
  \<open>domain/asset.rs\<close>: fixed assets and their straight-line depreciation on the 360-day year, the
  28x account of an asset account, the rows of form 2033-C, and the assets read from an opening
  balance. A cumulative amount is recomputed from the base at every date; the annual charge is the
  difference of two of them, and the properties show what that buys.
\<close>

section \<open>Dates on the 360-day year\<close>

definition SMALL_EQUIPMENT_THRESHOLD :: money where
  "SMALL_EQUIPMENT_THRESHOLD = 50000"

definition DEFAULT_DURATION_MONTHS :: nat where
  "DEFAULT_DURATION_MONTHS = 36"

definition days360 :: "date \<Rightarrow> date \<Rightarrow> int" where
  "days360 a b =
     (let years = dyear b - dyear a;
          months = int (dmonth b) - int (dmonth a);
          days = int (min (dday b) 30) - int (min (dday a) 30)
      in years * 360 + months * 30 + days)"

definition i32_or :: "int \<Rightarrow> int \<Rightarrow> int" where
  "i32_or fallback x = (if - (2 ^ 31) \<le> x \<and> x < 2 ^ 31 then x else fallback)"

definition add_months :: "time_api \<Rightarrow> date \<Rightarrow> nat \<Rightarrow> date option" where
  "add_months T d months =
     (let total = dyear d * 12 + int (dmonth d) - 1 + int months;
          year = i32_or (2 ^ 31 - 1) (total div 12);
          month = nat (total mod 12 + 1);
          last_day = days_in_month T month year
      in from_calendar_date T year month (min (dday d) last_day))"

definition sub_months :: "time_api \<Rightarrow> date \<Rightarrow> nat \<Rightarrow> date option" where
  "sub_months T d months =
     (let total = dyear d * 12 + int (dmonth d) - 1 - int months;
          year = i32_or (- (2 ^ 31)) (total div 12);
          month = nat (total mod 12 + 1);
          last_day = days_in_month T month year
      in from_calendar_date T year month (min (dday d) last_day))"

definition inferred_acquired_on :: "time_api \<Rightarrow> date \<Rightarrow> money \<Rightarrow> money \<Rightarrow> nat \<Rightarrow> date option" where
  "inferred_acquired_on T opening base prior duration_months =
     (if prior \<le> 0 \<or> base \<le> 0 then Some opening
      else let elapsed = (int duration_months * prior) sdiv base;
               elapsed32 = (if in_u32 elapsed then nat elapsed else duration_months)
           in sub_months T opening (min elapsed32 duration_months))"

section \<open>Accounts and rows\<close>

definition depreciation_account :: "account_code \<Rightarrow> account_code option" where
  "depreciation_account account =
     (let n = as_str account;
          out = take 1 n @ ''8'' @ drop 1 n;
          popped = (if 6 < length out \<and> List.last out = CHR ''0'' then butlast out else out);
          truncated = take 12 popped
      in case account_code_parse truncated of Inl _ \<Rightarrow> None | Inr a \<Rightarrow> Some a)"

datatype asset_row =
    Goodwill | OtherIntangible | Land | Buildings | TechnicalInstallations | GeneralFittings
  | Transport | OtherTangible | Financial

definition AssetRow_ALL :: "asset_row list" where
  "AssetRow_ALL =
     [Goodwill, OtherIntangible, Land, Buildings, TechnicalInstallations, GeneralFittings,
      Transport, OtherTangible, Financial]"

definition row_from_account :: "string \<Rightarrow> asset_row" where
  "row_from_account number =
     (let n = (if starts_with number ''28'' \<or> starts_with number ''29'' then ''2'' @ drop 2 number
               else number);
          p = (\<lambda>prefix. starts_with n prefix)
      in if p ''207'' then Goodwill
         else if p ''20'' then OtherIntangible
         else if p ''211'' \<or> p ''212'' then Land
         else if p ''213'' \<or> p ''214'' then Buildings
         else if p ''215'' then TechnicalInstallations
         else if p ''2181'' then GeneralFittings
         else if p ''2182'' then Transport
         else if p ''26'' \<or> p ''27'' then Financial
         else OtherTangible)"

fun row_as_str :: "asset_row \<Rightarrow> string" where
  "row_as_str Goodwill = ''goodwill''"
| "row_as_str OtherIntangible = ''other_intangible''"
| "row_as_str Land = ''land''"
| "row_as_str Buildings = ''buildings''"
| "row_as_str TechnicalInstallations = ''technical_installations''"
| "row_as_str GeneralFittings = ''general_fittings''"
| "row_as_str Transport = ''transport''"
| "row_as_str OtherTangible = ''other_tangible''"
| "row_as_str Financial = ''financial''"

fun row_label :: "asset_row \<Rightarrow> string" where
  "row_label Goodwill = ''Fonds commercial''"
| "row_label OtherIntangible = ''Autres immobilisations incorporelles''"
| "row_label Land = ''Terrains''"
| "row_label Buildings = ''Constructions''"
| "row_label TechnicalInstallations =
     ''Installations techniques, mat'' @ e_acute @ ''riel et outillage industriels''"
| "row_label GeneralFittings =
     ''Installations g'' @ e_acute @ ''n'' @ e_acute @ ''rales, agencements, am'' @ e_acute
     @ ''nagements divers''"
| "row_label Transport = ''Mat'' @ e_acute @ ''riel de transport''"
| "row_label OtherTangible = ''Autres immobilisations corporelles''"
| "row_label Financial = ''Immobilisations financi'' @ e_grave @ ''res''"

fun gross_cases :: "asset_row \<Rightarrow> string list" where
  "gross_cases Goodwill = [''400'', ''402'', ''404'', ''406'']"
| "gross_cases OtherIntangible = [''410'', ''412'', ''414'', ''416'']"
| "gross_cases Land = [''420'', ''422'', ''424'', ''426'']"
| "gross_cases Buildings = [''430'', ''432'', ''434'', ''436'']"
| "gross_cases TechnicalInstallations = [''440'', ''442'', ''444'', ''446'']"
| "gross_cases GeneralFittings = [''450'', ''452'', ''454'', ''456'']"
| "gross_cases Transport = [''460'', ''462'', ''464'', ''466'']"
| "gross_cases OtherTangible = [''470'', ''472'', ''474'', ''476'']"
| "gross_cases Financial = [''480'', ''482'', ''484'', ''486'']"

fun depreciation_cases :: "asset_row \<Rightarrow> string list option" where
  "depreciation_cases Goodwill = None"
| "depreciation_cases Financial = None"
| "depreciation_cases OtherIntangible = Some [''500'', ''502'', ''504'', ''506'']"
| "depreciation_cases Land = Some [''510'', ''512'', ''514'', ''516'']"
| "depreciation_cases Buildings = Some [''520'', ''522'', ''524'', ''526'']"
| "depreciation_cases TechnicalInstallations = Some [''530'', ''532'', ''534'', ''536'']"
| "depreciation_cases GeneralFittings = Some [''540'', ''542'', ''544'', ''546'']"
| "depreciation_cases Transport = Some [''550'', ''552'', ''554'', ''556'']"
| "depreciation_cases OtherTangible = Some [''560'', ''562'', ''564'', ''566'']"

definition asset_account_label :: "string \<Rightarrow> string" where
  "asset_account_label number =
     (let p = (\<lambda>prefix. starts_with number prefix)
      in if p ''201'' then ''Frais d'' @ [CHR 0x27] @ e_acute @ ''tablissement''
         else if p ''205'' then ''Concessions, brevets, licences, logiciels''
         else if p ''2183'' then ''Mat'' @ e_acute @ ''riel de bureau et mat'' @ e_acute @ ''riel informatique''
         else if p ''2184'' then ''Mobilier''
         else if p ''2154'' then ''Mat'' @ e_acute @ ''riel industriel''
         else if p ''2155'' then ''Outillage industriel''
         else if p ''2135'' then ''Installations g'' @ e_acute @ ''n'' @ e_acute
                @ ''rales, agencements des constructions''
         else row_label (row_from_account number))"

definition is_depreciable_account :: "account_code \<Rightarrow> bool" where
  "is_depreciable_account account \<longleftrightarrow>
     account_class account = 2 \<and> \<not> account_starts_with account ''26''
     \<and> \<not> account_starts_with account ''27'' \<and> \<not> account_starts_with account ''28''
     \<and> \<not> account_starts_with account ''29''"

section \<open>Fixed assets\<close>

text \<open>Identifiers are their text; the creation time stamp is kept as a number.\<close>

record fixed_asset =
  fa_id :: string
  fa_label :: string
  fa_account :: account_code
  acquired_on :: date
  base :: money
  duration_months :: nat
  depreciated_from :: date
  prior_depreciation :: money
  fa_expense_id :: "string option"
  fa_revision :: int
  fa_created_at :: int

datatype fixed_asset_error =
    NonPositiveBase money
  | ZeroDuration
  | DurationTooLong nat
  | NotDepreciable account_code
  | PriorExceedsBase money money
  | PriorWithoutReprise money
  | EmptyLabel

definition asset_validate :: "fixed_asset \<Rightarrow> fixed_asset_error + unit" where
  "asset_validate a =
     (if trim (fa_label a) = [] then Inl EmptyLabel
      else if base a \<le> 0 then Inl (NonPositiveBase (base a))
      else if duration_months a = 0 then Inl ZeroDuration
      else if duration_months a > 600 then Inl (DurationTooLong (duration_months a))
      else if \<not> is_depreciable_account (fa_account a) then Inl (NotDepreciable (fa_account a))
      else if prior_depreciation a < 0 \<or> prior_depreciation a > base a
        then Inl (PriorExceedsBase (prior_depreciation a) (base a))
      else if prior_depreciation a \<noteq> 0 \<and> depreciated_from a \<le> acquired_on a
        then Inl (PriorWithoutReprise (prior_depreciation a))
      else Inr ())"

definition depreciation_end :: "time_api \<Rightarrow> fixed_asset \<Rightarrow> date option" where
  "depreciation_end T a = add_months T (acquired_on a) (duration_months a)"

definition net_at_start :: "fixed_asset \<Rightarrow> money" where
  "net_at_start a = base a - prior_depreciation a"

definition accumulated_since_start :: "time_api \<Rightarrow> fixed_asset \<Rightarrow> date \<Rightarrow> money option" where
  "accumulated_since_start T a d =
     (let net = net_at_start a
      in if d \<le> depreciated_from a \<or> net \<le> 0 then Some 0
         else do { stop \<leftarrow> depreciation_end T a;
                   let total = days360 (depreciated_from a) stop in
                   if total \<le> 0 \<or> stop \<le> d then Some net
                   else let elapsed = min (max (days360 (depreciated_from a) d) 0) total;
                            numerator = net * elapsed;
                            cents = (numerator * 2 + total) sdiv (2 * total)
                        in Some (if in_i64 cents then cents else 2 ^ 63 - 1) })"

definition day_after :: "time_api \<Rightarrow> fiscal_year \<Rightarrow> date" where
  "day_after T period = (case next_day T (fy_end period) of None \<Rightarrow> fy_end period | Some d \<Rightarrow> d)"

definition depreciation_for :: "time_api \<Rightarrow> fixed_asset \<Rightarrow> fiscal_year \<Rightarrow> money option" where
  "depreciation_for T a period =
     do { x \<leftarrow> accumulated_since_start T a (day_after T period);
          y \<leftarrow> accumulated_since_start T a (fy_start period);
          Some (x - y) }"

definition accumulated_at :: "time_api \<Rightarrow> fixed_asset \<Rightarrow> date \<Rightarrow> money option" where
  "accumulated_at T a d =
     map_option (\<lambda>x. prior_depreciation a + x) (accumulated_since_start T a d)"

definition accumulated_at_end :: "time_api \<Rightarrow> fixed_asset \<Rightarrow> fiscal_year \<Rightarrow> money option" where
  "accumulated_at_end T a period = accumulated_at T a (day_after T period)"

definition net_book_value_at_end :: "time_api \<Rightarrow> fixed_asset \<Rightarrow> fiscal_year \<Rightarrow> money option" where
  "net_book_value_at_end T a period = map_option (\<lambda>x. base a - x) (accumulated_at_end T a period)"

definition is_held_during :: "fixed_asset \<Rightarrow> fiscal_year \<Rightarrow> bool" where
  "is_held_during a period \<longleftrightarrow> acquired_on a \<le> fy_end period"

definition fixed_asset_row :: "fixed_asset \<Rightarrow> asset_row" where
  "fixed_asset_row a = row_from_account (as_str (fa_account a))"

section \<open>Assets of an opening balance\<close>

record asset_candidate =
  cand_account :: account_code
  cand_label :: string
  gross :: money
  depreciation :: money

definition candidate_net :: "asset_candidate \<Rightarrow> money" where
  "candidate_net c = gross c - depreciation c"

definition display_candidate :: "asset_candidate \<Rightarrow> string" where
  "display_candidate c =
     as_str (cand_account c) @ '' '' @ cand_label c @ '' : brut '' @ display_money (gross c)
     @ '', amortissements repris '' @ display_money (depreciation c)
     @ '', net '' @ display_money (candidate_net c)"

definition amortises :: "account_code \<Rightarrow> opening_balance_line \<Rightarrow> bool" where
  "amortises expected d \<longleftrightarrow>
     obl_side d = Credit \<and> account_starts_with (obl_account d) ''28''
     \<and> (obl_account d = expected \<or> account_starts_with (obl_account d) (as_str expected)
        \<or> account_starts_with expected (as_str (obl_account d)))"

definition candidate_of :: "opening_balance_line list \<Rightarrow> opening_balance_line \<Rightarrow> asset_candidate option" where
  "candidate_of ls l =
     do { expected \<leftarrow> depreciation_account (obl_account l);
          Some \<lparr>cand_account = obl_account l, cand_label = obl_label l, gross = obl_amount l,
                depreciation = sum_list (map obl_amount (filter (amortises expected) ls))\<rparr> }"

definition fixed_asset_candidates :: "opening_balance_line list \<Rightarrow> asset_candidate list option" where
  "fixed_asset_candidates ls =
     map_option (sort_key (\<lambda>c. as_str (cand_account c)))
       (those (map (candidate_of ls)
          (filter (\<lambda>l. obl_side l = Debit \<and> is_depreciable_account (obl_account l)) ls)))"

section \<open>The 360-day year\<close>

lemma days360_mono:
  assumes "valid_date d" "valid_date e" "d \<le> e"
  shows "days360 a d \<le> days360 a e"
proof (cases d; cases e)
  fix y m k y' m' k'
  assume de: "d = Date y m k" "e = Date y' m' k'"
  define i i' j j' where "i = int m" "i' = int m'" "j = int (min k 30)" "j' = int (min k' 30)"
  note defs = this
  have b: "1 \<le> i" "i \<le> 12" "1 \<le> i'" "i' \<le> 12" "1 \<le> j" "j \<le> 30" "1 \<le> j'" "j' \<le> 30"
    using assms(1,2) by (auto simp: de defs)
  consider "y < y'" | "y = y'" "i < i'" | "y = y'" "i = i'" "j \<le> j'"
    using assms(3) by (auto simp: de defs)
  then have "y * 360 + i * 30 + j \<le> y' * 360 + i' * 30 + j'"
  proof cases
    case 1
    then have "y + 1 \<le> y'" by simp
    with b show ?thesis by simp
  next
    case 2
    then have "i + 1 \<le> i'" by simp
    with b 2 show ?thesis by simp
  qed simp
  then show ?thesis by (simp add: de days360_def defs algebra_simps)
qed

lemma days360_self [simp]: "days360 a a = 0"
  by (simp add: days360_def)

lemma days360_add: "days360 a b + days360 b c = days360 a c"
  by (simp add: days360_def algebra_simps)

context time_crate
begin

text \<open>Adding months lands in the calendar, at the same day or the end of a shorter month.\<close>

lemma add_months_eq:
  assumes "valid_date d" "dyear d + (int (dmonth d) - 1 + int n) div 12 \<le> 9999"
  defines "y \<equiv> dyear d + (int (dmonth d) - 1 + int n) div 12"
    and "m \<equiv> nat ((int (dmonth d) - 1 + int n) mod 12 + 1)"
  shows "add_months T d n = Some (Date y m (min (dday d) (month_length y m)))"
    and "valid_date (Date y m (min (dday d) (month_length y m)))"
proof -
  obtain dy dm dd where d: "d = Date dy dm dd" by (cases d)
  let ?k = "int dm - 1 + int n"
  have k: "0 \<le> ?k" using assms(1) by (simp add: d)
  have "(dy * 12 + ?k) div 12 = dy + ?k div 12" "(dy * 12 + ?k) mod 12 = ?k mod 12" by simp_all
  then have split: "(dy * 12 + int dm - 1 + int n) div 12 = dy + ?k div 12"
    "(dy * 12 + int dm - 1 + int n) mod 12 = ?k mod 12"
    by (simp_all add: algebra_simps)
  have "0 \<le> ?k div 12" using k by (simp add: pos_imp_zdiv_nonneg_iff)
  moreover have "- 9999 \<le> dy" using assms(1) by (simp add: d)
  ultimately have y: "- 9999 \<le> y" "y \<le> 9999" using assms(2) by (simp_all add: y_def d)
  have m: "1 \<le> m" "m \<le> 12"
    using pos_mod_sign [of 12 ?k] pos_mod_bound [of 12 ?k] by (simp_all add: m_def d)
  show v: "valid_date (Date y m (min (dday d) (month_length y m)))"
    using y m assms(1) by (simp add: d)
  show "add_months T d n = Some (Date y m (min (dday d) (month_length y m)))"
    using y m v days_in_month [of m y]
    by (simp add: add_months_def from_calendar_date i32_or_def d Let_def split y_def m_def del: valid_date.simps)
qed

lemma depreciation_end_total:
  assumes "valid_date (acquired_on a)" "duration_months a \<le> 600" "dyear (acquired_on a) \<le> 9900"
  shows "\<exists>e. depreciation_end T a = Some e \<and> valid_date e"
proof -
  have "int (dmonth (acquired_on a)) - 1 + int (duration_months a) \<le> 611"
    using assms(1,2) valid_date_components [OF assms(1)] by simp
  then have "(int (dmonth (acquired_on a)) - 1 + int (duration_months a)) div 12 \<le> 611 div 12"
    by (rule zdiv_mono1) simp
  with assms(3) have "dyear (acquired_on a) + (int (dmonth (acquired_on a)) - 1 + int (duration_months a)) div 12 \<le> 9999"
    by simp
  then show ?thesis
    using add_months_eq [OF assms(1)] by (auto simp: depreciation_end_def)
qed

end

section \<open>The cumulative amount\<close>

text \<open>The hypotheses under which the charges of an asset are computed.\<close>

definition sound_asset :: "fixed_asset \<Rightarrow> bool" where
  "sound_asset a \<longleftrightarrow> asset_validate a = Inr () \<and> in_i64 (base a) \<and> valid_date (acquired_on a)
     \<and> valid_date (depreciated_from a) \<and> dyear (acquired_on a) \<le> 9900"

lemma asset_validate_Inr:
  "asset_validate a = Inr () \<Longrightarrow>
     0 < base a \<and> 0 \<le> prior_depreciation a \<and> prior_depreciation a \<le> base a
     \<and> 1 \<le> duration_months a \<and> duration_months a \<le> 600 \<and> is_depreciable_account (fa_account a)"
  by (auto simp: asset_validate_def split: if_splits)

lemma sound_asset_net:
  "sound_asset a \<Longrightarrow> 0 \<le> net_at_start a \<and> net_at_start a \<le> base a \<and> in_i64 (net_at_start a)"
  using asset_validate_Inr [of a] by (auto simp: sound_asset_def net_at_start_def in_i64_def)

text \<open>The share of the net value after some days out of a total.\<close>

definition straight_line :: "money \<Rightarrow> int \<Rightarrow> int \<Rightarrow> money" where
  "straight_line net len elapsed = (net * elapsed * 2 + len) div (2 * len)"

text \<open>The schedule: nothing before the start, the straight line in between, the net value after.\<close>

definition schedule :: "fixed_asset \<Rightarrow> date \<Rightarrow> date \<Rightarrow> money" where
  "schedule a stop d =
     (let len = days360 (depreciated_from a) stop
      in if d \<le> depreciated_from a then 0
         else if len \<le> 0 \<or> stop \<le> d then net_at_start a
         else straight_line (net_at_start a) len (days360 (depreciated_from a) d))"

lemma div_below: "0 < b \<Longrightarrow> x < n * b \<Longrightarrow> x div b < (n :: int)"
proof (rule ccontr)
  assume b: "0 < b" "x < n * b" "\<not> x div b < n"
  then have "n * b \<le> x div b * b" by (intro mult_right_mono) auto
  moreover have "x div b * b \<le> x" using b(1) div_mult_mod_eq [of x b] pos_mod_sign [of b x] by linarith
  ultimately show False using b(2) by simp
qed

lemma straight_line_bounds:
  assumes "0 \<le> net" "0 < len" "0 \<le> e" "e \<le> len"
  shows "0 \<le> straight_line net len e" "straight_line net len e \<le> net"
proof -
  show "0 \<le> straight_line net len e" using assms by (simp add: straight_line_def pos_imp_zdiv_nonneg_iff)
  have "net * e \<le> net * len" using assms by (intro mult_left_mono) auto
  then have "net * e * 2 + len < (net + 1) * (2 * len)" using assms(2) by (simp add: algebra_simps)
  then have "straight_line net len e < net + 1"
    unfolding straight_line_def using assms(2) by (intro div_below) auto
  then show "straight_line net len e \<le> net" by simp
qed

lemma straight_line_mono:
  assumes "0 \<le> net" "0 < len" "e \<le> e'"
  shows "straight_line net len e \<le> straight_line net len e'"
  unfolding straight_line_def using assms by (intro zdiv_mono1 add_right_mono mult_right_mono mult_left_mono) auto

lemma straight_line_nearest:
  assumes "0 < len"
  shows "\<bar>2 * (straight_line net len e * len - net * e)\<bar> \<le> len"
proof -
  have "2 * len * straight_line net len e + (net * e * 2 + len) mod (2 * len) = net * e * 2 + len"
    unfolding straight_line_def by (rule mult_div_mod_eq)
  moreover have "0 \<le> (net * e * 2 + len) mod (2 * len)" "(net * e * 2 + len) mod (2 * len) < 2 * len"
    using assms by simp_all
  moreover have "2 * (straight_line net len e * len - net * e) =
      2 * len * straight_line net len e - net * e * 2" by (simp add: algebra_simps)
  ultimately show ?thesis by linarith
qed

context time_crate
begin

lemma accumulated_eq:
  assumes "sound_asset a" "valid_date d" "depreciation_end T a = Some stop" "valid_date stop"
  shows "accumulated_since_start T a d = Some (schedule a stop d)"
proof (cases "d \<le> depreciated_from a \<or> net_at_start a \<le> 0 \<or> days360 (depreciated_from a) stop \<le> 0 \<or> stop \<le> d")
  case True
  have "net_at_start a = 0" if "net_at_start a \<le> 0" using that sound_asset_net [OF assms(1)] by simp
  moreover have "straight_line 0 t e = 0" if "0 < t" for t e
    using that by (simp add: straight_line_def div_pos_pos_trivial)
  ultimately show ?thesis
    using True assms(3) sound_asset_net [OF assms(1)]
    by (auto simp: accumulated_since_start_def schedule_def Let_def)
next
  case False
  let ?t = "days360 (depreciated_from a) stop" and ?e = "days360 (depreciated_from a) d"
  have v: "valid_date (depreciated_from a)" using assms(1) by (simp add: sound_asset_def)
  have le: "depreciated_from a \<le> d" "d \<le> stop" using False by auto
  have "0 \<le> ?e" using days360_mono [OF v assms(2) le(1), of "depreciated_from a"] by simp
  moreover have "?e \<le> ?t" by (rule days360_mono [OF assms(2,4) le(2)])
  ultimately have e: "min (max ?e 0) ?t = ?e" "0 \<le> ?e" "?e \<le> ?t" by simp_all
  have net: "0 < net_at_start a" "in_i64 (net_at_start a)" using False sound_asset_net [OF assms(1)] by auto
  have "(net_at_start a * ?e * 2 + ?t) sdiv (2 * ?t) = straight_line (net_at_start a) ?t ?e"
    unfolding straight_line_def using False e net by (intro sdiv_nonneg) auto
  moreover have "in_i64 (straight_line (net_at_start a) ?t ?e)"
    using straight_line_bounds [of "net_at_start a" ?t ?e] net e False by (auto simp: in_i64_def)
  ultimately show ?thesis
    using False assms(3) e by (simp add: accumulated_since_start_def schedule_def Let_def)
qed

lemma schedule_bounds:
  assumes "sound_asset a" "valid_date d" "valid_date stop"
  shows "0 \<le> schedule a stop d" "schedule a stop d \<le> net_at_start a"
proof -
  have v: "valid_date (depreciated_from a)" using assms(1) by (simp add: sound_asset_def)
  have e: "0 \<le> days360 (depreciated_from a) d" if "\<not> d \<le> depreciated_from a"
    using days360_mono [OF v assms(2), of "depreciated_from a"] that by simp
  have t: "days360 (depreciated_from a) d \<le> days360 (depreciated_from a) stop" if "\<not> stop \<le> d"
    using days360_mono [OF assms(2,3)] that by simp
  show "0 \<le> schedule a stop d" "schedule a stop d \<le> net_at_start a"
    using sound_asset_net [OF assms(1)] straight_line_bounds [OF _ _ e t]
    by (auto simp: schedule_def Let_def not_le)
qed

lemma schedule_mono:
  assumes "sound_asset a" "valid_date d" "valid_date d'" "valid_date stop" "d \<le> d'"
  shows "schedule a stop d \<le> schedule a stop d'"
proof -
  have "straight_line (net_at_start a) t (days360 (depreciated_from a) d) \<le>
        straight_line (net_at_start a) t (days360 (depreciated_from a) d')" if "0 < t" for t
    using sound_asset_net [OF assms(1)] days360_mono [OF assms(2,3,5)] that
    by (intro straight_line_mono) simp_all
  moreover note schedule_bounds [OF assms(1,2,4)] schedule_bounds [OF assms(1,3,4)]
  ultimately show ?thesis using assms(5) by (auto simp: schedule_def Let_def not_le split: if_splits)
qed

lemma day_after_eq:
  "valid_date (fy_end p) \<Longrightarrow> fy_end p \<noteq> Date 9999 12 31 \<Longrightarrow> day_after T p = succ_date (fy_end p)"
  by (simp add: day_after_def next_day_total)

lemma depreciation_for_eq:
  assumes "sound_asset a" "valid_date (fy_start p)" "valid_date (day_after T p)"
    and "depreciation_end T a = Some stop" "valid_date stop"
  shows "depreciation_for T a p = Some (schedule a stop (day_after T p) - schedule a stop (fy_start p))"
  using accumulated_eq [OF assms(1) assms(2) assms(4,5)] accumulated_eq [OF assms(1) assms(3) assms(4,5)]
  by (simp add: depreciation_for_def)

end

section \<open>The account of the depreciation\<close>

lemma class_digit:
  assumes "valid_account a" "account_class a = n"
  shows "\<exists>r. as_str a = digit_char n # r"
proof (cases "as_str a")
  case (Cons c r)
  then have "byte c = 48 + n" using assms by (auto simp: valid_account_def account_class_def is_ascii_digit_def byte_def)
  then have "c = digit_char n" unfolding digit_char_def byte_def by (metis char_of_char)
  with Cons show ?thesis by simp
qed (use assms(1) in \<open>simp add: valid_account_def\<close>)

lemma depreciable_two:
  assumes "valid_account a" "is_depreciable_account a"
  shows "\<exists>r. as_str a = CHR ''2'' # r"
proof -
  have "digit_char 2 = CHR ''2''" by code_simp
  then show ?thesis using class_digit [OF assms(1), of 2] assms(2) by (simp add: is_depreciable_account_def)
qed

lemma row_prefix:
  assumes "take 4 s = take 4 (''2'' @ r)" "\<not> starts_with s ''28''" "\<not> starts_with s ''29''"
  shows "row_from_account (''28'' @ r) = row_from_account s"
proof -
  have t: "take k s = take k (''2'' @ r)" if "k \<le> 4" for k
    using assms(1) that by (metis min.absorb1 take_take)
  have "take 2 s = CHR ''2'' # take 1 r" "take 3 s = CHR ''2'' # take 2 r" "take 4 s = CHR ''2'' # take 3 r"
    using t [of 2] t [of 3] t [of 4] by (simp_all add: numeral_eq_Suc)
  then show ?thesis
    using assms(2,3) by (simp add: row_from_account_def Let_def numeral_eq_Suc)
qed

lemma depreciation_account_digits:
  assumes "valid_account a" "as_str a = CHR ''2'' # r"
  shows "\<exists>k. depreciation_account a = Some (AccountCode (''28'' @ take k r))
     \<and> valid_account (AccountCode (''28'' @ take k r)) \<and> (3 \<le> k \<or> length r \<le> k)"
proof -
  let ?out = "''28'' @ r"
  let ?popped = "if 6 < length ?out \<and> List.last ?out = CHR ''0'' then butlast ?out else ?out"
  let ?k = "min (if 6 < length ?out \<and> List.last ?out = CHR ''0'' then length r - 1 else length r) 10"
  have r: "2 \<le> length r" "length r \<le> 11" "list_all is_ascii_digit r"
    using assms by (simp_all add: valid_account_def)
  let ?n = "if 6 < length ?out \<and> List.last ?out = CHR ''0'' then length r - 1 else length r"
  have "r \<noteq> []" using r(1) by auto
  then have "?popped = ''28'' @ take ?n r" using butlast_conv_take [of r] by simp
  then have "take 12 ?popped = ''28'' @ take 10 (take ?n r)" by simp
  also have "take 10 (take ?n r) = take ?k r" unfolding take_take by (simp only: min.commute)
  finally have shape: "take 12 ?popped = ''28'' @ take ?k r" .
  have "list_all is_ascii_digit (take ?k r)" using r(3) by (auto simp: list_all_iff dest: in_set_takeD)
  then have v: "valid_account (AccountCode (''28'' @ take ?k r))"
    using r by (auto simp: valid_account_def is_ascii_digit_def)
  have "depreciation_account a = (case account_code_parse (take 12 ?popped) of Inl _ \<Rightarrow> None | Inr a \<Rightarrow> Some a)"
    by (simp add: depreciation_account_def Let_def assms(2))
  also have "\<dots> = Some (AccountCode (''28'' @ take ?k r))"
    unfolding shape using account_code_parse_digits [OF v] by simp
  finally show ?thesis using v r by (intro exI [of _ ?k]) auto
qed

section \<open>Properties\<close>

text \<open>At any two dates the cumulative depreciation of a valid asset is defined, never below the
  amount taken over, never above the base, and never decreases from the earlier to the later; from
  the end of the schedule on it is the base.\<close>

lemma accumulated_at_bounded_monotone:
  assumes "time_crate T" "sound_asset a" "valid_date d" "valid_date d'" "d \<le> d'"
  shows "\<exists>x x' stop. accumulated_at T a d = Some x \<and> accumulated_at T a d' = Some x'
     \<and> prior_depreciation a \<le> x \<and> x \<le> x' \<and> x' \<le> base a
     \<and> depreciation_end T a = Some stop
     \<and> (stop \<le> d \<and> depreciated_from a < d \<longrightarrow> x = base a)"
proof -
  obtain stop where stop: "depreciation_end T a = Some stop" "valid_date stop"
    using time_crate.depreciation_end_total [OF assms(1)] asset_validate_Inr assms(2)
    by (metis sound_asset_def)
  note eq = time_crate.accumulated_eq [OF assms(1,2) _ stop]
  note bounds = time_crate.schedule_bounds [OF assms(1,2) _ stop(2)]
  have "schedule a stop d = net_at_start a" if "stop \<le> d" "depreciated_from a < d"
    using that by (auto simp: schedule_def Let_def)
  then show ?thesis
    using eq [OF assms(3)] eq [OF assms(4)] bounds [OF assms(3)] bounds [OF assms(4)]
      time_crate.schedule_mono [OF assms(1,2,3,4) stop(2) assms(5)] stop(1)
    by (auto simp: accumulated_at_def net_at_start_def)
qed

definition sample_asset :: fixed_asset where
  "sample_asset =
     \<lparr>fa_id = ''0192'', fa_label = ''Laptop'', fa_account = AccountCode ''218300'',
      acquired_on = Date 2024 3 15, base = 120000, duration_months = 36,
      depreciated_from = Date 2025 10 1, prior_depreciation = 60000, fa_expense_id = None,
      fa_revision = 1, fa_created_at = 0\<rparr>"

lemma sample_asset_sound: "sound_asset sample_asset"
  by (simp add: sound_asset_def sample_asset_def in_i64_def) code_simp

text \<open>Fiscal years that follow one another day for day.\<close>

fun contiguous :: "time_api \<Rightarrow> fiscal_year list \<Rightarrow> bool" where
  "contiguous T [] \<longleftrightarrow> True"
| "contiguous T [p] \<longleftrightarrow> True"
| "contiguous T (p # q # ps) \<longleftrightarrow> fy_start q = day_after T p \<and> contiguous T (q # ps)"

lemma charges_telescope:
  assumes "time_crate T" "sound_asset a" "depreciation_end T a = Some stop" "valid_date stop"
    and "ps \<noteq> []" "contiguous T ps"
    and "\<forall>p \<in> set ps. valid_date (fy_start p) \<and> valid_date (day_after T p) \<and> fy_start p \<le> day_after T p"
  shows "\<exists>xs. those (map (depreciation_for T a) ps) = Some xs \<and> (\<forall>x \<in> set xs. 0 \<le> x)
     \<and> sum_list xs = schedule a stop (day_after T (List.last ps)) - schedule a stop (fy_start (hd ps))"
  using assms(5-7)
proof (induction ps rule: induct_list012)
  case (2 p)
  then show ?case
    using time_crate.depreciation_for_eq [OF assms(1,2) _ _ assms(3,4), of p]
      time_crate.schedule_mono [OF assms(1,2) _ _ assms(4), of "fy_start p" "day_after T p"] by simp
next
  case (3 p q ps)
  then obtain xs where xs: "those (map (depreciation_for T a) (q # ps)) = Some xs" "\<forall>x \<in> set xs. 0 \<le> x"
    "sum_list xs = schedule a stop (day_after T (List.last (q # ps))) - schedule a stop (fy_start q)"
    by auto
  then show ?case
    using 3(3-5) time_crate.depreciation_for_eq [OF assms(1,2) _ _ assms(3,4), of p]
      time_crate.schedule_mono [OF assms(1,2) _ _ assms(4), of "fy_start p" "day_after T p"]
    by (intro exI [of _ "(schedule a stop (day_after T p) - schedule a stop (fy_start p)) # xs"]) simp
qed simp

text \<open>Over fiscal years that follow one another, from one that starts no later than the schedule
  to one that reaches its end, the annual charges are never negative and add up exactly to the net
  value at the start: no cent is lost or created by the rounding of each year.\<close>

lemma charges_add_up_to_net_value:
  assumes "time_crate T" "sound_asset a" "ps \<noteq> []" "contiguous T ps"
    and "\<forall>p \<in> set ps. valid_date (fy_start p) \<and> valid_date (fy_end p) \<and> fy_start p \<le> fy_end p
          \<and> fy_end p < Date 9999 12 31"
    and "fy_start (hd ps) \<le> depreciated_from a" "depreciated_from a \<le> fy_end (List.last ps)"
    and "\<forall>stop. depreciation_end T a = Some stop \<longrightarrow> stop \<le> succ_date (fy_end (List.last ps))"
  shows "\<exists>xs. those (map (depreciation_for T a) ps) = Some xs \<and> (\<forall>x \<in> set xs. 0 \<le> x)
     \<and> sum_list xs = net_at_start a"
proof -
  obtain stop where stop: "depreciation_end T a = Some stop" "valid_date stop"
    using time_crate.depreciation_end_total [OF assms(1)] asset_validate_Inr assms(2)
    by (metis sound_asset_def)
  have after: "day_after T p = succ_date (fy_end p)" "valid_date (day_after T p)" "fy_start p \<le> day_after T p"
    if "p \<in> set ps" for p
  proof -
    have p: "valid_date (fy_end p)" "fy_end p \<noteq> Date 9999 12 31" "fy_start p \<le> fy_end p"
      using assms(5) that by auto
    show "day_after T p = succ_date (fy_end p)" by (rule time_crate.day_after_eq [OF assms(1) p(1,2)])
    then show "valid_date (day_after T p)" "fy_start p \<le> day_after T p"
      using p valid_succ_date succ_date_greater [OF p(1)] by auto
  qed
  have final: "List.last ps \<in> set ps" using assms(3) by simp
  have "depreciated_from a < day_after T (List.last ps)"
    using assms(5,7) after(1) [OF final] succ_date_greater [of "fy_end (List.last ps)"] final by force
  then have "schedule a stop (day_after T (List.last ps)) = net_at_start a"
    using assms(8) stop(1) after(1) [OF final] by (auto simp: schedule_def Let_def)
  moreover have "schedule a stop (fy_start (hd ps)) = 0" using assms(6) by (simp add: schedule_def)
  ultimately show ?thesis
    using charges_telescope [OF assms(1,2) stop assms(3,4)] after assms(5) by auto
qed

definition sample_exercises :: "fiscal_year list" where
  "sample_exercises =
     [fiscal_year_new (Date 2025 10 1) (Date 2026 9 30), fiscal_year_new (Date 2026 10 1) (Date 2027 9 30)]"

text \<open>For every depreciable account the 28x account exists, has between four and twelve digits,
  and form 2033-C files it on the row of the asset it depreciates.\<close>

lemma depreciation_account_same_row:
  assumes "valid_account a" "is_depreciable_account a"
  shows "\<exists>d. depreciation_account a = Some d \<and> valid_account d \<and> 4 \<le> length (as_str d)
     \<and> account_starts_with d ''28'' \<and> row_from_account (as_str d) = row_from_account (as_str a)"
proof -
  obtain r where r: "as_str a = CHR ''2'' # r" using depreciable_two [OF assms] by blast
  obtain k where k: "depreciation_account a = Some (AccountCode (''28'' @ take k r))"
    "valid_account (AccountCode (''28'' @ take k r))" "3 \<le> k \<or> length r \<le> k"
    using depreciation_account_digits [OF assms(1) r] by blast
  have "take 4 (as_str a) = take 4 (''2'' @ take k r)"
    using k(3) by (auto simp: r numeral_eq_Suc min_def)
  moreover have "\<not> starts_with (as_str a) ''28''" "\<not> starts_with (as_str a) ''29''"
    using assms(2) by (simp_all add: is_depreciable_account_def account_starts_with_def)
  ultimately have "row_from_account (''28'' @ take k r) = row_from_account (as_str a)"
    by (rule row_prefix)
  moreover have "2 \<le> length (take k r)" using assms(1) k(3) r by (auto simp: valid_account_def)
  ultimately show ?thesis using k(1,2) by (simp add: account_starts_with_def)
qed

text \<open>
  A shared depreciation account is read once for every asset account it may belong to: a balanced
  opening balance with one 28x line of 1000.00 yields two candidates that both claim all of it.
\<close>

definition shared_opening :: opening_balance where
  "shared_opening =
     \<lparr>opens_on = Date 2025 10 1, ob_source = None,
      ob_lines = map (\<lambda>(n, sd, m). \<lparr>obl_account = AccountCode n, obl_label = ''x'', obl_side = sd, obl_amount = m\<rparr>)
        [(''2183'', Debit, 300000), (''2184'', Debit, 200000), (''281'', Credit, 100000), (''101'', Credit, 400000)],
      tax_losses = 0\<rparr>"

lemma candidates_count_twice:
  "opening_validate shared_opening = Inr () \<and>
   map_option (map depreciation) (fixed_asset_candidates (ob_lines shared_opening)) = Some [100000, 100000] \<and>
   sum_list (map obl_amount (filter (\<lambda>l. obl_side l = Credit \<and> account_starts_with (obl_account l) ''28'')
     (ob_lines shared_opening))) = 100000"
  by code_simp

end
