(* ===== verification/Vat.thy ===== *)
theory Vat
  imports Siren Money
begin

text \<open>
  \<open>domain/vat.rs\<close> and \<open>domain/vat_filing.rs\<close>: the French VAT rates and the official grid of the
  day by which the monthly CA3 return is filed. A \<open>char\<close> that stands for an initial is its code
  point.
\<close>

section \<open>Rates\<close>

datatype vat_rate = Standard | Intermediate | Reduced | SuperReduced | Zero

fun basis_points :: "vat_rate \<Rightarrow> nat" where
  "basis_points Standard = 2000"
| "basis_points Intermediate = 1000"
| "basis_points Reduced = 550"
| "basis_points SuperReduced = 210"
| "basis_points Zero = 0"

fun vat_rate_as_str :: "vat_rate \<Rightarrow> string" where
  "vat_rate_as_str Standard = ''standard''"
| "vat_rate_as_str Intermediate = ''intermediate''"
| "vat_rate_as_str Reduced = ''reduced''"
| "vat_rate_as_str SuperReduced = ''super_reduced''"
| "vat_rate_as_str Zero = ''zero''"

definition tax_on :: "vat_rate \<Rightarrow> money \<Rightarrow> money option" where
  "tax_on r amount = apply_rate_bps amount (basis_points r)"

definition VatRate_ALL :: "vat_rate list" where
  "VatRate_ALL = [Standard, Intermediate, Reduced, SuperReduced, Zero]"

definition vat_rate_from_str :: "string \<Rightarrow> string + vat_rate" where
  "vat_rate_from_str s =
     (if s = ''standard'' then Inr Standard
      else if s = ''intermediate'' then Inr Intermediate
      else if s = ''reduced'' then Inr Reduced
      else if s = ''super_reduced'' then Inr SuperReduced
      else if s = ''zero'' then Inr Zero
      else Inl s)"

lemma basis_points_le [simp]: "basis_points r \<le> 10000"
  by (cases r) simp_all

lemma VatRate_ALL_complete: "set VatRate_ALL = UNIV" "distinct VatRate_ALL"
  by (auto simp: VatRate_ALL_def intro: vat_rate.exhaust)

lemma tax_on_total [griffe_range]:
  "in_i64 m \<Longrightarrow> m \<noteq> - (2 ^ 63) \<Longrightarrow>
     tax_on r m = Some (round_half_to_even (m * int (basis_points r)) 10000)"
  unfolding tax_on_def by (rule apply_rate_bps_total) simp_all

section \<open>The filing day of the CA3\<close>

datatype vat_filing_zone = ParisPetiteCouronne | OtherDepartments

definition zone_from_postal_code :: "string \<Rightarrow> vat_filing_zone" where
  "zone_from_postal_code postal_code =
     (let ds = take 2 (concat (filter (\<lambda>c. case c of [b] \<Rightarrow> is_ascii_digit b | _ \<Rightarrow> False)
                 (chars postal_code)))
      in if ds = ''75'' \<or> ds = ''92'' \<or> ds = ''93'' \<or> ds = ''94'' then ParisPetiteCouronne
         else OtherDepartments)"

fun zone_as_str :: "vat_filing_zone \<Rightarrow> string" where
  "zone_as_str ParisPetiteCouronne = ''si'' @ e_grave @ ''ge '' @ [CHR 0xC3, CHR 0xA0] @ '' Paris/92/93/94''"
| "zone_as_str OtherDepartments = ''si'' @ e_grave @ ''ge hors Paris/92/93/94''"

datatype vat_filer_category = SoleTrader nat | Company | PublicLimitedCompany | OtherFiler

text \<open>The letters whose accent is dropped, as the second byte of their two-byte encoding.\<close>

definition unaccent :: "string \<Rightarrow> string" where
  "unaccent c =
     (case c of
        [a, b] \<Rightarrow>
          if byte a \<noteq> 0xC3 then c
          else if byte b \<in> {0xA0, 0xA2, 0xA4, 0x80, 0x82, 0x84} then ''A''
          else if byte b \<in> {0xA9, 0xA8, 0xAA, 0xAB, 0x89, 0x88, 0x8A, 0x8B} then ''E''
          else if byte b \<in> {0xAE, 0xAF, 0x8E, 0x8F} then ''I''
          else if byte b \<in> {0xB4, 0xB6, 0x94, 0x96} then ''O''
          else if byte b \<in> {0xB9, 0xBB, 0xBC, 0x99, 0x9B, 0x9C} then ''U''
          else if byte b \<in> {0xA7, 0x87} then ''C''
          else c
      | [a] \<Rightarrow> [to_ascii_uppercase a]
      | _ \<Rightarrow> c)"

definition normalize_label :: "string \<Rightarrow> string" where
  "normalize_label label =
     concat (filter (\<lambda>c. case c of [b] \<Rightarrow> is_ascii_alphanumeric b | _ \<Rightarrow> False)
       (map unaccent (chars label)))"

definition category_from_legal_form :: "string \<Rightarrow> string \<Rightarrow> vat_filer_category" where
  "category_from_legal_form legal_form name =
     (let form = normalize_label legal_form;
          is_sole_trader = (form = ''EI'' \<or> form = ''EIRL'' \<or> contains form ''INDIVIDUEL''
             \<or> contains form ''MICRO'' \<or> contains form ''AUTOENTREPRENEUR'')
      in if is_sole_trader
         then SoleTrader (case find is_ascii_alphabetic (normalize_label name) of
                None \<Rightarrow> byte (CHR ''A'') | Some c \<Rightarrow> byte c)
         else if form = ''SA'' \<or> form = ''SAS'' \<or> form = ''SASU'' \<or> contains form ''ANONYME''
              \<or> contains form ''ACTIONSSIMPLIFIEE'' then PublicLimitedCompany
         else if starts_with form ''ASSO'' \<or> contains form ''COLLECTIVITE'' then OtherFiler
         else Company)"

fun category_as_str :: "vat_filer_category \<Rightarrow> string" where
  "category_as_str (SoleTrader _) = ''entreprise individuelle''"
| "category_as_str Company = ''soci'' @ e_acute @ ''t'' @ e_acute @ '' hors SA''"
| "category_as_str PublicLimitedCompany = ''SA/SAS''"
| "category_as_str OtherFiler = ''autre redevable''"

record ca3_filing_rule =
  zone :: vat_filing_zone
  category :: vat_filer_category
  siren_leading_pair :: nat
  filing_rule_day :: nat

definition EARLIEST_DAY :: nat where
  "EARLIEST_DAY = 15"

fun filing_day :: "vat_filing_zone \<Rightarrow> vat_filer_category \<Rightarrow> nat \<Rightarrow> nat" where
  "filing_day ParisPetiteCouronne (SoleTrader initial) _ = (if initial \<le> byte (CHR ''H'') then 15 else 17)"
| "filing_day OtherDepartments (SoleTrader initial) _ = (if initial \<le> byte (CHR ''H'') then 16 else 19)"
| "filing_day ParisPetiteCouronne Company pair =
     (if pair \<le> 68 then 19 else if pair \<le> 78 then 20 else 21)"
| "filing_day OtherDepartments Company _ = 21"
| "filing_day ParisPetiteCouronne PublicLimitedCompany pair = (if pair \<le> 74 then 23 else 24)"
| "filing_day OtherDepartments PublicLimitedCompany _ = 24"
| "filing_day _ OtherFiler _ = 24"

definition ca3_derive :: "string \<Rightarrow> string \<Rightarrow> siren \<Rightarrow> string \<Rightarrow> ca3_filing_rule" where
  "ca3_derive legal_form name s postal_code =
     (let z = zone_from_postal_code postal_code;
          c = category_from_legal_form legal_form name;
          pair = leading_pair s
      in \<lparr>zone = z, category = c, siren_leading_pair = pair, filing_rule_day = filing_day z c pair\<rparr>)"

section \<open>Properties\<close>

text \<open>Whatever the legal form, name, SIREN and postal code of the profile, the derived filing day
  lies between the earliest day of the grid and the 24th, and a seat in the Paris area never files
  later than the same filer elsewhere.\<close>

lemma ca3_filing_day_in_grid:
  "EARLIEST_DAY \<le> filing_rule_day (ca3_derive form name s postal)
   \<and> filing_rule_day (ca3_derive form name s postal) \<le> 24
   \<and> filing_day ParisPetiteCouronne c pair \<le> filing_day OtherDepartments c pair"
proof -
  have "EARLIEST_DAY \<le> filing_day z c pair \<and> filing_day z c pair \<le> 24" for z c pair
    by (cases z; cases c) (simp_all add: EARLIEST_DAY_def)
  moreover have "filing_day ParisPetiteCouronne c pair \<le> filing_day OtherDepartments c pair"
    by (cases c) simp_all
  ultimately show ?thesis by (simp add: ca3_derive_def Let_def)
qed

end
