(* ===== verification/Facts.thy ===== *)
theory Facts
  imports Vat Asset
begin

text \<open>
  The domain records the accounting is derived from: \<open>domain/invoice.rs\<close>, \<open>domain/payment.rs\<close>,
  \<open>domain/expense.rs\<close>, \<open>domain/settlement.rs\<close>, \<open>domain/client.rs\<close>, \<open>company.rs\<close> and the closed
  fiscal year of \<open>fiscal_year.rs\<close>. Identifiers are the text of their UUID, time stamps numbers, and
  an \<open>f64\<close> quantity its number of hundredths.
\<close>

type_synonym uuid = string
type_synonym offset_date_time = int

section \<open>Invoices\<close>

datatype invoice_status = Issued | PartiallyPaid | Paid | Overdue | Cancelled

datatype invoice_origin = OriginIssued | OriginImported

fun origin_as_str :: "invoice_origin \<Rightarrow> string" where
  "origin_as_str OriginIssued = ''issued''"
| "origin_as_str OriginImported = ''imported''"

definition origin_from_str :: "string \<Rightarrow> string + invoice_origin" where
  "origin_from_str s =
     (if s = ''issued'' then Inr OriginIssued
      else if s = ''imported'' then Inr OriginImported else Inl s)"

record invoice_line =
  il_description :: string
  quantity :: int
  unit_price :: money
  il_vat_rate :: vat_rate

record invoice =
  inv_id :: uuid
  inv_number :: string
  inv_client_id :: uuid
  inv_mission_id :: "uuid option"
  inv_lines :: "invoice_line list"
  inv_status :: invoice_status
  origin :: invoice_origin
  issued_on :: date
  due_on :: date
  previous_hash :: "string option"
  inv_hash :: string
  credited_invoice_id :: "uuid option"

record invoice_write_off =
  wo_id :: uuid
  wo_invoice_id :: uuid
  written_off_on :: date
  wo_ht :: money
  wo_vat :: money
  wo_ttc :: money
  recovers_vat :: bool
  retracted_on :: "date option"

section \<open>Payments and bank statements\<close>

datatype payment_method = BankTransfer | Check | Card | OtherMethod

fun method_as_str :: "payment_method \<Rightarrow> string" where
  "method_as_str BankTransfer = ''bank_transfer''"
| "method_as_str Check = ''check''"
| "method_as_str Card = ''card''"
| "method_as_str OtherMethod = ''other''"

definition method_from_str :: "string \<Rightarrow> string + payment_method" where
  "method_from_str s =
     (if s = ''bank_transfer'' then Inr BankTransfer
      else if s = ''check'' then Inr Check
      else if s = ''card'' then Inr Card
      else if s = ''other'' then Inr OtherMethod else Inl s)"

record payment =
  pay_id :: uuid
  pay_invoice_id :: uuid
  pay_amount :: money
  received_on :: date
  pay_method :: payment_method
  bank_transaction_id :: "uuid option"
  voided_at :: "offset_date_time option"

definition is_voided :: "payment \<Rightarrow> bool" where
  "is_voided p \<longleftrightarrow> voided_at p \<noteq> None"

datatype settlement_account = SettlementAccount (settlement_code: account_code)

datatype settlement_account_error =
    SettlementCode account_code_error
  | NotBalanceSheet string nat
  | IsBank string

definition settlement_new :: "account_code \<Rightarrow> settlement_account_error + settlement_account" where
  "settlement_new code =
     (if \<not> is_balance_sheet code then Inl (NotBalanceSheet (as_str code) (account_class code))
      else if account_starts_with code ''512'' then Inl (IsBank (as_str code))
      else Inr (SettlementAccount code))"

definition settlement_from_str :: "string \<Rightarrow> settlement_account_error + settlement_account" where
  "settlement_from_str s =
     (case account_code_parse s of
        Inl e \<Rightarrow> Inl (SettlementCode e)
      | Inr code \<Rightarrow> settlement_new code)"

definition settlement_as_str :: "settlement_account \<Rightarrow> string" where
  "settlement_as_str a = as_str (settlement_code a)"

record bank_transaction =
  tx_id :: uuid
  occurred_on :: date
  amount_cents :: int
  tx_description :: string
  matched_invoice_id :: "uuid option"
  matched_expense_id :: "uuid option"
  tx_settlement_account :: "settlement_account option"
  settlement_label :: "string option"
  fitid :: "string option"

definition is_matched :: "bank_transaction \<Rightarrow> bool" where
  "is_matched t \<longleftrightarrow> matched_invoice_id t \<noteq> None \<or> matched_expense_id t \<noteq> None
     \<or> tx_settlement_account t \<noteq> None"

definition is_settled :: "bank_transaction \<Rightarrow> bool" where
  "is_settled t \<longleftrightarrow> tx_settlement_account t \<noteq> None"

definition is_debit :: "bank_transaction \<Rightarrow> bool" where
  "is_debit t \<longleftrightarrow> amount_cents t < 0"

section \<open>Expenses\<close>

datatype expense_category =
    Software | Equipment | Travel | Meals | Office | Professional | Fees | BankCharges | Taxes
  | OtherExpense

definition ExpenseCategory_ALL :: "expense_category list" where
  "ExpenseCategory_ALL =
     [Software, Equipment, Travel, Meals, Office, Professional, Fees, BankCharges, Taxes, OtherExpense]"

fun category_code :: "expense_category \<Rightarrow> string" where
  "category_code Software = ''software''"
| "category_code Equipment = ''equipment''"
| "category_code Travel = ''travel''"
| "category_code Meals = ''meals''"
| "category_code Office = ''office''"
| "category_code Professional = ''professional''"
| "category_code Fees = ''fees''"
| "category_code BankCharges = ''bank_charges''"
| "category_code Taxes = ''taxes''"
| "category_code OtherExpense = ''other''"

definition category_from_str :: "string \<Rightarrow> string + expense_category" where
  "category_from_str s =
     (if s = ''software'' then Inr Software
      else if s = ''equipment'' then Inr Equipment
      else if s = ''travel'' then Inr Travel
      else if s = ''meals'' then Inr Meals
      else if s = ''office'' then Inr Office
      else if s = ''professional'' then Inr Professional
      else if s = ''fees'' then Inr Fees
      else if s = ''bank_charges'' then Inr BankCharges
      else if s = ''taxes'' then Inr Taxes
      else if s = ''other'' then Inr OtherExpense
      else Inl s)"

datatype expense_paid_by = PaidByCompany | PaidByAssociate

fun paid_by_as_str :: "expense_paid_by \<Rightarrow> string" where
  "paid_by_as_str PaidByCompany = ''company''"
| "paid_by_as_str PaidByAssociate = ''associate''"

definition paid_by_from_str :: "string \<Rightarrow> string + expense_paid_by" where
  "paid_by_from_str s =
     (if s = ''company'' then Inr PaidByCompany
      else if s = ''associate'' then Inr PaidByAssociate else Inl s)"

record expense =
  exp_id :: uuid
  exp_label :: string
  exp_category :: expense_category
  exp_amount :: money
  exp_vat_rate :: vat_rate
  vat_deductible :: money
  incurred_on :: date
  receipt_hash :: "string option"
  receipt_filename :: "string option"
  supplier :: "string option"
  paid_by :: expense_paid_by
  reverse_charge :: bool
  exp_created_at :: offset_date_time
  exp_revision :: int

section \<open>Clients and the company\<close>

record address =
  street :: string
  postal_code :: string
  city :: string
  address_country :: string

record client =
  client_id :: uuid
  client_name :: string
  client_siren :: "siren option"
  client_vat_number :: "vat_number option"
  client_address :: "address option"
  switchboard_email :: "string option"
  switchboard_phone :: "string option"
  client_created_at :: offset_date_time
  client_revision :: int
  client_archived_at :: "offset_date_time option"

record company_profile =
  cp_name :: string
  legal_form :: string
  cp_siren :: siren
  cp_vat_number :: "vat_number option"
  cp_address :: address
  cp_share_capital :: "money option"
  rcs_city :: "string option"
  iban :: "string option"
  fiscal_year_end_of :: "fiscal_year_end option"
  vat_regime_of :: "vat_regime option"
  director_monthly_gross :: "money option"
  director_charge_ratio_bps :: "nat option"
  president_name :: "string option"
  sole_shareholder_name :: "string option"
  sole_shareholder_address :: "string option"
  share_count :: "nat option"

section \<open>Closed fiscal years\<close>

record fiscal_year_record =
  fyr_id :: uuid
  starts_on :: date
  ends_on :: date
  fyr_revenue_ht :: money
  fyr_expenses :: money
  fyr_director_remuneration :: money
  fyr_depreciation :: money
  fyr_result_before_tax :: money
  fyr_losses_imputed :: money
  fyr_corporate_tax :: money
  fyr_carried_back :: money
  fyr_carry_back_credit :: money
  fyr_net_result :: money
  fyr_legal_reserve :: money
  fyr_dividends :: money
  fyr_retained_earnings :: money
  fyr_non_deductible_expenses :: money
  losses_carried_forward :: money
  approved_on :: "date option"
  fyr_revision :: int
  fyr_created_at :: offset_date_time

definition fyr_period :: "fiscal_year_record \<Rightarrow> fiscal_year" where
  "fyr_period r = fiscal_year_new (starts_on r) (ends_on r)"

definition is_approved :: "fiscal_year_record \<Rightarrow> bool" where
  "is_approved r \<longleftrightarrow> approved_on r \<noteq> None"

definition fyr_taxable_result :: "fiscal_year_record \<Rightarrow> money" where
  "fyr_taxable_result r =
     fyr_result_before_tax r + fyr_non_deductible_expenses r - fyr_losses_imputed r"

definition fyr_deficit :: "fiscal_year_record \<Rightarrow> money" where
  "fyr_deficit r = max (- fyr_taxable_result r) 0"

definition losses_available_before :: "fiscal_year_record \<Rightarrow> money" where
  "losses_available_before r =
     losses_carried_forward r + fyr_losses_imputed r - (fyr_deficit r - fyr_carried_back r)"

section \<open>Properties\<close>

text \<open>Every enumeration stored as text reads back as itself: VAT rates, invoice origins, payment
  methods, expense categories, payers and VAT regimes.\<close>

lemma stored_text_roundtrip:
  "vat_rate_from_str (vat_rate_as_str a) = Inr a
   \<and> origin_from_str (origin_as_str b) = Inr b
   \<and> method_from_str (method_as_str c) = Inr c
   \<and> category_from_str (category_code d) = Inr d
   \<and> paid_by_from_str (paid_by_as_str e) = Inr e
   \<and> vat_regime_from_str (vat_regime_as_str f) = Inr f"
proof -
  have "vat_rate_from_str (vat_rate_as_str a) = Inr a" by (cases a) (simp_all add: vat_rate_from_str_def)
  moreover have "origin_from_str (origin_as_str b) = Inr b" by (cases b) (simp_all add: origin_from_str_def)
  moreover have "method_from_str (method_as_str c) = Inr c" by (cases c) (simp_all add: method_from_str_def)
  moreover have "category_from_str (category_code d) = Inr d" by (cases d) (simp_all add: category_from_str_def)
  moreover have "paid_by_from_str (paid_by_as_str e) = Inr e" by (cases e) (simp_all add: paid_by_from_str_def)
  moreover have "vat_regime_from_str (vat_regime_as_str f) = Inr f" by (cases f) (simp_all add: vat_regime_from_str_def)
  ultimately show ?thesis by blast
qed

end
