(* ===== verification/Billing.thy ===== *)
theory Billing
  imports Facts
begin

text \<open>
  \<open>billing/totals.rs\<close>: the totals of an invoice, its VAT rounded once per rate. The canonical form
  and the hash of the same file are in \<open>Invoicing\<close>.
\<close>

section \<open>Definitions\<close>

definition line_amount_ht :: "invoice_line \<Rightarrow> money option" where
  "line_amount_ht l = multiply_by_quantity (unit_price l) (quantity l)"

record vat_breakdown_line =
  vb_rate :: vat_rate
  taxable_amount :: money
  vat_amount :: money

record invoice_totals =
  subtotal_ht :: money
  vat_breakdown :: "vat_breakdown_line list"
  total_vat :: money
  total_ttc :: money

definition breakdown_line :: "invoice_line list \<Rightarrow> vat_rate \<Rightarrow> vat_breakdown_line option" where
  "breakdown_line ls r =
     do { amounts \<leftarrow> those (map line_amount_ht (filter (\<lambda>l. il_vat_rate l = r) ls));
          let taxable = sum_list amounts;
          vat \<leftarrow> apply_rate_bps taxable (basis_points r);
          Some \<lparr>vb_rate = r, taxable_amount = taxable, vat_amount = vat\<rparr> }"

definition compute_totals :: "invoice_line list \<Rightarrow> invoice_totals option" where
  "compute_totals ls =
     do { amounts \<leftarrow> those (map line_amount_ht ls);
          let subtotal = sum_list amounts;
          breakdown \<leftarrow> those (map (breakdown_line ls)
             (filter (\<lambda>r. \<exists>l \<in> set ls. il_vat_rate l = r) VatRate_ALL));
          let vat = sum_list (map vat_amount breakdown);
          Some \<lparr>subtotal_ht = subtotal, vat_breakdown = breakdown, total_vat = vat,
                total_ttc = subtotal + vat\<rparr> }"

section \<open>Lists of fallible computations\<close>

lemma those_Some: "those xs = Some ys \<longleftrightarrow> xs = map Some ys"
proof (induction xs arbitrary: ys)
  case (Cons x xs)
  then show ?case by (cases x; cases ys) (auto split: option.splits)
qed auto

lemma those_map_Some: "those (map f xs) = Some ys \<longleftrightarrow> list_all2 (\<lambda>x y. f x = Some y) xs ys"
  unfolding those_Some by (induction xs arbitrary: ys) (auto simp: list_all2_Cons1 map_eq_Cons_conv Cons_eq_map_conv)

lemma those_map_the: "those (map f xs) = Some ys \<Longrightarrow> ys = map (\<lambda>x. the (f x)) xs"
  unfolding those_map_Some by (induction rule: list_all2_induct) auto

lemma those_map_total: "(\<forall>x \<in> set xs. f x = Some (g x)) \<Longrightarrow> those (map f xs) = Some (map g xs)"
  by (induction xs) auto

lemma those_map_dom: "those (map f xs) = Some ys \<Longrightarrow> x \<in> set xs \<Longrightarrow> f x = Some (the (f x))"
  unfolding those_map_Some by (induction rule: list_all2_induct) auto

section \<open>The breakdown\<close>

definition amount_of :: "invoice_line \<Rightarrow> money" where
  "amount_of l = the (line_amount_ht l)"

definition taxable_at :: "invoice_line list \<Rightarrow> vat_rate \<Rightarrow> money" where
  "taxable_at ls r = sum_list (map amount_of (filter (\<lambda>l. il_vat_rate l = r) ls))"

definition vat_at :: "invoice_line list \<Rightarrow> vat_rate \<Rightarrow> money" where
  "vat_at ls r = round_half_to_even (taxable_at ls r * int (basis_points r)) 10000"

definition rates_of :: "invoice_line list \<Rightarrow> vat_rate list" where
  "rates_of ls = filter (\<lambda>r. \<exists>l \<in> set ls. il_vat_rate l = r) VatRate_ALL"

lemma breakdown_line_Some:
  "breakdown_line ls r = Some b \<Longrightarrow>
     b = \<lparr>vb_rate = r, taxable_amount = taxable_at ls r, vat_amount = vat_at ls r\<rparr>"
  by (auto simp: breakdown_line_def taxable_at_def vat_at_def amount_of_def [abs_def] Let_def apply_rate_bps_def
      i64_try_from_eq_Some dest!: those_map_the split: bind_splits)

lemma compute_totals_Some:
  assumes "compute_totals ls = Some t"
  shows "subtotal_ht t = sum_list (map amount_of ls)"
    and "vat_breakdown t = map (\<lambda>r. \<lparr>vb_rate = r, taxable_amount = taxable_at ls r, vat_amount = vat_at ls r\<rparr>) (rates_of ls)"
    and "total_vat t = sum_list (map (vat_at ls) (rates_of ls))"
    and "total_ttc t = subtotal_ht t + total_vat t"
proof -
  from assms obtain bs where bs: "those (map (breakdown_line ls) (rates_of ls)) = Some bs"
    and t: "t = \<lparr>subtotal_ht = sum_list (map amount_of ls), vat_breakdown = bs,
      total_vat = sum_list (map vat_amount bs), total_ttc = sum_list (map amount_of ls) + sum_list (map vat_amount bs)\<rparr>"
    by (auto simp: compute_totals_def rates_of_def amount_of_def [abs_def] Let_def dest!: those_map_the split: bind_splits)
  have "bs = map (\<lambda>r. \<lparr>vb_rate = r, taxable_amount = taxable_at ls r, vat_amount = vat_at ls r\<rparr>) (rates_of ls)"
    using bs unfolding those_map_Some
    by (induction rule: list_all2_induct) (auto dest: breakdown_line_Some)
  then show "subtotal_ht t = sum_list (map amount_of ls)"
    "vat_breakdown t = map (\<lambda>r. \<lparr>vb_rate = r, taxable_amount = taxable_at ls r, vat_amount = vat_at ls r\<rparr>) (rates_of ls)"
    "total_vat t = sum_list (map (vat_at ls) (rates_of ls))"
    "total_ttc t = subtotal_ht t + total_vat t"
    by (simp_all add: t o_def)
qed

lemma rates_of_distinct: "distinct (rates_of ls)"
  by (simp add: rates_of_def VatRate_ALL_complete)

lemma set_rates_of: "set (rates_of ls) = il_vat_rate ` set ls"
  by (auto simp: rates_of_def VatRate_ALL_complete)

text \<open>Splitting by rate loses nothing.\<close>

lemma sum_by_key:
  "distinct ks \<Longrightarrow> key ` set xs \<subseteq> set ks \<Longrightarrow>
     (\<Sum>k \<leftarrow> ks. \<Sum>x \<leftarrow> filter (\<lambda>x. key x = k) xs. (f x :: int)) = sum_list (map f xs)"
proof (induction xs)
  case (Cons x xs)
  have one: "(\<Sum>k \<leftarrow> ks. if key x = k then f x else 0) = f x"
    using Cons.prems by (subst sum_list_distinct_conv_sum_set) simp_all
  have "(\<Sum>k \<leftarrow> ks. \<Sum>y \<leftarrow> filter (\<lambda>y. key y = k) (x # xs). f y) =
        (\<Sum>k \<leftarrow> ks. (if key x = k then f x else 0) + (\<Sum>y \<leftarrow> filter (\<lambda>y. key y = k) xs. f y))"
    by (intro arg_cong [of _ _ sum_list] map_cong) auto
  with one Cons show ?case by (simp add: sum_list_addf)
qed simp

lemma sum_taxable: "sum_list (map (taxable_at ls) (rates_of ls)) = sum_list (map amount_of ls)"
  unfolding taxable_at_def
  by (rule sum_by_key) (simp_all add: rates_of_distinct set_rates_of)

lemma vat_at_nearest: "\<bar>2 * (vat_at ls r * 10000 - taxable_at ls r * int (basis_points r))\<bar> \<le> 10000"
  unfolding vat_at_def by (rule round_half_to_even_abs) simp

section \<open>Credit notes\<close>

definition negate_line :: "invoice_line \<Rightarrow> invoice_line" where
  "negate_line l = l\<lparr>quantity := - quantity l\<rparr>"

lemma line_amount_negate:
  "line_amount_ht l = Some a \<Longrightarrow> a \<noteq> - (2 ^ 63) \<Longrightarrow> line_amount_ht (negate_line l) = Some (- a)"
  by (auto simp: line_amount_ht_def multiply_by_quantity_def multiply_by_days_def negate_line_def
      i64_try_from_eq_Some round_half_to_even_neg in_i64_def)

lemma amount_negate:
  "line_amount_ht l \<noteq> None \<Longrightarrow> amount_of l \<noteq> - (2 ^ 63) \<Longrightarrow>
     line_amount_ht (negate_line l) \<noteq> None \<and> amount_of (negate_line l) = - amount_of l"
  using line_amount_negate [of l "amount_of l"] by (auto simp: amount_of_def)

lemma rate_negate [simp]: "il_vat_rate (negate_line l) = il_vat_rate l"
  by (simp add: negate_line_def)

lemma taxable_negate:
  assumes "\<forall>l \<in> set ls. amount_of (negate_line l) = - amount_of l"
  shows "taxable_at (map negate_line ls) r = - taxable_at ls r"
  using assms by (induction ls) (auto simp: taxable_at_def)

lemma vat_negate:
  assumes "\<forall>l \<in> set ls. amount_of (negate_line l) = - amount_of l"
  shows "vat_at (map negate_line ls) r = - vat_at ls r"
  by (simp add: vat_at_def taxable_negate [OF assms] round_half_to_even_neg)

lemma rates_negate: "rates_of (map negate_line ls) = rates_of ls"
  by (simp add: rates_of_def)

section \<open>Properties\<close>

text \<open>The totals of an invoice: one breakdown line per rate in use, their bases adding up to the
  total before tax, each VAT amount the nearest cent of the rate on its whole base, and the total
  including tax the sum of both; the error of the VAT does not grow with the number of lines.\<close>

lemma compute_totals_exact:
  assumes "compute_totals ls = Some t"
  shows "distinct (map vb_rate (vat_breakdown t)) \<and> set (map vb_rate (vat_breakdown t)) = il_vat_rate ` set ls
     \<and> sum_list (map taxable_amount (vat_breakdown t)) = subtotal_ht t
     \<and> total_ttc t = subtotal_ht t + total_vat t
     \<and> total_vat t = sum_list (map vat_amount (vat_breakdown t))
     \<and> (\<forall>b \<in> set (vat_breakdown t).
          \<bar>2 * (vat_amount b * 10000 - taxable_amount b * int (basis_points (vb_rate b)))\<bar> \<le> 10000)"
proof -
  note t = compute_totals_Some [OF assms]
  have "\<bar>2 * (vat_amount b * 10000 - taxable_amount b * int (basis_points (vb_rate b)))\<bar> \<le> 10000"
    if b: "b \<in> set (vat_breakdown t)" for b
  proof -
    obtain r where r: "b = \<lparr>vb_rate = r, taxable_amount = taxable_at ls r, vat_amount = vat_at ls r\<rparr>"
      using b t(2) by auto
    show ?thesis unfolding r using vat_at_nearest [of ls r] by simp
  qed
  then show ?thesis using t sum_taxable [of ls] by (simp add: o_def rates_of_distinct set_rates_of)
qed

definition sample_lines :: "invoice_line list" where
  "sample_lines =
     [\<lparr>il_description = ''a'', quantity = 950, unit_price = 65000, il_vat_rate = Standard\<rparr>,
      \<lparr>il_description = ''b'', quantity = 100, unit_price = 333, il_vat_rate = Reduced\<rparr>,
      \<lparr>il_description = ''c'', quantity = 100, unit_price = 1, il_vat_rate = Standard\<rparr>]"

lemma sample_totals: "\<exists>t. compute_totals sample_lines = Some t"
proof -
  have "compute_totals sample_lines \<noteq> None" by code_simp
  then show ?thesis by blast
qed

text \<open>A credit note that negates the quantity of every line of an invoice has exactly the negated
  totals, so that the pair cancels to the cent in every rate.\<close>

lemma credit_note_cancels:
  assumes "compute_totals ls = Some t" "compute_totals (map negate_line ls) = Some t'"
    and "\<forall>l \<in> set ls. amount_of l \<noteq> - (2 ^ 63)"
  shows "subtotal_ht t' = - subtotal_ht t \<and> total_vat t' = - total_vat t \<and> total_ttc t' = - total_ttc t
     \<and> map vat_amount (vat_breakdown t') = map (\<lambda>b. - vat_amount b) (vat_breakdown t)"
proof -
  have "line_amount_ht l \<noteq> None" if "l \<in> set ls" for l
    using assms(1) that those_map_dom [of line_amount_ht ls]
    by (auto simp: compute_totals_def split: bind_splits)
  then have n: "\<forall>l \<in> set ls. amount_of (negate_line l) = - amount_of l"
    using assms(3) amount_negate by blast
  then have "sum_list (map amount_of (map negate_line ls)) = - sum_list (map amount_of ls)"
    by (induction ls) auto
  moreover have "sum_list (map (\<lambda>r. - vat_at ls r) rs) = - sum_list (map (vat_at ls) rs)" for rs
    by (induction rs) auto
  moreover have "vat_at (map negate_line ls) = (\<lambda>r. - vat_at ls r)" using vat_negate [OF n] by blast
  ultimately show ?thesis
    using compute_totals_Some [OF assms(1)] compute_totals_Some [OF assms(2)]
    by (simp add: rates_negate o_def)
qed

end
