(* ===== verification/Quotes.thy ===== *)
theory Quotes
  imports Billing
begin

text \<open>
  Quotes and missions: the records of \<open>domain/quote.rs\<close> and \<open>domain/mission.rs\<close> with the text form
  of a milestone, the pricing and the derivation of a mission in \<open>quotes/pricing.rs\<close>, and the
  billing schedule of \<open>missions/schedule.rs\<close>. All three rest on the lossless allocation of \<open>Money\<close>.
\<close>

section \<open>Quotes and missions\<close>

datatype quote_status = Draft | Sent | Accepted | Declined | Expired

definition is_closed :: "quote_status \<Rightarrow> bool" where
  "is_closed s \<longleftrightarrow> s = Accepted \<or> s = Declined \<or> s = Expired"

fun quote_status_as_str :: "quote_status \<Rightarrow> string" where
  "quote_status_as_str Draft = ''draft''"
| "quote_status_as_str Sent = ''sent''"
| "quote_status_as_str Accepted = ''accepted''"
| "quote_status_as_str Declined = ''declined''"
| "quote_status_as_str Expired = ''expired''"

definition quote_status_from_str :: "string \<Rightarrow> string + quote_status" where
  "quote_status_from_str s =
     (if s = ''draft'' then Inr Draft
      else if s = ''sent'' then Inr Sent
      else if s = ''accepted'' then Inr Accepted
      else if s = ''declined'' then Inr Declined
      else if s = ''expired'' then Inr Expired else Inl s)"

text \<open>The days of a time-and-materials line are in hundredths.\<close>

datatype line_kind =
    RegieLine (lk_daily_rate: money) (lk_days: int)
  | ForfaitLine (lk_amount: money)
  | RecurrentLine (lk_monthly_amount: money) (lk_months: nat)

record quote_line =
  ql_description :: string
  ql_kind :: line_kind
  ql_vat_rate :: vat_rate

datatype discount = Percentage nat | FixedAmount money

record quote =
  q_id :: uuid
  root_id :: uuid
  q_client_id :: uuid
  q_opportunity_id :: "uuid option"
  q_version :: nat
  q_status :: quote_status
  q_lines :: "quote_line list"
  q_discount :: "discount option"
  q_terms :: "string option"
  valid_until :: date
  q_created_at :: offset_date_time

datatype mission_kind = Regie money | Forfait money | Recurrent money

record milestone =
  ms_label :: string
  share_bps :: nat
  ms_due_on :: "date option"

record mission =
  m_id :: uuid
  m_client_id :: uuid
  m_quote_id :: "uuid option"
  m_opportunity_id :: "uuid option"
  m_name :: string
  m_kind :: mission_kind
  milestones :: "milestone list"
  started_on :: date
  ended_on :: "date option"
  m_revision :: int
  m_archived_at :: "offset_date_time option"

section \<open>The text form of a milestone\<close>

definition parse_u32 :: "string \<Rightarrow> nat option" where
  "parse_u32 s =
     (let t = (case s of c # cs \<Rightarrow> if c = CHR ''+'' then cs else s | [] \<Rightarrow> [])
      in if t = [] \<or> \<not> list_all is_ascii_digit t \<or> nat_of_digits t > u32_max then None
         else Some (nat_of_digits t))"

definition milestone_from_str :: "time_api \<Rightarrow> string \<Rightarrow> string + milestone" where
  "milestone_from_str T s =
     (case split_once CHR '':'' s of
        None \<Rightarrow> Inl s
      | Some (label0, rst) \<Rightarrow>
          (let label = trim label0
           in if label = [] then Inl s
              else let (share_str, due) =
                     (case rsplit_once CHR '':'' rst of
                        Some (a, date_str) \<Rightarrow>
                          (case parse_date T date_str of
                             Some d \<Rightarrow> (a, Some d) | None \<Rightarrow> (rst, None))
                      | None \<Rightarrow> (rst, None))
                   in case parse_u32 (trim share_str) of
                        None \<Rightarrow> Inl s
                      | Some share \<Rightarrow> Inr \<lparr>ms_label = label, share_bps = share, ms_due_on = due\<rparr>))"

definition display_milestone :: "time_api \<Rightarrow> milestone \<Rightarrow> string" where
  "display_milestone T m =
     ms_label m @ '':'' @ show_nat (share_bps m)
     @ (case ms_due_on m of None \<Rightarrow> [] | Some d \<Rightarrow> '':'' @ format_date T d)"

section \<open>Pricing\<close>

datatype quote_error =
    QuoteNotFound uuid
  | EmptyQuote
  | AlreadyClosed uuid
  | NotSent uuid
  | CannotDeriveMission uuid

definition line_gross_ht :: "quote_line \<Rightarrow> money option" where
  "line_gross_ht l =
     (case ql_kind l of
        RegieLine daily_rate days \<Rightarrow> multiply_by_quantity daily_rate days
      | ForfaitLine amount \<Rightarrow> Some amount
      | RecurrentLine monthly_amount months \<Rightarrow> multiply_by_quantity monthly_amount (int months * 100))"

text \<open>\<open>u32::try_from(m.cents().max(0)).unwrap_or(u32::MAX)\<close>.\<close>

definition weight_of :: "money \<Rightarrow> nat" where
  "weight_of m = (if max m 0 \<le> int u32_max then nat (max m 0) else u32_max)"

definition priced_lines :: "quote_line list \<Rightarrow> discount option \<Rightarrow> (money \<times> money) list option" where
  "priced_lines ls disc =
     do { gs \<leftarrow> those (map line_gross_ht ls);
          let total_gross = sum_list gs;
          let undiscounted = map (\<lambda>g. (g, 0)) gs;
          case disc of
            None \<Rightarrow> Some undiscounted
          | Some d \<Rightarrow>
              (if total_gross \<le> 0 then Some undiscounted
               else do { total_discount \<leftarrow>
                           (case d of
                              Percentage bps \<Rightarrow> apply_rate_bps total_gross bps
                            | FixedAmount amount \<Rightarrow> Some (min amount total_gross));
                         if total_discount \<le> 0 then Some undiscounted
                         else do { parts \<leftarrow> allocate_proportionally total_discount (map weight_of gs);
                                   Some (zip gs parts) } }) }"

definition forfait_milestones ::
    "uuid \<Rightarrow> quote_line list \<Rightarrow> money list \<Rightarrow> (quote_error + milestone list) option" where
  "forfait_milestones quote_id ls net_ht =
     (if sum_list net_ht \<le> 0 then Some (Inl (CannotDeriveMission quote_id))
      else do { shares \<leftarrow> allocate_proportionally 10000 (map weight_of net_ht);
                let shares_bps = map (\<lambda>m. if in_u32 m then nat m else 0) shares;
                Some (Inr (map (\<lambda>(l, share).
                   \<lparr>ms_label = ql_description l, share_bps = share, ms_due_on = None\<rparr>)
                   (zip ls shares_bps))) })"

definition derive_kind :: "quote \<Rightarrow> money list \<Rightarrow> quote_error + mission_kind" where
  "derive_kind q net_ht =
     (case ql_kind (hd (q_lines q)) of
        ForfaitLine _ \<Rightarrow>
          if \<not> list_all (\<lambda>l. case ql_kind l of ForfaitLine _ \<Rightarrow> True | _ \<Rightarrow> False) (q_lines q)
          then Inl (CannotDeriveMission (q_id q)) else Inr (Forfait (sum_list net_ht))
      | RegieLine daily_rate _ \<Rightarrow>
          if length (q_lines q) \<noteq> 1 then Inl (CannotDeriveMission (q_id q)) else Inr (Regie daily_rate)
      | RecurrentLine monthly_amount _ \<Rightarrow>
          if length (q_lines q) \<noteq> 1 then Inl (CannotDeriveMission (q_id q))
          else Inr (Recurrent monthly_amount))"

text \<open>\<open>MissionId::new()\<close> draws a random identifier: an argument.\<close>

definition derive_mission :: "uuid \<Rightarrow> quote \<Rightarrow> date \<Rightarrow> (quote_error + mission) option" where
  "derive_mission new_id q start =
     (if q_lines q = [] then Some (Inl EmptyQuote)
      else do { priced \<leftarrow> priced_lines (q_lines q) (q_discount q);
                let net_ht = map (\<lambda>(g, d). g - d) priced;
                case derive_kind q net_ht of
                  Inl e \<Rightarrow> Some (Inl e)
                | Inr kind \<Rightarrow>
                    do { steps \<leftarrow> (case kind of
                            Forfait _ \<Rightarrow> forfait_milestones (q_id q) (q_lines q) net_ht
                          | _ \<Rightarrow> Some (Inr []));
                         case steps of
                           Inl e \<Rightarrow> Some (Inl e)
                         | Inr ms \<Rightarrow>
                             Some (Inr \<lparr>m_id = new_id, m_client_id = q_client_id q,
                               m_quote_id = Some (q_id q), m_opportunity_id = q_opportunity_id q,
                               m_name = (case q_lines q of [] \<Rightarrow> [] | l # _ \<Rightarrow> ql_description l),
                               m_kind = kind, milestones = ms, started_on = start, ended_on = None,
                               m_revision = 1, m_archived_at = None\<rparr>) } })"

section \<open>The billing schedule\<close>

datatype billing_schedule_kind =
    RegieSchedule money
  | ForfaitSchedule (installments: "(milestone \<times> money) list")
  | RecurrentSchedule money

definition forfait_installments :: "money \<Rightarrow> milestone list \<Rightarrow> (milestone \<times> money) list option" where
  "forfait_installments budget ms =
     (if ms = [] then Some [(\<lparr>ms_label = ''Solde'', share_bps = 10000, ms_due_on = None\<rparr>, budget)]
      else do { amounts \<leftarrow> allocate_proportionally budget (map share_bps ms);
                Some (zip ms amounts) })"

definition billing_schedule :: "mission \<Rightarrow> billing_schedule_kind option" where
  "billing_schedule m =
     (case m_kind m of
        Regie daily_rate \<Rightarrow> Some (RegieSchedule daily_rate)
      | Forfait budget \<Rightarrow> map_option ForfaitSchedule (forfait_installments budget (milestones m))
      | Recurrent monthly_amount \<Rightarrow> Some (RecurrentSchedule monthly_amount))"

section \<open>Milestones\<close>

lemma set_trim_fuel: "set (trim_fuel k ws s) \<subseteq> set s"
  using trim_fuel_suffix [of k ws s] by (auto dest: in_set_dropD)

lemma set_trim: "set (trim s) \<subseteq> set s"
  using set_trim_fuel [of "length s" white_space s]
    set_trim_fuel [of "length (trim_start s)" "map rev white_space" "rev (trim_start s)"]
  by (auto simp: trim_def trim_end_def trim_start_def)

lemma digits_no_colon: "list_all is_ascii_digit s \<Longrightarrow> CHR '':'' \<notin> set s"
  by (auto simp: list_all_iff is_ascii_digit_def)

lemma parse_u32_show: "n \<le> u32_max \<Longrightarrow> parse_u32 (trim (show_nat n)) = Some n"
proof -
  assume n: "n \<le> u32_max"
  have t: "trim (show_nat n) = show_nat n"
    using show_nat_digits [of n] by (intro trimmed_decimal) (auto simp: list_all_iff)
  obtain c cs where c: "show_nat n = c # cs" using show_nat_nonempty [of n] by (cases "show_nat n") auto
  moreover have "c \<noteq> CHR ''+''" using show_nat_digits [of n] unfolding c by (auto simp: is_ascii_digit_def)
  ultimately have "(case show_nat n of c # cs \<Rightarrow> if c = CHR ''+'' then cs else show_nat n | [] \<Rightarrow> []) = show_nat n"
    by simp
  then show ?thesis using n unfolding t parse_u32_def Let_def by simp
qed

lemma ymd_no_colon: "CHR '':'' \<notin> set (ymd d)"
  using digits_no_colon [of "show_4 (dyear d)"] digits_no_colon [of "show_2 (dmonth d)"]
    digits_no_colon [of "show_2 (dday d)"]
  by (auto simp: ymd_def)

definition valid_milestone :: "milestone \<Rightarrow> bool" where
  "valid_milestone m \<longleftrightarrow> ms_label m \<noteq> [] \<and> trim (ms_label m) = ms_label m \<and> share_bps m \<le> u32_max
     \<and> (case ms_due_on m of None \<Rightarrow> True | Some d \<Rightarrow> valid_date d \<and> 0 \<le> dyear d)"

lemma milestone_roundtrip:
  assumes "time_crate T" "valid_milestone m" "CHR '':'' \<notin> set (ms_label m)"
  shows "milestone_from_str T (display_milestone T m) = Inr m"
proof -
  have v: "ms_label m \<noteq> []" "trim (ms_label m) = ms_label m" "share_bps m \<le> u32_max"
    using assms(2) by (simp_all add: valid_milestone_def)
  let ?n = "show_nat (share_bps m)"
  have n: "CHR '':'' \<notin> set ?n" by (rule digits_no_colon) simp
  show ?thesis
  proof (cases "ms_due_on m")
    case None
    have "rsplit_once CHR '':'' ?n = None" using n by (simp add: rsplit_once_def split_once_none)
    then show ?thesis
      using None v parse_u32_show [OF v(3)] split_once_append [OF assms(3), of ?n]
      by (simp add: milestone_from_str_def display_milestone_def Let_def)
  next
    case (Some d)
    then have d: "valid_date d" "0 \<le> dyear d" using assms(2) by (simp_all add: valid_milestone_def)
    have f: "format_date T d = ymd d" "parse_date T (ymd d) = Some d"
      using time_crate.format_ymd [OF assms(1) d] time_crate.parse_format [OF assms(1) d]
      by (simp_all add: format_date_def parse_date_def)
    have "rsplit_once CHR '':'' (?n @ CHR '':'' # ymd d) = Some (?n, ymd d)"
      by (rule rsplit_once_append [OF ymd_no_colon])
    then show ?thesis
      using Some v f parse_u32_show [OF v(3)] split_once_append [OF assms(3), of "?n @ CHR '':'' # ymd d"]
      by (simp add: milestone_from_str_def display_milestone_def Let_def)
  qed
qed

lemma milestone_label: "milestone_from_str T s = Inr m \<Longrightarrow> CHR '':'' \<notin> set (ms_label m)"
proof -
  assume p: "milestone_from_str T s = Inr m"
  then obtain label0 rst where s: "split_once CHR '':'' s = Some (label0, rst)" "ms_label m = trim label0"
    by (auto simp: milestone_from_str_def Let_def split: option.splits prod.splits if_splits)
  then have "CHR '':'' \<notin> set label0" using split_once_Some by fast
  then show ?thesis using set_trim s(2) by fastforce
qed

section \<open>Prices and shares\<close>

lemma weight_of_le: "int (weight_of m) \<le> max m 0"
  by (simp add: weight_of_def)

lemma weight_of_exact: "m \<le> int u32_max \<Longrightarrow> int (weight_of m) = max m 0"
  by (auto simp: weight_of_def u32_max_def max_def)

lemma weight_of_pos: "0 < m \<Longrightarrow> 0 < weight_of m"
  by (simp add: weight_of_def u32_max_def)

lemma sum_weights_pos: "0 < sum_list ms \<Longrightarrow> 0 < sum_list (map weight_of ms)"
proof -
  assume pos: "0 < sum_list ms"
  have "\<exists>m \<in> set ms. 0 < m"
  proof (rule ccontr)
    assume "\<not> (\<exists>m \<in> set ms. 0 < m)"
    then have "sum_list ms \<le> 0" by (intro sum_list_nonpos) auto
    with pos show False by simp
  qed
  then obtain m where m: "m \<in> set ms" "0 < m" by blast
  have "weight_of m \<le> sum_list (map weight_of ms)" using m(1) by (intro member_le_sum_list) auto
  with weight_of_pos [OF m(2)] show ?thesis by simp
qed

lemma sum_weights_exact:
  "(\<forall>m \<in> set ms. m \<le> int u32_max) \<Longrightarrow> sum_list ms \<le> int (sum_list (map weight_of ms))"
  by (induction ms) (auto simp: weight_of_exact)

lemma allocation_nonneg:
  "allocate_proportionally m ws = Some parts \<Longrightarrow> 0 \<le> m \<Longrightarrow> x \<in> set parts \<Longrightarrow> 0 \<le> x"
  using allocate_proportionally_Some(3) [of m ws parts] by auto

text \<open>An amount no larger than the total weight gives nobody more than their weight.\<close>

lemma allocation_capped:
  assumes "allocate_proportionally m ws = Some parts" "m \<le> int (sum_list ws)" "j < length ws"
  shows "parts ! j \<le> int (ws ! j)"
proof -
  let ?W = "int (sum_list ws)" and ?w = "int (ws ! j)"
  have W: "0 < ?W" using allocate_proportionally_Some(2) [OF assms(1)] by simp
  have "\<bar>parts ! j * ?W - m * ?w\<bar> < ?W" by (rule allocate_proportionally_share [OF assms(1,3)])
  then have "parts ! j * ?W < ?W + m * ?w" by linarith
  also have "\<dots> \<le> ?W + ?W * ?w" using assms(2) by (simp add: mult_right_mono)
  also have "\<dots> = (?w + 1) * ?W" by (simp add: algebra_simps)
  finally have "parts ! j < ?w + 1" using W by (simp only: mult_less_cancel_right)
  then show ?thesis by simp
qed

lemma discount_parts:
  assumes "allocate_proportionally m (map weight_of gs) = Some parts" "0 \<le> m"
    and "m \<le> int (sum_list (map weight_of gs))" "(g, x) \<in> set (zip gs parts)"
  shows "0 \<le> x \<and> x \<le> max g 0"
proof -
  obtain j where j: "j < length gs" "j < length parts" "g = gs ! j" "x = parts ! j"
    using assms(4) by (auto simp: set_zip)
  have "0 \<le> x" using allocation_nonneg [OF assms(1,2)] j by simp
  moreover have "x \<le> int (weight_of g)" using allocation_capped [OF assms(1,3), of j] j by simp
  ultimately show ?thesis using weight_of_le [of g] by linarith
qed

section \<open>Properties\<close>

text \<open>The discount of a quote, before it is distributed.\<close>

definition total_discount_of :: "money list \<Rightarrow> discount \<Rightarrow> money" where
  "total_discount_of gs d =
     (if sum_list gs \<le> 0 then 0
      else max 0 (case d of Percentage bps \<Rightarrow> round_half_to_even (sum_list gs * int bps) 10000
                          | FixedAmount a \<Rightarrow> min a (sum_list gs)))"

text \<open>The discount of a quote is distributed over its lines without losing a cent: the parts add
  up to the whole discount, and no line is discounted below zero or by more than its own price.\<close>

lemma discount_is_distributed:
  assumes "those (map line_gross_ht ls) = Some gs" "\<forall>g \<in> set gs. g \<le> int u32_max"
    and "in_i64 (sum_list gs)" "\<forall>bps. d = Percentage bps \<longrightarrow> bps \<le> 10000"
  shows "\<exists>ps. priced_lines ls (Some d) = Some ps \<and> map fst ps = gs
     \<and> sum_list (map snd ps) = total_discount_of gs d
     \<and> (\<forall>(g, x) \<in> set ps. 0 \<le> x \<and> x \<le> max g 0)"
proof (cases "sum_list gs \<le> 0")
  case True
  then show ?thesis
    using assms(1) by (auto simp: priced_lines_def total_discount_of_def Let_def o_def)
next
  case False
  define m where "m = (case d of Percentage bps \<Rightarrow> round_half_to_even (sum_list gs * int bps) 10000
                               | FixedAmount a \<Rightarrow> min a (sum_list gs))"
  have rate: "apply_rate_bps (sum_list gs) bps = Some (round_half_to_even (sum_list gs * int bps) 10000)
      \<and> round_half_to_even (sum_list gs * int bps) 10000 \<le> sum_list gs" if "bps \<le> 10000" for bps
  proof
    show "apply_rate_bps (sum_list gs) bps = Some (round_half_to_even (sum_list gs * int bps) 10000)"
      using assms(3) False that by (intro apply_rate_bps_total) auto
    show "round_half_to_even (sum_list gs * int bps) 10000 \<le> sum_list gs"
      using False that by (intro round_half_to_even_le mult_left_mono) auto
  qed
  have found: "(case d of Percentage bps \<Rightarrow> apply_rate_bps (sum_list gs) bps
      | FixedAmount amount \<Rightarrow> Some (min amount (sum_list gs))) = Some m" "m \<le> sum_list gs"
    using assms(4) rate by (auto simp: m_def split: discount.splits)
  have total: "total_discount_of gs d = max 0 m" using False by (simp add: total_discount_of_def m_def)
  show ?thesis
  proof (cases "m \<le> 0")
    case True
    then show ?thesis
      using False assms(1) found total by (auto simp: priced_lines_def Let_def o_def)
  next
    case pos: False
    have W: "0 < sum_list (map weight_of gs)" "m \<le> int (sum_list (map weight_of gs))"
      using False sum_weights_pos [of gs] sum_weights_exact [OF assms(2)] found(2) by simp_all
    have "in_i64 m" "m \<noteq> - (2 ^ 63)" using pos found(2) assms(3) by (auto simp: in_i64_def)
    then obtain parts where p: "allocate_proportionally m (map weight_of gs) = Some parts"
      using allocate_proportionally_total [OF _ _ W(1)] by blast
    have len: "length parts = length gs" "sum_list parts = m"
      using allocate_proportionally_sum [OF p] by simp_all
    have "priced_lines ls (Some d) = Some (zip gs parts)"
      using assms(1) False pos found(1) p by (simp add: priced_lines_def Let_def)
    then show ?thesis
      using len total pos discount_parts [OF p _ W(2)] by auto
  qed
qed

definition sample_quote_lines :: "quote_line list" where
  "sample_quote_lines =
     [\<lparr>ql_description = ''Build'', ql_kind = ForfaitLine 135000, ql_vat_rate = Standard\<rparr>,
      \<lparr>ql_description = ''Design: UI'', ql_kind = ForfaitLine 70001, ql_vat_rate = Standard\<rparr>]"

text \<open>A fixed-price quote that becomes a mission is billed to the cent: the budget is the price of
  the lines less the discounts, the shares of the milestones add up to 100 %, and the billing
  schedule of the mission, one instalment per milestone, adds up to the budget.\<close>

lemma derived_mission_bills_its_budget:
  assumes "derive_mission new_id q start = Some (Inr m)" "m_kind m = Forfait budget" "in_i64 budget"
  shows "sum_list (map share_bps (milestones m)) = 10000
     \<and> (\<exists>ps. priced_lines (q_lines q) (q_discount q) = Some ps
          \<and> budget = sum_list (map fst ps) - sum_list (map snd ps))
     \<and> (\<exists>inst. billing_schedule m = Some (ForfaitSchedule inst)
          \<and> map fst inst = milestones m \<and> sum_list (map snd inst) = budget)"
proof -
  from assms(1,2) obtain ps where ps: "priced_lines (q_lines q) (q_discount q) = Some ps"
    and kind: "derive_kind q (map (\<lambda>(g, d). g - d) ps) = Inr (Forfait budget)"
    and ms: "forfait_milestones (q_id q) (q_lines q) (map (\<lambda>(g, d). g - d) ps) = Some (Inr (milestones m))"
    by (auto simp: derive_mission_def Let_def split: bind_splits sum.splits if_splits mission_kind.splits)
  define net where "net = map (\<lambda>(g, d). g - d) ps"
  have budget: "budget = sum_list net"
    using kind by (auto simp: derive_kind_def net_def split: line_kind.splits if_splits)
  have diff: "sum_list net = sum_list (map fst ps) - sum_list (map snd ps)"
    unfolding net_def by (induction ps) auto
  from ms obtain shares where pos: "0 < sum_list net"
    and sh: "allocate_proportionally 10000 (map weight_of net) = Some shares"
    and list: "milestones m = map (\<lambda>(l, share). \<lparr>ms_label = ql_description l, share_bps = share, ms_due_on = None\<rparr>)
       (zip (q_lines q) (map (\<lambda>m. if in_u32 m then nat m else 0) shares))"
    by (auto simp: forfait_milestones_def net_def Let_def not_le split: if_splits bind_splits)
  have "length (q_lines q) = length ps"
  proof -
    obtain gs where "those (map line_gross_ht (q_lines q)) = Some gs" "length ps = length gs"
      using ps allocate_proportionally_sum(1)
      by (auto simp: priced_lines_def Let_def split: bind_splits option.splits if_splits)
    then show ?thesis unfolding those_map_Some by (simp add: list_all2_lengthD)
  qed
  then have len: "length shares = length (q_lines q)"
    using allocate_proportionally_sum(1) [OF sh] by (simp add: net_def)
  have small: "0 \<le> x \<and> x \<le> 10000" if "x \<in> set shares" for x
  proof -
    have nn: "\<forall>y \<in> set shares. 0 \<le> y" using allocation_nonneg [OF sh] by simp
    then have "x \<le> sum_list shares" using that
      by (induction shares) (auto intro: add_increasing2 sum_list_nonneg order_trans)
    then show ?thesis using nn that allocate_proportionally_sum(2) [OF sh] by simp
  qed
  have "in_u32 x" if "x \<in> set shares" for x using small [OF that] by (simp add: in_u32_def)
  then have nat: "map (\<lambda>m. if in_u32 m then nat m else 0) shares = map nat shares" by simp
  have "map share_bps (milestones m) = map nat shares"
    unfolding list nat using len by (simp add: o_def case_prod_unfold map_snd_zip)
  moreover have "int (sum_list (map nat shares)) = sum_list shares"
    using small by (induction shares) auto
  ultimately have total: "sum_list (map share_bps (milestones m)) = 10000"
    using allocate_proportionally_sum(2) [OF sh] by simp
  then have ne: "milestones m \<noteq> []" by auto
  obtain amounts where am: "allocate_proportionally budget (map share_bps (milestones m)) = Some amounts"
    using allocate_proportionally_total [OF assms(3)] pos total budget by force
  have "sum_list (map snd (zip (milestones m) amounts)) = budget"
    by (rule proportional.zip_total [OF am]) simp
  moreover have "length amounts = length (milestones m)" using proportional.alloc_length [OF am] by simp
  ultimately show ?thesis
    using total ps diff budget ne am assms(2)
    by (auto simp: billing_schedule_def forfait_installments_def)
qed

definition sample_quote :: quote where
  "sample_quote =
     \<lparr>q_id = ''0193'', root_id = ''0193'', q_client_id = ''0191'', q_opportunity_id = None, q_version = 1,
      q_status = Sent, q_lines = sample_quote_lines, q_discount = None, q_terms = None,
      valid_until = Date 2026 12 31, q_created_at = 0\<rparr>"

text \<open>A milestone prints to a text that parses back to it exactly when its label holds no colon:
  the parser splits at the first one, whatever follows.\<close>

lemma milestone_roundtrip_iff:
  assumes "time_crate T" "valid_milestone m"
  shows "milestone_from_str T (display_milestone T m) = Inr m \<longleftrightarrow> CHR '':'' \<notin> set (ms_label m)"
  using milestone_roundtrip [OF assms] milestone_label by blast

end
