(* ===== verification/Tax.thy ===== *)
theory Tax
  imports Facts
begin

text \<open>
  The pure tax rules of \<open>accounting.rs\<close>: the rounding of art. 1657 CGI, the corporate income tax,
  the carry-forward and carry-back of losses, the accounting result as a record with its
  derived amounts, and the indicative cost of the director.
\<close>

section \<open>Definitions\<close>

definition REDUCED_RATE_CEILING :: money where "REDUCED_RATE_CEILING = 4250000"
definition REDUCED_RATE_BPS :: nat where "REDUCED_RATE_BPS = 1500"
definition NORMAL_RATE_BPS :: nat where "NORMAL_RATE_BPS = 2500"
definition LOSS_CARRY_FORWARD_CAP :: money where "LOSS_CARRY_FORWARD_CAP = 100000000"
definition LOSS_CARRY_FORWARD_EXCESS_BPS :: nat where "LOSS_CARRY_FORWARD_EXCESS_BPS = 5000"
definition LOSS_CARRY_BACK_CAP :: money where "LOSS_CARRY_BACK_CAP = 100000000"

record accounting_result =
  ar_period :: fiscal_year
  revenue_ht :: money
  ar_expenses :: money
  director_remuneration :: money
  ar_depreciation :: money
  result_before_tax :: money
  non_deductible_expenses :: money
  prior_losses_available :: money
  losses_imputed :: money
  taxable_result :: money
  corporate_tax :: money
  carried_back :: money
  carry_back_credit :: money
  net_result :: money

record carry_back_result =
  cb_imputed :: money
  cb_credit :: money

definition deficit :: "accounting_result \<Rightarrow> money" where
  "deficit r = max (- taxable_result r) 0"

definition ar_losses_carried_forward :: "accounting_result \<Rightarrow> money" where
  "ar_losses_carried_forward r =
     prior_losses_available r - losses_imputed r + deficit r - carried_back r"

definition with_carry_back :: "accounting_result \<Rightarrow> carry_back_result \<Rightarrow> accounting_result" where
  "with_carry_back r cb =
     r\<lparr>carried_back := cb_imputed cb, carry_back_credit := cb_credit cb,
       net_result := result_before_tax r - corporate_tax r + cb_credit cb\<rparr>"

record loss_imputation =
  imputed :: money
  li_taxable_result :: money
  remaining :: money

definition loss_carry_forward_ceiling :: "money \<Rightarrow> money option" where
  "loss_carry_forward_ceiling profit =
     (if profit \<le> LOSS_CARRY_FORWARD_CAP then Some (max profit 0)
      else do { excess \<leftarrow> apply_rate_bps (profit - LOSS_CARRY_FORWARD_CAP) LOSS_CARRY_FORWARD_EXCESS_BPS;
                Some (LOSS_CARRY_FORWARD_CAP + excess) })"

definition impute_prior_losses :: "money \<Rightarrow> money \<Rightarrow> loss_imputation option" where
  "impute_prior_losses result available0 =
     (let available = max available0 0
      in if result \<le> 0
         then Some \<lparr>imputed = 0, li_taxable_result = result, remaining = available\<rparr>
         else do { ceiling \<leftarrow> loss_carry_forward_ceiling result;
                   let i = min available ceiling;
                   Some \<lparr>imputed = i, li_taxable_result = result - i, remaining = available - i\<rparr> })"

record carry_back_base =
  taxable_profit :: money
  distributed :: money

definition CarryBack_NONE :: carry_back_result where
  "CarryBack_NONE = \<lparr>cb_imputed = 0, cb_credit = 0\<rparr>"

definition carry_back :: "money \<Rightarrow> carry_back_base \<Rightarrow> carry_back_result option" where
  "carry_back loss cbb =
     (let profit = taxable_profit cbb
      in if loss \<le> 0 \<or> profit \<le> 0 then Some CarryBack_NONE
         else let imputable = max (profit - max (distributed cbb) 0) 0;
                  capped = min (min loss LOSS_CARRY_BACK_CAP) imputable
              in if capped = 0 then Some CarryBack_NONE
                 else let reduced_fraction = min profit REDUCED_RATE_CEILING;
                          share = (reduced_fraction * imputable) sdiv profit;
                          reduced_base = (if in_i64 share then share else reduced_fraction);
                          normal_base = imputable - reduced_base;
                          on_normal = min capped normal_base;
                          on_reduced = min (capped - on_normal) reduced_base
                      in do { normal \<leftarrow> apply_rate_bps on_normal NORMAL_RATE_BPS;
                              reduced \<leftarrow> apply_rate_bps on_reduced REDUCED_RATE_BPS;
                              Some \<lparr>cb_imputed = on_normal + on_reduced, cb_credit = normal + reduced\<rparr> })"

definition round_to_euro :: "money \<Rightarrow> money" where
  "round_to_euro amount =
     (let sign = sgn amount; magnitude = \<bar>amount\<bar>; euros = (magnitude + 50) sdiv 100
      in sign * euros * 100)"

definition corporate_income_tax :: "money \<Rightarrow> money option" where
  "corporate_income_tax result =
     (if result \<le> 0 then Some 0
      else let tax_base = round_to_euro result;
               reduced_base = min tax_base REDUCED_RATE_CEILING
           in do { tax \<leftarrow> apply_rate_bps reduced_base REDUCED_RATE_BPS;
                   upper \<leftarrow> (if tax_base > REDUCED_RATE_CEILING
                       then apply_rate_bps (tax_base - REDUCED_RATE_CEILING) NORMAL_RATE_BPS else Some 0);
                   Some (round_to_euro (tax + upper)) })"

definition months_in :: "fiscal_year \<Rightarrow> nat" where
  "months_in p =
     (let months = (int (dmonth (fy_end p)) - int (dmonth (fy_start p)))
                   + (dyear (fy_end p) - dyear (fy_start p)) * 12 + 1
      in nat (max months 0))"

definition director_gross :: "company_profile \<Rightarrow> fiscal_year \<Rightarrow> money option option" where
  "director_gross profile p =
     (case director_monthly_gross profile of
        None \<Rightarrow> Some None
      | Some g \<Rightarrow> map_option Some (multiply_by_quantity g (int (months_in p) * 100)))"

definition director_cost :: "company_profile \<Rightarrow> fiscal_year \<Rightarrow> money option" where
  "director_cost profile p =
     do { g \<leftarrow> director_gross profile p;
          case g of
            None \<Rightarrow> Some 0
          | Some gross_annual \<Rightarrow>
              (case director_charge_ratio_bps profile of
                 Some ratio \<Rightarrow> map_option (\<lambda>c. gross_annual + c) (apply_rate_bps gross_annual ratio)
               | None \<Rightarrow> Some gross_annual) }"

definition prepaid_expenses_of :: "opening_balance_line list \<Rightarrow> money" where
  "prepaid_expenses_of ls =
     sum_list (map obl_amount
       (filter (\<lambda>l. account_starts_with (obl_account l) ''486'' \<and> obl_side l = Debit) ls))"

section \<open>Whole euros\<close>

lemma round_to_euro_eq: "round_to_euro m = sgn m * ((\<bar>m\<bar> + 50) div 100) * 100"
  by (simp add: round_to_euro_def sdiv_nonneg Let_def)

lemma round_to_euro_pos: "0 \<le> m \<Longrightarrow> round_to_euro m = (m + 50) div 100 * 100"
  by (cases "m = 0") (simp_all add: round_to_euro_eq)

lemma round_to_euro_neg: "round_to_euro (- m) = - round_to_euro m"
  by (simp add: round_to_euro_eq)

lemma round_to_euro_dvd [simp]: "100 dvd round_to_euro m"
  by (simp add: round_to_euro_eq)

lemma round_to_euro_near_pos: "0 \<le> m \<Longrightarrow> \<bar>round_to_euro m - m\<bar> \<le> 50"
proof -
  assume "0 \<le> m"
  moreover have "(m + 50) div 100 * 100 + (m + 50) mod 100 = m + 50" by simp
  moreover have "0 \<le> (m + 50) mod 100" "(m + 50) mod 100 < 100" by simp_all
  ultimately show ?thesis unfolding round_to_euro_pos [OF \<open>0 \<le> m\<close>] by linarith
qed

lemma round_to_euro_near: "\<bar>round_to_euro m - m\<bar> \<le> 50"
proof (cases "0 \<le> m")
  case False
  then show ?thesis using round_to_euro_near_pos [of "- m"] by (simp add: round_to_euro_neg)
qed (rule round_to_euro_near_pos)

lemma round_to_euro_nonneg: "0 \<le> m \<Longrightarrow> 0 \<le> round_to_euro m"
  by (simp add: round_to_euro_pos pos_imp_zdiv_nonneg_iff)

lemma round_to_euro_mono: "m \<le> n \<Longrightarrow> round_to_euro m \<le> round_to_euro n"
proof -
  assume le: "m \<le> n"
  have pos: "round_to_euro a \<le> round_to_euro b" if "0 \<le> a" "a \<le> b" for a b
    using that by (simp add: round_to_euro_pos zdiv_mono1)
  consider "0 \<le> m" | "m \<le> 0" "0 \<le> n" | "n \<le> 0" using le by linarith
  then show ?thesis
  proof cases
    case 1
    with le show ?thesis by (simp add: pos)
  next
    case 2
    have "0 \<le> round_to_euro (- m)" "0 \<le> round_to_euro n" using 2 by (simp_all add: round_to_euro_nonneg)
    then show ?thesis by (simp add: round_to_euro_neg)
  next
    case 3
    have "round_to_euro (- n) \<le> round_to_euro (- m)" using 3 le by (intro pos) simp_all
    then show ?thesis by (simp add: round_to_euro_neg)
  qed
qed

section \<open>The corporate income tax\<close>

text \<open>On a base in whole euros both brackets are exact.\<close>

definition bracket_tax :: "money \<Rightarrow> money" where
  "bracket_tax b = (15 * min b REDUCED_RATE_CEILING + 25 * max (b - REDUCED_RATE_CEILING) 0) div 100"

lemma rate_exact:
  assumes "100 dvd b" "0 \<le> b" "in_i64 b"
  shows "apply_rate_bps b 1500 = Some (15 * (b div 100))" "apply_rate_bps b 2500 = Some (25 * (b div 100))"
proof -
  obtain k where k: "b = 100 * k" using assms(1) by (elim dvdE)
  have "b \<noteq> - (2 ^ 63)" using assms(2) by simp
  then have "apply_rate_bps b bps = Some (round_half_to_even (b * int bps) 10000)" if "bps \<le> 10000" for bps
    using apply_rate_bps_total [OF assms(3) _ that] by blast
  moreover have "b * int 1500 = (15 * k) * 10000" "b * int 2500 = (25 * k) * 10000" by (simp_all add: k)
  then have "round_half_to_even (b * int 1500) 10000 = 15 * k" "round_half_to_even (b * int 2500) 10000 = 25 * k"
    by (simp_all only: round_half_to_even_exact zero_less_numeral)
  ultimately show "apply_rate_bps b 1500 = Some (15 * (b div 100))" "apply_rate_bps b 2500 = Some (25 * (b div 100))"
    by (simp_all add: k)
qed

lemma corporate_income_tax_eq:
  assumes "0 < r" "r \<le> 2 ^ 62"
  shows "corporate_income_tax r = Some (round_to_euro (bracket_tax (round_to_euro r)))"
proof -
  let ?b = "round_to_euro r"
  have b: "0 \<le> ?b" "?b \<le> r + 50" "100 dvd ?b"
    using assms round_to_euro_nonneg [of r] round_to_euro_near [of r] by simp_all
  obtain k where k: "?b = 100 * k" using b(3) by (elim dvdE)
  have lo: "100 dvd min ?b REDUCED_RATE_CEILING" "0 \<le> min ?b REDUCED_RATE_CEILING" "in_i64 (min ?b REDUCED_RATE_CEILING)"
    using b assms by (auto simp: min_def REDUCED_RATE_CEILING_def in_i64_def)
  have hi: "100 dvd ?b - REDUCED_RATE_CEILING" "in_i64 (?b - REDUCED_RATE_CEILING)"
    using b assms by (auto simp: REDUCED_RATE_CEILING_def in_i64_def)
  have "15 * (min ?b REDUCED_RATE_CEILING div 100) + (if ?b > REDUCED_RATE_CEILING
      then 25 * ((?b - REDUCED_RATE_CEILING) div 100) else 0) = bracket_tax ?b"
  proof -
    have m: "min (100 * k) 4250000 = 100 * min k 42500" "max (100 * k - 4250000) 0 = 100 * max (k - 42500) 0"
      by (auto simp: min_def max_def)
    have c: "(15 * (100 * x) + 25 * (100 * y)) div 100 = 15 * x + 25 * (y :: int)" for x y
    proof -
      have "15 * (100 * x) + 25 * (100 * y) = (15 * x + 25 * y) * 100" by simp
      then show ?thesis by (simp only: nonzero_mult_div_cancel_right)
    qed
    have d: "(100 * k - 4250000) div 100 = k - 42500"
    proof -
      have "100 * k - 4250000 = (k - 42500) * 100" by simp
      then show ?thesis by (simp only: nonzero_mult_div_cancel_right)
    qed
    show ?thesis
      unfolding k bracket_tax_def REDUCED_RATE_CEILING_def m c d by (auto simp: max_def)
  qed
  then show ?thesis
    using assms(1) rate_exact(1) [OF lo] rate_exact(2) [OF hi(1) _ hi(2)]
    by (auto simp: corporate_income_tax_def Let_def REDUCED_RATE_BPS_def NORMAL_RATE_BPS_def)
qed

lemma bracket_tax_mono: "b \<le> b' \<Longrightarrow> bracket_tax b \<le> bracket_tax b'"
  unfolding bracket_tax_def by (intro zdiv_mono1) (auto simp: min_def max_def)

lemma bracket_tax_nonneg: "0 \<le> b \<Longrightarrow> 0 \<le> bracket_tax b"
  by (simp add: bracket_tax_def pos_imp_zdiv_nonneg_iff REDUCED_RATE_CEILING_def)

text \<open>Between the two: the slope of the brackets is at most a quarter.\<close>

lemma bracket_tax_bounds: "0 \<le> b \<Longrightarrow> bracket_tax b \<le> b"
proof -
  assume b: "0 \<le> b"
  have "15 * min b REDUCED_RATE_CEILING + 25 * max (b - REDUCED_RATE_CEILING) 0 \<le> b * 100"
    using b by (auto simp: min_def max_def REDUCED_RATE_CEILING_def)
  then have "bracket_tax b \<le> b * 100 div 100" unfolding bracket_tax_def by (rule zdiv_mono1) simp
  then show ?thesis by simp
qed

section \<open>Losses\<close>

lemma ceiling_eq:
  assumes "0 < p" "in_i64 p"
  shows "\<exists>c. loss_carry_forward_ceiling p = Some c \<and> 0 \<le> c \<and> c \<le> p
     \<and> (p \<le> LOSS_CARRY_FORWARD_CAP \<longrightarrow> c = p)"
proof (cases "p \<le> LOSS_CARRY_FORWARD_CAP")
  case False
  let ?x = "p - LOSS_CARRY_FORWARD_CAP"
  have x: "0 \<le> ?x" "in_i64 ?x" "?x \<noteq> - (2 ^ 63)" using False assms by (auto simp: LOSS_CARRY_FORWARD_CAP_def in_i64_def)
  have "apply_rate_bps ?x 5000 = Some (round_half_to_even (?x * int 5000) 10000)"
    using apply_rate_bps_total [OF x(2,3)] by simp
  moreover have "0 \<le> round_half_to_even (?x * int 5000) 10000" "round_half_to_even (?x * int 5000) 10000 \<le> ?x"
    using x(1) by (auto intro!: round_half_to_even_nonneg round_half_to_even_le)
  ultimately show ?thesis
    using False by (auto simp: loss_carry_forward_ceiling_def LOSS_CARRY_FORWARD_EXCESS_BPS_def LOSS_CARRY_FORWARD_CAP_def)
qed (use assms in \<open>simp add: loss_carry_forward_ceiling_def\<close>)

text \<open>The credit of a carry-back against the tax of the profit it is imputed on.\<close>

lemma prorata:
  assumes "0 < p" "0 \<le> f" "f \<le> p" "0 \<le> i" "i \<le> p" "in_i64 p"
  defines "share \<equiv> (f * i) sdiv p"
  shows "0 \<le> share" "share \<le> i" "share \<le> f" "in_i64 share" "share * p \<le> f * i" "f * i < (share + 1) * p"
proof -
  have eq: "share = f * i div p" unfolding share_def using assms by (intro sdiv_nonneg) auto
  show nn: "0 \<le> share" unfolding eq using assms by (simp add: pos_imp_zdiv_nonneg_iff)
  have "f * i \<le> p * i" using assms by (intro mult_right_mono) auto
  then have "f * i div p \<le> p * i div p" using assms(1) by (rule zdiv_mono1)
  then show le: "share \<le> i" unfolding eq using assms(1) by simp
  have "f * i \<le> f * p" using assms by (intro mult_left_mono) auto
  then have "f * i div p \<le> f * p div p" using assms(1) by (rule zdiv_mono1)
  then show "share \<le> f" unfolding eq using assms(1) by simp
  show "in_i64 share" using nn le assms by (auto simp: in_i64_def)
  have "f * i = share * p + f * i mod p" unfolding eq by simp
  moreover have "0 \<le> f * i mod p" "f * i mod p < p" using assms(1) by simp_all
  ultimately show "share * p \<le> f * i" "f * i < (share + 1) * p" by (simp_all add: algebra_simps)
qed

lemma rounded_rate_le:
  assumes "0 \<le> x"
  shows "200 * round_half_to_even (x * 1500) 10000 \<le> 30 * x + 100"
    and "200 * round_half_to_even (x * 2500) 10000 \<le> 50 * x + 100"
  using round_half_to_even_abs [of 10000 "x * 1500"] round_half_to_even_abs [of 10000 "x * 2500"] by simp_all

lemma weighted_le:
  fixes n r p c :: int
  assumes "0 < p" "0 \<le> n" "0 \<le> r" "n + r \<le> p" "min p c * (n + r) < (r + 1) * p" "0 \<le> c"
  shows "25 * n + 15 * r \<le> 15 * min p c + 25 * max (p - c) 0 + 10"
proof (cases "p \<le> c")
  case True
  then have "p * (n + r) < (r + 1) * p" using assms(5) by simp
  then have "n + r < r + 1" using assms(1) by (simp add: mult.commute)
  then have "n = 0" using assms(2) by simp
  with True assms show ?thesis by simp
next
  case False
  let ?s = "n + r"
  have "10 * (c * ?s) < 10 * ((r + 1) * p)" using False assms(5) by (simp add: min_def)
  moreover have "(25 * p - 10 * c) * ?s \<le> (25 * p - 10 * c) * p"
    using False assms by (intro mult_left_mono) auto
  ultimately have "(25 * n + 15 * r) * p < (25 * p - 10 * c + 10) * p"
    by (simp add: algebra_simps)
  then have "25 * n + 15 * r < 25 * p - 10 * c + 10" using assms(1) by (simp only: mult_less_cancel_right)
  then show ?thesis using False by simp
qed

lemma tax_lower:
  assumes "0 < p" "p \<le> 2 ^ 62"
  shows "\<exists>t. corporate_income_tax p = Some t
     \<and> 15 * min p REDUCED_RATE_CEILING + 25 * max (p - REDUCED_RATE_CEILING) 0 \<le> 100 * t + 6350"
proof -
  let ?b = "round_to_euro p" and ?c = REDUCED_RATE_CEILING
  let ?x = "15 * min ?b ?c + 25 * max (?b - ?c) 0"
  have "\<bar>?b - p\<bar> \<le> 50" by (rule round_to_euro_near)
  then have "15 * min p ?c + 25 * max (p - ?c) 0 \<le> ?x + 1250" by (auto simp: min_def max_def)
  moreover have "?x = 100 * bracket_tax ?b + ?x mod 100" unfolding bracket_tax_def by simp
  then have "?x < 100 * bracket_tax ?b + 100" using pos_mod_bound [of 100 ?x] by linarith
  moreover have "bracket_tax ?b \<le> round_to_euro (bracket_tax ?b) + 50"
    using round_to_euro_near [of "bracket_tax ?b"] by linarith
  ultimately show ?thesis using corporate_income_tax_eq [OF assms] by auto
qed

lemma credit_chain: "a \<le> x + 10 \<Longrightarrow> x \<le> 100 * t + 6350 \<Longrightarrow> a \<le> 100 * t + (6360 :: int)"
  by simp

lemma credit_round: "200 * x \<le> 200 * t + 12920 \<Longrightarrow> x \<le> t + (64 :: int)"
  by simp

lemma impute_conserves:
  assumes "in_i64 r"
  shows "\<exists>li. impute_prior_losses r available = Some li
     \<and> imputed li + remaining li = max available 0 \<and> li_taxable_result li + imputed li = r
     \<and> 0 \<le> imputed li \<and> 0 \<le> remaining li \<and> (0 < r \<longrightarrow> 0 \<le> li_taxable_result li)
     \<and> (r \<le> LOSS_CARRY_FORWARD_CAP \<longrightarrow> imputed li = min (max available 0) (max r 0))"
proof (cases "r \<le> 0")
  case False
  then obtain c where "loss_carry_forward_ceiling r = Some c" "0 \<le> c" "c \<le> r" "r \<le> LOSS_CARRY_FORWARD_CAP \<longrightarrow> c = r"
    using ceiling_eq [of r] assms by auto
  with False show ?thesis by (auto simp: impute_prior_losses_def Let_def)
qed (simp add: impute_prior_losses_def)

section \<open>Properties\<close>

text \<open>The corporate income tax is defined on every result up to 2^62 cents, is a whole number of
  euros, never negative, within half a euro of the two brackets applied to the result rounded to
  the euro, and never decreases when the result grows: crossing the ceiling of the reduced rate
  costs nothing on the income below it.\<close>

lemma corporate_income_tax_correct:
  assumes "r \<le> r'" "r' \<le> 2 ^ 62"
  shows "\<exists>t t'. corporate_income_tax r = Some t \<and> corporate_income_tax r' = Some t'
     \<and> 100 dvd t \<and> 0 \<le> t \<and> t \<le> t' \<and> (r \<le> 0 \<longrightarrow> t = 0)
     \<and> (0 < r \<longrightarrow> \<bar>t - bracket_tax (round_to_euro r)\<bar> \<le> 50)"
proof -
  let ?t = "\<lambda>r. if r \<le> 0 then 0 else round_to_euro (bracket_tax (round_to_euro r))"
  have nn: "0 \<le> ?t r" for r
    by (simp add: round_to_euro_nonneg bracket_tax_nonneg)
  have "corporate_income_tax r = Some (?t r)" if "r \<le> 2 ^ 62" for r
    using that corporate_income_tax_eq [of r] by (auto simp: corporate_income_tax_def)
  moreover have "?t r \<le> ?t r'"
  proof (cases "r \<le> 0")
    case True
    then show ?thesis using nn [of r'] by simp
  next
    case False
    with assms(1) show ?thesis
      by (simp add: round_to_euro_mono bracket_tax_mono)
  qed
  moreover have "100 dvd ?t r" by simp
  moreover have "\<bar>?t r - bracket_tax (round_to_euro r)\<bar> \<le> 50" if "0 < r"
    using that round_to_euro_near [of "bracket_tax (round_to_euro r)"] by simp
  ultimately show ?thesis using assms nn [of r] by (intro exI [of _ "?t r"] exI [of _ "?t r'"]) auto
qed

text \<open>The imputation of prior losses conserves them: what is imputed and what remains add up to
  the stock, the taxable result and what is imputed add up to the result, a profit is never turned
  into a loss, and below one million euros it absorbs all it can.\<close>

lemma impute_prior_losses_conserves:
  assumes "in_i64 r"
  shows "\<exists>li. impute_prior_losses r available = Some li
     \<and> imputed li + remaining li = max available 0 \<and> li_taxable_result li + imputed li = r
     \<and> 0 \<le> imputed li \<and> 0 \<le> remaining li \<and> (0 < r \<longrightarrow> 0 \<le> li_taxable_result li)
     \<and> (r \<le> LOSS_CARRY_FORWARD_CAP \<longrightarrow> imputed li = min (max available 0) (max r 0))"
  by (rule impute_conserves [OF assms])

text \<open>A carry-back imputes exactly the smallest of the loss, the cap and the undistributed profit,
  and its credit is never more than 64 cents above the tax the profit bore; it can exceed that tax
  because the credit is not rounded to the euro.\<close>

lemma carry_back_bounded:
  assumes "0 < loss" "0 < taxable_profit b" "taxable_profit b \<le> 2 ^ 62"
  shows "\<exists>cb t. carry_back loss b = Some cb \<and> corporate_income_tax (taxable_profit b) = Some t
     \<and> cb_imputed cb = min (min loss LOSS_CARRY_BACK_CAP) (max (taxable_profit b - max (distributed b) 0) 0)
     \<and> 0 \<le> cb_credit cb \<and> cb_credit cb \<le> t + 64"
proof -
  define p i f where "p = taxable_profit b" "i = max (p - max (distributed b) 0) 0" "f = min p REDUCED_RATE_CEILING"
  note defs = this
  define capped where "capped = min (min loss LOSS_CARRY_BACK_CAP) i"
  obtain t where t: "corporate_income_tax p = Some t"
    "15 * min p REDUCED_RATE_CEILING + 25 * max (p - REDUCED_RATE_CEILING) 0 \<le> 100 * t + 6350"
    using tax_lower assms(2,3) by (auto simp: defs)
  have p: "0 < p" "in_i64 p" "0 \<le> i" "i \<le> p" "0 \<le> f" "f \<le> p"
    using assms by (auto simp: defs in_i64_def REDUCED_RATE_CEILING_def)
  have t0: "0 \<le> t"
    using t(1) corporate_income_tax_eq [of p] assms(2,3)
    by (auto simp: defs round_to_euro_nonneg bracket_tax_nonneg)
  show ?thesis
  proof (cases "capped = 0")
    case True
    then show ?thesis
      using assms(1,2) t(1) t0
      by (auto simp: carry_back_def CarryBack_NONE_def Let_def capped_def defs)
  next
    case False
    define share where "share = (f * i) sdiv p"
    note share = prorata [OF p(1,5,6,3,4,2), folded share_def]
    define n r where "n = min capped (i - share)" "r = min (capped - n) share"
    note nr = this
    have c: "0 < capped" "capped \<le> i" using False p(3) assms(1) by (auto simp: capped_def LOSS_CARRY_BACK_CAP_def)
    have b: "0 \<le> n" "n \<le> i - share" "0 \<le> r" "r \<le> share" "n + r = capped"
      using c share(1,2) by (auto simp: nr)
    have i64: "in_i64 n" "n \<noteq> - (2 ^ 63)" "in_i64 r" "r \<noteq> - (2 ^ 63)"
      using b p share(1,2) by (auto simp: in_i64_def)
    have rates: "apply_rate_bps n NORMAL_RATE_BPS = Some (round_half_to_even (n * 2500) 10000)"
      "apply_rate_bps r REDUCED_RATE_BPS = Some (round_half_to_even (r * 1500) 10000)"
      using apply_rate_bps_total [OF i64(1,2), of 2500] apply_rate_bps_total [OF i64(3,4), of 1500]
      by (simp_all add: NORMAL_RATE_BPS_def REDUCED_RATE_BPS_def)
    have cb: "carry_back loss b = Some \<lparr>cb_imputed = n + r,
        cb_credit = round_half_to_even (n * 2500) 10000 + round_half_to_even (r * 1500) 10000\<rparr>"
    proof -
      have "carry_back loss b =
          do { normal \<leftarrow> apply_rate_bps n NORMAL_RATE_BPS; reduced \<leftarrow> apply_rate_bps r REDUCED_RATE_BPS;
               Some \<lparr>cb_imputed = n + r, cb_credit = normal + reduced\<rparr> }"
        unfolding carry_back_def Let_def defs(1) [symmetric] defs(2) [symmetric] capped_def [symmetric]
          defs(3) [symmetric] share_def [symmetric]
        using assms(1) p(1) False share(4) by (simp only: nr not_le [symmetric] if_False if_True de_Morgan_disj simp_thms)
      then show ?thesis by (simp add: rates)
    qed
    have "25 * (i - share) + 15 * share \<le> 15 * min p REDUCED_RATE_CEILING + 25 * max (p - REDUCED_RATE_CEILING) 0 + 10"
      by (rule weighted_le [OF p(1)])
        (use share p in \<open>simp_all add: defs REDUCED_RATE_CEILING_def\<close>)
    then have "25 * (i - share) + 15 * share \<le> 100 * t + 6360" using t(2) by (rule credit_chain)
    moreover have "25 * n + 15 * r \<le> 25 * (i - share) + 15 * share"
      using b by (intro add_mono mult_left_mono) auto
    ultimately have "25 * n + 15 * r \<le> 100 * t + 6360" by (rule order_trans [rotated])
    then have "50 * n + 30 * r \<le> 2 * (100 * t + 6360)" by simp
    then have "200 * (round_half_to_even (n * 2500) 10000 + round_half_to_even (r * 1500) 10000) \<le> 200 * t + 12920"
      using rounded_rate_le(2) [OF b(1)] rounded_rate_le(1) [OF b(3)] by simp
    then have "round_half_to_even (n * 2500) 10000 + round_half_to_even (r * 1500) 10000 \<le> t + 64" by (rule credit_round)
    moreover have "0 \<le> round_half_to_even (n * 2500) 10000" "0 \<le> round_half_to_even (r * 1500) 10000"
      using b by (auto intro!: round_half_to_even_nonneg)
    ultimately show ?thesis using cb t(1) b(5) by (auto simp: capped_def defs)
  qed
qed

text \<open>The excess is real: a profit of 3.49 euros bears no tax and yields a credit of 52 cents.\<close>

lemma carry_back_exceeds_tax:
  "carry_back 349 \<lparr>taxable_profit = 349, distributed = 0\<rparr> = Some \<lparr>cb_imputed = 349, cb_credit = 52\<rparr>
   \<and> corporate_income_tax 349 = Some 0"
  by (simp add: carry_back_def corporate_income_tax_def round_to_euro_eq round_half_to_even_def
      LOSS_CARRY_BACK_CAP_def REDUCED_RATE_CEILING_def REDUCED_RATE_BPS_def NORMAL_RATE_BPS_def
      apply_rate_bps_def in_i64_def i64_try_from_def sdiv_nonneg smod_nonneg Let_def)

end
