(* ===== verification/Accounts.thy ===== *)
theory Accounts
  imports Facts
begin

text \<open>
  The vocabulary of \<open>ledger.rs\<close>: journals, accounts and the fixed chart of accounts, the lines
  and entries of the ledger, and the opening lines of a fiscal year. The double-entry laws shared
  by entries and opening balances are the interface \<open>double_entry\<close>.
\<close>

section \<open>Journals\<close>

datatype ledger_error = Overflow

datatype journal = Opening | Sales | Purchases | Bank | Misc

fun journal_code :: "journal \<Rightarrow> string" where
  "journal_code Opening = ''AN''"
| "journal_code Sales = ''VE''"
| "journal_code Purchases = ''AC''"
| "journal_code Bank = ''BQ''"
| "journal_code Misc = ''OD''"

fun journal_label :: "journal \<Rightarrow> string" where
  "journal_label Opening = a_grave_upper @ ''-nouveaux''"
| "journal_label Sales = ''Ventes''"
| "journal_label Purchases = ''Achats''"
| "journal_label Bank = ''Banque''"
| "journal_label Misc = ''Op'' @ e_acute @ ''rations diverses''"

definition journal_parse_code :: "string \<Rightarrow> journal option" where
  "journal_parse_code code =
     (if code = ''AN'' then Some Opening
      else if code = ''VE'' then Some Sales
      else if code = ''AC'' then Some Purchases
      else if code = ''BQ'' then Some Bank
      else if code = ''OD'' then Some Misc
      else None)"

text \<open>The order of the variants is the order of the entries of one day.\<close>

fun journal_rank :: "journal \<Rightarrow> nat" where
  "journal_rank Opening = 0"
| "journal_rank Sales = 1"
| "journal_rank Purchases = 2"
| "journal_rank Bank = 3"
| "journal_rank Misc = 4"

lemma journal_rank_inj: "journal_rank a = journal_rank b \<Longrightarrow> a = b"
  by (cases a; cases b) simp_all

instantiation journal :: linorder
begin

definition less_eq_journal :: "journal \<Rightarrow> journal \<Rightarrow> bool" where
  "less_eq_journal a b \<longleftrightarrow> journal_rank a \<le> journal_rank b"

definition less_journal :: "journal \<Rightarrow> journal \<Rightarrow> bool" where
  "less_journal a b \<longleftrightarrow> journal_rank a < journal_rank b"

instance
  by standard (auto simp: less_eq_journal_def less_journal_def intro: journal_rank_inj)

end

section \<open>Accounts\<close>

record account =
  acc_number :: string
  acc_label :: string

definition fixed :: "string \<Rightarrow> string \<Rightarrow> account" where
  "fixed n l = \<lparr>acc_number = n, acc_label = l\<rparr>"

definition ledger_class :: "account \<Rightarrow> nat" where
  "ledger_class a = (case acc_number a of [] \<Rightarrow> 0 | c # _ \<Rightarrow> (byte c + 256 - 48) mod 256)"

definition is_income_statement :: "account \<Rightarrow> bool" where
  "is_income_statement a \<longleftrightarrow> ledger_class a = 6 \<or> ledger_class a = 7"

definition CLIENTS :: account where
  "CLIENTS = fixed ''411000''
     (''Clients'')"

definition SUPPLIERS :: account where
  "SUPPLIERS = fixed ''401000''
     (''Fournisseurs'')"

definition BANK :: account where
  "BANK = fixed ''512000''
     (''Banque'')"

definition SERVICES :: account where
  "SERVICES = fixed ''706000''
     (''Prestations de services'')"

definition VAT_COLLECTED :: account where
  "VAT_COLLECTED = fixed ''445710''
     (''TVA collect'' @ e_acute @ ''e'')"

definition VAT_PENDING :: account where
  "VAT_PENDING = fixed ''445881''
     (''TVA collect'' @ e_acute @ ''e en attente d'' @ [CHR 0x27] @ ''exigibilit'' @ e_acute @ '' - 20%'')"

definition VAT_DEDUCTIBLE :: account where
  "VAT_DEDUCTIBLE = fixed ''445660''
     (''TVA d'' @ e_acute @ ''ductible sur autres biens et services'')"

definition VAT_INTRACOM_DUE :: account where
  "VAT_INTRACOM_DUE = fixed ''445200''
     (''TVA due intracommunautaire'')"

definition VAT_INTRACOM_DEDUCTIBLE :: account where
  "VAT_INTRACOM_DEDUCTIBLE = fixed ''445662''
     (''TVA d'' @ e_acute @ ''ductible sur prestations de services intracommunautaire'')"

definition SOFTWARE :: account where
  "SOFTWARE = fixed ''651000''
     (''Redevances pour logiciels et licences'')"

definition BAD_DEBT :: account where
  "BAD_DEBT = fixed ''654000''
     (''Pertes sur cr'' @ e_acute @ ''ances irr'' @ e_acute @ ''couvrables'')"

definition SMALL_EQUIPMENT :: account where
  "SMALL_EQUIPMENT = fixed ''606300''
     (''Fournitures d'' @ [CHR 0x27] @ ''entretien et de petit '' @ e_acute @ ''quipement'')"

definition TRAVEL :: account where
  "TRAVEL = fixed ''625100''
     (''Voyages et d'' @ e_acute @ ''placements'')"

definition MEALS :: account where
  "MEALS = fixed ''625600''
     (''Missions'')"

definition OFFICE :: account where
  "OFFICE = fixed ''606400''
     (''Fournitures administratives'')"

definition PROFESSIONAL :: account where
  "PROFESSIONAL = fixed ''618000''
     (''Divers : formation, documentation, cotisations'')"

definition FEES :: account where
  "FEES = fixed ''622600''
     (''Honoraires'')"

definition BANK_CHARGES :: account where
  "BANK_CHARGES = fixed ''627000''
     (''Services bancaires et assimil'' @ e_acute @ ''s'')"

definition TAXES :: account where
  "TAXES = fixed ''635000''
     (''Imp'' @ o_circ @ ''ts, taxes et versements assimil'' @ e_acute @ ''s'')"

definition OTHER :: account where
  "OTHER = fixed ''658000''
     (''Charges diverses de gestion courante'')"

definition SUNDRY_INCOME :: account where
  "SUNDRY_INCOME = fixed ''758000''
     (''Produits divers de gestion courante'')"

definition VAT_DUE :: account where
  "VAT_DUE = fixed ''445510''
     (e_acute_upper @ ''tat '' @ em_dash @ '' TVA '' @ [CHR 0xC3, CHR 0xA0] @ '' d'' @ e_acute @ ''caisser'')"

definition VAT_CREDIT :: account where
  "VAT_CREDIT = fixed ''445670''
     (''Cr'' @ e_acute @ ''dit de TVA '' @ [CHR 0xC3, CHR 0xA0] @ '' reporter'')"

definition SHAREHOLDER_ACCOUNT :: account where
  "SHAREHOLDER_ACCOUNT = fixed ''455000''
     (''Associ'' @ e_acute @ ''s '' @ em_dash @ '' comptes courants'')"

definition INTERNAL_TRANSFER :: account where
  "INTERNAL_TRANSFER = fixed ''580000''
     (''Virements internes'')"

definition LOANS :: account where
  "LOANS = fixed ''164000''
     (''Emprunts aupr'' @ e_grave @ ''s des '' @ e_acute @ ''tablissements de cr'' @ e_acute @ ''dit'')"

definition SHARE_CAPITAL :: account where
  "SHARE_CAPITAL = fixed ''101000''
     (''Capital social'')"

definition DIRECTOR_PAY :: account where
  "DIRECTOR_PAY = fixed ''641100''
     (''R'' @ e_acute @ ''mun'' @ e_acute @ ''ration du dirigeant'')"

definition SOCIAL_CHARGES :: account where
  "SOCIAL_CHARGES = fixed ''645000''
     (''Charges de s'' @ e_acute @ ''curit'' @ e_acute @ '' sociale et de pr'' @ e_acute @ ''voyance'')"

definition PAY_DUE :: account where
  "PAY_DUE = fixed ''421000''
     (''Personnel '' @ em_dash @ '' r'' @ e_acute @ ''mun'' @ e_acute @ ''rations dues'')"

definition SOCIAL_DUE :: account where
  "SOCIAL_DUE = fixed ''431000''
     (''S'' @ e_acute @ ''curit'' @ e_acute @ '' sociale'')"

definition CORPORATE_TAX :: account where
  "CORPORATE_TAX = fixed ''695000''
     (''Imp'' @ o_circ @ ''ts sur les b'' @ e_acute @ ''n'' @ e_acute @ ''fices'')"

definition CORPORATE_TAX_DUE :: account where
  "CORPORATE_TAX_DUE = fixed ''444000''
     (e_acute_upper @ ''tat '' @ em_dash @ '' imp'' @ o_circ @ ''ts sur les b'' @ e_acute @ ''n'' @ e_acute @ ''fices'')"

definition CARRY_BACK_INCOME :: account where
  "CARRY_BACK_INCOME = fixed ''699000''
     (''Produits '' @ em_dash @ '' report en arri'' @ e_grave @ ''re des d'' @ e_acute @ ''ficits'')"

definition PROFIT :: account where
  "PROFIT = fixed ''120000''
     (''R'' @ e_acute @ ''sultat de l'' @ [CHR 0x27] @ ''exercice (b'' @ e_acute @ ''n'' @ e_acute @ ''fice)'')"

definition LOSS :: account where
  "LOSS = fixed ''129000''
     (''R'' @ e_acute @ ''sultat de l'' @ [CHR 0x27] @ ''exercice (perte)'')"

definition LEGAL_RESERVE :: account where
  "LEGAL_RESERVE = fixed ''106100''
     (''R'' @ e_acute @ ''serve l'' @ e_acute @ ''gale'')"

definition RETAINED_CREDIT :: account where
  "RETAINED_CREDIT = fixed ''110000''
     (''Report '' @ [CHR 0xC3, CHR 0xA0] @ '' nouveau (solde cr'' @ e_acute @ ''diteur)'')"

definition RETAINED_DEBIT :: account where
  "RETAINED_DEBIT = fixed ''119000''
     (''Report '' @ [CHR 0xC3, CHR 0xA0] @ '' nouveau (solde d'' @ e_acute @ ''biteur)'')"

definition DIVIDENDS_DUE :: account where
  "DIVIDENDS_DUE = fixed ''457000''
     (''Associ'' @ e_acute @ ''s '' @ em_dash @ '' dividendes '' @ [CHR 0xC3, CHR 0xA0] @ '' payer'')"

definition PREPAID_EXPENSES :: account where
  "PREPAID_EXPENSES = fixed ''486000''
     (''Charges constat'' @ e_acute @ ''es d'' @ [CHR 0x27] @ ''avance'')"

definition DEPRECIATION :: account where
  "DEPRECIATION = fixed ''681100''
     (''Dotations aux amortissements des immobilisations'')"

definition COMPUTER_EQUIPMENT :: account where
  "COMPUTER_EQUIPMENT = fixed ''218300''
     (''Mat'' @ e_acute @ ''riel de bureau et mat'' @ e_acute @ ''riel informatique'')"

definition COMPUTER_DEPRECIATION :: account where
  "COMPUTER_DEPRECIATION = fixed ''281830''
     (''Amortissements du mat'' @ e_acute @ ''riel de bureau et informatique'')"

definition INTANGIBLE_SOFTWARE :: account where
  "INTANGIBLE_SOFTWARE = fixed ''205000''
     (''Concessions, brevets, licences, logiciels'')"

definition INTANGIBLE_SOFTWARE_DEPRECIATION :: account where
  "INTANGIBLE_SOFTWARE_DEPRECIATION = fixed ''280500''
     (''Amortissements des logiciels'')"

definition FIXED_PLAN :: "account list" where
  "FIXED_PLAN =
     [SHARE_CAPITAL, LEGAL_RESERVE, RETAINED_CREDIT, RETAINED_DEBIT, PROFIT, LOSS, LOANS,
      SUPPLIERS, CLIENTS, PAY_DUE, SOCIAL_DUE, CORPORATE_TAX_DUE, VAT_DUE, VAT_DEDUCTIBLE,
      VAT_INTRACOM_DUE, VAT_INTRACOM_DEDUCTIBLE, VAT_COLLECTED, VAT_PENDING, VAT_CREDIT,
      SHAREHOLDER_ACCOUNT, DIVIDENDS_DUE, BANK, INTERNAL_TRANSFER, SMALL_EQUIPMENT, OFFICE,
      PROFESSIONAL, FEES, TRAVEL, MEALS, BANK_CHARGES, TAXES, DIRECTOR_PAY, SOCIAL_CHARGES,
      SOFTWARE, BAD_DEBT, OTHER, SUNDRY_INCOME, CORPORATE_TAX, CARRY_BACK_INCOME,
      DEPRECIATION, PREPAID_EXPENSES, COMPUTER_EQUIPMENT, COMPUTER_DEPRECIATION,
      INTANGIBLE_SOFTWARE, INTANGIBLE_SOFTWARE_DEPRECIATION]"

definition account_for_number :: "string \<Rightarrow> string option \<Rightarrow> account option" where
  "account_for_number n label =
     (case find (\<lambda>a. acc_number a = n) FIXED_PLAN of
        Some a \<Rightarrow> Some a
      | None \<Rightarrow> map_option (\<lambda>l. \<lparr>acc_number = n, acc_label = l\<rparr>) label)"

fun charge_account :: "expense_category \<Rightarrow> account" where
  "charge_account Software = SOFTWARE"
| "charge_account Equipment = SMALL_EQUIPMENT"
| "charge_account Travel = TRAVEL"
| "charge_account Meals = MEALS"
| "charge_account Office = OFFICE"
| "charge_account Professional = PROFESSIONAL"
| "charge_account Fees = FEES"
| "charge_account BankCharges = BANK_CHARGES"
| "charge_account Taxes = TAXES"
| "charge_account OtherExpense = OTHER"

section \<open>Lines and entries\<close>

record aux_account =
  aux_number :: string
  aux_label :: string

definition aux_for_client :: "client \<Rightarrow> aux_account" where
  "aux_for_client c =
     (let hex = map to_ascii_uppercase (take 8 (filter (\<lambda>x. x \<noteq> CHR ''-'') (client_id c)))
      in \<lparr>aux_number = ''C'' @ hex, aux_label = client_name c\<rparr>)"

record ledger_line =
  ll_account :: account
  ll_aux :: "aux_account option"
  ll_amount :: money
  line_label :: "string option"

record ledger_entry =
  le_journal :: journal
  le_number :: nat
  le_date :: date
  piece_ref :: string
  piece_date :: date
  le_label :: string
  le_lines :: "ledger_line list"

definition is_balanced :: "ledger_entry \<Rightarrow> bool" where
  "is_balanced e \<longleftrightarrow> sum_list (map ll_amount (le_lines e)) = 0"

definition entry_total_debit :: "ledger_entry \<Rightarrow> money" where
  "entry_total_debit e = sum_list (map ll_amount (filter (\<lambda>l. \<not> ll_amount l < 0) (le_lines e)))"

record opening_lines =
  ol_label :: string
  ol_lines :: "ledger_line list"

definition line :: "account \<Rightarrow> money \<Rightarrow> ledger_line" where
  "line a m = \<lparr>ll_account = a, ll_aux = None, ll_amount = m, line_label = None\<rparr>"

definition from_opening_balance :: "opening_balance \<Rightarrow> opening_lines option" where
  "from_opening_balance ob =
     do { ls \<leftarrow> those (map (\<lambda>l. do { a \<leftarrow> account_for_number (as_str (obl_account l)) (Some (obl_label l));
                                  Some (line a (signed l)) }) (ob_lines ob));
          Some \<lparr>ol_label = (case ob_source ob of
                  None \<Rightarrow> a_grave_upper @ ''-nouveaux''
                | Some src \<Rightarrow> a_grave_upper @ ''-nouveaux '' @ em_dash @ '' '' @ src),
                ol_lines = ls\<rparr> }"

definition numbered_account :: "string \<Rightarrow> string \<Rightarrow> account" where
  "numbered_account n label =
     (case account_for_number n (Some label) of
        Some a \<Rightarrow> a | None \<Rightarrow> \<lparr>acc_number = n, acc_label = label\<rparr>)"

text \<open>An entry keeps its non-zero lines; without any it is not written.\<close>

definition entry :: "journal \<Rightarrow> date \<Rightarrow> string \<Rightarrow> string \<Rightarrow> ledger_line list \<Rightarrow> ledger_entry option" where
  "entry j d piece label ls0 =
     (let ls = filter (\<lambda>l. ll_amount l \<noteq> 0) ls0
      in if ls = [] then None
         else Some \<lparr>le_journal = j, le_number = 0, le_date = d, piece_ref = piece, piece_date = d,
                   le_label = label, le_lines = ls\<rparr>)"

section \<open>The double-entry interface\<close>

text \<open>
  A book lists signed amounts, debits positive and credits negative, and a sound book's amounts
  cancel out. Whatever is read off one side of such a book is the opposite of the other side.
\<close>

locale double_entry =
  fixes amounts :: "'b \<Rightarrow> 'l list" and amount :: "'l \<Rightarrow> money" and sound :: "'b \<Rightarrow> bool"
  assumes sound_zero: "sound b \<Longrightarrow> sum_list (map amount (amounts b)) = 0"
begin

lemma split_sum:
  "sum_list (map amount (filter P ls)) + sum_list (map amount (filter (\<lambda>l. \<not> P l) ls)) = sum_list (map amount ls)"
  by (induction ls) auto

lemma complement: "sound b \<Longrightarrow>
   sum_list (map amount (filter P (amounts b))) = - sum_list (map amount (filter (\<lambda>l. \<not> P l) (amounts b)))"
  using split_sum [of P "amounts b"] sound_zero [of b] by linarith

lemma debit_credit: "sound b \<Longrightarrow>
   sum_list (map amount (filter (\<lambda>l. \<not> amount l < 0) (amounts b))) =
   sum_list (map (\<lambda>l. - amount l) (filter (\<lambda>l. amount l < 0) (amounts b)))"
  using complement [of b "\<lambda>l. \<not> amount l < 0"] by (simp add: uminus_sum_list_map o_def)

end

interpretation entries: double_entry le_lines ll_amount is_balanced
  by unfold_locales (simp add: is_balanced_def)

interpretation opening_balances: double_entry ob_lines signed "\<lambda>ob. opening_validate ob = Inr ()"
  by unfold_locales (simp add: opening_validate_iff)

lemma line_sel [simp]:
  "ll_amount (line a m) = m" "ll_account (line a m) = a" "ll_aux (line a m) = None"
  by (simp_all add: line_def)

lemma sum_nonzero: "sum_list (map ll_amount (filter (\<lambda>l. ll_amount l \<noteq> 0) ls)) = sum_list (map ll_amount ls)"
  by (induction ls) auto

lemma entry_Some:
  "entry j d piece label ls = Some e \<Longrightarrow>
     le_journal e = j \<and> le_date e = d \<and> le_lines e = filter (\<lambda>l. ll_amount l \<noteq> 0) ls \<and> le_lines e \<noteq> []
     \<and> piece_ref e = piece \<and> le_number e = 0"
  by (auto simp: entry_def Let_def split: if_splits)

lemma entry_balanced:
  "entry j d piece label ls = Some e \<Longrightarrow> sum_list (map ll_amount ls) = 0 \<Longrightarrow> is_balanced e"
  by (drule entry_Some) (simp add: is_balanced_def sum_nonzero)

section \<open>The fixed chart\<close>

lemmas chart_defs = fixed_def CLIENTS_def SUPPLIERS_def BANK_def SERVICES_def VAT_COLLECTED_def VAT_PENDING_def
  VAT_DEDUCTIBLE_def VAT_INTRACOM_DUE_def VAT_INTRACOM_DEDUCTIBLE_def SOFTWARE_def
  BAD_DEBT_def SMALL_EQUIPMENT_def TRAVEL_def MEALS_def OFFICE_def PROFESSIONAL_def
  FEES_def BANK_CHARGES_def TAXES_def OTHER_def SUNDRY_INCOME_def VAT_DUE_def
  VAT_CREDIT_def SHAREHOLDER_ACCOUNT_def INTERNAL_TRANSFER_def LOANS_def SHARE_CAPITAL_def
  DIRECTOR_PAY_def SOCIAL_CHARGES_def PAY_DUE_def SOCIAL_DUE_def CORPORATE_TAX_def
  CORPORATE_TAX_DUE_def CARRY_BACK_INCOME_def PROFIT_def LOSS_def LEGAL_RESERVE_def
  RETAINED_CREDIT_def RETAINED_DEBIT_def DIVIDENDS_DUE_def PREPAID_EXPENSES_def
  DEPRECIATION_def COMPUTER_EQUIPMENT_def COMPUTER_DEPRECIATION_def INTANGIBLE_SOFTWARE_def
  INTANGIBLE_SOFTWARE_DEPRECIATION_def

lemma plan_distinct: "distinct (map acc_number FIXED_PLAN)"
  unfolding FIXED_PLAN_def by (simp add: chart_defs)

lemma find_distinct:
  "distinct (map f xs) \<Longrightarrow> a \<in> set xs \<Longrightarrow> find (\<lambda>x. f x = f a) xs = Some a"
  by (induction xs) auto

lemma account_for_number_number: "account_for_number n l = Some a \<Longrightarrow> acc_number a = n"
  by (auto simp: account_for_number_def find_Some_iff split: option.splits)

lemma account_for_number_total: "\<exists>a. account_for_number n (Some l) = Some a"
  by (auto simp: account_for_number_def split: option.splits)

lemma from_opening_balance_total:
  "\<exists>ol. from_opening_balance ob = Some ol
     \<and> map ll_amount (ol_lines ol) = map signed (ob_lines ob)
     \<and> map (acc_number \<circ> ll_account) (ol_lines ol) = map (as_str \<circ> obl_account) (ob_lines ob)"
proof -
  let ?f = "\<lambda>l. do { a \<leftarrow> account_for_number (as_str (obl_account l)) (Some (obl_label l)); Some (line a (signed l)) }"
  have "\<exists>ys. those (map ?f ls) = Some ys \<and> map ll_amount ys = map signed ls
      \<and> map (acc_number \<circ> ll_account) ys = map (as_str \<circ> obl_account) ls" for ls
  proof (induction ls)
    case (Cons l ls)
    obtain a where a: "account_for_number (as_str (obl_account l)) (Some (obl_label l)) = Some a"
      using account_for_number_total by blast
    with Cons show ?case by (auto dest: account_for_number_number)
  qed simp
  from this [of "ob_lines ob"] obtain ys where "those (map ?f (ob_lines ob)) = Some ys"
    "map ll_amount ys = map signed (ob_lines ob)"
    "map (acc_number \<circ> ll_account) ys = map (as_str \<circ> obl_account) (ob_lines ob)" by blast
  then show ?thesis by (simp add: from_opening_balance_def)
qed

section \<open>Properties\<close>

text \<open>The fixed chart has one account per number, so that a number of the chart always resolves
  to its own label whatever text is supplied; the account of services is not in the chart, and its
  number takes the supplied label.\<close>

lemma chart_resolves:
  "distinct (map acc_number FIXED_PLAN)
   \<and> {a \<in> set FIXED_PLAN. account_for_number (acc_number a) label \<noteq> Some a} = {}
   \<and> account_for_number (acc_number SERVICES) (Some text) = Some \<lparr>acc_number = ''706000'', acc_label = text\<rparr>"
proof -
  have "account_for_number (acc_number a) label = Some a" if "a \<in> set FIXED_PLAN" for a
    using find_distinct [OF plan_distinct that] by (simp add: account_for_number_def)
  moreover have "find (\<lambda>a. acc_number a = ''706000'') FIXED_PLAN = None"
    unfolding FIXED_PLAN_def by (simp add: chart_defs)
  ultimately show ?thesis
    using plan_distinct by (auto simp: account_for_number_def SERVICES_def fixed_def)
qed

text \<open>Journal codes read back as the journal they come from, and no two journals share one.\<close>

lemma journal_code_roundtrip:
  "journal_parse_code (journal_code j) = Some j \<and> (journal_code j = journal_code k) = (j = k)"
  by (cases j; cases k) (simp_all add: journal_parse_code_def)

end
