(* ===== verification/Entries.thy ===== *)
theory Entries
  imports Accounts Billing
begin

text \<open>
  The entry builders of \<open>ledger.rs\<close>: payroll, expense payments, sales, receipts, reversals, and the
  replay of sales and receipts of \<open>book_service_activity\<close>. An outer \<open>None\<close> is a panic, an inner
  one an entry that is not written because all its lines are zero.
\<close>

section \<open>Definitions\<close>

definition opt_list :: "'a option \<Rightarrow> 'a list" where
  "opt_list x = (case x of None \<Rightarrow> [] | Some y \<Rightarrow> [y])"

fun method_label :: "payment_method \<Rightarrow> string" where
  "method_label BankTransfer = ''virement''"
| "method_label Check = ''ch'' @ e_grave @ ''que''"
| "method_label Card = ''carte''"
| "method_label OtherMethod = ''autre''"

definition short_id :: "uuid \<Rightarrow> string" where
  "short_id i = take 8 i"

definition payroll_form :: "date \<Rightarrow> money \<Rightarrow> money \<Rightarrow> money \<Rightarrow> ledger_entry list" where
  "payroll_form on gs employee_withholding employer_contributions =
     (let net = gs - employee_withholding;
          social = employee_withholding + employer_contributions
      in opt_list (entry Misc on ''PAIE''
           (''Paie '' @ em_dash @ '' brut, retenue salariale et cotisations patronales'')
           [line DIRECTOR_PAY gs, line SOCIAL_CHARGES employer_contributions,
            line PAY_DUE (- net), line SOCIAL_DUE (- social)])
         @ opt_list (entry Bank on ''PAIE-NET'' (''R'' @ e_grave @ ''glement du net'')
             [line PAY_DUE net, line BANK (- net)])
         @ opt_list (entry Bank on ''PAIE-URSSAF'' (''R'' @ e_grave @ ''glement des cotisations'')
             [line SOCIAL_DUE social, line BANK (- social)]))"

datatype expense_payment = PaidFromBank date | PaidByTheAssociate

definition expense_payment_entry ::
    "time_api \<Rightarrow> expense \<Rightarrow> expense_payment \<Rightarrow> (string \<times> string) option \<Rightarrow> ledger_entry option option" where
  "expense_payment_entry T e payment immobilized =
     (let (j, on, credit, tail) =
            (case payment of
               PaidFromBank on \<Rightarrow> (Bank, on, BANK, ''relev'' @ e_acute @ '' du '' @ format_date T on)
             | PaidByTheAssociate \<Rightarrow>
                 (Purchases, incurred_on e, SHAREHOLDER_ACCOUNT, ''pay'' @ e_acute @ '' par l'' @ [CHR 0x27] @ ''associ'' @ e_acute));
          text = (case receipt_filename e of
                    None \<Rightarrow> exp_label e | Some file \<Rightarrow> exp_label e @ '' '' @ em_dash @ '' '' @ file);
          debit = (case immobilized of
                     Some (n, label) \<Rightarrow> numbered_account n label
                   | None \<Rightarrow> charge_account (exp_category e))
      in do { (charge, vat_lines) \<leftarrow>
                (if reverse_charge e
                 then do { vat \<leftarrow> tax_on (exp_vat_rate e) (exp_amount e);
                           Some (exp_amount e, [line VAT_INTRACOM_DEDUCTIBLE vat, line VAT_INTRACOM_DUE (- vat)]) }
                 else Some (exp_amount e - vat_deductible e, [line VAT_DEDUCTIBLE (vat_deductible e)]));
              Some (entry j on (''DEP-'' @ exp_id e) (text @ '' '' @ em_dash @ '' '' @ tail)
                (line debit charge # vat_lines @ [line credit (- exp_amount e)])) })"

definition client_aux :: "uuid \<Rightarrow> client option \<Rightarrow> aux_account" where
  "client_aux cid c =
     (case c of
        None \<Rightarrow> \<lparr>aux_number = ''C'' @ map to_ascii_uppercase (short_id cid), aux_label = ''Client inconnu''\<rparr>
      | Some cl \<Rightarrow> aux_for_client cl)"

definition client_line :: "aux_account option \<Rightarrow> money \<Rightarrow> ledger_line" where
  "client_line aux m = \<lparr>ll_account = CLIENTS, ll_aux = aux, ll_amount = m, line_label = None\<rparr>"

definition service_sale_entry ::
    "invoice \<Rightarrow> client option \<Rightarrow> string option \<Rightarrow> ledger_entry option option" where
  "service_sale_entry iv c original =
     do { totals \<leftarrow> compute_totals (inv_lines iv);
          let name = (case c of None \<Rightarrow> ''client inconnu'' | Some cl \<Rightarrow> client_name cl);
          let label = (case original of
                 Some o1 \<Rightarrow> ''Avoir '' @ inv_number iv @ '' sur '' @ o1 @ '' '' @ em_dash @ '' '' @ name
               | None \<Rightarrow> ''Facture '' @ inv_number iv @ '' '' @ em_dash @ '' '' @ name);
          Some (entry Sales (issued_on iv) (inv_number iv) label
            [client_line (Some (client_aux (inv_client_id iv) c)) (total_ttc totals),
             line SERVICES (- subtotal_ht totals), line VAT_PENDING (- total_vat totals)]) }"

definition vat_transferred_on_receipt :: "money \<Rightarrow> money \<Rightarrow> money \<Rightarrow> money option" where
  "vat_transferred_on_receipt pending_vat collected ttc_still_due =
     (if ttc_still_due \<le> 0 \<or> pending_vat \<le> 0 \<or> collected \<le> 0 then Some 0
      else if collected \<ge> ttc_still_due then Some pending_vat
      else scale pending_vat collected ttc_still_due)"

definition receipt_entry ::
    "payment \<Rightarrow> string \<Rightarrow> uuid \<Rightarrow> client option \<Rightarrow> money \<Rightarrow> ledger_entry option" where
  "receipt_entry p invoice_number cid c vat_moved =
     entry Bank (received_on p) invoice_number
       (''R'' @ e_grave @ ''glement '' @ invoice_number @ '' ('' @ method_label (pay_method p) @ '')'')
       [line BANK (pay_amount p), client_line (Some (client_aux cid c)) (- pay_amount p),
        line VAT_PENDING vat_moved, line VAT_COLLECTED (- vat_moved)]"

definition extourne_entry :: "ledger_entry \<Rightarrow> ledger_entry" where
  "extourne_entry e =
     \<lparr>le_journal = le_journal e, le_number = 0, le_date = le_date e, piece_ref = ''EXT-'' @ piece_ref e,
      piece_date = le_date e, le_label = ''Extourne'' @ '' '' @ em_dash @ '' '' @ le_label e,
      le_lines = map (\<lambda>l. l\<lparr>ll_amount := - ll_amount l\<rparr>) (le_lines e)\<rparr>"

text \<open>A \<open>HashMap\<close> collected from a list: the last element of a key wins.\<close>

definition index_by :: "('a \<Rightarrow> uuid) \<Rightarrow> 'a list \<Rightarrow> uuid \<Rightarrow> 'a option" where
  "index_by key xs = map_of (rev (map (\<lambda>x. (key x, x)) xs))"

definition credited_before :: "invoice list \<Rightarrow> uuid \<Rightarrow> date \<Rightarrow> (money \<times> money) option" where
  "credited_before invs i on =
     do { ts \<leftarrow> those (map (\<lambda>credit. compute_totals (inv_lines credit))
                  (filter (\<lambda>credit. credited_invoice_id credit = Some i \<and> issued_on credit \<le> on) invs));
          Some (sum_list (map total_vat ts), sum_list (map total_ttc ts)) }"

definition non_negative :: "money \<Rightarrow> money" where
  "non_negative m = (if m < 0 then 0 else m)"

fun book_payments ::
    "invoice list \<Rightarrow> client list \<Rightarrow> payment list \<Rightarrow> (uuid \<Rightarrow> money) \<Rightarrow> (uuid \<Rightarrow> money) \<Rightarrow> ledger_entry list option" where
  "book_payments invs cls [] taken_ttc taken_vat = Some []"
| "book_payments invs cls (p # ps) taken_ttc taken_vat =
     (case index_by inv_id invs (pay_invoice_id p) of
        None \<Rightarrow> book_payments invs cls ps taken_ttc taken_vat
      | Some iv \<Rightarrow>
          do { (credit_vat, credit_ttc) \<leftarrow> credited_before invs (inv_id iv) (received_on p);
               totals \<leftarrow> compute_totals (inv_lines iv);
               let pending = non_negative (total_vat totals + credit_vat - taken_vat (inv_id iv));
               let due = total_ttc totals + credit_ttc - taken_ttc (inv_id iv);
               vat_moved \<leftarrow> vat_transferred_on_receipt pending (pay_amount p) due;
               case receipt_entry p (inv_number iv) (inv_client_id iv)
                      (index_by client_id cls (inv_client_id iv)) vat_moved of
                 None \<Rightarrow> book_payments invs cls ps taken_ttc taken_vat
               | Some receipt \<Rightarrow>
                   (if is_voided p
                    then do { rest \<leftarrow> book_payments invs cls ps taken_ttc taken_vat;
                              Some (receipt # extourne_entry receipt # rest) }
                    else do { rest \<leftarrow> book_payments invs cls ps
                                (taken_ttc(inv_id iv := taken_ttc (inv_id iv) + pay_amount p))
                                (taken_vat(inv_id iv := taken_vat (inv_id iv) + vat_moved));
                              Some (receipt # rest) }) })"

definition book_service_activity ::
    "invoice list \<Rightarrow> client list \<Rightarrow> payment list \<Rightarrow> ledger_entry list option" where
  "book_service_activity invs cls ps =
     do { sales \<leftarrow> those (map (\<lambda>iv. service_sale_entry iv
              (index_by client_id cls (inv_client_id iv))
              (Option.bind (credited_invoice_id iv)
                 (\<lambda>i. map_option inv_number (index_by inv_id invs i)))) invs);
          receipts \<leftarrow> book_payments invs cls (sort_key (\<lambda>p. (received_on p, pay_id p)) ps) (\<lambda>_. 0) (\<lambda>_. 0);
          Some (concat (map opt_list sales) @ receipts) }"

definition result_account :: "money \<Rightarrow> account" where
  "result_account net = (if net < 0 then LOSS else PROFIT)"

definition corporate_tax_booking :: "date \<Rightarrow> money \<Rightarrow> ledger_entry option" where
  "corporate_tax_booking on tax =
     (if tax \<le> 0 then None
      else entry Misc on ''OD-IS'' (''Imp'' @ o_circ @ ''t sur les soci'' @ e_acute @ ''t'' @ e_acute @ ''s de l'' @ [CHR 0x27] @ ''exercice'')
             [line CORPORATE_TAX tax, line CORPORATE_TAX_DUE (- tax)])"

definition acquisition_is_booked :: "fixed_asset \<Rightarrow> ledger_entry list \<Rightarrow> date \<Rightarrow> bool" where
  "acquisition_is_booked a posted until =
     (case fa_expense_id a of
        None \<Rightarrow> True
      | Some i \<Rightarrow>
          (let piece = ''DEP-'' @ i; reversal = ''EXT-'' @ piece;
               net = sum_list (map ll_amount
                 (filter (\<lambda>l. starts_with (acc_number (ll_account l)) ''2''
                              \<and> \<not> starts_with (acc_number (ll_account l)) ''28'')
                   (concat (map le_lines (filter (\<lambda>e. le_date e \<le> until
                      \<and> (piece_ref e = piece \<or> piece_ref e = reversal)) posted)))))
           in net \<noteq> 0))"

section \<open>Every builder balances\<close>

lemma client_line_sel [simp]:
  "ll_amount (client_line a m) = m" "ll_account (client_line a m) = CLIENTS"
  by (simp_all add: client_line_def)

lemma set_opt_list [simp]: "e \<in> set (opt_list x) \<longleftrightarrow> x = Some e"
  by (cases x) (auto simp: opt_list_def)

lemma payroll_balanced: "e \<in> set (payroll_form on g w c) \<Longrightarrow> is_balanced e"
  by (auto simp: payroll_form_def Let_def elim!: entry_balanced)

lemma expense_payment_balanced:
  "expense_payment_entry T x p im = Some (Some e) \<Longrightarrow> is_balanced e"
  by (auto simp: expense_payment_entry_def Let_def elim!: entry_balanced
      split: expense_payment.splits bind_splits if_splits)

lemma sale_balanced: "service_sale_entry iv c o1 = Some (Some e) \<Longrightarrow> is_balanced e"
  by (auto simp: service_sale_entry_def Let_def compute_totals_Some(4) elim!: entry_balanced split: bind_splits)

lemma receipt_balanced: "receipt_entry p n cid c v = Some e \<Longrightarrow> is_balanced e"
  unfolding receipt_entry_def by (erule entry_balanced) simp

lemma sum_negated: "sum_list (map (\<lambda>l. ll_amount (l\<lparr>ll_amount := - ll_amount l\<rparr>)) ls) = - sum_list (map ll_amount ls)"
  by (induction ls) auto

lemma extourne_balanced [simp]: "is_balanced (extourne_entry e) \<longleftrightarrow> is_balanced e"
  using sum_negated [of "le_lines e"] by (simp add: is_balanced_def extourne_entry_def o_def)

lemma tax_booking_balanced: "corporate_tax_booking on t = Some e \<Longrightarrow> is_balanced e"
  by (auto simp: corporate_tax_booking_def elim!: entry_balanced split: if_splits)

lemma book_payments_balanced:
  "book_payments invs cls ps tt tv = Some es \<Longrightarrow> e \<in> set es \<Longrightarrow> is_balanced e"
  by (induction ps arbitrary: es tt tv)
    (fastforce simp: Let_def dest: receipt_balanced split: option.splits bind_splits if_splits)+

lemma book_service_balanced:
  assumes "book_service_activity invs cls ps = Some es" and e: "e \<in> set es"
  shows "is_balanced e"
proof -
  obtain sales receipts where s: "those (map (\<lambda>iv. service_sale_entry iv
        (index_by client_id cls (inv_client_id iv))
        (Option.bind (credited_invoice_id iv) (\<lambda>i. map_option inv_number (index_by inv_id invs i)))) invs) = Some sales"
    and r: "book_payments invs cls (sort_key (\<lambda>p. (received_on p, pay_id p)) ps) (\<lambda>_. 0) (\<lambda>_. 0) = Some receipts"
    and es: "es = concat (map opt_list sales) @ receipts"
    using assms(1) by (auto simp: book_service_activity_def split: bind_splits)
  show ?thesis
  proof (cases "e \<in> set receipts")
    case True
    then show ?thesis using r by (rule book_payments_balanced [rotated])
  next
    case False
    then have "Some e \<in> set sales" using e es by auto
    with s obtain iv c o1 where "service_sale_entry iv c o1 = Some (Some e)"
      unfolding those_map_Some by (auto simp: list_all2_conv_all_nth in_set_conv_nth)
    then show ?thesis by (rule sale_balanced)
  qed
qed

section \<open>Sums over accounts\<close>

definition sum_on :: "(account \<Rightarrow> bool) \<Rightarrow> ledger_entry list \<Rightarrow> money" where
  "sum_on P es = sum_list (map ll_amount
     (filter (\<lambda>l. P (ll_account l)) (concat (map le_lines es))))"

lemma sum_on_Nil [simp]: "sum_on P [] = 0"
  by (simp add: sum_on_def)

lemma sum_on_append [simp]: "sum_on P (es @ fs) = sum_on P es + sum_on P fs"
  by (simp add: sum_on_def)

lemma sum_on_Cons: "sum_on P (e # es) = sum_on P [e] + sum_on P es"
  using sum_on_append [of P "[e]" es] by simp

lemma sum_on_entry: "entry j d piece label ls = Some e \<Longrightarrow>
   sum_on P [e] = sum_list (map ll_amount (filter (\<lambda>l. P (ll_account l)) ls))"
  using sum_nonzero [of "filter (\<lambda>l. P (ll_account l)) ls"]
  by (drule_tac entry_Some) (simp add: sum_on_def conj_commute)

lemma sum_on_extourne [simp]: "sum_on P [extourne_entry e] = - sum_on P [e]"
proof -
  have "sum_list (map ll_amount (filter (\<lambda>l. P (ll_account l))
          (map (\<lambda>l. l\<lparr>ll_amount := - ll_amount l\<rparr>) ls)))
        = - sum_list (map ll_amount (filter (\<lambda>l. P (ll_account l)) ls))" for ls
    by (induction ls) auto
  then show ?thesis by (simp add: sum_on_def extourne_entry_def)
qed

interpretation books: double_entry "\<lambda>es. concat (map le_lines es)" ll_amount "list_all is_balanced"
proof
  fix es :: "ledger_entry list"
  assume "list_all is_balanced es"
  then show "sum_list (map ll_amount (concat (map le_lines es))) = 0"
    by (induction es) (auto simp: is_balanced_def)
qed

lemma sum_on_complement: "list_all is_balanced es \<Longrightarrow> sum_on P es = - sum_on (\<lambda>a. \<not> P a) es"
  unfolding sum_on_def by (rule books.complement)

section \<open>The transfer of pending VAT\<close>

lemma transferred_bounds:
  assumes "vat_transferred_on_receipt pending got due = Some v" "0 \<le> pending"
  shows "0 \<le> v" "v \<le> pending" "0 < due \<Longrightarrow> due \<le> got \<Longrightarrow> v = pending"
proof -
  have part: "0 \<le> v \<and> v \<le> pending" if "0 < got" "got < due"
  proof -
    have v: "v = (pending * got) div due"
      using assms that by (auto simp: vat_transferred_on_receipt_def scale_def i64_try_from_eq_Some sdiv_nonneg split: if_splits)
    have "pending * got \<le> pending * due"
      using that assms(2) by (intro mult_left_mono) auto
    then have "v \<le> (pending * due) div due"
      unfolding v using that by (intro zdiv_mono1) auto
    then show ?thesis using that assms(2) v by (simp add: pos_imp_zdiv_nonneg_iff)
  qed
  show "0 \<le> v" "v \<le> pending"
    using assms part by (auto simp: vat_transferred_on_receipt_def split: if_splits)
  show "v = pending" if "0 < due" "due \<le> got"
    using assms that by (auto simp: vat_transferred_on_receipt_def split: if_splits)
qed

definition pending_account :: "account \<Rightarrow> bool" where
  "pending_account a \<longleftrightarrow> acc_number a = acc_number VAT_PENDING"

lemma receipt_pending: "receipt_entry p n cid c v = Some e \<Longrightarrow> sum_on pending_account [e] = v"
  unfolding receipt_entry_def by (drule sum_on_entry [where P = pending_account])
    (simp add: pending_account_def chart_defs)

lemma receipt_exists [simp]: "pay_amount p \<noteq> 0 \<Longrightarrow> (receipt_entry p n cid c v = None) = False"
  by (simp add: receipt_entry_def entry_def Let_def)

lemma receipt_piece: "receipt_entry p n cid c v = Some e \<Longrightarrow> piece_ref e = n"
  by (auto simp: receipt_entry_def dest: entry_Some)

lemma extourne_piece [simp]: "piece_ref (extourne_entry e) = ''EXT-'' @ piece_ref e"
  by (simp add: extourne_entry_def)

text \<open>The entries of one invoice: its sale, its receipts, and the reversals of its receipts.\<close>

definition of_invoice :: "invoice \<Rightarrow> ledger_entry list \<Rightarrow> ledger_entry list" where
  "of_invoice iv es = filter (\<lambda>e. piece_ref e = inv_number iv \<or> piece_ref e = ''EXT-'' @ inv_number iv) es"

lemma of_invoice_simps [simp]:
  "of_invoice iv [] = []"
  "of_invoice iv (es @ fs) = of_invoice iv es @ of_invoice iv fs"
  "of_invoice iv (e # es) = (if piece_ref e = inv_number iv \<or> piece_ref e = ''EXT-'' @ inv_number iv
     then e # of_invoice iv es else of_invoice iv es)"
  by (simp_all add: of_invoice_def)

definition settled_by :: "invoice \<Rightarrow> payment list \<Rightarrow> money" where
  "settled_by iv ps = sum_list (map pay_amount
     (filter (\<lambda>p. pay_invoice_id p = inv_id iv \<and> \<not> is_voided p) ps))"

definition clean_numbers :: "invoice list \<Rightarrow> bool" where
  "clean_numbers invs \<longleftrightarrow> distinct (map inv_id invs) \<and> distinct (map inv_number invs)
     \<and> list_all (\<lambda>iv. \<not> starts_with (inv_number iv) ''EXT-'') invs"

lemma index_by_Some: "index_by key xs i = Some x \<Longrightarrow> x \<in> set xs \<and> key x = i"
  unfolding index_by_def by (drule map_of_SomeD) auto

lemma index_by_member: "distinct (map key xs) \<Longrightarrow> x \<in> set xs \<Longrightarrow> index_by key xs (key x) = Some x"
  unfolding index_by_def by (rule map_of_is_SomeI) (auto simp: o_def rev_map [symmetric])

lemma other_number:
  assumes "clean_numbers invs" "iv \<in> set invs" "jv \<in> set invs" "inv_id jv \<noteq> inv_id iv"
  shows "inv_number jv \<noteq> inv_number iv" "inv_number jv \<noteq> ''EXT-'' @ inv_number iv"
    "''EXT-'' @ inv_number jv \<noteq> inv_number iv"
proof -
  have ext: "starts_with (''EXT-'' @ n) ''EXT-''" for n by simp
  have no: "\<not> starts_with (inv_number iv) ''EXT-''" "\<not> starts_with (inv_number jv) ''EXT-''"
    using assms by (auto simp: clean_numbers_def list_all_iff simp del: take_Suc_Cons)
  show "inv_number jv \<noteq> inv_number iv"
    using assms by (auto simp: clean_numbers_def distinct_map dest: inj_onD)
  show "inv_number jv \<noteq> ''EXT-'' @ inv_number iv" using no(2) ext by metis
  show "''EXT-'' @ inv_number jv \<noteq> inv_number iv" using no(1) ext by metis
qed

lemma pending_vat_moved:
  assumes clean: "clean_numbers invs" and iv: "iv \<in> set invs"
    and "\<forall>p \<in> set ps. pay_invoice_id p = inv_id iv \<longrightarrow> 0 < pay_amount p"
    and cr: "\<forall>on. credited_before invs (inv_id iv) on = Some (0, 0)"
    and t: "compute_totals (inv_lines iv) = Some t"
    and "book_payments invs cls ps taken_ttc taken_vat = Some es"
    and "taken_vat (inv_id iv) \<le> total_vat t"
  shows "0 \<le> sum_on pending_account (of_invoice iv es)
    \<and> sum_on pending_account (of_invoice iv es) \<le> total_vat t - taken_vat (inv_id iv)
    \<and> (0 < total_ttc t - taken_ttc (inv_id iv) \<and> total_ttc t - taken_ttc (inv_id iv) \<le> settled_by iv ps
         \<longrightarrow> sum_on pending_account (of_invoice iv es) = total_vat t - taken_vat (inv_id iv))"
  using assms(3,6,7)
proof (induction ps arbitrary: es taken_ttc taken_vat)
  case Nil
  then show ?case by (auto simp: settled_by_def)
next
  case (Cons p ps)
  let ?i = "inv_id iv"
  show ?case
  proof (cases "pay_invoice_id p = ?i")
    case False
    then have set: "settled_by iv (p # ps) = settled_by iv ps" by (simp add: settled_by_def)
    have "\<exists>rest tt tv. book_payments invs cls ps tt tv = Some rest \<and> tt ?i = taken_ttc ?i
        \<and> tv ?i = taken_vat ?i \<and> of_invoice iv es = of_invoice iv rest"
    proof (cases "index_by inv_id invs (pay_invoice_id p)")
      case None
      then show ?thesis using Cons.prems(2) by auto
    next
      case (Some jv)
      with index_by_Some [OF Some] False have jv: "jv \<in> set invs" "inv_id jv \<noteq> ?i" by auto
      note numbers [simp] = other_number [OF clean iv jv, simplified]
      have jv' [simp]: "?i \<noteq> inv_id jv" using jv(2) by simp
      obtain v rest tt tv where "book_payments invs cls ps tt tv = Some rest"
        "tt ?i = taken_ttc ?i" "tv ?i = taken_vat ?i" and
        es: "es = rest \<or> (\<exists>r. receipt_entry p (inv_number jv) (inv_client_id jv)
             (index_by client_id cls (inv_client_id jv)) v = Some r
             \<and> (es = r # rest \<or> es = r # extourne_entry r # rest))"
        using Cons.prems(2) Some by (fastforce simp: Let_def split: bind_splits option.splits if_splits)
      moreover from es have "of_invoice iv es = of_invoice iv rest"
        by (auto dest!: receipt_piece)
      ultimately show ?thesis by blast
    qed
    then obtain rest tt tv where "book_payments invs cls ps tt tv = Some rest" "tt ?i = taken_ttc ?i" "tv ?i = taken_vat ?i"
      "of_invoice iv es = of_invoice iv rest" by blast
    with Cons.IH [of tt tv rest] Cons.prems(1,3) set show ?thesis by auto
  next
    case True
    have p: "0 < pay_amount p" and ix: "index_by inv_id invs ?i = Some iv"
      using Cons.prems(1) True clean iv by (auto simp: clean_numbers_def intro: index_by_member)
    let ?pending = "total_vat t - taken_vat ?i" and ?due = "total_ttc t - taken_ttc ?i"
    have nn: "non_negative ?pending = ?pending" using Cons.prems(3) by (simp add: non_negative_def)
    have eq: "book_payments invs cls (p # ps) taken_ttc taken_vat =
        do { v \<leftarrow> vat_transferred_on_receipt ?pending (pay_amount p) ?due;
             case receipt_entry p (inv_number iv) (inv_client_id iv) (index_by client_id cls (inv_client_id iv)) v of
               None \<Rightarrow> book_payments invs cls ps taken_ttc taken_vat
             | Some receipt \<Rightarrow>
                 (if is_voided p
                  then do { rest \<leftarrow> book_payments invs cls ps taken_ttc taken_vat;
                            Some (receipt # extourne_entry receipt # rest) }
                  else do { rest \<leftarrow> book_payments invs cls ps (taken_ttc(?i := taken_ttc ?i + pay_amount p))
                              (taken_vat(?i := taken_vat ?i + v));
                            Some (receipt # rest) }) }"
      by (simp add: Let_def True ix cr t nn)
    obtain v where v: "vat_transferred_on_receipt ?pending (pay_amount p) ?due = Some v"
      using Cons.prems(2) unfolding eq by (auto simp: Option.bind_eq_Some_conv)
    obtain receipt where r: "receipt_entry p (inv_number iv) (inv_client_id iv)
        (index_by client_id cls (inv_client_id iv)) v = Some receipt"
      using p receipt_exists [of p "inv_number iv"] by fastforce
    from Cons.prems(2) obtain rest where
      rest: "if is_voided p
         then book_payments invs cls ps taken_ttc taken_vat = Some rest \<and> es = receipt # extourne_entry receipt # rest
         else book_payments invs cls ps (taken_ttc(?i := taken_ttc ?i + pay_amount p)) (taken_vat(?i := taken_vat ?i + v)) = Some rest
              \<and> es = receipt # rest"
      unfolding eq v by (cases "is_voided p") (auto simp del: fun_upd_apply simp: r Option.bind_eq_Some_conv)
    note bounds = transferred_bounds [OF v] and piece = receipt_piece [OF r]
    show ?thesis
    proof (cases "is_voided p")
      case True
      with rest have rest: "book_payments invs cls ps taken_ttc taken_vat = Some rest"
        and es: "es = receipt # extourne_entry receipt # rest" by auto
      have "sum_on pending_account (of_invoice iv es) = sum_on pending_account (of_invoice iv rest)"
        using sum_on_Cons [of pending_account receipt "extourne_entry receipt # of_invoice iv rest"]
          sum_on_Cons [of pending_account "extourne_entry receipt" "of_invoice iv rest"] piece by (simp add: es)
      moreover have "settled_by iv (p # ps) = settled_by iv ps" using True by (simp add: settled_by_def)
      ultimately show ?thesis using Cons.IH [OF _ rest] Cons.prems(1,3) by auto
    next
      case False
      with rest have rest: "book_payments invs cls ps (taken_ttc(?i := taken_ttc ?i + pay_amount p))
          (taken_vat(?i := taken_vat ?i + v)) = Some rest" and es: "es = receipt # rest" by auto
      have moved: "sum_on pending_account (of_invoice iv es) = v + sum_on pending_account (of_invoice iv rest)"
        using sum_on_Cons [of pending_account receipt "of_invoice iv rest"] receipt_pending [OF r] piece by (simp add: es)
      have set: "settled_by iv (p # ps) = pay_amount p + settled_by iv ps"
        using False True by (simp add: settled_by_def)
      have v01: "0 \<le> v" "v \<le> ?pending" using bounds Cons.prems(3) by auto
      have ih: "0 \<le> sum_on pending_account (of_invoice iv rest)"
        "sum_on pending_account (of_invoice iv rest) \<le> ?pending - v"
        "0 < ?due - pay_amount p \<Longrightarrow> ?due - pay_amount p \<le> settled_by iv ps
          \<Longrightarrow> sum_on pending_account (of_invoice iv rest) = ?pending - v"
        using Cons.IH [OF _ rest] Cons.prems(1) v01 by (auto simp: algebra_simps)
      show ?thesis
      proof (cases "?due \<le> pay_amount p")
        case True
        then show ?thesis using bounds(3) Cons.prems(3) ih(1,2) v01 moved by auto
      next
        case False
        then show ?thesis using ih v01 moved set by auto
      qed
    qed
  qed
qed

lemma no_credit: "list_all (\<lambda>c. credited_invoice_id c \<noteq> Some i) invs \<Longrightarrow> credited_before invs i on = Some (0, 0)"
proof -
  assume "list_all (\<lambda>c. credited_invoice_id c \<noteq> Some i) invs"
  then have "filter (\<lambda>c. credited_invoice_id c = Some i \<and> issued_on c \<le> on) invs = []"
    by (auto simp: filter_empty_conv list_all_iff)
  then show ?thesis by (simp add: credited_before_def)
qed

lemma settled_by_sort: "settled_by iv (sort_key f ps) = settled_by iv ps"
  unfolding settled_by_def sum_mset_sum_list [symmetric] mset_map mset_filter by simp

lemma sale_piece: "service_sale_entry iv c o1 = Some (Some e) \<Longrightarrow> piece_ref e = inv_number iv"
  by (auto simp: service_sale_entry_def Let_def dest: entry_Some split: bind_splits)

lemma sale_pending:
  assumes "service_sale_entry iv c o1 = Some x" "compute_totals (inv_lines iv) = Some t"
  shows "sum_on pending_account (opt_list x) = - total_vat t"
proof (cases x)
  case None
  with assms have "total_vat t = 0"
    by (auto simp: service_sale_entry_def Let_def entry_def split: if_splits)
  then show ?thesis by (simp add: None opt_list_def)
next
  case (Some e)
  with assms obtain label where "entry Sales (issued_on iv) (inv_number iv) label
      [client_line (Some (client_aux (inv_client_id iv) c)) (total_ttc t),
       line SERVICES (- subtotal_ht t), line VAT_PENDING (- total_vat t)] = Some e"
    by (auto simp: service_sale_entry_def Let_def split: option.splits)
  from sum_on_entry [OF this, of pending_account] show ?thesis
    by (simp add: Some opt_list_def pending_account_def chart_defs)
qed

lemma of_invoice_none: "\<forall>e \<in> set es. piece_ref e \<noteq> inv_number iv \<and> piece_ref e \<noteq> ''EXT-'' @ inv_number iv
    \<Longrightarrow> of_invoice iv es = []"
  by (auto simp: of_invoice_def filter_empty_conv)

lemma sales_pending:
  assumes t: "compute_totals (inv_lines iv) = Some t" and iv: "iv \<in> set invs" and clean: "clean_numbers invs"
    and "list_all2 (\<lambda>jv x. service_sale_entry jv (c jv) (o1 jv) = Some x) js sales"
    and "set js \<subseteq> set invs" "distinct js"
  shows "sum_on pending_account (of_invoice iv (concat (map opt_list sales)))
    = (if iv \<in> set js then - total_vat t else 0)"
  using assms(4-)
proof (induction rule: list_all2_induct)
  case (Cons jv js x sales)
  have piece: "\<forall>e \<in> set (opt_list x). piece_ref e = inv_number jv"
    using Cons.hyps by (auto dest: sale_piece)
  show ?case
  proof (cases "jv = iv")
    case True
    have "of_invoice iv (opt_list x) = opt_list x"
      using piece True by (auto simp: of_invoice_def filter_id_conv)
    moreover have "sum_on pending_account (opt_list x) = - total_vat t"
      using Cons.hyps True t by (auto intro: sale_pending)
    ultimately show ?thesis using Cons True by simp
  next
    case False
    then have "inv_id jv \<noteq> inv_id iv"
      using clean iv Cons.prems by (auto simp: clean_numbers_def distinct_map dest: inj_onD)
    from other_number [OF clean iv _ this] Cons.prems piece have "of_invoice iv (opt_list x) = []"
      by (intro of_invoice_none) auto
    then show ?thesis using Cons False by simp
  qed
qed simp

section \<open>Properties\<close>

text \<open>Everything the code posts balances: the entries of a payroll form, of an expense payment, of
  sales and receipts, of the corporate tax, and the reversal of any balanced entry; and a reversal
  posts, account by account, the opposite of what it reverses.\<close>

lemma posted_entries_balance:
  "list_all is_balanced (payroll_form on gs w c)
   \<and> (case expense_payment_entry T x p im of Some (Some e) \<Rightarrow> is_balanced e | _ \<Rightarrow> True)
   \<and> (case book_service_activity invs cls ps of Some es \<Rightarrow> list_all is_balanced es | None \<Rightarrow> True)
   \<and> (case corporate_tax_booking on tax of Some e \<Rightarrow> is_balanced e | None \<Rightarrow> True)
   \<and> is_balanced (extourne_entry e) = is_balanced e \<and> sum_on P [e, extourne_entry e] = 0"
  using payroll_balanced expense_payment_balanced book_service_balanced tax_booking_balanced
    sum_on_Cons [of P e "[extourne_entry e]"]
  by (auto simp: list_all_iff split: option.splits)

text \<open>C9: Over any book of invoices and payments, the VAT a sale leaves pending is moved to the collected
  VAT by its receipts and by nothing else: the pending account of an invoice without credit note never
  passes to the other side, voided receipts and the payments of other invoices change nothing, and it
  is cleared to the cent as soon as the receipts cover the invoice.\<close>

theorem receipts_clear_pending_vat:
  assumes "book_service_activity invs cls ps = Some es" and clean: "clean_numbers invs" and iv: "iv \<in> set invs"
    and t: "compute_totals (inv_lines iv) = Some t" and "0 \<le> total_vat t"
    and cr: "list_all (\<lambda>c. credited_invoice_id c \<noteq> Some (inv_id iv)) invs"
    and ps: "list_all (\<lambda>p. pay_invoice_id p = inv_id iv \<longrightarrow> 0 < pay_amount p) ps"
  shows "- total_vat t \<le> sum_on pending_account (of_invoice iv es)
    \<and> sum_on pending_account (of_invoice iv es) \<le> 0
    \<and> (0 < total_ttc t \<and> total_ttc t \<le> settled_by iv ps \<longrightarrow> sum_on pending_account (of_invoice iv es) = 0)"
proof -
  obtain sales receipts where s: "those (map (\<lambda>iv. service_sale_entry iv
        (index_by client_id cls (inv_client_id iv))
        (Option.bind (credited_invoice_id iv) (\<lambda>i. map_option inv_number (index_by inv_id invs i)))) invs) = Some sales"
    and r: "book_payments invs cls (sort_key (\<lambda>p. (received_on p, pay_id p)) ps) (\<lambda>_. 0) (\<lambda>_. 0) = Some receipts"
    and es: "es = concat (map opt_list sales) @ receipts"
    using assms(1) by (auto simp: book_service_activity_def split: bind_splits)
  have "distinct invs" using clean by (simp add: clean_numbers_def distinct_map)
  with sales_pending [OF t iv clean s [unfolded those_map_Some]] iv
  have "sum_on pending_account (of_invoice iv (concat (map opt_list sales))) = - total_vat t" by simp
  moreover have "\<forall>p \<in> set (sort_key (\<lambda>p. (received_on p, pay_id p)) ps).
      pay_invoice_id p = inv_id iv \<longrightarrow> 0 < pay_amount p"
    using ps by (simp add: list_all_iff)
  note pending_vat_moved [OF clean iv this _ t r]
  ultimately show ?thesis
    using assms(5) no_credit [OF cr] by (simp add: es settled_by_sort)
qed

definition sample_invoice :: invoice where
  "sample_invoice =
     \<lparr>inv_id = ''i1'', inv_number = ''F-1'', inv_client_id = ''c1'', inv_mission_id = None,
      inv_lines = [\<lparr>il_description = ''Jours'', quantity = 200, unit_price = 50000, il_vat_rate = Standard\<rparr>],
      inv_status = Paid, origin = OriginIssued, issued_on = Date 2026 1 5, due_on = Date 2026 2 4,
      previous_hash = None, inv_hash = ''h'', credited_invoice_id = None\<rparr>"

definition sample_payment :: "string \<Rightarrow> money \<Rightarrow> nat \<Rightarrow> payment" where
  "sample_payment i amount d =
     \<lparr>pay_id = i, pay_invoice_id = ''i1'', pay_amount = amount, received_on = Date 2026 2 d,
      pay_method = BankTransfer, bank_transaction_id = None, voided_at = None\<rparr>"

lemma sample_invoice_totals: "\<exists>t. compute_totals (inv_lines sample_invoice) = Some t \<and> total_vat t = 20000 \<and> total_ttc t = 120000"
proof -
  have "case compute_totals (inv_lines sample_invoice) of None \<Rightarrow> False
    | Some t \<Rightarrow> total_vat t = 20000 \<and> total_ttc t = 120000" by code_simp
  then show ?thesis by (auto split: option.splits)
qed

theorem receipts_clear_pending_vat_witness:
  "\<exists>es. book_service_activity [sample_invoice] [] [sample_payment ''p1'' 50000 1, sample_payment ''p2'' 70000 9] = Some es
     \<and> sum_on pending_account (of_invoice sample_invoice es) = 0"
proof -
  obtain t where t: "compute_totals (inv_lines sample_invoice) = Some t" "total_vat t = 20000" "total_ttc t = 120000"
    using sample_invoice_totals by blast
  have "book_service_activity [sample_invoice] [] [sample_payment ''p1'' 50000 1, sample_payment ''p2'' 70000 9] \<noteq> None"
    by code_simp
  then obtain es where es: "book_service_activity [sample_invoice] [] [sample_payment ''p1'' 50000 1, sample_payment ''p2'' 70000 9] = Some es"
    by blast
  from receipts_clear_pending_vat [OF es _ _ t(1)] es show ?thesis
    by (simp add: clean_numbers_def t sample_invoice_def settled_by_def sample_payment_def is_voided_def)
qed
end
