(* ===== verification/Ledger.thy ===== *)
theory Ledger
  imports Entries Tax
begin

text \<open>
  \<open>Ledger::build\<close> of \<open>ledger.rs\<close>: the entries derived from the facts of an exercise, their order
  and numbering, and the refusal of amounts that cannot be totalled. An outer \<open>None\<close> is a panic.
  The two sums the code takes before that refusal are checked sums; after it, the lemmas of
  this theory show that no sum over lines of the ledger leaves the machine range.
\<close>

section \<open>Definitions\<close>

text \<open>\<open>iter().sum::<Money>()\<close> as the machine computes it, each partial sum checked.\<close>

fun sum_money :: "money \<Rightarrow> money list \<Rightarrow> money option" where
  "sum_money acc [] = Some acc"
| "sum_money acc (m # ms) = do { acc' \<leftarrow> i64_try_from (acc + m); sum_money acc' ms }"

record ledger_facts =
  lf_profile :: company_profile
  lf_exercise :: fiscal_year
  lf_invoices :: "invoice list"
  lf_write_offs :: "invoice_write_off list"
  lf_clients :: "client list"
  lf_payments :: "payment list"
  lf_expenses :: "expense list"
  posted :: "ledger_entry list"
  lf_assets :: "fixed_asset list"
  lf_bank_transactions :: "bank_transaction list"
  lf_opening :: "opening_lines option"
  lf_snapshot :: "fiscal_year_record option"
  appropriations :: "fiscal_year_record list"
  prior_losses :: money

record ledger =
  l_exercise :: fiscal_year
  l_entries :: "ledger_entry list"

record facts =
  exercise :: fiscal_year
  clients_by_id :: "uuid \<Rightarrow> client option"
  invoices_by_id :: "uuid \<Rightarrow> invoice option"

definition facts_of :: "ledger_facts \<Rightarrow> facts" where
  "facts_of f =
     \<lparr>exercise = lf_exercise f, clients_by_id = index_by client_id (lf_clients f),
      invoices_by_id = index_by inv_id (lf_invoices f)\<rparr>"

definition aux_of :: "facts \<Rightarrow> uuid \<Rightarrow> aux_account" where
  "aux_of fi cid =
     (case clients_by_id fi cid of
        None \<Rightarrow> \<lparr>aux_number = ''C'' @ map to_ascii_uppercase (short_id cid), aux_label = ''Client inconnu''\<rparr>
      | Some c \<Rightarrow> aux_for_client c)"

definition facts_client_name :: "facts \<Rightarrow> uuid \<Rightarrow> string" where
  "facts_client_name fi cid =
     (case clients_by_id fi cid of None \<Rightarrow> ''client inconnu'' | Some c \<Rightarrow> client_name c)"

definition invoice_number :: "facts \<Rightarrow> uuid \<Rightarrow> string" where
  "invoice_number fi i =
     (case invoices_by_id fi i of None \<Rightarrow> short_id i | Some iv \<Rightarrow> inv_number iv)"

definition opening_entries :: "facts \<Rightarrow> opening_lines option \<Rightarrow> ledger_entry list" where
  "opening_entries fi opening =
     (case opening of
        None \<Rightarrow> []
      | Some ol \<Rightarrow> opt_list (entry Opening (fy_start (exercise fi)) ''AN'' (ol_label ol) (ol_lines ol)))"

definition write_off_entry :: "time_api \<Rightarrow> facts \<Rightarrow> invoice_write_off \<Rightarrow> ledger_entry list" where
  "write_off_entry T fi w =
     (let number = invoice_number fi (wo_invoice_id w);
          cid = map_option inv_client_id (invoices_by_id fi (wo_invoice_id w));
          name = (case cid of None \<Rightarrow> ''client inconnu'' | Some i \<Rightarrow> facts_client_name fi i);
          cline = client_line (map_option (aux_of fi) cid);
          piece = ''OD-654-'' @ number
      in (if fy_contains (exercise fi) (written_off_on w)
          then opt_list (entry Misc (written_off_on w) piece
                 ((''Perte sur cr'' @ e_acute @ ''ance '') @ number @ '' '' @ em_dash @ '' '' @ name)
                 [line BAD_DEBT (wo_ht w), line VAT_COLLECTED (wo_vat w), cline (- wo_ttc w)])
          else [])
         @ (case retracted_on w of
              None \<Rightarrow> []
            | Some on \<Rightarrow>
                (if fy_contains (exercise fi) on
                 then opt_list (entry Misc on piece
                        ((''Annulation de la perte sur cr'' @ e_acute @ ''ance '') @ number @ '' du ''
                          @ format_date T (written_off_on w))
                        [cline (wo_ttc w), line BAD_DEBT (- wo_ht w), line VAT_COLLECTED (- wo_vat w)])
                 else [])))"

definition write_off_entries :: "time_api \<Rightarrow> facts \<Rightarrow> invoice_write_off list \<Rightarrow> ledger_entry list" where
  "write_off_entries T fi ws = concat (map (write_off_entry T fi) ws)"

definition settlement_entry :: "time_api \<Rightarrow> bank_transaction \<Rightarrow> ledger_entry list" where
  "settlement_entry T tx =
     (case tx_settlement_account tx of
        None \<Rightarrow> []
      | Some sa \<Rightarrow>
          (let n = settlement_as_str sa;
               account = (case account_for_number n (settlement_label tx) of
                            Some a \<Rightarrow> a | None \<Rightarrow> \<lparr>acc_number = n, acc_label = n\<rparr>);
               amount = amount_cents tx
           in opt_list (entry Bank (occurred_on tx) (''BQ-'' @ tx_id tx)
                ((''R'' @ e_grave @ ''glement '') @ acc_label account @ ('' '' @ em_dash @ '' relev'' @ e_acute @ '' du '')
                  @ format_date T (occurred_on tx) @ '' ('' @ tx_description tx @ '')'')
                [line account (- amount), line BANK amount])))"

definition settlement_entries :: "time_api \<Rightarrow> facts \<Rightarrow> bank_transaction list \<Rightarrow> ledger_entry list" where
  "settlement_entries T fi txs =
     concat (map (settlement_entry T) (filter (\<lambda>t. fy_contains (exercise fi) (occurred_on t)) txs))"

definition appropriation_entry :: "time_api \<Rightarrow> facts \<Rightarrow> fiscal_year_record \<Rightarrow> ledger_entry list" where
  "appropriation_entry T fi r =
     (let (on, status) =
            (case approved_on r of
               Some d \<Rightarrow> (d, (''approuv'' @ e_acute @ ''e le '') @ format_date T d)
             | None \<Rightarrow> ((case next_day T (ends_on r) of None \<Rightarrow> ends_on r | Some d \<Rightarrow> d), (''projet non approuv'' @ e_acute)))
      in if \<not> fy_contains (exercise fi) on then []
         else let carried = fyr_net_result r - fyr_legal_reserve r - fyr_dividends r;
                  carry_account = (if carried < 0 then RETAINED_DEBIT else RETAINED_CREDIT)
              in opt_list (entry Misc on (''OD-AFF-'' @ show_int (dyear (ends_on r)))
                   ((''Affectation du r'' @ e_acute @ ''sultat de l'' @ [CHR 0x27] @ ''exercice clos le '') @ format_date T (ends_on r)
                     @ '' ('' @ status @ '')'')
                   [line (result_account (fyr_net_result r)) (fyr_net_result r),
                    line LEGAL_RESERVE (- fyr_legal_reserve r),
                    line DIVIDENDS_DUE (- fyr_dividends r),
                    line carry_account (- carried)]))"

definition appropriation_entries :: "time_api \<Rightarrow> facts \<Rightarrow> fiscal_year_record list \<Rightarrow> ledger_entry list" where
  "appropriation_entries T fi rs =
     concat (map (appropriation_entry T fi) (filter (\<lambda>r. ends_on r < fy_start (exercise fi)) rs))"

definition depreciation_entry :: "time_api \<Rightarrow> facts \<Rightarrow> ledger_entry list \<Rightarrow> fixed_asset \<Rightarrow> ledger_entry list option" where
  "depreciation_entry T fi booked a =
     (if \<not> acquisition_is_booked a booked (fy_end (exercise fi)) then Some []
      else do { amount \<leftarrow> depreciation_for T a (exercise fi);
                if amount = 0 then Some []
                else do { code \<leftarrow> depreciation_account (fa_account a);
                          let dep = numbered_account (as_str code) ((''Amortissements '' @ em_dash @ '' '') @ fa_label a);
                          Some (opt_list (entry Misc (fy_end (exercise fi)) (''OD-AMO-'' @ fa_id a)
                            ((''Dotation aux amortissements '' @ em_dash @ '' '') @ fa_label a)
                            [line DEPRECIATION amount, line dep (- amount)])) } })"

definition depreciation_entries ::
    "time_api \<Rightarrow> facts \<Rightarrow> fixed_asset list \<Rightarrow> ledger_entry list \<Rightarrow> ledger_entry list option" where
  "depreciation_entries T fi assets booked =
     map_option concat (those (map (depreciation_entry T fi booked) assets))"

definition prepaid_entries :: "facts \<Rightarrow> opening_lines option \<Rightarrow> ledger_entry list" where
  "prepaid_entries fi opening =
     (case opening of
        None \<Rightarrow> []
      | Some ol \<Rightarrow>
          concat (map (\<lambda>l. opt_list (entry Misc (fy_start (exercise fi))
               (''OD-CCA-'' @ acc_number (ll_account l))
               ((''Extourne des charges constat'' @ e_acute @ ''es d'' @ [CHR 0x27] @ ''avance '' @ em_dash @ '' '') @ acc_label (ll_account l))
               [line PROFESSIONAL (ll_amount l), line (ll_account l) (- ll_amount l)]))
             (filter (\<lambda>l. starts_with (acc_number (ll_account l)) ''486'' \<and> 0 < ll_amount l) (ol_lines ol))))"

definition carry_back_entry :: "facts \<Rightarrow> money \<Rightarrow> ledger_entry option" where
  "carry_back_entry fi credit =
     (if credit \<le> 0 then None
      else entry Misc (fy_end (exercise fi)) ''OD-RAD''
        (''Cr'' @ e_acute @ ''ance d'' @ [CHR 0x27] @ ''IS n'' @ e_acute @ ''e du report en arri'' @ e_grave @ ''re du d'' @ e_acute @ ''ficit (art. 220 quinquies CGI, 2039-SD)'')
        [line CORPORATE_TAX_DUE credit, line CARRY_BACK_INCOME (- credit)])"

definition corporate_tax_entry :: "facts \<Rightarrow> money \<Rightarrow> ledger_entry option" where
  "corporate_tax_entry fi tax = corporate_tax_booking (fy_end (exercise fi)) tax"

definition income_of :: "ledger_entry list \<Rightarrow> money" where
  "income_of es = - sum_on is_income_statement es"

definition before_tax_account :: "account \<Rightarrow> bool" where
  "before_tax_account a \<longleftrightarrow> is_income_statement a
     \<and> \<not> starts_with (acc_number a) ''695'' \<and> \<not> starts_with (acc_number a) ''699''"

definition tax_account :: "account \<Rightarrow> bool" where
  "tax_account a \<longleftrightarrow> starts_with (acc_number a) ''695''"

definition line_amounts :: "(account \<Rightarrow> bool) \<Rightarrow> ledger_entry list \<Rightarrow> money list" where
  "line_amounts P es = map ll_amount (filter (\<lambda>l. P (ll_account l)) (concat (map le_lines es)))"

definition income_before_tax :: "ledger_entry list \<Rightarrow> money option" where
  "income_before_tax es =
     do { s \<leftarrow> sum_money 0 (line_amounts before_tax_account es); i64_try_from (- s) }"

text \<open>The chronological order of the entries, then journal, piece and label; the numbering per journal.\<close>

definition entry_key :: "ledger_entry \<Rightarrow> date \<times> journal \<times> string \<times> string" where
  "entry_key e = (le_date e, le_journal e, piece_ref e, le_label e)"

fun number_entries :: "(journal \<Rightarrow> nat) \<Rightarrow> ledger_entry list \<Rightarrow> ledger_entry list" where
  "number_entries counters [] = []"
| "number_entries counters (e # es) =
     (let n = counters (le_journal e) + 1
      in e\<lparr>le_number := n\<rparr> # number_entries (counters(le_journal e := n)) es)"

definition magnitude :: "ledger_entry list \<Rightarrow> int" where
  "magnitude es = sum_list (map (\<lambda>l. \<bar>ll_amount l\<bar>) (concat (map le_lines es)))"

text \<open>The first part of \<open>build\<close>, up to the depreciation charges: the entries the tax is read from.\<close>

definition entries_before_tax :: "time_api \<Rightarrow> ledger_facts \<Rightarrow> ledger_entry list option" where
  "entries_before_tax T f =
     (let fi = facts_of f
      in do { depreciation \<leftarrow> depreciation_entries T fi (lf_assets f) (posted f);
              Some (prepaid_entries fi (lf_opening f)
                    @ opening_entries fi (lf_opening f)
                    @ write_off_entries T fi (lf_write_offs f)
                    @ filter (\<lambda>e. fy_contains (lf_exercise f) (le_date e)) (posted f)
                    @ settlement_entries T fi (lf_bank_transactions f)
                    @ appropriation_entries T fi (appropriations f)
                    @ depreciation) })"

definition tax_of :: "ledger_facts \<Rightarrow> ledger_entry list \<Rightarrow> money option" where
  "tax_of f es =
     do { stored_tax \<leftarrow> sum_money 0 (line_amounts tax_account es);
          if stored_tax \<noteq> 0 then Some 0
          else case lf_snapshot f of
                 Some r \<Rightarrow> Some (fyr_corporate_tax r)
               | None \<Rightarrow>
                   do { income \<leftarrow> income_before_tax es;
                        li \<leftarrow> impute_prior_losses income (prior_losses f);
                        corporate_income_tax (li_taxable_result li) } }"

definition credit_of :: "ledger_facts \<Rightarrow> money" where
  "credit_of f = (case lf_snapshot f of None \<Rightarrow> 0 | Some r \<Rightarrow> fyr_carry_back_credit r)"

definition build :: "time_api \<Rightarrow> ledger_facts \<Rightarrow> (ledger_error + ledger) option" where
  "build T f =
     (let fi = facts_of f
      in do { es \<leftarrow> entries_before_tax T f;
              tax \<leftarrow> tax_of f es;
              let all = es @ opt_list (corporate_tax_entry fi tax) @ opt_list (carry_back_entry fi (credit_of f));
              let numbered = number_entries (\<lambda>_. 0) (sort_key entry_key all);
              Some (if magnitude numbered > 2 ^ 63 - 1 then Inl Overflow
                    else Inr \<lparr>l_exercise = lf_exercise f, l_entries = numbered\<rparr>) })"

definition ledger_total_debit :: "ledger \<Rightarrow> money" where
  "ledger_total_debit l = sum_list (map entry_total_debit (l_entries l))"

definition ledger_total_credit :: "ledger \<Rightarrow> money" where
  "ledger_total_credit l =
     sum_list (map (\<lambda>x. - ll_amount x) (filter (\<lambda>x. ll_amount x < 0) (concat (map le_lines (l_entries l)))))"

definition ledger_net_result :: "ledger \<Rightarrow> money" where
  "ledger_net_result l = income_of (l_entries l)"

section \<open>Checked sums\<close>

lemma sum_money_Some: "sum_money acc ms = Some s \<Longrightarrow> s = acc + sum_list ms"
  by (induction acc ms rule: sum_money.induct) (auto simp: i64_try_from_eq_Some split: bind_splits)

lemma sum_money_fits:
  "\<bar>acc\<bar> + sum_list (map abs ms) \<le> 2 ^ 63 - 1 \<Longrightarrow> sum_money acc ms = Some (acc + sum_list ms)"
proof (induction acc ms rule: sum_money.induct)
  case (2 acc m ms)
  have nn: "0 \<le> sum_list (map abs ms)" by (rule sum_list_nonneg) auto
  have "\<bar>acc + m\<bar> + sum_list (map abs ms) \<le> 2 ^ 63 - 1"
    using "2.prems" abs_triangle_ineq [of acc m] by simp
  moreover from this nn have "in_i64 (acc + m)" unfolding in_i64_def by linarith
  ultimately show ?case using "2.IH" by (simp add: ac_simps)
qed simp

lemma sum_abs_filter: "sum_list (map (\<lambda>x. \<bar>f x :: int\<bar>) (filter P xs)) \<le> sum_list (map (\<lambda>x. \<bar>f x\<bar>) xs)"
  by (induction xs) auto

lemma sum_on_amounts: "sum_on P es = sum_list (line_amounts P es)"
  by (simp add: sum_on_def line_amounts_def)

lemma line_amounts_fit:
  "magnitude es \<le> 2 ^ 63 - 1 \<Longrightarrow> sum_money 0 (line_amounts P es) = Some (sum_on P es)"
  using sum_abs_filter [of ll_amount "\<lambda>l. P (ll_account l)" "concat (map le_lines es)"]
  by (simp add: sum_money_fits sum_on_amounts line_amounts_def magnitude_def o_def)

lemma sum_on_le_magnitude: "\<bar>sum_on P es\<bar> \<le> magnitude es"
proof -
  have "\<bar>sum_list (map f xs)\<bar> \<le> sum_list (map (\<lambda>x. \<bar>f x :: int\<bar>) xs)" for f and xs :: "ledger_line list"
    by (induction xs) auto
  from order_trans [OF this sum_abs_filter] show ?thesis by (simp add: sum_on_def magnitude_def)
qed

section \<open>Numbering and order\<close>

lemma number_entries_map:
  assumes "\<And>e n. f (e\<lparr>le_number := n\<rparr>) = f e"
  shows "map f (number_entries c es) = map f es"
  by (induction es arbitrary: c) (simp_all add: Let_def assms)

definition unnumbered :: "ledger_entry \<Rightarrow> ledger_entry" where
  "unnumbered e = e\<lparr>le_number := 0\<rparr>"

lemma number_entries_simps [simp]:
  "map le_lines (number_entries c es) = map le_lines es"
  "map le_date (number_entries c es) = map le_date es"
  "map le_journal (number_entries c es) = map le_journal es"
  "map entry_key (number_entries c es) = map entry_key es"
  "map is_balanced (number_entries c es) = map is_balanced es"
  "map entry_total_debit (number_entries c es) = map entry_total_debit es"
  "map unnumbered (number_entries c es) = map unnumbered es"
  by (simp_all add: number_entries_map entry_key_def is_balanced_def entry_total_debit_def unnumbered_def)

lemma number_entries_sums [simp]:
  "sum_on P (number_entries c es) = sum_on P es"
  "magnitude (number_entries c es) = magnitude es"
  "line_amounts P (number_entries c es) = line_amounts P es"
  by (simp_all add: sum_on_def magnitude_def line_amounts_def)

lemma number_entries_numbers:
  "map le_number (filter (\<lambda>e. le_journal e = j) (number_entries c es))
     = [c j + 1 ..< c j + 1 + length (filter (\<lambda>e. le_journal e = j) es)]"
proof (induction es arbitrary: c)
  case (Cons e es)
  show ?case
    using Cons.IH [of "c(le_journal e := Suc (c (le_journal e)))"]
    by (auto simp: Let_def upt_rec [of "Suc (c (le_journal e))"] simp del: upt_Suc fun_upd_apply
        simp: fun_upd_same fun_upd_other)
qed simp

section \<open>The entries of an exercise\<close>

definition within :: "fiscal_year \<Rightarrow> ledger_entry list \<Rightarrow> bool" where
  "within fy es \<longleftrightarrow> list_all (\<lambda>e. fy_contains fy (le_date e)) es"

definition all_balanced :: "ledger_entry list \<Rightarrow> bool" where
  "all_balanced es \<longleftrightarrow> list_all is_balanced es"

lemma all_balanced_simps [simp]:
  "all_balanced []" "all_balanced (es @ fs) \<longleftrightarrow> all_balanced es \<and> all_balanced fs"
  "all_balanced (concat ess) \<longleftrightarrow> list_all all_balanced ess"
  by (auto simp: all_balanced_def list_all_iff)

lemma within_simps [simp]:
  "within fy []" "within fy (es @ fs) \<longleftrightarrow> within fy es \<and> within fy fs"
  "within fy (concat ess) \<longleftrightarrow> list_all (within fy) ess"
  by (auto simp: within_def list_all_iff)

text \<open>An exercise contains its own ends.\<close>

definition ordered :: "fiscal_year \<Rightarrow> bool" where
  "ordered fy \<longleftrightarrow> fy_start fy \<le> fy_end fy"

lemma contains_ends [simp]:
  "ordered fy \<Longrightarrow> fy_contains fy (fy_start fy)" "ordered fy \<Longrightarrow> fy_contains fy (fy_end fy)"
  by (simp_all add: ordered_def fy_contains_def)

lemma entry_group [simp]:
  "sum_list (map ll_amount ls) = 0 \<Longrightarrow> all_balanced (opt_list (entry j d piece label ls))"
  "fy_contains fy d \<Longrightarrow> within fy (opt_list (entry j d piece label ls))"
  by (cases "entry j d piece label ls";
      auto simp: all_balanced_def within_def opt_list_def dest: entry_Some elim!: entry_balanced)+

lemma opening_group:
  "(case o1 of None \<Rightarrow> True | Some ol \<Rightarrow> sum_list (map ll_amount (ol_lines ol)) = 0) \<Longrightarrow>
     all_balanced (opening_entries fi o1)"
  "ordered (exercise fi) \<Longrightarrow> within (exercise fi) (opening_entries fi o1)"
  by (cases o1; simp add: opening_entries_def)+

lemma write_off_group:
  "wo_ttc w = wo_ht w + wo_vat w \<Longrightarrow> all_balanced (write_off_entry T fi w)"
  "within (exercise fi) (write_off_entry T fi w)"
  unfolding write_off_entry_def Let_def by (cases "retracted_on w"; simp)+

lemma settlement_group:
  "all_balanced (settlement_entry T tx)"
  "fy_contains fy (occurred_on tx) \<Longrightarrow> within fy (settlement_entry T tx)"
  unfolding settlement_entry_def Let_def by (cases "tx_settlement_account tx"; simp)+

lemma appropriation_group:
  "all_balanced (appropriation_entry T fi r)" "within (exercise fi) (appropriation_entry T fi r)"
  unfolding appropriation_entry_def Let_def by (cases "approved_on r"; simp)+

lemma depreciation_group:
  assumes "depreciation_entry T fi booked a = Some es"
  shows "all_balanced es" "ordered (exercise fi) \<Longrightarrow> within (exercise fi) es"
  using assms unfolding depreciation_entry_def Let_def
  by (auto simp del: append.simps split: bind_splits if_splits)

lemma prepaid_group:
  "all_balanced (prepaid_entries fi o1)"
  "ordered (exercise fi) \<Longrightarrow> within (exercise fi) (prepaid_entries fi o1)"
  by (cases o1; simp add: prepaid_entries_def list_all_iff)+

lemma tax_group:
  "all_balanced (opt_list (corporate_tax_entry fi t))" "all_balanced (opt_list (carry_back_entry fi c))"
  "ordered (exercise fi) \<Longrightarrow> within (exercise fi) (opt_list (corporate_tax_entry fi t))"
  "ordered (exercise fi) \<Longrightarrow> within (exercise fi) (opt_list (carry_back_entry fi c))"
  unfolding corporate_tax_entry_def corporate_tax_booking_def carry_back_entry_def
  by (cases "t \<le> 0"; simp add: opt_list_def [of None])+

definition sound_facts :: "ledger_facts \<Rightarrow> bool" where
  "sound_facts f \<longleftrightarrow> list_all is_balanced (posted f)
     \<and> (case lf_opening f of None \<Rightarrow> True | Some ol \<Rightarrow> sum_list (map ll_amount (ol_lines ol)) = 0)
     \<and> list_all (\<lambda>w. wo_ttc w = wo_ht w + wo_vat w) (lf_write_offs f)"

lemma exercise_facts_of [simp]: "exercise (facts_of f) = lf_exercise f"
  by (simp add: facts_of_def)

lemma depreciations_group:
  assumes "depreciation_entries T fi assets booked = Some es"
  shows "all_balanced es" "ordered (exercise fi) \<Longrightarrow> within (exercise fi) es"
proof -
  from assms obtain ess where es: "es = concat ess"
    and ess: "list_all2 (\<lambda>a x. depreciation_entry T fi booked a = Some x) assets ess"
    by (auto simp: depreciation_entries_def those_map_Some)
  from ess have "list_all all_balanced ess \<and> (ordered (exercise fi) \<longrightarrow> list_all (within (exercise fi)) ess)"
    by (induction rule: list_all2_induct) (auto dest: depreciation_group)
  then show "all_balanced es" "ordered (exercise fi) \<Longrightarrow> within (exercise fi) es"
    by (simp_all add: es)
qed

lemma posted_balanced: "\<forall>e \<in> set es. is_balanced e \<Longrightarrow> all_balanced (filter P es)"
  by (simp add: all_balanced_def list_all_iff)

lemma entries_before_tax_group:
  assumes "entries_before_tax T f = Some es"
  shows "sound_facts f \<Longrightarrow> all_balanced es" "ordered (lf_exercise f) \<Longrightarrow> within (lf_exercise f) es"
proof -
  let ?fi = "facts_of f"
  from assms obtain d where d: "depreciation_entries T ?fi (lf_assets f) (posted f) = Some d"
    and es: "es = prepaid_entries ?fi (lf_opening f) @ opening_entries ?fi (lf_opening f)
      @ write_off_entries T ?fi (lf_write_offs f) @ filter (\<lambda>e. fy_contains (lf_exercise f) (le_date e)) (posted f)
      @ settlement_entries T ?fi (lf_bank_transactions f) @ appropriation_entries T ?fi (appropriations f) @ d"
    by (auto simp: entries_before_tax_def Let_def split: bind_splits)
  note dep = depreciations_group [OF d]
  show "sound_facts f \<Longrightarrow> all_balanced es"
    using dep by (auto simp: es sound_facts_def prepaid_group opening_group write_off_entries_def write_off_group
        settlement_entries_def settlement_group appropriation_entries_def appropriation_group list_all_iff
        posted_balanced)
  show "ordered (lf_exercise f) \<Longrightarrow> within (lf_exercise f) es"
    using dep prepaid_group(2) [of ?fi] opening_group(2) [of ?fi] write_off_group(2) [of ?fi]
      settlement_group(2) appropriation_group(2) [of ?fi]
    by (auto simp: es write_off_entries_def settlement_entries_def appropriation_entries_def list_all_iff within_def)
qed

definition derived_entries :: "time_api \<Rightarrow> ledger_facts \<Rightarrow> ledger_entry list option" where
  "derived_entries T f =
     do { es \<leftarrow> entries_before_tax T f;
          tax \<leftarrow> tax_of f es;
          Some (es @ opt_list (corporate_tax_entry (facts_of f) tax)
                   @ opt_list (carry_back_entry (facts_of f) (credit_of f))) }"

lemma build_derived:
  "build T f = map_option (\<lambda>es. let numbered = number_entries (\<lambda>_. 0) (sort_key entry_key es) in
      if magnitude numbered > 2 ^ 63 - 1 then Inl Overflow
      else Inr \<lparr>l_exercise = lf_exercise f, l_entries = numbered\<rparr>) (derived_entries T f)"
  unfolding build_def derived_entries_def Let_def
  by (cases "entries_before_tax T f"; cases "tax_of f (the (entries_before_tax T f))") simp_all

lemma build_Inr:
  assumes "build T f = Some (Inr l)"
  obtains es where "derived_entries T f = Some es" "l_exercise l = lf_exercise f"
    "l_entries l = number_entries (\<lambda>_. 0) (sort_key entry_key es)" "magnitude (l_entries l) \<le> 2 ^ 63 - 1"
  using assms that by (auto simp: build_derived Let_def split: if_splits)

lemma derived_group:
  assumes "derived_entries T f = Some es"
  shows "sound_facts f \<Longrightarrow> all_balanced es" "ordered (lf_exercise f) \<Longrightarrow> within (lf_exercise f) es"
  using assms entries_before_tax_group [of T f] tax_group [of "facts_of f"]
  by (auto simp: derived_entries_def split: bind_splits)

lemma sum_on_sort [simp]: "sum_on P (sort_key k es) = sum_on P es"
proof -
  have "sum_on P es = sum_mset (image_mset (\<lambda>e. sum_on P [e]) (mset es))" for es
  proof (induction es)
    case (Cons e es)
    then show ?case using sum_on_Cons [of P e es] by simp
  qed simp
  then show ?thesis by (metis mset_sort)
qed

lemma numbered_group [simp]:
  "all_balanced (number_entries c es) = all_balanced es" "within fy (number_entries c es) = within fy es"
  by (induction es arbitrary: c) (simp_all add: all_balanced_def within_def is_balanced_def Let_def)

lemma sorted_group [simp]:
  "all_balanced (sort_key k es) = all_balanced es" "within fy (sort_key k es) = within fy es"
  by (simp_all add: all_balanced_def within_def list_all_iff)

lemma built_group:
  assumes "build T f = Some (Inr l)"
  shows "sound_facts f \<Longrightarrow> all_balanced (l_entries l)"
    and "ordered (lf_exercise f) \<Longrightarrow> within (lf_exercise f) (l_entries l)"
proof -
  obtain es where es: "derived_entries T f = Some es"
    and l: "l_entries l = number_entries (\<lambda>_. 0) (sort_key entry_key es)"
    using build_Inr [OF assms] by metis
  show "sound_facts f \<Longrightarrow> all_balanced (l_entries l)"
    and "ordered (lf_exercise f) \<Longrightarrow> within (lf_exercise f) (l_entries l)"
    using derived_group [OF es] by (simp_all add: l)
qed

lemma sorted_numbered: "sorted (map entry_key (number_entries c (sort_key entry_key es)))"
  by simp

lemma totals_of_balanced: "all_balanced (l_entries l) \<Longrightarrow> ledger_total_debit l = ledger_total_credit l"
proof -
  have "sum_list (map entry_total_debit es)
      = sum_list (map ll_amount (filter (\<lambda>x. \<not> ll_amount x < 0) (concat (map le_lines es))))" for es
    by (induction es) (simp_all add: entry_total_debit_def)
  then show "all_balanced (l_entries l) \<Longrightarrow> ledger_total_debit l = ledger_total_credit l"
    using books.debit_credit [of "l_entries l"]
    by (simp add: ledger_total_debit_def ledger_total_credit_def all_balanced_def)
qed


lemma rate_nonneg: "apply_rate_bps m bps = Some x \<Longrightarrow> 0 \<le> m \<Longrightarrow> 0 \<le> x"
  by (auto simp: apply_rate_bps_def i64_try_from_eq_Some round_half_to_even_nonneg)

lemma tax_nonneg: "corporate_income_tax r = Some t \<Longrightarrow> 0 \<le> t"
  by (auto simp: corporate_income_tax_def Let_def REDUCED_RATE_CEILING_def split: if_splits bind_splits
      intro!: round_to_euro_nonneg add_nonneg_nonneg dest!: rate_nonneg)

lemma sum_on_opt_entry:
  "sum_on P (opt_list (entry j d piece label ls)) = sum_list (map ll_amount (filter (\<lambda>l. P (ll_account l)) ls))"
proof (cases "entry j d piece label ls")
  case None
  then have "filter (\<lambda>l. ll_amount l \<noteq> 0) ls = []" by (simp add: entry_def Let_def split: if_splits)
  then have "sum_list (map ll_amount (filter (\<lambda>l. P (ll_account l)) ls)) = 0"
    by (induction ls) (auto split: if_splits)
  then show ?thesis using None by (simp add: opt_list_def)
next
  case (Some e)
  from sum_on_entry [OF this] show ?thesis by (simp add: Some opt_list_def)
qed

lemma sum_on_opt_tax:
  "sum_on is_income_statement (opt_list (corporate_tax_entry fi t)) = max t 0"
  unfolding corporate_tax_entry_def corporate_tax_booking_def
  by (cases "t \<le> 0") (simp_all add: opt_list_def [of None] sum_on_opt_entry is_income_statement_def ledger_class_def chart_defs byte_def)

lemma sum_on_opt_credit:
  "sum_on is_income_statement (opt_list (carry_back_entry fi c)) = - max c 0"
  unfolding carry_back_entry_def
  by (cases "c \<le> 0") (simp_all add: opt_list_def [of None] sum_on_opt_entry is_income_statement_def ledger_class_def chart_defs byte_def)


lemma tax_of_total:
  assumes "magnitude es \<le> 2 ^ 62"
  shows "\<exists>tax. tax_of f es = Some tax"
proof -
  have fits: "magnitude es \<le> 2 ^ 63 - 1" using assms by simp
  define r where "r = - sum_on before_tax_account es"
  have r: "\<bar>r\<bar> \<le> 2 ^ 62" "in_i64 r"
    using sum_on_le_magnitude [of before_tax_account es] assms by (auto simp: r_def in_i64_def abs_le_iff)
  have income: "income_before_tax es = Some r"
    using r(2) by (simp add: income_before_tax_def line_amounts_fit [OF fits] r_def)
  from impute_conserves [OF r(2), of "prior_losses f"] obtain li
    where li: "impute_prior_losses r (prior_losses f) = Some li" "li_taxable_result li + imputed li = r" "0 \<le> imputed li"
    by blast
  then have "li_taxable_result li \<le> 2 ^ 62" using r(1) by linarith
  then have "\<exists>t. corporate_income_tax (li_taxable_result li) = Some t"
    using corporate_income_tax_eq [of "li_taxable_result li"]
    by (cases "li_taxable_result li \<le> 0") (auto simp: corporate_income_tax_def)
  with income li show ?thesis
    by (auto simp: tax_of_def line_amounts_fit [OF fits] split: option.split)
qed

definition sample_profile :: company_profile where
  "sample_profile =
     \<lparr>cp_name = ''Atelier'', legal_form = ''SASU'', cp_siren = Siren [7, 3, 2, 8, 2, 9, 3, 2, 0], cp_vat_number = None,
      cp_address = \<lparr>street = [], postal_code = ''75001'', city = ''Paris'', address_country = ''FR''\<rparr>,
      cp_share_capital = None, rcs_city = None, iban = None, fiscal_year_end_of = None,
      vat_regime_of = None, director_monthly_gross = None, director_charge_ratio_bps = None,
      president_name = None, sole_shareholder_name = None, sole_shareholder_address = None,
      share_count = None\<rparr>"

definition sample_facts :: "ledger_entry list \<Rightarrow> ledger_facts" where
  "sample_facts es =
     \<lparr>lf_profile = sample_profile, lf_exercise = fiscal_year_new (Date 2026 1 1) (Date 2026 12 31),
      lf_invoices = [], lf_write_offs = [], lf_clients = [], lf_payments = [], lf_expenses = [],
      posted = es, lf_assets = [], lf_bank_transactions = [],
      lf_opening = Some \<lparr>ol_label = ''AN'', ol_lines = [line BANK 100000, line SHARE_CAPITAL (- 100000)]\<rparr>,
      lf_snapshot = None, appropriations = [], prior_losses = 30000\<rparr>"

definition sample_sale :: ledger_entry where
  "sample_sale = the (entry Sales (Date 2026 3 1) ''F-1'' ''Facture''
     [client_line None 1200000, line SERVICES (- 1000000), line VAT_PENDING (- 200000)])"

lemma sample_built:
  "\<exists>l. build gregorian (sample_facts [sample_sale]) = Some (Inr l)"
proof -
  have "case build gregorian (sample_facts [sample_sale]) of Some (Inr l) \<Rightarrow> True | _ \<Rightarrow> False" by code_simp
  then show ?thesis by (auto split: option.splits sum.splits)
qed

lemma sample_sound: "sound_facts (sample_facts [sample_sale])" by code_simp

lemma sample_ordered: "ordered (lf_exercise (sample_facts es))"
  by (simp add: sample_facts_def ordered_def fiscal_year_new_def)

text \<open>Two balanced entries whose charges add up to 2^63 cents.\<close>

definition huge_entries :: "ledger_entry list" where
  "huge_entries = replicate 2 (the (entry Bank (Date 2026 5 4) ''DEP-1'' ''Achat''
     [line FEES (2 ^ 62), line BANK (- (2 ^ 62))]))"

section \<open>Properties\<close>

text \<open>The ledger of an exercise is in balance: from balanced kept entries, balanced opening lines and
  write-offs whose VAT adds up, every entry of the built ledger balances and the total of the debits
  equals the total of the credits.\<close>

lemma built_ledger_balances:
  assumes "build T f = Some (Inr l)" "sound_facts f"
  shows "list_all is_balanced (l_entries l) \<and> ledger_total_debit l = ledger_total_credit l"
  using built_group(1) [OF assms] totals_of_balanced by (simp add: all_balanced_def)

text \<open>C6: The entries of the built ledger are those of the facts, in a total order: by date, journal,
  piece and label, numbered from 1 without a gap within each journal, and every one of them dated in
  the exercise.\<close>

theorem built_ledger_ordered:
  assumes "build T f = Some (Inr l)" "ordered (lf_exercise f)" "derived_entries T f = Some es"
  shows "sorted (map entry_key (l_entries l))
    \<and> map le_number (filter (\<lambda>e. le_journal e = j) (l_entries l))
        = [1 ..< 1 + length (filter (\<lambda>e. le_journal e = j) es)]
    \<and> mset (map unnumbered (l_entries l)) = mset (map unnumbered es)
    \<and> list_all (\<lambda>e. fy_contains (lf_exercise f) (le_date e)) (l_entries l)"
proof -
  have l: "l_entries l = number_entries (\<lambda>_. 0) (sort_key entry_key es)"
    using build_Inr [OF assms(1)] assms(3) by auto
  have "length (filter P (sort_key entry_key es)) = length (filter P es)" for P :: "ledger_entry \<Rightarrow> bool"
    by (metis mset_filter mset_sort size_mset)
  then have "map le_number (filter (\<lambda>e. le_journal e = j) (l_entries l))
        = [1 ..< 1 + length (filter (\<lambda>e. le_journal e = j) es)]"
    by (simp add: l number_entries_numbers)
  moreover have "mset (map unnumbered (l_entries l)) = mset (map unnumbered es)"
    by (simp add: l)
  moreover have "list_all (\<lambda>e. fy_contains (lf_exercise f) (le_date e)) (l_entries l)"
    using built_group(2) [OF assms(1,2)] by (simp add: within_def)
  ultimately show ?thesis using sorted_numbered [of "\<lambda>_. 0" es] by (simp add: l)
qed

theorem built_ledger_ordered_witness:
  "\<exists>l. build gregorian (sample_facts [sample_sale]) = Some (Inr l) \<and> sorted (map entry_key (l_entries l))"
proof -
  obtain l where l: "build gregorian (sample_facts [sample_sale]) = Some (Inr l)" using sample_built by blast
  then obtain es where "derived_entries gregorian (sample_facts [sample_sale]) = Some es" by (rule build_Inr)
  with built_ledger_ordered [OF l sample_ordered] l show ?thesis by blast
qed

text \<open>C7: Once a ledger is built, no sum over it overflows: for whatever selection of its accounts, the
  machine sum of the amounts, taken in order with every partial sum checked, is the exact sum.\<close>

theorem built_ledger_sums_fit:
  assumes "build T f = Some (Inr l)"
  shows "sum_money 0 (line_amounts P (l_entries l)) = Some (sum_on P (l_entries l))"
  using assms by (auto elim!: build_Inr intro!: line_amounts_fit)

theorem built_ledger_sums_fit_witness:
  "\<exists>l. sum_money 0 (line_amounts is_income_statement (l_entries l)) = Some (sum_on is_income_statement (l_entries l))
     \<and> build gregorian (sample_facts [sample_sale]) = Some (Inr l)"
  using sample_built built_ledger_sums_fit by blast

text \<open>C8: An exercise without snapshot nor posted tax bears the tax of its own result: the net result of
  the ledger is the result of its facts less the corporate tax of what is left once prior losses are
  imputed.\<close>

theorem net_result_after_tax:
  assumes "build T f = Some (Inr l)" "entries_before_tax T f = Some es" "lf_snapshot f = None"
    and "sum_on tax_account es = 0" "sum_on is_income_statement es = sum_on before_tax_account es"
  shows "\<exists>li tax. impute_prior_losses (income_of es) (prior_losses f) = Some li
    \<and> corporate_income_tax (li_taxable_result li) = Some tax
    \<and> ledger_net_result l = income_of es - tax"
proof -
  obtain all where all: "derived_entries T f = Some all"
    and l: "l_entries l = number_entries (\<lambda>_. 0) (sort_key entry_key all)"
    using build_Inr [OF assms(1)] by metis
  from all assms(2) obtain tax where tax: "tax_of f es = Some tax"
    and all: "all = es @ opt_list (corporate_tax_entry (facts_of f) tax) @ opt_list (carry_back_entry (facts_of f) (credit_of f))"
    by (auto simp: derived_entries_def split: bind_splits)
  from tax assms(3-5) obtain li where "impute_prior_losses (income_of es) (prior_losses f) = Some li"
    "corporate_income_tax (li_taxable_result li) = Some tax"
    by (auto simp: tax_of_def income_before_tax_def income_of_def sum_on_amounts i64_try_from_eq_Some
        dest!: sum_money_Some split: bind_splits)
  moreover have "ledger_net_result l = income_of es - tax"
    using tax_nonneg [OF calculation(2)] assms(3)
    by (simp add: ledger_net_result_def income_of_def l all sum_on_opt_tax sum_on_opt_credit credit_of_def)
  ultimately show ?thesis by blast
qed


theorem net_result_after_tax_witness:
  "\<exists>l es tax. build gregorian (sample_facts [sample_sale]) = Some (Inr l) \<and> ledger_net_result l = income_of es - tax"
proof -
  have "case entries_before_tax gregorian (sample_facts [sample_sale]) of
      Some es \<Rightarrow> sum_on tax_account es = 0 \<and> sum_on is_income_statement es = sum_on before_tax_account es
    | None \<Rightarrow> False" by code_simp
  then obtain es where "entries_before_tax gregorian (sample_facts [sample_sale]) = Some es"
    "sum_on tax_account es = 0" "sum_on is_income_statement es = sum_on before_tax_account es"
    by (auto split: option.splits)
  with sample_built net_result_after_tax [of gregorian "sample_facts [sample_sale]"]
  show ?thesis by (fastforce simp: sample_facts_def)
qed

text \<open>Building a ledger returns: as soon as the entries of the facts exist and their amounts add up, in
  absolute value, to at most 2^62 cents, the tax is computed and the result is a ledger or a refusal,
  never a panic.\<close>

lemma build_returns:
  assumes "entries_before_tax T f = Some es" "magnitude es \<le> 2 ^ 62"
  shows "\<exists>r. build T f = Some r"
  using tax_of_total [OF assms(2), of f] assms(1) by (auto simp: build_derived derived_entries_def)

text \<open>The refusal of amounts that cannot be totalled comes too late for the tax: on balanced entries
  whose charges add up to 2^63 cents the code panics while it sums the result, instead of returning
  the overflow error.\<close>

lemma build_panics_before_refusing:
  "build gregorian (sample_facts huge_entries) = None \<and> list_all is_balanced huge_entries
   \<and> magnitude huge_entries > 2 ^ 63 - 1"
  by code_simp

end
