(* ===== verification/Btree.thy ===== *)
theory Btree
  imports Prelude
begin

text \<open>
  The standard library's ordered map as the code uses it: \<open>entry(k).or_insert(d)\<close> followed by an
  update in place, lookups, and the values in key order. The interface \<open>entry_map\<close> states what such
  an update promises and what a loop of updates computes; it is provided by sorted association
  lists (where the order matters) and by plain maps (where only lookups follow).
\<close>

section \<open>The interface\<close>

locale entry_map =
  fixes update :: "'k \<Rightarrow> 'v \<Rightarrow> ('v \<Rightarrow> 'v) \<Rightarrow> 'm \<Rightarrow> 'm"
    and lookup :: "'m \<Rightarrow> 'k \<Rightarrow> 'v option"
    and ok :: "'m \<Rightarrow> bool"
    and start :: 'm
  assumes ok_start: "ok start"
    and ok_update: "ok m \<Longrightarrow> ok (update k d f m)"
    and lookup_start: "lookup start k = None"
    and lookup_update: "ok m \<Longrightarrow> lookup (update k d f m) k' =
       (if k' = k then Some (f (case lookup m k of None \<Rightarrow> d | Some v \<Rightarrow> v)) else lookup m k')"
begin

lemma ok_fold: "ok m \<Longrightarrow> ok (fold (\<lambda>x. update (key x) (init x) (step x)) xs m)"
  by (induction xs arbitrary: m) (auto intro: ok_update)

text \<open>A loop of updates folds, under each key, the elements with that key, from the first one's default.\<close>

lemma lookup_fold:
  assumes "ok m"
  shows "lookup (fold (\<lambda>x. update (key x) (init x) (step x)) xs m) k =
    (case filter (\<lambda>x. key x = k) xs of
       [] \<Rightarrow> lookup m k
     | y # ys \<Rightarrow> Some (fold step (y # ys) (case lookup m k of None \<Rightarrow> init y | Some v \<Rightarrow> v)))"
  using assms
proof (induction xs arbitrary: m)
  case (Cons x xs)
  note IH = Cons.IH [OF ok_update [OF Cons.prems]]
  show ?case
    by (cases "filter (\<lambda>x. key x = k) xs")
      (auto simp: IH lookup_update [OF Cons.prems] split: option.split)
qed simp

lemma lookup_built:
  "lookup (fold (\<lambda>x. update (key x) (init x) (step x)) xs start) k =
    (case filter (\<lambda>x. key x = k) xs of [] \<Rightarrow> None | y # ys \<Rightarrow> Some (fold step (y # ys) (init y)))"
  by (simp add: lookup_fold [OF ok_start] lookup_start cong: list.case_cong)

lemma ok_built: "ok (fold (\<lambda>x. update (key x) (init x) (step x)) xs start)"
  by (rule ok_fold [OF ok_start])

end

section \<open>Sorted association lists\<close>

fun upsert :: "'k::linorder \<Rightarrow> 'v \<Rightarrow> ('v \<Rightarrow> 'v) \<Rightarrow> ('k \<times> 'v) list \<Rightarrow> ('k \<times> 'v) list" where
  "upsert k d f [] = [(k, f d)]"
| "upsert k d f ((k', v) # m) =
     (if k < k' then (k, f d) # (k', v) # m
      else if k = k' then (k, f v) # m
      else (k', v) # upsert k d f m)"

definition strict_sorted :: "('k::linorder \<times> 'v) list \<Rightarrow> bool" where
  "strict_sorted m \<longleftrightarrow> sorted_wrt (<) (map fst m)"

lemma upsert_keys: "fst ` set (upsert k d f m) = insert k (fst ` set m)"
  by (induction k d f m rule: upsert.induct) auto

lemma upsert_sorted: "strict_sorted m \<Longrightarrow> strict_sorted (upsert k d f m)"
  unfolding strict_sorted_def
proof (induction k d f m rule: upsert.induct)
  case (2 k d f k' v m)
  have "k' < x" if "\<not> k < k'" "k \<noteq> k'" "x \<in> fst ` set (upsert k d f m)" for x
    using that 2 by (auto simp: upsert_keys)
  with 2 show ?case by auto
qed simp

lemma map_of_greater: "\<forall>x \<in> set m. (k :: 'k::linorder) < fst x \<Longrightarrow> map_of m k = None"
  by (induction m) auto

lemma map_of_upsert:
  "strict_sorted m \<Longrightarrow> map_of (upsert k d f m) k' =
     (if k' = k then Some (f (case map_of m k of None \<Rightarrow> d | Some v \<Rightarrow> v)) else map_of m k')"
proof (induction k d f m rule: upsert.induct)
  case (2 k d f k0 v m)
  have "map_of m k = None" if "k < k0"
    using 2(2) that by (intro map_of_greater) (auto simp: strict_sorted_def)
  with 2 show ?case by (auto simp: strict_sorted_def)
qed simp

interpretation tree: entry_map upsert map_of strict_sorted "[]"
proof
  show "strict_sorted []" by (simp add: strict_sorted_def)
  show "strict_sorted m \<Longrightarrow> strict_sorted (upsert k d f m)" for m :: "('a::linorder \<times> 'b) list" and k d f
    by (rule upsert_sorted)
  show "strict_sorted m \<Longrightarrow> map_of (upsert k d f m) k' =
      (if k' = k then Some (f (case map_of m k of None \<Rightarrow> d | Some v \<Rightarrow> v)) else map_of m k')"
    for m :: "('a::linorder \<times> 'b) list" and k d f k'
    by (rule map_of_upsert)
qed simp

section \<open>Plain maps\<close>

definition upd_entry :: "'k \<Rightarrow> 'v \<Rightarrow> ('v \<Rightarrow> 'v) \<Rightarrow> ('k \<Rightarrow> 'v option) \<Rightarrow> 'k \<Rightarrow> 'v option" where
  "upd_entry k d f m = m(k := Some (f (case m k of None \<Rightarrow> d | Some v \<Rightarrow> v)))"

interpretation plain: entry_map upd_entry "\<lambda>m. m" "\<lambda>_. True" "\<lambda>_. None"
  by unfold_locales (simp_all add: upd_entry_def)

lemma strict_sorted_distinct: "strict_sorted m \<Longrightarrow> distinct (map fst m)"
  unfolding strict_sorted_def by (simp add: strict_sorted_iff)

end
