(* ===== verification/Balance.thy ===== *)
theory Balance
  imports Ledger Btree
begin

text \<open>
  The trial balance, the balance sheet in the presentation of form 2033-A, and the opening lines a
  closed exercise hands to the next one: the end of \<open>ledger.rs\<close>. A \<open>BTreeMap\<close> is the
  ordered map of \<open>Btree\<close>; the maps from rubrics, only looked up, are plain maps.
\<close>

section \<open>The trial balance\<close>

record trial_balance_row =
  row_account :: account
  row_debit :: money
  row_credit :: money
  row_balance :: money

record trial_balance =
  tb_exercise :: fiscal_year
  tb_rows :: "trial_balance_row list"
  tb_total_debit :: money
  tb_total_credit :: money

definition empty_row :: "ledger_line \<Rightarrow> trial_balance_row" where
  "empty_row l = \<lparr>row_account = ll_account l, row_debit = 0, row_credit = 0, row_balance = 0\<rparr>"

definition add_line :: "ledger_line \<Rightarrow> trial_balance_row \<Rightarrow> trial_balance_row" where
  "add_line l r =
     (let r = (if ll_amount l < 0 then r\<lparr>row_credit := row_credit r + - ll_amount l\<rparr>
               else r\<lparr>row_debit := row_debit r + ll_amount l\<rparr>)
      in r\<lparr>row_balance := row_balance r + ll_amount l\<rparr>)"

definition line_number :: "ledger_line \<Rightarrow> string" where
  "line_number l = acc_number (ll_account l)"

definition balance_map :: "ledger_line list \<Rightarrow> (string \<times> trial_balance_row) list" where
  "balance_map ls = fold (\<lambda>l. upsert (line_number l) (empty_row l) (add_line l)) ls []"

definition trial_balance_of :: "ledger \<Rightarrow> trial_balance" where
  "trial_balance_of l =
     (let rows = map snd (balance_map (concat (map le_lines (l_entries l))))
      in \<lparr>tb_exercise = l_exercise l, tb_rows = rows,
          tb_total_debit = sum_list (map row_debit rows),
          tb_total_credit = sum_list (map row_credit rows)\<rparr>)"

section \<open>The rubrics of form 2033-A\<close>

datatype asset_rubric =
    RubricGoodwill | Intangible | Tangible | RubricFinancial | RawMaterials | Goods | AdvancesPaid
  | RubricClients | OtherReceivables | Securities | Cash | Prepaid

definition AssetRubric_ALL :: "asset_rubric list" where
  "AssetRubric_ALL =
     [RubricGoodwill, Intangible, Tangible, RubricFinancial, RawMaterials, Goods, AdvancesPaid,
      RubricClients, OtherReceivables, Securities, Cash, Prepaid]"

fun is_fixed_asset :: "asset_rubric \<Rightarrow> bool" where
  "is_fixed_asset RubricGoodwill = True"
| "is_fixed_asset Intangible = True"
| "is_fixed_asset Tangible = True"
| "is_fixed_asset RubricFinancial = True"
| "is_fixed_asset _ = False"

fun rubric_cases :: "asset_rubric \<Rightarrow> string \<times> string" where
  "rubric_cases RubricGoodwill = (''010'', ''012'')"
| "rubric_cases Intangible = (''014'', ''016'')"
| "rubric_cases Tangible = (''028'', ''030'')"
| "rubric_cases RubricFinancial = (''040'', ''042'')"
| "rubric_cases RawMaterials = (''050'', ''052'')"
| "rubric_cases Goods = (''060'', ''062'')"
| "rubric_cases AdvancesPaid = (''064'', ''066'')"
| "rubric_cases RubricClients = (''068'', ''070'')"
| "rubric_cases OtherReceivables = (''072'', ''074'')"
| "rubric_cases Securities = (''080'', ''082'')"
| "rubric_cases Cash = (''084'', ''086'')"
| "rubric_cases Prepaid = (''092'', ''094'')"

fun asset_rubric_label :: "asset_rubric \<Rightarrow> string" where
  "asset_rubric_label RubricGoodwill = ''Fonds commercial''"
| "asset_rubric_label Intangible = ''Autres immobilisations incorporelles''"
| "asset_rubric_label Tangible = ''Immobilisations corporelles''"
| "asset_rubric_label RubricFinancial = (''Immobilisations financi'' @ e_grave @ ''res'')"
| "asset_rubric_label RawMaterials = (''Mati'' @ e_grave @ ''res premi'' @ e_grave @ ''res, approvisionnements, en cours'')"
| "asset_rubric_label Goods = ''Marchandises''"
| "asset_rubric_label AdvancesPaid = (''Avances et acomptes vers'' @ e_acute @ ''s sur commandes'')"
| "asset_rubric_label RubricClients = (''Clients et comptes rattach'' @ e_acute @ ''s'')"
| "asset_rubric_label OtherReceivables = (''Autres cr'' @ e_acute @ ''ances'')"
| "asset_rubric_label Securities = (''Valeurs mobili'' @ e_grave @ ''res de placement'')"
| "asset_rubric_label Cash = (''Disponibilit'' @ e_acute @ ''s'')"
| "asset_rubric_label Prepaid = (''Charges constat'' @ e_acute @ ''es d'' @ [CHR 0x27] @ ''avance'')"

datatype liability_rubric =
    Capital | Revaluation | LegalReserve | RegulatedReserves | OtherReserves | RetainedEarnings
  | ResultRubric | RegulatedProvisions | Provisions | Borrowings | AdvancesReceived | Suppliers
  | OtherDebts | Deferred

definition LiabilityRubric_ALL :: "liability_rubric list" where
  "LiabilityRubric_ALL =
     [Capital, Revaluation, LegalReserve, RegulatedReserves, OtherReserves, RetainedEarnings,
      ResultRubric, RegulatedProvisions, Provisions, Borrowings, AdvancesReceived, Suppliers,
      OtherDebts, Deferred]"

datatype liability_section = EquitySection | ProvisionsSection | DebtsSection

fun liability_section_of :: "liability_rubric \<Rightarrow> liability_section" where
  "liability_section_of Provisions = ProvisionsSection"
| "liability_section_of Borrowings = DebtsSection"
| "liability_section_of AdvancesReceived = DebtsSection"
| "liability_section_of Suppliers = DebtsSection"
| "liability_section_of OtherDebts = DebtsSection"
| "liability_section_of Deferred = DebtsSection"
| "liability_section_of _ = EquitySection"

fun rubric_case :: "liability_rubric \<Rightarrow> string" where
  "rubric_case Capital = ''120''"
| "rubric_case Revaluation = ''124''"
| "rubric_case LegalReserve = ''126''"
| "rubric_case RegulatedReserves = ''130''"
| "rubric_case OtherReserves = ''132''"
| "rubric_case RetainedEarnings = ''134''"
| "rubric_case ResultRubric = ''136''"
| "rubric_case RegulatedProvisions = ''140''"
| "rubric_case Provisions = ''154''"
| "rubric_case Borrowings = ''156''"
| "rubric_case AdvancesReceived = ''164''"
| "rubric_case Suppliers = ''166''"
| "rubric_case OtherDebts = ''172''"
| "rubric_case Deferred = ''174''"

fun liability_rubric_label :: "liability_rubric \<Rightarrow> string" where
  "liability_rubric_label Capital = ''Capital social ou individuel''"
| "liability_rubric_label Revaluation = (e_acute_upper @ ''carts de r'' @ e_acute @ e_acute @ ''valuation'')"
| "liability_rubric_label LegalReserve = (''R'' @ e_acute @ ''serve l'' @ e_acute @ ''gale'')"
| "liability_rubric_label RegulatedReserves = (''R'' @ e_acute @ ''serves r'' @ e_acute @ ''glement'' @ e_acute @ ''es'')"
| "liability_rubric_label OtherReserves = (''Autres r'' @ e_acute @ ''serves'')"
| "liability_rubric_label RetainedEarnings = (''Report '' @ [CHR 0xC3, CHR 0xA0] @ '' nouveau'')"
| "liability_rubric_label ResultRubric = (''R'' @ e_acute @ ''sultat de l'' @ [CHR 0x27] @ ''exercice'')"
| "liability_rubric_label RegulatedProvisions = (''Provisions r'' @ e_acute @ ''glement'' @ e_acute @ ''es'')"
| "liability_rubric_label Provisions = ''Provisions pour risques et charges''"
| "liability_rubric_label Borrowings = (''Emprunts et dettes assimil'' @ e_acute @ ''es'')"
| "liability_rubric_label AdvancesReceived = (''Avances et acomptes re'' @ [CHR 0xC3, CHR 0xA7] @ ''us sur commandes en cours'')"
| "liability_rubric_label Suppliers = (''Fournisseurs et comptes rattach'' @ e_acute @ ''s'')"
| "liability_rubric_label OtherDebts = ''Autres dettes''"
| "liability_rubric_label Deferred = (''Produits constat'' @ e_acute @ ''s d'' @ [CHR 0x27] @ ''avance'')"

datatype slot = GrossSlot asset_rubric | DepreciationSlot asset_rubric | LiabilitySlot liability_rubric | IncomeSlot

definition classify_equity :: "string \<Rightarrow> liability_rubric" where
  "classify_equity number =
     (let p = starts_with number
      in if p ''1061'' then LegalReserve
         else if p ''1064'' then RegulatedReserves
         else if p ''104'' \<or> p ''106'' then OtherReserves
         else if p ''105'' then Revaluation
         else if p ''10'' then Capital
         else if p ''11'' \<or> p ''12'' then RetainedEarnings
         else if p ''13'' \<or> p ''14'' then RegulatedProvisions
         else if p ''15'' then Provisions
         else Borrowings)"

definition classify_fixed_assets_and_stocks :: "string \<Rightarrow> slot" where
  "classify_fixed_assets_and_stocks number =
     (let p = starts_with number
      in if p ''28'' \<or> p ''29''
         then let rest = drop 2 number
              in DepreciationSlot
                   (if starts_with rest ''07'' then RubricGoodwill
                    else if starts_with rest ''0'' then Intangible
                    else if starts_with rest ''6'' \<or> starts_with rest ''7'' then RubricFinancial
                    else Tangible)
         else if p ''207'' then GrossSlot RubricGoodwill
         else if p ''20'' then GrossSlot Intangible
         else if p ''26'' \<or> p ''27'' then GrossSlot RubricFinancial
         else if p ''2'' then GrossSlot Tangible
         else if p ''397'' then DepreciationSlot Goods
         else if p ''39'' then DepreciationSlot RawMaterials
         else if p ''37'' then GrossSlot Goods
         else GrossSlot RawMaterials)"

definition classify_third_parties :: "string \<Rightarrow> bool \<Rightarrow> slot" where
  "classify_third_parties number debit =
     (let p = starts_with number
      in if p ''491'' then DepreciationSlot RubricClients
         else if p ''49'' then DepreciationSlot OtherReceivables
         else if p ''409'' \<and> debit then GrossSlot AdvancesPaid
         else if p ''40'' then (if debit then GrossSlot OtherReceivables else LiabilitySlot Suppliers)
         else if p ''41'' then (if debit then GrossSlot RubricClients else LiabilitySlot AdvancesReceived)
         else if p ''486'' \<and> debit then GrossSlot Prepaid
         else if p ''487'' \<and> \<not> debit then LiabilitySlot Deferred
         else if debit then GrossSlot OtherReceivables
         else LiabilitySlot OtherDebts)"

definition classify :: "string \<Rightarrow> money \<Rightarrow> slot" where
  "classify number bal =
     (let debit = (\<not> bal < 0)
      in case number of
           [] \<Rightarrow> if debit then GrossSlot OtherReceivables else LiabilitySlot OtherDebts
         | c # _ \<Rightarrow>
             if c = CHR ''6'' \<or> c = CHR ''7'' then IncomeSlot
             else if c = CHR ''1'' then LiabilitySlot (classify_equity number)
             else if c = CHR ''2'' \<or> c = CHR ''3'' then classify_fixed_assets_and_stocks number
             else if c = CHR ''4'' then classify_third_parties number debit
             else if c = CHR ''5''
             then (if starts_with number ''59'' then DepreciationSlot Securities
                   else if \<not> debit then LiabilitySlot Borrowings
                   else if starts_with number ''50'' then GrossSlot Securities
                   else GrossSlot Cash)
             else if debit then GrossSlot OtherReceivables
             else LiabilitySlot OtherDebts)"

section \<open>The balance sheet\<close>

record asset_line =
  al_rubric :: asset_rubric
  case_gross :: string
  case_depreciation :: string
  al_label :: string
  al_gross :: money
  al_depreciation :: money
  al_net :: money

record liability_line =
  li_rubric :: liability_rubric
  li_case :: string
  li_label :: string
  li_amount :: money

record balance_sheet =
  bs_exercise :: fiscal_year
  bs_assets :: "asset_line list"
  bs_liabilities :: "liability_line list"
  bs_result :: money
  fixed_assets_net :: money
  current_assets_net :: money
  total_assets_gross :: money
  total_depreciation :: money
  total_assets_net :: money
  total_equity :: money
  total_provisions :: money
  total_debts :: money
  total_liabilities :: money
  shareholder_current_accounts :: money

text \<open>The state of the loop over the rows: the three maps and the shareholders' accounts.\<close>

record sheet_state =
  st_gross :: "asset_rubric \<Rightarrow> money option"
  st_depreciation :: "asset_rubric \<Rightarrow> money option"
  st_liabilities :: "liability_rubric \<Rightarrow> money option"
  st_shareholders :: money

definition sheet_step :: "trial_balance_row \<Rightarrow> sheet_state \<Rightarrow> sheet_state" where
  "sheet_step row s =
     (let number = acc_number (row_account row); bal = row_balance row
      in case classify number bal of
           IncomeSlot \<Rightarrow> s
         | GrossSlot r \<Rightarrow> s\<lparr>st_gross := upd_entry r 0 (\<lambda>x. x + bal) (st_gross s)\<rparr>
         | DepreciationSlot r \<Rightarrow> s\<lparr>st_depreciation := upd_entry r 0 (\<lambda>x. x + - bal) (st_depreciation s)\<rparr>
         | LiabilitySlot r \<Rightarrow>
             s\<lparr>st_liabilities := upd_entry r 0 (\<lambda>x. x + - bal) (st_liabilities s),
               st_shareholders := (if starts_with number ''455'' then st_shareholders s + - bal
                                   else st_shareholders s)\<rparr>)"

definition unwrap_or_zero :: "money option \<Rightarrow> money" where
  "unwrap_or_zero x = (case x of None \<Rightarrow> 0 | Some m \<Rightarrow> m)"

definition from_trial_balance :: "trial_balance \<Rightarrow> money \<Rightarrow> balance_sheet" where
  "from_trial_balance tb result =
     (let s = fold sheet_step (filter (\<lambda>r. row_balance r \<noteq> 0) (tb_rows tb))
                \<lparr>st_gross = (\<lambda>_. None), st_depreciation = (\<lambda>_. None), st_liabilities = (\<lambda>_. None),
                 st_shareholders = 0\<rparr>;
          liability_map = upd_entry ResultRubric 0 (\<lambda>x. x + result) (st_liabilities s);
          assets = map (\<lambda>r. let g = unwrap_or_zero (st_gross s r); d = unwrap_or_zero (st_depreciation s r);
                                (cg, cd) = rubric_cases r
                            in \<lparr>al_rubric = r, case_gross = cg, case_depreciation = cd,
                                al_label = asset_rubric_label r, al_gross = g, al_depreciation = d,
                                al_net = g - d\<rparr>) AssetRubric_ALL;
          liabilities = map (\<lambda>r. \<lparr>li_rubric = r, li_case = rubric_case r, li_label = liability_rubric_label r,
                                   li_amount = unwrap_or_zero (liability_map r)\<rparr>) LiabilityRubric_ALL;
          sum_assets = (\<lambda>fixed. sum_list (map al_net (filter (\<lambda>a. is_fixed_asset (al_rubric a) = fixed) assets)));
          sum_section = (\<lambda>sec. sum_list (map li_amount
             (filter (\<lambda>l. liability_section_of (li_rubric l) = sec) liabilities)));
          fixed_net = sum_assets True;
          current_net = sum_assets False;
          equity_total = sum_section EquitySection;
          provisions_total = sum_section ProvisionsSection;
          debts_total = sum_section DebtsSection
      in \<lparr>bs_exercise = tb_exercise tb, bs_assets = assets, bs_liabilities = liabilities,
          bs_result = result, fixed_assets_net = fixed_net, current_assets_net = current_net,
          total_assets_gross = sum_list (map al_gross assets),
          total_depreciation = sum_list (map al_depreciation assets),
          total_assets_net = fixed_net + current_net,
          total_equity = equity_total, total_provisions = provisions_total, total_debts = debts_total,
          total_liabilities = equity_total + provisions_total + debts_total,
          shareholder_current_accounts = st_shareholders s\<rparr>)"

definition sheet_is_balanced :: "balance_sheet \<Rightarrow> bool" where
  "sheet_is_balanced b \<longleftrightarrow> total_assets_net b = total_liabilities b"

definition sheet_liability :: "balance_sheet \<Rightarrow> liability_rubric \<Rightarrow> money" where
  "sheet_liability b r =
     (case find (\<lambda>l. li_rubric l = r) (bs_liabilities b) of None \<Rightarrow> 0 | Some l \<Rightarrow> li_amount l)"

definition asset_net :: "balance_sheet \<Rightarrow> asset_rubric \<Rightarrow> money" where
  "asset_net b r = (case find (\<lambda>a. al_rubric a = r) (bs_assets b) of None \<Rightarrow> 0 | Some a \<Rightarrow> al_net a)"

definition balance_sheet_of :: "ledger \<Rightarrow> balance_sheet" where
  "balance_sheet_of l = from_trial_balance (trial_balance_of l) (ledger_net_result l)"

section \<open>The opening lines of the next exercise\<close>

record closing_state =
  retained :: money
  prior_result :: money
  closing_lines :: "ledger_line list"

definition closing_step :: "trial_balance_row \<Rightarrow> closing_state \<Rightarrow> closing_state" where
  "closing_step r s =
     (let n = acc_number (row_account r)
      in if is_income_statement (row_account r) \<or> row_balance r = 0 then s
         else if starts_with n ''110'' \<or> starts_with n ''119'' then s\<lparr>retained := retained s + row_balance r\<rparr>
         else if starts_with n ''120'' \<or> starts_with n ''129'' then s\<lparr>prior_result := prior_result s + row_balance r\<rparr>
         else s\<lparr>closing_lines := closing_lines s @ [line (row_account r) (row_balance r)]\<rparr>)"

definition closing_opening_lines :: "time_api \<Rightarrow> ledger \<Rightarrow> opening_lines" where
  "closing_opening_lines T l =
     (let net = ledger_net_result l;
          s = fold closing_step (tb_rows (trial_balance_of l))
                \<lparr>retained = 0, prior_result = 0, closing_lines = []\<rparr>
      in \<lparr>ol_label = (a_grave_upper @ ''-nouveaux '' @ em_dash @ '' bilan de cl'' @ o_circ @ ''ture d'' @ e_acute @ ''riv'' @ e_acute @ '' au '') @ format_date T (fy_end (l_exercise l)),
          ol_lines = closing_lines s
            @ (if retained s \<noteq> 0
               then [line (if retained s < 0 then RETAINED_CREDIT else RETAINED_DEBIT) (retained s)] else [])
            @ (if prior_result s \<noteq> 0
               then [line (result_account (- prior_result s)) (prior_result s)] else [])
            @ (if net \<noteq> 0 then [line (result_account net) (- net)] else [])\<rparr>)"

section \<open>What the loop of the trial balance computes\<close>

definition lines_on :: "string \<Rightarrow> ledger_line list \<Rightarrow> ledger_line list" where
  "lines_on n ls = filter (\<lambda>l. line_number l = n) ls"

definition debit_of :: "ledger_line \<Rightarrow> money" where
  "debit_of l = (if ll_amount l < 0 then 0 else ll_amount l)"

definition credit_side :: "ledger_line \<Rightarrow> money" where
  "credit_side l = (if ll_amount l < 0 then - ll_amount l else 0)"

text \<open>The abstract row of an account: its first line's account and the sums of its lines.\<close>

definition row_of :: "ledger_line list \<Rightarrow> trial_balance_row" where
  "row_of ls = \<lparr>row_account = ll_account (hd ls), row_debit = sum_list (map debit_of ls),
     row_credit = sum_list (map credit_side ls), row_balance = sum_list (map ll_amount ls)\<rparr>"

lemma fold_add_line:
  "fold add_line ls r = \<lparr>row_account = row_account r, row_debit = row_debit r + sum_list (map debit_of ls),
     row_credit = row_credit r + sum_list (map credit_side ls),
     row_balance = row_balance r + sum_list (map ll_amount ls)\<rparr>"
  by (induction ls arbitrary: r) (simp_all add: add_line_def debit_of_def credit_side_def Let_def)

lemma balance_map_lookup:
  "map_of (balance_map ls) n = (if lines_on n ls = [] then None else Some (row_of (lines_on n ls)))"
  unfolding balance_map_def tree.lookup_built
  by (cases "lines_on n ls")
    (simp_all add: lines_on_def fold_add_line row_of_def empty_row_def add_line_def debit_of_def credit_side_def Let_def)

lemma balance_map_sorted: "strict_sorted (balance_map ls)"
  unfolding balance_map_def by (rule tree.ok_built)

definition numbers_of :: "ledger_line list \<Rightarrow> string list" where
  "numbers_of ls = sorted_list_of_set (line_number ` set ls)"

lemma balance_map_keys: "map fst (balance_map ls) = numbers_of ls"
proof -
  have "set (map fst (balance_map ls)) = line_number ` set ls"
  proof (rule set_eqI)
    fix n
    have "n \<in> set (map fst (balance_map ls)) \<longleftrightarrow> map_of (balance_map ls) n \<noteq> None"
      by (simp add: map_of_eq_None_iff)
    also have "\<dots> \<longleftrightarrow> n \<in> line_number ` set ls"
      unfolding balance_map_lookup by (auto simp: lines_on_def filter_empty_conv)
    finally show "n \<in> set (map fst (balance_map ls)) \<longleftrightarrow> n \<in> line_number ` set ls" .
  qed
  then show ?thesis
    using balance_map_sorted [of ls] unfolding numbers_of_def strict_sorted_def
    by (intro strict_sorted_equal) auto
qed

text \<open>The rows are the abstract rows of the account numbers, in order.\<close>

lemma balance_map_eq: "balance_map ls = map (\<lambda>n. (n, row_of (lines_on n ls))) (numbers_of ls)"
proof -
  have "x = (fst x, row_of (lines_on (fst x) ls))" if "x \<in> set (balance_map ls)" for x
  proof -
    have "map_of (balance_map ls) (fst x) = Some (snd x)"
      using that balance_map_sorted by (auto intro: map_of_is_SomeI simp: strict_sorted_distinct)
    then show ?thesis unfolding balance_map_lookup by (cases x) (auto split: if_splits)
  qed
  then have "balance_map ls = map (\<lambda>n. (n, row_of (lines_on n ls))) (map fst (balance_map ls))"
    by (simp add: list_eq_iff_nth_eq)
  then show ?thesis by (simp add: balance_map_keys)
qed

lemma rows_eq: "tb_rows (trial_balance_of l) =
    map (\<lambda>n. row_of (lines_on n (concat (map le_lines (l_entries l))))) (numbers_of (concat (map le_lines (l_entries l))))"
  by (simp add: trial_balance_of_def balance_map_eq Let_def)

lemma numbers_of [simp]: "distinct (numbers_of ls)" "set (numbers_of ls) = line_number ` set ls"
  by (simp_all add: numbers_of_def)

lemma row_number: "n \<in> line_number ` set ls \<Longrightarrow> acc_number (row_account (row_of (lines_on n ls))) = n"
proof -
  assume "n \<in> line_number ` set ls"
  then have "lines_on n ls \<noteq> []" by (auto simp: lines_on_def filter_empty_conv)
  then have "hd (lines_on n ls) \<in> set (lines_on n ls)" by simp
  then show ?thesis by (simp add: row_of_def lines_on_def line_number_def)
qed

text \<open>Any sum over the rows selected by account number is the sum over the lines so selected.\<close>

lemma rows_sum:
  fixes f :: "ledger_line \<Rightarrow> money"
  assumes "\<And>xs. g (row_of xs) = sum_list (map f xs)"
  shows "sum_list (map g (filter (\<lambda>r. P (acc_number (row_account r)))
            (map (\<lambda>n. row_of (lines_on n ls)) (numbers_of ls))))
       = sum_list (map f (filter (\<lambda>l. P (line_number l)) ls))"
proof -
  let ?g = "\<lambda>x. if P (line_number x) then f x else 0"
  have "sum_list (map g (filter (\<lambda>r. P (acc_number (row_account r)))
            (map (\<lambda>n. row_of (lines_on n ls)) (numbers_of ls))))
      = sum_list (map (\<lambda>n. sum_list (map ?g (filter (\<lambda>l. line_number l = n) ls))) (numbers_of ls))"
  proof -
    have "(if P (acc_number (row_account (row_of (lines_on n ls)))) then g (row_of (lines_on n ls)) else 0)
        = sum_list (map ?g (filter (\<lambda>l. line_number l = n) ls))" if "n \<in> set (numbers_of ls)" for n
    proof -
      have "sum_list (map ?g (lines_on n ls)) = (if P n then sum_list (map f (lines_on n ls)) else 0)"
        unfolding lines_on_def by (induction ls) auto
      then show ?thesis using that row_number [of n ls] assms by (simp add: lines_on_def)
    qed
    then show ?thesis
      by (simp add: sum_list_map_filter' filter_map o_def cong: map_cong)
         (intro arg_cong [of _ _ sum_list] map_cong, auto)
  qed
  also have "\<dots> = sum_list (map ?g ls)" by (rule sum_by_key) auto
  also have "\<dots> = sum_list (map f (filter (\<lambda>l. P (line_number l)) ls))"
    by (simp add: sum_list_map_filter')
  finally show ?thesis .
qed


section \<open>The balance sheet balances\<close>

definition row_slot :: "trial_balance_row \<Rightarrow> slot" where
  "row_slot r = classify (acc_number (row_account r)) (row_balance r)"

definition slot_sum :: "(slot \<Rightarrow> bool) \<Rightarrow> trial_balance_row list \<Rightarrow> money" where
  "slot_sum P rows = sum_list (map row_balance (filter (\<lambda>r. P (row_slot r)) rows))"

lemma slot_sum_simps [simp]:
  "slot_sum P [] = 0"
  "slot_sum P (r # rows) = (if P (row_slot r) then row_balance r else 0) + slot_sum P rows"
  by (simp_all add: slot_sum_def)

lemma unwrap_upd [simp]:
  "unwrap_or_zero (upd_entry k 0 (\<lambda>x. x + b) m k') = unwrap_or_zero (m k') + (if k' = k then b else 0)"
  by (auto simp: unwrap_or_zero_def plain.lookup_update split: option.split)

lemma sheet_fold:
  "unwrap_or_zero (st_gross (fold sheet_step rows s) a) = unwrap_or_zero (st_gross s a) + slot_sum (\<lambda>x. x = GrossSlot a) rows"
  "unwrap_or_zero (st_depreciation (fold sheet_step rows s) a) =
     unwrap_or_zero (st_depreciation s a) - slot_sum (\<lambda>x. x = DepreciationSlot a) rows"
  "unwrap_or_zero (st_liabilities (fold sheet_step rows s) r) =
     unwrap_or_zero (st_liabilities s r) - slot_sum (\<lambda>x. x = LiabilitySlot r) rows"
  by (induction rows arbitrary: s)
    (auto simp: sheet_step_def row_slot_def Let_def unwrap_upd [where b = "- _", simplified] split: slot.splits)

fun in_gross :: "slot \<Rightarrow> bool" where "in_gross (GrossSlot _) = True" | "in_gross _ = False"
fun in_depreciation :: "slot \<Rightarrow> bool" where "in_depreciation (DepreciationSlot _) = True" | "in_depreciation _ = False"
fun in_liability :: "slot \<Rightarrow> bool" where "in_liability (LiabilitySlot _) = True" | "in_liability _ = False"

lemma rubrics_complete:
  "distinct AssetRubric_ALL" "set AssetRubric_ALL = UNIV"
  "distinct LiabilityRubric_ALL" "set LiabilityRubric_ALL = UNIV"
  by (auto simp: AssetRubric_ALL_def LiabilityRubric_ALL_def intro: asset_rubric.exhaust liability_rubric.exhaust)

lemma indicator_sum:
  "distinct xs \<Longrightarrow> sum_list (map (\<lambda>a. if k = a then b else 0) xs) = (if k \<in> set xs then b else (0 :: money))"
  by (induction xs) auto

lemma sum_over_rubrics:
  "sum_list (map (\<lambda>a. slot_sum (\<lambda>x. x = GrossSlot a) rows) AssetRubric_ALL) = slot_sum in_gross rows"
  "sum_list (map (\<lambda>a. slot_sum (\<lambda>x. x = DepreciationSlot a) rows) AssetRubric_ALL) = slot_sum in_depreciation rows"
  "sum_list (map (\<lambda>r. slot_sum (\<lambda>x. x = LiabilitySlot r) rows) LiabilityRubric_ALL) = slot_sum in_liability rows"
proof -
  have "sum_list (map (\<lambda>a. if x = GrossSlot a then b else 0) AssetRubric_ALL) = (if in_gross x then b else 0)"
    "sum_list (map (\<lambda>a. if x = DepreciationSlot a then b else 0) AssetRubric_ALL) = (if in_depreciation x then b else 0)"
    "sum_list (map (\<lambda>r. if x = LiabilitySlot r then b else 0) LiabilityRubric_ALL) = (if in_liability x then b else 0)"
    for x and b :: money
    by (cases x; simp add: indicator_sum rubrics_complete)+
  then show "sum_list (map (\<lambda>a. slot_sum (\<lambda>x. x = GrossSlot a) rows) AssetRubric_ALL) = slot_sum in_gross rows"
    "sum_list (map (\<lambda>a. slot_sum (\<lambda>x. x = DepreciationSlot a) rows) AssetRubric_ALL) = slot_sum in_depreciation rows"
    "sum_list (map (\<lambda>r. slot_sum (\<lambda>x. x = LiabilitySlot r) rows) LiabilityRubric_ALL) = slot_sum in_liability rows"
    by (induction rows) (simp_all add: sum_list_addf)
qed

lemma slot_partition:
  "slot_sum in_gross rows + slot_sum in_depreciation rows + slot_sum in_liability rows
     + slot_sum (\<lambda>x. x = IncomeSlot) rows = sum_list (map row_balance rows)"
proof (induction rows)
  case (Cons r rows)
  then show ?case by (cases "row_slot r") auto
qed simp


lemma sum_parts: "sum_list (map f (filter P xs)) + sum_list (map f (filter (\<lambda>x. \<not> P x) xs)) = sum_list (map (f :: 'a \<Rightarrow> money) xs)"
  by (induction xs) auto

lemma sum_sections:
  "sum_list (map f (filter (\<lambda>l. s l = EquitySection) xs)) + sum_list (map f (filter (\<lambda>l. s l = ProvisionsSection) xs))
     + sum_list (map f (filter (\<lambda>l. s l = DebtsSection) xs)) = sum_list (map (f :: 'a \<Rightarrow> money) xs)"
proof (induction xs)
  case (Cons x xs)
  then show ?case by (cases "s x") auto
qed simp

lemma sheet_totals:
  fixes tb result
  defines "rows \<equiv> filter (\<lambda>r. row_balance r \<noteq> 0) (tb_rows tb)" and "b \<equiv> from_trial_balance tb result"
  shows "total_assets_gross b = slot_sum in_gross rows"
    and "total_depreciation b = - slot_sum in_depreciation rows"
    and "total_assets_net b = total_assets_gross b - total_depreciation b"
    and "total_liabilities b = result - slot_sum in_liability rows"
proof -
  let ?s0 = "\<lparr>st_gross = (\<lambda>_. None), st_depreciation = (\<lambda>_. None), st_liabilities = (\<lambda>_. None), st_shareholders = 0\<rparr>"
  let ?s = "fold sheet_step rows ?s0"
  have none [simp]: "unwrap_or_zero None = 0" by (simp add: unwrap_or_zero_def)
  have gross: "total_assets_gross b = sum_list (map (\<lambda>a. slot_sum (\<lambda>x. x = GrossSlot a) rows) AssetRubric_ALL)"
    unfolding b_def from_trial_balance_def Let_def rows_def [symmetric]
    by (simp add: o_def split_beta sheet_fold)
  then show "total_assets_gross b = slot_sum in_gross rows" by (simp add: sum_over_rubrics)
  have dep: "total_depreciation b = sum_list (map (\<lambda>a. - slot_sum (\<lambda>x. x = DepreciationSlot a) rows) AssetRubric_ALL)"
    unfolding b_def from_trial_balance_def Let_def rows_def [symmetric]
    by (simp add: o_def split_beta sheet_fold)
  then show "total_depreciation b = - slot_sum in_depreciation rows"
    by (simp add: uminus_sum_list_map [unfolded o_def, symmetric] sum_over_rubrics)
  have "total_assets_net b = fixed_assets_net b + current_assets_net b"
    "fixed_assets_net b = sum_list (map al_net (filter (\<lambda>a. is_fixed_asset (al_rubric a)) (bs_assets b)))"
    "current_assets_net b = sum_list (map al_net (filter (\<lambda>a. \<not> is_fixed_asset (al_rubric a)) (bs_assets b)))"
    by (simp_all add: b_def from_trial_balance_def Let_def)
  then have net: "total_assets_net b = sum_list (map al_net (bs_assets b))"
    by (simp add: sum_parts)
  have "bs_assets b = map (\<lambda>r. \<lparr>al_rubric = r, case_gross = fst (rubric_cases r), case_depreciation = snd (rubric_cases r),
      al_label = asset_rubric_label r, al_gross = unwrap_or_zero (st_gross ?s r),
      al_depreciation = unwrap_or_zero (st_depreciation ?s r),
      al_net = unwrap_or_zero (st_gross ?s r) - unwrap_or_zero (st_depreciation ?s r)\<rparr>) AssetRubric_ALL"
    "total_assets_gross b = sum_list (map al_gross (bs_assets b))"
    "total_depreciation b = sum_list (map al_depreciation (bs_assets b))"
    by (simp_all add: b_def from_trial_balance_def Let_def rows_def split_beta)
  then show "total_assets_net b = total_assets_gross b - total_depreciation b"
    unfolding net by (simp add: o_def sum_list_subtractf)
  have "total_liabilities b = sum_list (map li_amount (bs_liabilities b))"
    unfolding b_def from_trial_balance_def Let_def by (simp add: sum_sections)
  also have "\<dots> = sum_list (map (\<lambda>r. (if ResultRubric = r then result else 0)
      - slot_sum (\<lambda>x. x = LiabilitySlot r) rows) LiabilityRubric_ALL)"
    unfolding b_def from_trial_balance_def Let_def rows_def [symmetric]
    by (simp add: o_def sheet_fold eq_commute [of _ ResultRubric] cong: map_cong)
  also have "\<dots> = result - slot_sum in_liability rows"
    by (simp add: sum_list_subtractf indicator_sum rubrics_complete sum_over_rubrics)
  finally show "total_liabilities b = result - slot_sum in_liability rows" .
qed

definition income_number :: "string \<Rightarrow> bool" where
  "income_number n \<longleftrightarrow> n \<noteq> [] \<and> (hd n = CHR ''6'' \<or> hd n = CHR ''7'')"

lemma byte_digit: "(byte c + 256 - 48) mod 256 = k \<longleftrightarrow> byte c = 48 + k" if "k < 10"
proof (cases "48 \<le> byte c")
  case True
  moreover have "byte c < 256" by (simp add: byte_def)
  ultimately have "(byte c + 256 - 48) mod 256 = byte c - 48"
    by (metis add.commute add_diff_assoc2 less_imp_diff_less mod_add_self2 mod_less)
  then show ?thesis using True by auto
next
  case False
  then have "(byte c + 256 - 48) mod 256 = byte c + 208" by simp
  then show ?thesis using that False by auto
qed

lemma byte_67: "byte c = 54 \<longleftrightarrow> c = CHR ''6''" "byte c = 55 \<longleftrightarrow> c = CHR ''7''"
  unfolding byte_def using of_char_eq_iff [of c "CHR ''6''", where 'a = nat] of_char_eq_iff [of c "CHR ''7''", where 'a = nat]
  by simp_all

lemma class_of_Cons: "acc_number a = c # cs \<Longrightarrow> is_income_statement a \<longleftrightarrow> c = CHR ''6'' \<or> c = CHR ''7''"
  unfolding is_income_statement_def ledger_class_def
  using byte_digit [of 6 c] byte_digit [of 7 c] by (simp add: byte_67)

lemma is_income_number: "is_income_statement a \<longleftrightarrow> income_number (acc_number a)"
proof (cases "acc_number a")
  case Nil
  then show ?thesis by (simp add: is_income_statement_def ledger_class_def income_number_def)
next
  case (Cons c cs)
  then show ?thesis using class_of_Cons by (simp add: income_number_def)
qed

lemma not_income_slots:
  "classify_fixed_assets_and_stocks n \<noteq> IncomeSlot" "classify_third_parties n d \<noteq> IncomeSlot"
  unfolding classify_fixed_assets_and_stocks_def classify_third_parties_def Let_def by simp_all

lemma income_slot: "classify n m = IncomeSlot \<longleftrightarrow> income_number n"
proof (cases n)
  case (Cons c cs)
  show ?thesis
    unfolding classify_def Cons list.case Let_def income_number_def list.sel
    by (cases "c = CHR ''6'' \<or> c = CHR ''7''") (auto simp: not_income_slots simp del: take_Suc_Cons)
qed (simp add: classify_def income_number_def)

lemma nonzero_sum: "slot_sum P (filter (\<lambda>r. row_balance r \<noteq> 0) rows) = slot_sum P rows"
  by (induction rows) auto

lemma nonzero_total: "sum_list (map row_balance (filter (\<lambda>r. row_balance r \<noteq> 0) rows)) = sum_list (map row_balance rows)"
  by (induction rows) auto

lemma rows_balance:
  "sum_list (map row_balance (filter (\<lambda>r. P (acc_number (row_account r))) (tb_rows (trial_balance_of l))))
     = sum_on (\<lambda>a. P (acc_number a)) (l_entries l)"
  unfolding rows_eq sum_on_def line_number_def [symmetric]
  by (rule rows_sum) (simp add: row_of_def)

lemma rows_income: "slot_sum (\<lambda>x. x = IncomeSlot) (tb_rows (trial_balance_of l)) = - ledger_net_result l"
  using rows_balance [of income_number l]
  by (simp add: slot_sum_def row_slot_def income_slot ledger_net_result_def income_of_def is_income_number [abs_def])

lemma rows_total: "all_balanced (l_entries l) \<Longrightarrow> sum_list (map row_balance (tb_rows (trial_balance_of l))) = 0"
  using rows_balance [of "\<lambda>_. True" l] books.sound_zero [of "l_entries l"]
  by (simp add: sum_on_def all_balanced_def)

lemma sheet_balanced: "all_balanced (l_entries l) \<Longrightarrow> sheet_is_balanced (balance_sheet_of l)"
  using slot_partition [of "tb_rows (trial_balance_of l)"] rows_total [of l] rows_income [of l]
  by (simp add: sheet_is_balanced_def balance_sheet_of_def sheet_totals nonzero_sum)

section \<open>The opening lines of the next exercise\<close>

definition sum_rows :: "(string \<Rightarrow> bool) \<Rightarrow> trial_balance_row list \<Rightarrow> money" where
  "sum_rows P rows = sum_list (map row_balance (filter (\<lambda>r. P (acc_number (row_account r))) rows))"

definition is_retained :: "string \<Rightarrow> bool" where
  "is_retained n \<longleftrightarrow> starts_with n ''110'' \<or> starts_with n ''119''"

definition is_prior :: "string \<Rightarrow> bool" where
  "is_prior n \<longleftrightarrow> starts_with n ''120'' \<or> starts_with n ''129''"

definition carried :: "string \<Rightarrow> bool" where
  "carried n \<longleftrightarrow> \<not> income_number n \<and> \<not> is_retained n \<and> \<not> is_prior n"

lemma equity_not_income: "is_retained n \<Longrightarrow> \<not> income_number n" "is_prior n \<Longrightarrow> \<not> income_number n"
  "is_retained n \<Longrightarrow> \<not> is_prior n"
  by (cases n; auto simp: is_retained_def is_prior_def income_number_def)+

lemma closing_step:
  "closing_step r s =
     (if income_number (acc_number (row_account r)) \<or> row_balance r = 0 then s
      else if is_retained (acc_number (row_account r)) then s\<lparr>retained := retained s + row_balance r\<rparr>
      else if is_prior (acc_number (row_account r)) then s\<lparr>prior_result := prior_result s + row_balance r\<rparr>
      else s\<lparr>closing_lines := closing_lines s @ [line (row_account r) (row_balance r)]\<rparr>)"
  unfolding closing_step_def is_retained_def is_prior_def is_income_number Let_def by (rule refl)

lemma closing_fold:
  "retained (fold closing_step rows s) = retained s + sum_rows is_retained rows"
  "prior_result (fold closing_step rows s) = prior_result s + sum_rows is_prior rows"
  "closing_lines (fold closing_step rows s) = closing_lines s
     @ map (\<lambda>r. line (row_account r) (row_balance r))
         (filter (\<lambda>r. carried (acc_number (row_account r)) \<and> row_balance r \<noteq> 0) rows)"
  by (induction rows arbitrary: s)
    (auto simp: closing_step sum_rows_def carried_def dest: equity_not_income)

lemma sum_rows_balance: "sum_rows P (tb_rows (trial_balance_of l)) = sum_on (\<lambda>a. P (acc_number a)) (l_entries l)"
  unfolding sum_rows_def by (rule rows_balance)

lemma chart_kinds [simp]:
  "is_retained (acc_number RETAINED_CREDIT)" "is_retained (acc_number RETAINED_DEBIT)"
  "is_prior (acc_number (result_account m))"
  by (simp_all add: is_retained_def is_prior_def result_account_def chart_defs)

lemma opening_lines_of:
  "ol_lines (closing_opening_lines T l) =
     map (\<lambda>r. line (row_account r) (row_balance r))
       (filter (\<lambda>r. carried (acc_number (row_account r)) \<and> row_balance r \<noteq> 0) (tb_rows (trial_balance_of l)))
     @ (let m = sum_on (\<lambda>a. is_retained (acc_number a)) (l_entries l)
        in if m \<noteq> 0 then [line (if m < 0 then RETAINED_CREDIT else RETAINED_DEBIT) m] else [])
     @ (let m = sum_on (\<lambda>a. is_prior (acc_number a)) (l_entries l)
        in if m \<noteq> 0 then [line (result_account (- m)) m] else [])
     @ (let net = ledger_net_result l in if net \<noteq> 0 then [line (result_account net) (- net)] else [])"
  by (simp add: closing_opening_lines_def Let_def closing_fold sum_rows_balance)

lemma carried_sum:
  "sum_list (map row_balance (filter (\<lambda>r. P (acc_number (row_account r)) \<and> row_balance r \<noteq> 0) rows))
     = sum_rows P rows"
  unfolding sum_rows_def by (induction rows) auto

lemma sum_rows_split:
  "sum_rows carried rows + sum_rows is_retained rows + sum_rows is_prior rows + sum_rows income_number rows
     = sum_list (map row_balance rows)"
proof (induction rows)
  case (Cons r rows)
  then show ?case using equity_not_income [of "acc_number (row_account r)"] by (auto simp: sum_rows_def carried_def)
qed (simp add: sum_rows_def)

lemma closing_zero:
  assumes "all_balanced (l_entries l)"
  shows "sum_list (map ll_amount (ol_lines (closing_opening_lines T l))) = 0"
proof -
  let ?rows = "tb_rows (trial_balance_of l)"
  have "sum_list (map ll_amount (ol_lines (closing_opening_lines T l)))
      = sum_rows carried ?rows + sum_rows is_retained ?rows + sum_rows is_prior ?rows - ledger_net_result l"
    unfolding opening_lines_of sum_rows_balance [symmetric] by (simp add: Let_def o_def carried_sum)
  also have "\<dots> = sum_list (map row_balance ?rows) - sum_rows income_number ?rows - ledger_net_result l"
    using sum_rows_split [of ?rows] by simp
  also have "sum_rows income_number ?rows = - ledger_net_result l"
    unfolding sum_rows_balance by (simp add: ledger_net_result_def income_of_def is_income_number [abs_def])
  finally show ?thesis using rows_total [OF assms] by simp
qed

interpretation closings: double_entry "\<lambda>(T, l). ol_lines (closing_opening_lines T l)" ll_amount
    "\<lambda>(T, l). all_balanced (l_entries l)"
  by unfold_locales (auto simp: closing_zero)

lemma kept_sum: "carried n \<Longrightarrow>
   sum_list (map ll_amount (lines_on n (map (\<lambda>r. line (row_account r) (row_balance r))
     (filter (\<lambda>r. carried (acc_number (row_account r)) \<and> row_balance r \<noteq> 0) rows)))) = sum_rows (\<lambda>k. k = n) rows"
  unfolding lines_on_def sum_rows_def line_number_def by (induction rows) auto

lemma carried_not_retained: "carried n \<Longrightarrow> \<not> is_retained n \<and> \<not> is_prior n \<and> \<not> income_number n"
  by (simp add: carried_def)

section \<open>Properties\<close>

text \<open>C4: The trial balance has exactly one row per account number with lines, in the order of the numbers,
  with the sums of the debits, of the credits and of the amounts of those lines; and its totals are
  those of the ledger.\<close>

theorem trial_balance_refines_sums:
  "tb_rows (trial_balance_of l) =
     map (\<lambda>n. row_of (lines_on n (concat (map le_lines (l_entries l)))))
       (sorted_list_of_set (line_number ` set (concat (map le_lines (l_entries l)))))
   \<and> tb_total_debit (trial_balance_of l) = ledger_total_debit l
   \<and> tb_total_credit (trial_balance_of l) = ledger_total_credit l"
proof -
  let ?ls = "concat (map le_lines (l_entries l))"
  have "sum_list (map row_debit (tb_rows (trial_balance_of l))) = sum_list (map debit_of ?ls)"
    "sum_list (map row_credit (tb_rows (trial_balance_of l))) = sum_list (map credit_side ?ls)"
    unfolding rows_eq using rows_sum [of row_debit debit_of "\<lambda>_. True" ?ls] rows_sum [of row_credit credit_side "\<lambda>_. True" ?ls]
    by (simp_all add: row_of_def)
  moreover have "ledger_total_credit l = sum_list (map credit_side ?ls)"
    unfolding ledger_total_credit_def credit_side_def by (simp add: sum_list_map_filter')
  moreover have "sum_list (map entry_total_debit es) = sum_list (map debit_of (concat (map le_lines es)))" for es
    by (induction es) (simp_all add: entry_total_debit_def debit_of_def sum_list_map_filter' if_distrib [of "\<lambda>b. _ = b"]
        cong: if_cong, metis (mono_tags, lifting))
  moreover have "tb_total_debit (trial_balance_of l) = sum_list (map row_debit (tb_rows (trial_balance_of l)))"
    "tb_total_credit (trial_balance_of l) = sum_list (map row_credit (tb_rows (trial_balance_of l)))"
    by (simp_all add: trial_balance_of_def Let_def)
  ultimately show ?thesis by (simp only: rows_eq numbers_of_def ledger_total_debit_def)
qed

text \<open>C2: The balance sheet of a ledger of balanced entries balances: whatever the accounts and the signs of
  their balances, every account goes to exactly one rubric and net assets equal liabilities.\<close>

theorem balance_sheet_balances:
  assumes "list_all is_balanced (l_entries l)"
  shows "total_assets_net (balance_sheet_of l) = total_liabilities (balance_sheet_of l)
    \<and> total_assets_gross (balance_sheet_of l) - total_depreciation (balance_sheet_of l)
        = total_assets_net (balance_sheet_of l)"
  using sheet_balanced [of l] assms
  by (simp add: all_balanced_def sheet_is_balanced_def) (simp add: balance_sheet_of_def sheet_totals)

theorem balance_sheet_balances_witness:
  "\<exists>l. build gregorian (sample_facts [sample_sale]) = Some (Inr l)
     \<and> total_assets_net (balance_sheet_of l) = total_liabilities (balance_sheet_of l)"
proof -
  obtain l where l: "build gregorian (sample_facts [sample_sale]) = Some (Inr l)" using sample_built by blast
  from built_group(1) [OF l sample_sound] have "list_all is_balanced (l_entries l)" by (simp add: all_balanced_def)
  from balance_sheet_balances [OF this] l show ?thesis by blast
qed

text \<open>C5: The opening lines derived from a closed exercise balance, open no income account and no empty line,
  keep the balance of every other balance-sheet account, and show the retained earnings net on a
  single line.\<close>

theorem derived_opening_is_sound:
  assumes "list_all is_balanced (l_entries l)" "carried n"
  shows "sum_list (map ll_amount (ol_lines (closing_opening_lines T l))) = 0
    \<and> list_all (\<lambda>x. \<not> is_income_statement (ll_account x) \<and> ll_amount x \<noteq> 0) (ol_lines (closing_opening_lines T l))
    \<and> sum_list (map ll_amount (lines_on n (ol_lines (closing_opening_lines T l))))
        = sum_on (\<lambda>a. acc_number a = n) (l_entries l)
    \<and> length (filter (\<lambda>x. is_retained (line_number x)) (ol_lines (closing_opening_lines T l))) \<le> 1"
proof -
  let ?ls = "ol_lines (closing_opening_lines T l)" and ?rows = "tb_rows (trial_balance_of l)"
  let ?kept = "map (\<lambda>r. line (row_account r) (row_balance r))
       (filter (\<lambda>r. carried (acc_number (row_account r)) \<and> row_balance r \<noteq> 0) ?rows)"
  have zero: "sum_list (map ll_amount ?ls) = 0" using closing_zero assms(1) by (simp add: all_balanced_def)
  have other: "\<not> income_number (acc_number RETAINED_CREDIT)" "\<not> income_number (acc_number RETAINED_DEBIT)"
    "\<not> income_number (acc_number (result_account m))" for m
    using equity_not_income chart_kinds by blast+
  have no_income: "list_all (\<lambda>x. \<not> is_income_statement (ll_account x) \<and> ll_amount x \<noteq> 0) ?ls"
    unfolding opening_lines_of using other by (auto simp: Let_def list_all_iff is_income_number carried_def)
  have kept_none: "filter (\<lambda>x. is_retained (line_number x)) ?kept = []"
    by (auto simp: filter_empty_conv line_number_def carried_def)
  have "\<not> is_retained (acc_number (result_account m))" for m
    using equity_not_income(3) chart_kinds(3) by blast
  then have single: "length (filter (\<lambda>x. is_retained (line_number x)) ?ls) \<le> 1"
    unfolding opening_lines_of filter_append kept_none by (simp add: Let_def line_number_def)
  have ne: "acc_number RETAINED_CREDIT \<noteq> n" "acc_number RETAINED_DEBIT \<noteq> n" "acc_number (result_account m) \<noteq> n" for m
    using carried_not_retained [OF assms(2)] chart_kinds by auto
  have "sum_list (map ll_amount (lines_on n ?ls)) = sum_list (map ll_amount (lines_on n ?kept))"
    unfolding opening_lines_of lines_on_def using ne by (simp add: Let_def line_number_def)
  also have "\<dots> = sum_rows (\<lambda>k. k = n) ?rows"
    by (rule kept_sum [OF assms(2)])
  also have "\<dots> = sum_on (\<lambda>a. acc_number a = n) (l_entries l)" by (rule sum_rows_balance)
  finally show ?thesis using zero no_income single by blast
qed


theorem derived_opening_is_sound_witness:
  "\<exists>l. build gregorian (sample_facts [sample_sale]) = Some (Inr l)
     \<and> sum_list (map ll_amount (ol_lines (closing_opening_lines gregorian l))) = 0
     \<and> sum_list (map ll_amount (lines_on ''512000'' (ol_lines (closing_opening_lines gregorian l))))
         = sum_on (\<lambda>a. acc_number a = ''512000'') (l_entries l)"
proof -
  have n: "carried ''512000''" by (simp add: carried_def income_number_def is_retained_def is_prior_def)
  obtain l where l: "build gregorian (sample_facts [sample_sale]) = Some (Inr l)" using sample_built by blast
  from built_group(1) [OF l sample_sound] have "list_all is_balanced (l_entries l)" by (simp add: all_balanced_def)
  from derived_opening_is_sound [OF this n, of gregorian] l show ?thesis by blast
qed

end
