(* ===== verification/Chain.thy ===== *)
theory Chain
  imports Balance
begin

text \<open>
  The chain of exercises of \<open>ledger.rs\<close>: the ledger of an exercise opens on the stored opening
  balance, or else on the closing of the exercise before it, derived the same way. The recursion
  follows stored records, so it is a partial function: the outer \<open>None\<close> means that it does not
  return, the inner one is a panic, and \<open>chain_returns\<close> shows when it returns. What \<open>Loaded\<close>
  reads from the database is the record of the same name.
\<close>

section \<open>Definitions\<close>

record loaded =
  ld_profile :: company_profile
  ld_invoices :: "invoice list"
  ld_write_offs :: "invoice_write_off list"
  ld_clients :: "client list"
  ld_payments :: "payment list"
  ld_expenses :: "expense list"
  ld_assets :: "fixed_asset list"
  ld_bank_transactions :: "bank_transaction list"
  ld_posted :: "ledger_entry list"
  ld_opening :: "opening_balance option"
  ld_fiscal_years :: "fiscal_year_record list"

definition previous_record :: "time_api \<Rightarrow> loaded \<Rightarrow> fiscal_year \<Rightarrow> fiscal_year_record option" where
  "previous_record T ld ex = find (\<lambda>r. next_day T (ends_on r) = Some (fy_start ex)) (ld_fiscal_years ld)"

definition own_opening :: "loaded \<Rightarrow> fiscal_year \<Rightarrow> opening_balance option" where
  "own_opening ld ex =
     (case ld_opening ld of
        None \<Rightarrow> None | Some ob \<Rightarrow> if opens_on ob = fy_start ex then Some ob else None)"

text \<open>\<open>max_by_key\<close> keeps the last of the greatest elements.\<close>

definition max_by_key :: "('a \<Rightarrow> 'b::linorder) \<Rightarrow> 'a list \<Rightarrow> 'a option" where
  "max_by_key f xs = fold (\<lambda>x best. case best of None \<Rightarrow> Some x | Some b \<Rightarrow> if f b \<le> f x then Some x else Some b) xs None"

definition prior_losses_at :: "loaded \<Rightarrow> fiscal_year \<Rightarrow> money" where
  "prior_losses_at ld ex =
     (case max_by_key ends_on (filter (\<lambda>r. ends_on r < fy_start ex) (ld_fiscal_years ld)) of
        None \<Rightarrow> (case own_opening ld ex of None \<Rightarrow> 0 | Some ob \<Rightarrow> tax_losses ob)
      | Some r \<Rightarrow> losses_carried_forward r)"

fun position :: "('a \<Rightarrow> bool) \<Rightarrow> 'a list \<Rightarrow> nat option" where
  "position P [] = None"
| "position P (x # xs) = (if P x then Some 0 else map_option Suc (position P xs))"

definition chain_until :: "loaded \<Rightarrow> fiscal_year_record \<Rightarrow> fiscal_year_record list" where
  "chain_until ld previous =
     (let chain_end = (case position (\<lambda>r. fyr_id r = fyr_id previous) (ld_fiscal_years ld) of
                         None \<Rightarrow> 0 | Some i \<Rightarrow> i + 1)
      in take chain_end (ld_fiscal_years ld))"

definition facts_for ::
    "loaded \<Rightarrow> fiscal_year \<Rightarrow> opening_lines option \<Rightarrow> fiscal_year_record list \<Rightarrow> ledger_facts" where
  "facts_for ld ex opening apps =
     \<lparr>lf_profile = ld_profile ld, lf_exercise = ex, lf_invoices = ld_invoices ld,
      lf_write_offs = ld_write_offs ld, lf_clients = ld_clients ld, lf_payments = ld_payments ld,
      lf_expenses = ld_expenses ld, posted = ld_posted ld, lf_assets = ld_assets ld,
      lf_bank_transactions = ld_bank_transactions ld, lf_opening = opening,
      lf_snapshot = find (\<lambda>r. starts_on r = fy_start ex \<and> ends_on r = fy_end ex) (ld_fiscal_years ld),
      appropriations = apps, prior_losses = prior_losses_at ld ex\<rparr>"

partial_function (option) loaded_ledger ::
    "time_api \<Rightarrow> loaded \<Rightarrow> fiscal_year \<Rightarrow> (ledger_error + ledger) option option" where
  "loaded_ledger T ld ex =
     (case own_opening ld ex of
        Some ob \<Rightarrow>
          Some (do { ol \<leftarrow> from_opening_balance ob; build T (facts_for ld ex (Some ol) []) })
      | None \<Rightarrow>
          (case previous_record T ld ex of
             None \<Rightarrow> Some (build T (facts_for ld ex None []))
           | Some previous \<Rightarrow>
               do { r \<leftarrow> loaded_ledger T ld (fyr_period previous);
                    case r of
                      None \<Rightarrow> Some None
                    | Some (Inl e) \<Rightarrow> Some (Some (Inl e))
                    | Some (Inr l) \<Rightarrow>
                        Some (build T (facts_for ld ex (Some (closing_opening_lines T l))
                          (chain_until ld previous))) }))"

declare loaded_ledger.simps [code]

text \<open>The query behind \<open>fiscal_year_ending_in\<close>: the last record whose end falls in the year.\<close>

definition fiscal_year_ending_in :: "fiscal_year_record list \<Rightarrow> int \<Rightarrow> fiscal_year_record option" where
  "fiscal_year_ending_in rs year = max_by_key ends_on (filter (\<lambda>r. dyear (ends_on r) = year) rs)"

definition exercise_ending_in ::
    "time_api \<Rightarrow> fiscal_year_record list \<Rightarrow> company_profile \<Rightarrow> int \<Rightarrow> fiscal_year option" where
  "exercise_ending_in T rs profile year =
     (case fiscal_year_ending_in rs year of
        Some r \<Rightarrow> Some (fyr_period r)
      | None \<Rightarrow>
          (let fye = (case fiscal_year_end_of profile of None \<Rightarrow> fye_CALENDAR | Some e \<Rightarrow> e)
           in do { on \<leftarrow> end_in_year T fye year; containing T fye on }))"

definition ledger_ending_in ::
    "time_api \<Rightarrow> loaded \<Rightarrow> int \<Rightarrow> (ledger_error + ledger) option option" where
  "ledger_ending_in T ld year =
     (case exercise_ending_in T (ld_fiscal_years ld) (ld_profile ld) year of
        None \<Rightarrow> Some None
      | Some ex \<Rightarrow> loaded_ledger T ld ex)"

section \<open>The recursion returns\<close>

definition ordered_records :: "loaded \<Rightarrow> bool" where
  "ordered_records ld \<longleftrightarrow> list_all (\<lambda>r. valid_date (ends_on r) \<and> starts_on r \<le> ends_on r) (ld_fiscal_years ld)"

context time_crate
begin

lemma next_day_greater: "valid_date d \<Longrightarrow> next_day T d = Some e \<Longrightarrow> d < e"
  using next_day succ_date_greater by (auto split: if_splits)

lemma previous_before:
  assumes "ordered_records ld" "previous_record T ld ex = Some r"
  shows "r \<in> set (ld_fiscal_years ld) \<and> ends_on r < fy_start ex \<and> starts_on r \<le> ends_on r"
proof -
  have r: "r \<in> set (ld_fiscal_years ld)" "next_day T (ends_on r) = Some (fy_start ex)"
    using assms(2) by (auto simp: previous_record_def find_Some_iff)
  with assms(1) have "valid_date (ends_on r)" "starts_on r \<le> ends_on r"
    by (auto simp: ordered_records_def list_all_iff)
  with r next_day_greater show ?thesis by blast
qed

text \<open>Each step of the recursion leaves fewer records before the exercise.\<close>

lemma loaded_ledger_returns:
  assumes "ordered_records ld"
  shows "\<exists>r. loaded_ledger T ld ex = Some r"
proof (induction "card {r \<in> set (ld_fiscal_years ld). ends_on r < fy_start ex}" arbitrary: ex rule: less_induct)
  case less
  show ?case
  proof (cases "own_opening ld ex")
    case None
    show ?thesis
    proof (cases "previous_record T ld ex")
      case (Some r)
      have r: "r \<in> set (ld_fiscal_years ld)" "ends_on r < fy_start ex" "starts_on r \<le> ends_on r"
        using previous_before [OF assms Some] by auto
      have start: "fy_start (fyr_period r) = starts_on r" by (simp add: fyr_period_def fiscal_year_new_def)
      have "{q \<in> set (ld_fiscal_years ld). ends_on q < fy_start (fyr_period r)}
          \<subset> {q \<in> set (ld_fiscal_years ld). ends_on q < fy_start ex}"
      proof (rule psubsetI)
        show "{q \<in> set (ld_fiscal_years ld). ends_on q < fy_start (fyr_period r)}
            \<subseteq> {q \<in> set (ld_fiscal_years ld). ends_on q < fy_start ex}"
          using r by (auto simp: start)
        have "r \<in> {q \<in> set (ld_fiscal_years ld). ends_on q < fy_start ex}"
          "r \<notin> {q \<in> set (ld_fiscal_years ld). ends_on q < fy_start (fyr_period r)}"
          using r by (simp_all add: start)
        then show "{q \<in> set (ld_fiscal_years ld). ends_on q < fy_start (fyr_period r)}
            \<noteq> {q \<in> set (ld_fiscal_years ld). ends_on q < fy_start ex}" by blast
      qed
      then have "card {q \<in> set (ld_fiscal_years ld). ends_on q < fy_start (fyr_period r)}
          < card {q \<in> set (ld_fiscal_years ld). ends_on q < fy_start ex}"
        by (intro psubset_card_mono) auto
      from less [OF this] obtain x where "loaded_ledger T ld (fyr_period r) = Some x" by blast
      then show ?thesis
        using None Some by (subst loaded_ledger.simps) (simp split: option.split sum.split)
    qed (use None in \<open>subst loaded_ledger.simps, simp\<close>)
  qed (subst loaded_ledger.simps, simp)
qed

end

section \<open>Every ledger of the chain balances\<close>

definition sound_loaded :: "loaded \<Rightarrow> bool" where
  "sound_loaded ld \<longleftrightarrow> list_all is_balanced (ld_posted ld)
     \<and> list_all (\<lambda>w. wo_ttc w = wo_ht w + wo_vat w) (ld_write_offs ld)
     \<and> (case ld_opening ld of None \<Rightarrow> True | Some ob \<Rightarrow> opening_validate ob = Inr ())"

lemma opening_sum_zero:
  assumes "from_opening_balance ob = Some ol" "opening_validate ob = Inr ()"
  shows "sum_list (map ll_amount (ol_lines ol)) = 0"
  using from_opening_balance_total [of ob] opening_balances.sound_zero [OF assms(2)] assms(1) by auto

lemma facts_for_sound:
  "sound_loaded ld \<Longrightarrow> (case o1 of None \<Rightarrow> True | Some ol \<Rightarrow> sum_list (map ll_amount (ol_lines ol)) = 0) \<Longrightarrow>
     sound_facts (facts_for ld ex o1 apps)"
  by (simp add: sound_loaded_def sound_facts_def facts_for_def)

lemma chain_balanced:
  "loaded_ledger T ld ex = Some x \<Longrightarrow> sound_loaded ld \<Longrightarrow> x = Some (Inr l) \<Longrightarrow> all_balanced (l_entries l)"
proof (induction arbitrary: l rule: loaded_ledger.raw_induct [rotated, consumes 1])
  case (1 chain T ld ex x)
  show ?case
  proof (cases "own_opening ld ex")
    case (Some ob)
    then have "opening_validate ob = Inr ()" using 1(3) by (auto simp: own_opening_def sound_loaded_def split: option.splits if_splits)
    moreover obtain ol where "from_opening_balance ob = Some ol" "build T (facts_for ld ex (Some ol) []) = Some (Inr l)"
      using 1(2,4) Some by (auto split: bind_splits)
    ultimately show ?thesis
      using facts_for_sound [OF 1(3), of "Some ol"] opening_sum_zero built_group(1) by fastforce
  next
    case None
    show ?thesis
    proof (cases "previous_record T ld ex")
      case no_previous: None
      then show ?thesis using 1(2-4) None facts_for_sound [OF 1(3), of None] built_group(1) by auto
    next
      case (Some r)
      then obtain l0 where "chain T ld (fyr_period r) = Some (Some (Inr l0))"
        "build T (facts_for ld ex (Some (closing_opening_lines T l0)) (chain_until ld r)) = Some (Inr l)"
        using 1(2,4) None by (auto split: bind_splits option.splits sum.splits)
      moreover from this(1) have "all_balanced (l_entries l0)" using 1(1,3) by blast
      ultimately show ?thesis
        using facts_for_sound [OF 1(3), of "Some (closing_opening_lines T l0)"] closing_zero built_group(1) by auto
    qed
  qed
qed

section \<open>The exercise of a year\<close>

lemma max_by_key_in: "max_by_key f xs = Some x \<Longrightarrow> x \<in> set xs"
proof -
  have "fold (\<lambda>x best. case best of None \<Rightarrow> Some x | Some b \<Rightarrow> if f b \<le> f x then Some x else Some b) xs b = Some x
      \<Longrightarrow> x \<in> set xs \<or> b = Some x" for b
    by (induction xs arbitrary: b) (auto split: option.splits if_splits)
  then show "max_by_key f xs = Some x \<Longrightarrow> x \<in> set xs" unfolding max_by_key_def by blast
qed

context time_crate
begin

lemma exercise_ends_in:
  assumes "- 9998 \<le> y" "y \<le> 9997" "case fiscal_year_end_of p of None \<Rightarrow> True | Some e \<Rightarrow> valid_fye e"
    and ex: "exercise_ending_in T rs p y = Some ex"
  shows "dyear (fy_end ex) = y"
proof (cases "fiscal_year_ending_in rs y")
  case (Some r)
  then show ?thesis
    using ex by (auto simp: exercise_ending_in_def fiscal_year_ending_in_def fyr_period_def fiscal_year_new_def
        dest!: max_by_key_in)
next
  case None
  define fye where "fye = (case fiscal_year_end_of p of None \<Rightarrow> fye_CALENDAR | Some e \<Rightarrow> e)"
  have fye: "valid_fye fye"
    using assms(3) by (auto simp: fye_def fye_CALENDAR_def valid_fye_def split: option.splits)
  let ?d = "closing_date fye y"
  have year: "dyear ?d = y" by (simp add: closing_date_def)
  have "containing T fye ?d = Some ex"
    using ex None end_in_year_eq [OF fye, of y] assms(1,2)
    by (simp add: exercise_ending_in_def Let_def fye_def [symmetric])
  with containing_eq [OF fye valid_closing_date [OF fye]] assms(1,2) year
  show ?thesis by (auto simp: fiscal_year_new_def)
qed

end

section \<open>Properties\<close>

definition sample_record :: fiscal_year_record where
  "sample_record =
     \<lparr>fyr_id = ''y1'', starts_on = Date 2025 1 1, ends_on = Date 2025 12 31, fyr_revenue_ht = 0,
      fyr_expenses = 0, fyr_director_remuneration = 0, fyr_depreciation = 0, fyr_result_before_tax = 0,
      fyr_losses_imputed = 0, fyr_corporate_tax = 0, fyr_carried_back = 0, fyr_carry_back_credit = 0,
      fyr_net_result = 0, fyr_legal_reserve = 0, fyr_dividends = 0, fyr_retained_earnings = 0,
      fyr_non_deductible_expenses = 0, losses_carried_forward = 0, approved_on = None,
      fyr_revision = 1, fyr_created_at = 0\<rparr>"

definition sample_loaded :: loaded where
  "sample_loaded =
     \<lparr>ld_profile = sample_profile, ld_invoices = [], ld_write_offs = [], ld_clients = [], ld_payments = [],
      ld_expenses = [], ld_assets = [], ld_bank_transactions = [], ld_posted = [sample_sale],
      ld_opening = Some (sample_opening\<lparr>opens_on := Date 2025 1 1\<rparr>), ld_fiscal_years = [sample_record]\<rparr>"

definition exercise_2026 :: fiscal_year where
  "exercise_2026 = fiscal_year_new (Date 2026 1 1) (Date 2026 12 31)"

lemma sample_chain: "\<exists>l. loaded_ledger gregorian sample_loaded exercise_2026 = Some (Some (Inr l))"
proof -
  have "case loaded_ledger gregorian sample_loaded exercise_2026 of Some (Some (Inr l)) \<Rightarrow> True | _ \<Rightarrow> False"
    by code_simp
  then show ?thesis by (auto split: option.splits sum.splits)
qed

text \<open>C3: The derivation of a ledger from the stored facts returns, however many closed exercises it has to
  go back through: with records that end no earlier than they start, each step back leaves fewer
  records before the exercise.\<close>

theorem chain_returns:
  assumes "time_crate T" "ordered_records ld"
  shows "\<exists>r. loaded_ledger T ld ex = Some r"
  by (rule time_crate.loaded_ledger_returns [OF assms])

theorem chain_returns_witness: "\<exists>r. loaded_ledger gregorian sample_loaded exercise_2026 = Some r"
proof (rule chain_returns)
  show "time_crate gregorian" by unfold_locales
  show "ordered_records sample_loaded" by code_simp
qed

text \<open>C1: Every ledger the application derives, through the whole chain of its exercises, is in balance and
  so is its balance sheet: balanced kept entries and a validated opening balance are enough.\<close>

theorem every_ledger_balances:
  assumes "loaded_ledger T ld ex = Some (Some (Inr l))" "sound_loaded ld"
  shows "list_all is_balanced (l_entries l) \<and> ledger_total_debit l = ledger_total_credit l
    \<and> sheet_is_balanced (balance_sheet_of l)"
  using chain_balanced [OF assms refl] totals_of_balanced sheet_balanced by (auto simp: all_balanced_def)

theorem every_ledger_balances_witness:
  "\<exists>l. loaded_ledger gregorian sample_loaded exercise_2026 = Some (Some (Inr l)) \<and> sheet_is_balanced (balance_sheet_of l)"
proof -
  have "sound_loaded sample_loaded" by code_simp
  with sample_chain every_ledger_balances show ?thesis by blast
qed

text \<open>The exercise a year designates ends in that year, whether it is a closed exercise of the records
  or follows from the closing date of the profile.\<close>

lemma designated_exercise_ends_in_year:
  assumes "time_crate T" "- 9998 \<le> y" "y \<le> 9997"
    and "case fiscal_year_end_of p of None \<Rightarrow> True | Some e \<Rightarrow> valid_fye e"
    and "exercise_ending_in T rs p y = Some ex"
  shows "dyear (fy_end ex) = y"
  by (rule time_crate.exercise_ends_in [OF assms])

end
