(* ===== verification/Fec.thy ===== *)
theory Fec
  imports Chain
begin

text \<open>
  \<open>fec/mod.rs\<close>: the text of the accounting entries file (FEC) of an exercise, eighteen fields a
  line. The contents of the file are the UTF-8 bytes of a string, as every text of the model.
\<close>

section \<open>Definitions\<close>

definition SEPARATOR :: char where
  "SEPARATOR = CHR 0x7C"

definition HEADER :: "string list" where
  "HEADER =
     [''JournalCode'', ''JournalLib'', ''EcritureNum'', ''EcritureDate'', ''CompteNum'', ''CompteLib'',
      ''CompAuxNum'', ''CompAuxLib'', ''PieceRef'', ''PieceDate'', ''EcritureLib'', ''Debit'', ''Credit'',
      ''EcritureLet'', ''DateLet'', ''ValidDate'', ''Montantdevise'', ''Idevise'']"

record fec =
  fec_siren :: siren
  fec_exercise :: fiscal_year
  fec_entries :: "ledger_entry list"

record fec_summary =
  sum_file_name :: string
  sum_siren :: siren
  sum_starts_on :: date
  sum_ends_on :: date
  sum_entries :: nat
  sum_lines :: nat
  sum_total_debit_cents :: int
  sum_total_credit_cents :: int

definition from_ledger :: "siren \<Rightarrow> ledger \<Rightarrow> fec" where
  "from_ledger s l = \<lparr>fec_siren = s, fec_exercise = l_exercise l, fec_entries = l_entries l\<rparr>"

text \<open>The pure construction from facts; an outer \<open>None\<close> is a panic.\<close>

definition fec_build ::
    "time_api \<Rightarrow> company_profile \<Rightarrow> fiscal_year \<Rightarrow> invoice list \<Rightarrow> client list \<Rightarrow> payment list \<Rightarrow> expense list
       \<Rightarrow> opening_balance option \<Rightarrow> (ledger_error + fec) option" where
  "fec_build T profile ex invs cls ps exps opening =
     do { booked \<leftarrow> book_service_activity invs cls ps;
          ol \<leftarrow> (case opening of
                   None \<Rightarrow> Some None
                 | Some ob \<Rightarrow> if opens_on ob = fy_start ex then map_option Some (from_opening_balance ob) else Some None);
          r \<leftarrow> build T \<lparr>lf_profile = profile, lf_exercise = ex, lf_invoices = invs, lf_write_offs = [],
                        lf_clients = cls, lf_payments = ps, lf_expenses = exps, posted = booked,
                        lf_assets = [], lf_bank_transactions = [], lf_opening = ol, lf_snapshot = None,
                        appropriations = [], prior_losses = 0\<rparr>;
          Some (case r of Inl e \<Rightarrow> Inl e | Inr l \<Rightarrow> Inr (from_ledger (cp_siren profile) l)) }"

definition compact_date :: "date \<Rightarrow> string" where
  "compact_date d = pad_int 4 (dyear d) @ show_2 (dmonth d) @ show_2 (dday d)"

definition decimal_comma :: "money \<Rightarrow> string" where
  "decimal_comma m = map (\<lambda>c. if c = CHR ''.'' then CHR '','' else c) (to_decimal_string m)"

definition sanitize :: "string \<Rightarrow> string" where
  "sanitize field =
     trim (map (\<lambda>c. if c = SEPARATOR \<or> c = CHR 0x09 \<or> c = CHR 0x0D \<or> c = CHR 0x0A then CHR '' '' else c) field)"

fun join :: "char \<Rightarrow> string list \<Rightarrow> string" where
  "join c [] = []"
| "join c [s] = s"
| "join c (s # t # ss) = s @ c # join c (t # ss)"

definition push_record :: "string \<Rightarrow> string list \<Rightarrow> string" where
  "push_record out fs = out @ join SEPARATOR (map sanitize fs) @ [CHR 0x0A]"

definition file_name :: "fec \<Rightarrow> string" where
  "file_name f = display_siren (fec_siren f) @ ''FEC'' @ compact_date (fy_end (fec_exercise f)) @ ''.txt''"

definition fec_total_debit :: "fec \<Rightarrow> money" where
  "fec_total_debit f = sum_list (map entry_total_debit (fec_entries f))"

definition fec_total_credit :: "fec \<Rightarrow> money" where
  "fec_total_credit f =
     sum_list (map (\<lambda>x. - ll_amount x) (filter (\<lambda>x. ll_amount x < 0) (concat (map le_lines (fec_entries f)))))"

definition summary :: "fec \<Rightarrow> fec_summary" where
  "summary f =
     \<lparr>sum_file_name = file_name f, sum_siren = fec_siren f, sum_starts_on = fy_start (fec_exercise f),
      sum_ends_on = fy_end (fec_exercise f), sum_entries = length (fec_entries f),
      sum_lines = sum_list (map (\<lambda>e. length (le_lines e)) (fec_entries f)),
      sum_total_debit_cents = fec_total_debit f, sum_total_credit_cents = fec_total_credit f\<rparr>"

definition line_fields :: "ledger_entry \<Rightarrow> ledger_line \<Rightarrow> string list" where
  "line_fields e l =
     (let date = compact_date (le_date e);
          (debit, credit) = (if ll_amount l < 0 then (0, - ll_amount l) else (ll_amount l, 0));
          (aux_num, aux_lib) = (case ll_aux l of None \<Rightarrow> ([], []) | Some a \<Rightarrow> (aux_number a, aux_label a));
          lib = (case line_label l of None \<Rightarrow> le_label e | Some t \<Rightarrow> t)
      in [journal_code (le_journal e), journal_label (le_journal e), show_nat (le_number e), date,
          acc_number (ll_account l), acc_label (ll_account l), aux_num, aux_lib, piece_ref e,
          compact_date (piece_date e), lib, decimal_comma debit, decimal_comma credit, [], [], date, [], []])"

definition render :: "fec \<Rightarrow> string" where
  "render f =
     fold (\<lambda>e. fold (\<lambda>l out. push_record out (line_fields e l)) (le_lines e)) (fec_entries f)
       (push_record [] HEADER)"

definition build_fec :: "time_api \<Rightarrow> loaded \<Rightarrow> int \<Rightarrow> (ledger_error + fec) option option" where
  "build_fec T ld year =
     map_option (map_option (\<lambda>r. case r of Inl e \<Rightarrow> Inl e | Inr l \<Rightarrow> Inr (from_ledger (cp_siren (ld_profile ld)) l)))
       (ledger_ending_in T ld year)"

section \<open>The records of the file\<close>

definition records_of :: "fec \<Rightarrow> string list list" where
  "records_of f = map sanitize HEADER
     # concat (map (\<lambda>e. map (\<lambda>l. map sanitize (line_fields e l)) (le_lines e)) (fec_entries f))"

definition record_text :: "string list \<Rightarrow> string" where
  "record_text fs = join SEPARATOR fs @ [CHR 0x0A]"

lemma render_records: "render f = concat (map record_text (records_of f))"
proof -
  have line: "fold (\<lambda>l out. push_record out (line_fields e l)) ls out
      = out @ concat (map (\<lambda>l. record_text (map sanitize (line_fields e l))) ls)" for e ls out
    by (induction ls arbitrary: out) (simp_all add: push_record_def record_text_def)
  have "fold (\<lambda>e. fold (\<lambda>l out. push_record out (line_fields e l)) (le_lines e)) es out
      = out @ concat (map record_text (concat (map (\<lambda>e. map (\<lambda>l. map sanitize (line_fields e l)) (le_lines e)) es)))"
    for es out
    by (induction es arbitrary: out) (simp_all add: line o_def)
  then show ?thesis by (simp add: render_def records_of_def push_record_def record_text_def)
qed

text \<open>A sanitized field holds neither a separator nor an end of line, and is trimmed.\<close>

lemma trim_subset: "set (trim s) \<subseteq> set s"
proof -
  have "set (trim_fuel k ws s) \<subseteq> set s" for k ws s
    using trim_fuel_suffix [of k ws s] by (metis set_drop_subset)
  from this [of "length (trim_start s)" "map rev white_space" "rev (trim_start s)"]
       this [of "length s" white_space s]
  show ?thesis by (auto simp: trim_def trim_end_def trim_start_def)
qed

lemma sanitize_clean: "c \<in> set (sanitize s) \<Longrightarrow> c \<noteq> SEPARATOR \<and> c \<noteq> CHR 0x09 \<and> c \<noteq> CHR 0x0D \<and> c \<noteq> CHR 0x0A"
  unfolding sanitize_def using trim_subset by (fastforce simp: SEPARATOR_def)

lemma trim_sanitize [simp]: "trim (sanitize s) = sanitize s"
  by (simp add: sanitize_def)

text \<open>Splitting at a separator undoes joining.\<close>

fun split_on :: "char \<Rightarrow> string \<Rightarrow> string list" where
  "split_on c [] = [[]]"
| "split_on c (x # xs) =
     (if x = c then [] # split_on c xs
      else case split_on c xs of [] \<Rightarrow> [[x]] | s # ss \<Rightarrow> (x # s) # ss)"

lemma split_on_nonempty [simp]: "split_on c s \<noteq> []"
  by (induction s) (auto split: list.splits)

lemma split_on_plain: "c \<notin> set s \<Longrightarrow> split_on c s = [s]"
  by (induction s) auto

lemma split_on_append: "c \<notin> set s \<Longrightarrow> split_on c (s @ c # t) = s # split_on c t"
  by (induction s) auto

lemma split_on_join:
  "ss \<noteq> [] \<Longrightarrow> \<forall>s \<in> set ss. c \<notin> set s \<Longrightarrow> split_on c (join c ss) = ss"
  by (induction c ss rule: join.induct) (auto simp: split_on_plain split_on_append)

lemma set_join: "set (join c ss) \<subseteq> insert c (\<Union>s \<in> set ss. set s)"
  by (induction c ss rule: join.induct) auto

end
