(* ===== verification/Fec_Check.thy ===== *)
theory Fec_Check
  imports Fec Quotes
begin

text \<open>
  \<open>fec/check.rs\<close>: the structural check of an accounting entries file. The model starts from the
  decoded text and the name of its encoding (decoding bytes that are not UTF-8 is a library); the
  loop over the records is a fold over its mutable locals. The \<open>i64\<close> totals saturate.
\<close>

section \<open>Definitions\<close>

definition DISCLAIMER :: string where
  "DISCLAIMER = (''La conformit'' @ e_acute @ '' structurelle du FEC ne pr'' @ e_acute @ ''sage pas de la r'' @ e_acute @ ''gularit'' @ e_acute @ '' de la comptabilit'' @ e_acute @ '', ni de sa valeur probante.'')"

definition REQUIRED :: "string list" where
  "REQUIRED =
     [''JournalCode'', ''JournalLib'', ''EcritureNum'', ''EcritureDate'', ''CompteNum'', ''CompteLib'',
      ''PieceRef'', ''PieceDate'', ''EcritureLib'', ''ValidDate'']"

datatype fec_severity = Error | Warning

record fec_finding =
  severity :: fec_severity
  finding_line :: "nat option"
  finding_column :: "string option"
  message :: string

record fec_check =
  check_file_name :: "string option"
  encoding :: string
  separator :: string
  lines :: nat
  check_total_debit :: int
  check_total_credit :: int
  conformant :: bool
  error_count :: nat
  warning_count :: nat
  findings :: "fec_finding list"
  disclaimer :: string

definition is_conformant :: "fec_check \<Rightarrow> bool" where
  "is_conformant c = conformant c"

record entry_agg =
  first_line :: nat
  agg_journal :: string
  agg_number :: string
  agg_debit :: int
  agg_credit :: int
  agg_dates :: "string list"

definition finish ::
    "string option \<Rightarrow> string \<Rightarrow> string \<Rightarrow> nat \<Rightarrow> int \<Rightarrow> int \<Rightarrow> fec_finding list \<Rightarrow> fec_check" where
  "finish name enc sep n debit credit fnd =
     (let errors = length (filter (\<lambda>f. severity f = Error) fnd);
          warnings = length (filter (\<lambda>f. severity f = Warning) fnd)
      in \<lparr>check_file_name = name, encoding = enc, separator = sep, lines = n,
          check_total_debit = debit, check_total_credit = credit,
          conformant = (errors = 0 \<and> 0 < n), error_count = errors, warning_count = warnings,
          findings = fnd, disclaimer = DISCLAIMER\<rparr>)"

definition finding :: "fec_severity \<Rightarrow> nat option \<Rightarrow> string option \<Rightarrow> string \<Rightarrow> fec_finding" where
  "finding s l c m = \<lparr>severity = s, finding_line = l, finding_column = c, message = m\<rparr>"

definition file_error :: "string \<Rightarrow> fec_finding" where
  "file_error m = finding Error None None m"

datatype date_parse = DateOk date | OutOfRange | InvalidDate

text \<open>The defaults \<open>unwrap_or(0)\<close> are not reached: every group holds digits only.\<close>

definition parse_fec_date :: "time_api \<Rightarrow> string \<Rightarrow> date_parse" where
  "parse_fec_date T raw =
     (let ds = filter is_ascii_digit (trim raw)
      in if length ds < 8 then InvalidDate
         else let ymd8 = take 8 ds;
                  y = nat_of_digits (take 4 ymd8);
                  m = nat_of_digits (take 2 (drop 4 ymd8));
                  d = nat_of_digits (take 2 (drop 6 ymd8));
                  (year, month, day) =
                    (if 1900 \<le> y then (y, m, d)
                     else (nat_of_digits (take 4 (drop 4 ymd8)), nat_of_digits (take 2 (drop 2 ymd8)),
                           nat_of_digits (take 2 ymd8)))
              in if \<not> (1900 \<le> year \<and> year \<le> 2099) then OutOfRange
                 else if month = 0 \<or> 12 < month then InvalidDate
                 else case from_calendar_date T (int year) month day of
                        None \<Rightarrow> InvalidDate | Some x \<Rightarrow> DateOk x)"

definition strip_suffix :: "string \<Rightarrow> string \<Rightarrow> string option" where
  "strip_suffix s p = (if starts_with (rev s) (rev p) then Some (take (length s - length p) s) else None)"

fun split_once_text :: "string \<Rightarrow> string \<Rightarrow> (string \<times> string) option" where
  "split_once_text p [] = (if p = [] then Some ([], []) else None)"
| "split_once_text p (x # xs) =
     (if starts_with (x # xs) p then Some ([], drop (length p) (x # xs))
      else map_option (\<lambda>(a, b). (x # a, b)) (split_once_text p xs))"

definition or_else :: "'a option \<Rightarrow> 'a option \<Rightarrow> 'a option" where
  "or_else x y = (case x of None \<Rightarrow> y | Some _ \<Rightarrow> x)"

definition check_name :: "time_api \<Rightarrow> string \<Rightarrow> fec_finding list" where
  "check_name T name =
     (let stem = (case or_else (strip_suffix name ''.txt'') (strip_suffix name ''.TXT'') of
                    None \<Rightarrow> name | Some s \<Rightarrow> s);
          valid = (case or_else (split_once_text ''FEC'' stem) (split_once_text ''fec'' stem) of
                     Some (s, d) \<Rightarrow> length s = 9 \<and> list_all is_ascii_digit s \<and> length d = 8
                       \<and> (case parse_fec_date T d of DateOk _ \<Rightarrow> True | _ \<Rightarrow> False)
                   | None \<Rightarrow> False)
      in if valid then []
         else [file_error (''nom de fichier incorrect ('' @ name
                @ ('') '' @ em_dash @ '' attendu SIREN(9)FEC + AAAAMMJJ, ex. 552100554FEC20261231.txt''))])"

definition starts_with_three_digits :: "string \<Rightarrow> bool" where
  "starts_with_three_digits s \<longleftrightarrow>
     (let cs = chars s
      in 3 \<le> length cs \<and> list_all (\<lambda>c. case c of [b] \<Rightarrow> is_ascii_digit b | _ \<Rightarrow> False) (take 3 cs))"

definition split_record :: "string \<Rightarrow> char \<Rightarrow> string list" where
  "split_record s sep = map trim (split_on sep s)"

text \<open>\<open>max_by_key\<close> over the separators that split the header, the last of the best.\<close>

definition detect_separator :: "string \<Rightarrow> (char \<times> string) option" where
  "detect_separator header =
     (let ranked = [(SEPARATOR, [SEPARATOR]), (CHR 0x09, ''tab''), (CHR '';'', '';''), (CHR '','', '','')];
          counted = filter (\<lambda>x. 2 \<le> snd x) (map (\<lambda>(s, l). ((s, l), length (split_record header s))) ranked)
      in map_option fst (max_by_key snd counted))"

definition same_ignoring_case :: "string \<Rightarrow> string \<Rightarrow> bool" where
  "same_ignoring_case a b \<longleftrightarrow> map to_ascii_lowercase a = map to_ascii_lowercase b"

definition check_header :: "string list \<Rightarrow> fec_finding list" where
  "check_header names =
     concat (map (\<lambda>i. let expected = HEADER ! i in
        if length names \<le> i
        then [finding Error (Some 1) (Some expected)
                (''colonne '' @ show_nat (i + 1) @ '' manquante ('' @ expected @ '')'')]
        else if same_ignoring_case (names ! i) expected then []
        else [finding Error (Some 1) (Some expected)
                (''colonne '' @ show_nat (i + 1) @ '' : attendu '' @ expected @ ('', trouv'' @ e_acute @ '' '') @ names ! i)])
       [0..<length HEADER])"

definition format_cents :: "int \<Rightarrow> string" where
  "format_cents c = display_money c"

definition parse_fec_amount :: "string \<Rightarrow> string + int" where
  "parse_fec_amount raw =
     (let t = trim raw;
          bad = (\<lambda>x why. Inl ((''n'' @ [CHR 0x27] @ ''est pas au bon format ('') @ x @ '') : '' @ why))
      in if t = [] then Inr 0
         else if CHR ''.'' \<in> set t then bad t (''virgule d'' @ e_acute @ ''cimale attendue, pas un point'')
         else if \<exists>c \<in> set (chars t). c \<in> set white_space then bad t (''sans s'' @ e_acute @ ''parateur de milliers'')
         else let (sign, unsigned) =
                    (if hd t = CHR ''-'' then (- 1, tl t)
                     else if List.last t = CHR ''-'' then (- 1, butlast t)
                     else if hd t = CHR ''+'' then (1, tl t)
                     else (1 :: int, t))
              in if 1 < length (filter (\<lambda>c. c = CHR '','') unsigned)
                 then bad unsigned (''un format num'' @ e_acute @ ''rique est attendu'')
                 else let (integer, frac) =
                            (case split_once CHR '','' unsigned of Some (a, b) \<Rightarrow> (a, b) | None \<Rightarrow> (unsigned, ''0''))
                      in if integer = [] \<or> \<not> list_all is_ascii_digit integer
                         then bad t (''un format num'' @ e_acute @ ''rique est attendu'')
                         else if 2 < length frac \<or> \<not> list_all is_ascii_digit frac
                         then bad t (''au plus deux d'' @ e_acute @ ''cimales'')
                         else case i64_try_from (int (nat_of_digits integer)) of
                                None \<Rightarrow> bad t (''un format num'' @ e_acute @ ''rique est attendu'')
                              | Some n \<Rightarrow>
                                  let cents = (if frac = [] then 0
                                               else if length frac = 1 then int (nat_of_digits frac) * 10
                                               else int (nat_of_digits frac))
                                  in case do { a \<leftarrow> i64_try_from (n * 100); b \<leftarrow> i64_try_from (a + cents);
                                               i64_try_from (b * sign) } of
                                       None \<Rightarrow> Inl (''montant hors bornes ('' @ t @ '')'')
                                     | Some v \<Rightarrow> Inr v)"

text \<open>\<open>names.position(..)\<close>, then the field there; an absent column reads as empty.\<close>

definition get_field :: "string list \<Rightarrow> string list \<Rightarrow> string \<Rightarrow> string" where
  "get_field names fs name =
     (case position (\<lambda>n. same_ignoring_case n name) names of
        None \<Rightarrow> [] | Some i \<Rightarrow> if i < length fs then fs ! i else [])"

definition saturating_add :: "int \<Rightarrow> int \<Rightarrow> int" where
  "saturating_add a b = max (- (2 ^ 63)) (min (2 ^ 63 - 1) (a + b))"

text \<open>The mutable locals of the loop over the records.\<close>

record scan =
  s_findings :: "fec_finding list"
  s_debit :: int
  s_credit :: int
  s_lines :: nat
  s_entries :: "((string \<times> string) \<times> entry_agg) list"
  s_last :: "date option"

definition required_findings :: "nat \<Rightarrow> (string \<Rightarrow> string) \<Rightarrow> fec_finding list" where
  "required_findings n get =
     concat (map (\<lambda>col. if get col = []
        then [finding Error (Some n) (Some col) (''le champ '' @ col @ ('' n'' @ [CHR 0x27] @ ''est pas renseign'' @ e_acute))] else []) REQUIRED)"

definition account_findings :: "nat \<Rightarrow> (string \<Rightarrow> string) \<Rightarrow> fec_finding list" where
  "account_findings n get =
     (let compte = get ''CompteNum''
      in if compte \<noteq> [] \<and> \<not> starts_with_three_digits compte
         then [finding Warning (Some n) (Some ''CompteNum'')
                ((''le num'' @ e_acute @ ''ro de compte doit commencer par trois chiffres (re'' @ [CHR 0xC3, CHR 0xA7] @ ''u '') @ compte @ '')'')] else [])"

fun date_step ::
    "time_api \<Rightarrow> nat \<Rightarrow> (string \<Rightarrow> string) \<Rightarrow> string \<Rightarrow> fec_finding list \<times> date option \<Rightarrow> fec_finding list \<times> date option" where
  "date_step T n get col (fnd, prev) =
     (let raw = get col
      in if raw = [] then (fnd, prev)
         else case parse_fec_date T raw of
                DateOk d \<Rightarrow>
                  (if col = ''EcritureDate''
                   then (fnd @ (case prev of
                            Some p \<Rightarrow> if d < p
                              then [finding Warning (Some n) (Some col)
                                     ((''date de comptabilisation ant'' @ e_acute @ ''rieure '' @ [CHR 0xC3, CHR 0xA0] @ '' la ligne pr'' @ e_acute @ ''c'' @ e_acute @ ''dente ('') @ raw @ '')'')]
                              else []
                          | None \<Rightarrow> []), Some d)
                   else (fnd, prev))
              | OutOfRange \<Rightarrow>
                  (fnd @ [finding Warning (Some n) (Some col)
                     ((''date hors p'' @ e_acute @ ''riode 1900'' @ [CHR 0xE2, CHR 0x80, CHR 0x93] @ ''2099 ('') @ raw @ '')'')], prev)
              | InvalidDate \<Rightarrow>
                  (fnd @ [finding Error (Some n) (Some col)
                     (''format de date incorrect ('' @ raw @ ('') '' @ em_dash @ '' attendu AAAAMMJJ''))], prev))"

definition amount_or_zero :: "nat \<Rightarrow> string \<Rightarrow> string \<Rightarrow> fec_finding list \<times> int" where
  "amount_or_zero n col raw =
     (case parse_fec_amount raw of Inr v \<Rightarrow> ([], v) | Inl m \<Rightarrow> ([finding Error (Some n) (Some col) m], 0))"

definition add_to_entry :: "nat \<Rightarrow> string \<Rightarrow> string \<Rightarrow> int \<Rightarrow> int \<Rightarrow> string
    \<Rightarrow> ((string \<times> string) \<times> entry_agg) list \<Rightarrow> ((string \<times> string) \<times> entry_agg) list" where
  "add_to_entry n journal number debit credit on =
     upsert (journal, number)
       \<lparr>first_line = n, agg_journal = journal, agg_number = number, agg_debit = 0, agg_credit = 0, agg_dates = []\<rparr>
       (\<lambda>a. a\<lparr>agg_debit := saturating_add (agg_debit a) \<bar>debit\<bar>,
              agg_credit := saturating_add (agg_credit a) \<bar>credit\<bar>,
              agg_dates := (if on \<noteq> [] then List.insert on (agg_dates a) else agg_dates a)\<rparr>)"

definition DATE_COLUMNS :: "string list" where
  "DATE_COLUMNS = [''EcritureDate'', ''PieceDate'', ''ValidDate'', ''DateLet'']"

definition width_findings :: "nat \<Rightarrow> string list \<Rightarrow> string list \<Rightarrow> fec_finding list" where
  "width_findings n names fs =
     (if length fs > length names
      then [finding Error (Some n) None
             (''la structure du fichier est incorrecte : '' @ show_nat (length fs)
              @ '' champ(s) au lieu des '' @ show_nat (length names) @ ('' de l'' @ [CHR 0x27] @ ''en-t'' @ [CHR 0xC3, CHR 0xAA] @ ''te''))] else [])"

definition side_findings :: "nat \<Rightarrow> int \<Rightarrow> int \<Rightarrow> fec_finding list" where
  "side_findings n debit credit =
     (if (debit = 0 \<and> credit = 0) \<or> (debit \<noteq> 0 \<and> credit \<noteq> 0)
      then [finding Warning (Some n) None
             ((''d'' @ e_acute @ ''bit et cr'' @ e_acute @ ''dit renseign'' @ e_acute @ ''s sur la m'' @ [CHR 0xC3, CHR 0xAA] @ ''me ligne, ou tous deux nuls ('')
              @ format_cents debit @ ''/'' @ format_cents credit @ '')'')] else [])"

text \<open>A record of at least as many fields as the header of the decree.\<close>

definition check_fields :: "time_api \<Rightarrow> string list \<Rightarrow> nat \<Rightarrow> string list \<Rightarrow> scan \<Rightarrow> scan" where
  "check_fields T names n fs s =
     (let get = get_field names fs;
          (dated, last_date) = fold (date_step T n get) DATE_COLUMNS
             (s_findings s @ width_findings n names fs @ required_findings n get @ account_findings n get, s_last s);
          (debit_findings, debit) = amount_or_zero n ''Debit'' (get ''Debit'');
          (credit_findings, credit) = amount_or_zero n ''Credit'' (get ''Credit'');
          journal = get ''JournalCode'';
          number = get ''EcritureNum''
      in s\<lparr>s_findings := dated @ debit_findings @ credit_findings @ side_findings n debit credit,
           s_debit := saturating_add (s_debit s) \<bar>debit\<bar>,
           s_credit := saturating_add (s_credit s) \<bar>credit\<bar>,
           s_last := last_date,
           s_entries := (if journal \<noteq> [] \<and> number \<noteq> []
             then add_to_entry n journal number debit credit (get ''EcritureDate'') (s_entries s)
             else s_entries s)\<rparr>)"

definition check_record :: "time_api \<Rightarrow> string list \<Rightarrow> char \<Rightarrow> nat \<times> string \<Rightarrow> scan \<Rightarrow> scan" where
  "check_record T names sep numbered s =
     (let (offset, rec) = numbered; n = min (offset + 1) u32_max
      in if trim rec = []
         then s\<lparr>s_findings := s_findings s @ [finding Error (Some n) None ''ligne vide'']\<rparr>
         else
           let s = s\<lparr>s_lines := s_lines s + 1\<rparr>; fs = split_record rec sep
           in if length fs < length HEADER
              then s\<lparr>s_findings := s_findings s @ [finding Error (Some n) None
                     (''la structure du fichier est incorrecte : '' @ show_nat (length fs)
                      @ '' champ(s) au lieu des '' @ show_nat (length HEADER) @ '' attendus'')]\<rparr>
              else check_fields T names n fs s)"

definition entry_findings :: "entry_agg \<Rightarrow> fec_finding list" where
  "entry_findings a =
     (if agg_debit a \<noteq> agg_credit a
      then [finding Warning (Some (first_line a)) (Some ''EcritureNum'')
             ((e_acute @ ''criture '') @ agg_journal a @ '' / '' @ agg_number a @ ('' non '' @ e_acute @ ''quilibr'' @ e_acute @ ''e (d'' @ e_acute @ ''bit '')
              @ format_cents (agg_debit a) @ ('', cr'' @ e_acute @ ''dit '') @ format_cents (agg_credit a) @ '')'')] else [])
     @ (if 1 < length (agg_dates a)
        then [finding Warning (Some (first_line a)) (Some ''EcritureDate'')
               ((e_acute @ ''criture '') @ agg_journal a @ '' / '' @ agg_number a @ ('' : dates de comptabilisation diff'' @ e_acute @ ''rentes''))]
        else [])"

fun dedup_by_key :: "(nat \<times> nat) list \<Rightarrow> (nat \<times> nat) list" where
  "dedup_by_key (x # y # xs) = (if fst x = fst y then dedup_by_key (x # xs) else x # dedup_by_key (y # xs))"
| "dedup_by_key xs = xs"

fun numbering_gap :: "string \<Rightarrow> nat \<Rightarrow> (nat \<times> nat) list \<Rightarrow> fec_finding list" where
  "numbering_gap journal i [] = []"
| "numbering_gap journal i ((n, l) # xs) =
     (let expected = min (i + 1) u32_max
      in if n \<noteq> expected
         then [finding Warning (Some l) (Some ''EcritureNum'')
                ((''num'' @ e_acute @ ''rotation discontinue dans le journal '') @ journal @ '' (attendu '' @ show_nat expected
                 @ ('', trouv'' @ e_acute @ '' '') @ show_nat n @ '')'')]
         else numbering_gap journal (i + 1) xs)"

definition check_numbering :: "((string \<times> string) \<times> entry_agg) list \<Rightarrow> fec_finding list" where
  "check_numbering entries =
     (let by_journal = fold (\<lambda>a. upsert (agg_journal a) [] (\<lambda>v. v @ [(agg_number a, first_line a)]))
            (map snd entries) []
      in concat (map (\<lambda>(journal, nums).
           case those (map (\<lambda>(n, l). map_option (\<lambda>v. (v, l)) (parse_u32 n)) nums) of
             None \<Rightarrow> []
           | Some parsed \<Rightarrow> numbering_gap journal 0 (dedup_by_key (sort_key fst parsed))) by_journal))"

fun unify_newlines :: "string \<Rightarrow> string" where
  "unify_newlines (c # d # cs) =
     (if c = CHR 0x0D \<and> d = CHR 0x0A then CHR 0x0A # unify_newlines cs
      else (if c = CHR 0x0D then CHR 0x0A else c) # unify_newlines (d # cs))"
| "unify_newlines [c] = [if c = CHR 0x0D then CHR 0x0A else c]"
| "unify_newlines [] = []"

text \<open>\<open>str::lines\<close> after the carriage returns are gone.\<close>

definition text_lines :: "string \<Rightarrow> string list" where
  "text_lines t = (let ss = split_on (CHR 0x0A) t in if List.last ss = [] then butlast ss else ss)"

definition path_file_name :: "string \<Rightarrow> string option" where
  "path_file_name n =
     (let comps = filter (\<lambda>s. s \<noteq> [] \<and> s \<noteq> ''.'') (split_on (CHR 0x2F) n)
      in if comps = [] \<or> List.last comps = ''..'' then None else Some (List.last comps))"

definition check_text :: "time_api \<Rightarrow> string \<Rightarrow> string \<Rightarrow> string option \<Rightarrow> fec_check" where
  "check_text T text enc name0 =
     (let name = map_option (\<lambda>n. case path_file_name n of None \<Rightarrow> n | Some f \<Rightarrow> f) name0;
          fnd = (case name of None \<Rightarrow> [] | Some n \<Rightarrow> check_name T n);
          raw_lines = text_lines (unify_newlines text);
          records = rev (dropWhile (\<lambda>l. trim l = []) (rev raw_lines))
      in case records of
           [] \<Rightarrow> finish name enc [] 0 0 0 (fnd @ [file_error ''le fichier est vide''])
         | header # data \<Rightarrow>
             (case detect_separator header of
                None \<Rightarrow> finish name enc [] 0 0 0 (fnd @ [file_error
                  (''aucun s'' @ e_acute @ ''parateur reconnu (| ou tabulation) '' @ em_dash @ '' l'' @ [CHR 0x27] @ ''en-t'' @ [CHR 0xC3, CHR 0xAA] @ ''te ne se d'' @ e_acute @ ''coupe pas en 18 colonnes'')])
              | Some (sep, label) \<Rightarrow>
                  let forbidden = (if sep = CHR '';'' \<or> sep = CHR '',''
                        then [file_error (''s'' @ e_acute @ ''parateur interdit depuis le 1er janvier 2013 : | ou tabulation attendu'')]
                        else []);
                      names = split_record header sep;
                      s = fold (check_record T names sep) (enumerate 1 data)
                            \<lparr>s_findings = fnd @ forbidden @ check_header names, s_debit = 0, s_credit = 0,
                             s_lines = 0, s_entries = [], s_last = None\<rparr>;
                      empty_file = (if s_lines s = 0
                        then [file_error (''le fichier ne contient pas de ligne d'' @ [CHR 0x27] @ e_acute @ ''criture'')] else []);
                      unequal = (if s_debit s \<noteq> s_credit s
                        then [finding Warning None None ((''total d'' @ e_acute @ ''bit ('') @ format_cents (s_debit s)
                               @ ('') '' @ [CHR 0xE2, CHR 0x89, CHR 0xA0] @ '' total cr'' @ e_acute @ ''dit ('') @ format_cents (s_credit s) @ '')'')] else [])
                  in finish name enc label (s_lines s) (s_debit s) (s_credit s)
                       (s_findings s @ empty_file @ unequal
                        @ concat (map (entry_findings \<circ> snd) (s_entries s))
                        @ check_numbering (s_entries s))))"

text \<open>\<open>Fec::check\<close>: the file as it would be written, its bytes being those of a string.\<close>

definition fec_self_check :: "time_api \<Rightarrow> fec \<Rightarrow> fec_check" where
  "fec_self_check T f = check_text T (render f) ''utf-8'' (Some (file_name f))"

definition check_fec_of :: "time_api \<Rightarrow> loaded \<Rightarrow> int \<Rightarrow> (ledger_error + fec_check) option option" where
  "check_fec_of T ld year =
     map_option (map_option (\<lambda>r. case r of Inl e \<Rightarrow> Inl e | Inr f \<Rightarrow> Inr (fec_self_check T f)))
       (build_fec T ld year)"

end
