(* ===== verification/Fec_Text.thy ===== *)
theory Fec_Text
  imports Fec_Check
begin

text \<open>
  The text round trip between \<open>fec/mod.rs\<close> and \<open>fec/check.rs\<close>: what the check reads back of each
  field, record, header and file name the program writes, and one record's passage through the loop.
\<close>

section \<open>Fields that read back\<close>

lemma white_prefix_in: "white_prefix ws s \<noteq> 0 \<Longrightarrow> \<exists>w \<in> set ws. starts_with s w \<and> white_prefix ws s = length w"
  by (auto simp: white_prefix_def split: option.splits dest!: find_SomeD)

text \<open>Trimming keeps every character that no white-space character contains.\<close>

lemma trim_fuel_keeps:
  "c \<in> set s \<Longrightarrow> \<forall>w \<in> set ws. c \<notin> set w \<Longrightarrow> c \<in> set (trim_fuel k ws s)"
proof (induction k arbitrary: s)
  case (Suc k)
  show ?case
  proof (cases "white_prefix ws s = 0")
    case False
    then obtain w where w: "w \<in> set ws" "starts_with s w" "white_prefix ws s = length w"
      using white_prefix_in by blast
    have "c \<in> set (take (length w) s) \<or> c \<in> set (drop (length w) s)"
      using Suc.prems(1) by (metis append_take_drop_id Un_iff set_append)
    then have "c \<in> set (drop (length w) s)" using w Suc.prems(2) by auto
    with Suc.IH [OF this Suc.prems(2)] False w show ?thesis by simp
  qed (use Suc.prems in simp)
qed simp

lemma trim_keeps: "c \<in> set s \<Longrightarrow> \<forall>w \<in> set white_space. c \<notin> set w \<Longrightarrow> c \<in> set (trim s)"
  by (simp add: trim_def trim_end_def trim_start_def trim_fuel_keeps)

lemma trim_separator: "SEPARATOR \<in> set s \<Longrightarrow> trim s \<noteq> []"
proof -
  assume "SEPARATOR \<in> set s"
  moreover have "\<forall>w \<in> set white_space. SEPARATOR \<notin> set w" by code_simp
  ultimately have "SEPARATOR \<in> set (trim s)" by (rule trim_keeps)
  then show ?thesis by auto
qed

text \<open>Digits and decimal commas pass unchanged.\<close>

definition plain_char :: "char \<Rightarrow> bool" where
  "plain_char c \<longleftrightarrow> is_ascii_digit c \<or> c = CHR '',''"

lemma trim_plain: "list_all plain_char s \<Longrightarrow> trim s = s"
proof (cases "s = []")
  case False
  assume p: "list_all plain_char s"
  have "c \<notin> hd ` set white_space" "c \<notin> List.last ` set white_space" if "plain_char c" for c
    using that by (auto simp: white_space_def plain_char_def is_ascii_digit_def)
  with p False show ?thesis by (intro trim_trimmed trimmed_by_ends) (auto simp: list_all_iff)
qed (simp add: trim_trimmed trimmed_def white_prefix_Nil)

lemma sanitize_plain: "list_all plain_char s \<Longrightarrow> sanitize s = s"
proof -
  assume p: "list_all plain_char s"
  then have "map (\<lambda>c. if c = SEPARATOR \<or> c = CHR 0x09 \<or> c = CHR 0x0D \<or> c = CHR 0x0A then CHR '' '' else c) s = s"
    by (intro map_idI) (auto simp: list_all_iff plain_char_def SEPARATOR_def is_ascii_digit_def)
  with p show ?thesis by (simp add: sanitize_def trim_plain)
qed

lemma plain_digits: "list_all is_ascii_digit s \<Longrightarrow> list_all plain_char s"
  by (auto simp: list_all_iff plain_char_def)

lemma sanitize_codes [simp]: "sanitize (journal_code j) = journal_code j"
proof -
  have "\<forall>j \<in> set [Opening, Sales, Purchases, Bank, Misc]. sanitize (journal_code j) = journal_code j"
    by code_simp
  then show ?thesis by (cases j) auto
qed

lemma sanitize_labels [simp]: "sanitize (journal_label j) \<noteq> []"
proof -
  have "\<forall>j \<in> set [Opening, Sales, Purchases, Bank, Misc]. sanitize (journal_label j) \<noteq> []"
    by code_simp
  then show ?thesis by (cases j) auto
qed

lemma sanitize_Nil [simp]: "sanitize [] = []"
  by code_simp

lemma sanitize_header: "map sanitize HEADER = HEADER"
  by code_simp

lemma sanitize_show_nat [simp]: "sanitize (show_nat n) = show_nat n"
  by (simp add: sanitize_plain plain_digits)

text \<open>Dates of the period the check accepts.\<close>

definition fec_date :: "date \<Rightarrow> bool" where
  "fec_date d \<longleftrightarrow> valid_date d \<and> 1900 \<le> dyear d \<and> dyear d \<le> 2099"

lemma length_show_nat: "length (show_nat n) = (if n < 10 then 1 else Suc (length (show_nat (n div 10))))"
  by (subst show_nat.simps) simp

lemma length_show_nat_4:
  assumes "1000 \<le> n" "n \<le> 9999"
  shows "length (show_nat n) = 4"
proof -
  have "\<not> n < 10" "\<not> n div 10 < 10" "\<not> n div 100 < 10" "n div 1000 < 10"
    using assms by linarith+
  then show ?thesis
    by (simp add: length_show_nat [of n] length_show_nat [of "n div 10"] length_show_nat [of "n div 100"]
        length_show_nat [of "n div 1000"] div_mult2_eq [symmetric])
qed

lemma fec_date_year: "fec_date d \<Longrightarrow> 1900 \<le> nat (dyear d)" "fec_date d \<Longrightarrow> nat (dyear d) \<le> 2099"
  unfolding fec_date_def by linarith+

lemma length_year [simp]: "fec_date d \<Longrightarrow> length (show_nat (nat (dyear d))) = 4"
  using fec_date_year [of d] by (simp add: length_show_nat_4)

lemma compact_date_eq:
  assumes "fec_date d"
  shows "compact_date d = show_nat (nat (dyear d)) @ show_2 (dmonth d) @ show_2 (dday d)"
  using assms length_year [OF assms] by (simp add: compact_date_def pad_int_def zero_pad_def fec_date_def)

lemma compact_date_digits: "fec_date d \<Longrightarrow> list_all is_ascii_digit (compact_date d)"
  by (simp add: compact_date_eq)

lemma length_compact_date: "fec_date d \<Longrightarrow> length (compact_date d) = 8"
  using valid_date_components [of d] by (simp add: compact_date_eq) (simp add: fec_date_def)

lemma sanitize_compact_date [simp]: "fec_date d \<Longrightarrow> sanitize (compact_date d) = compact_date d"
  by (simp add: sanitize_plain plain_digits compact_date_digits)

lemma parse_compact_date:
  assumes "time_crate T" "fec_date d"
  shows "parse_fec_date T (compact_date d) = DateOk d"
proof -
  let ?y = "show_nat (nat (dyear d))" and ?s = "compact_date d"
  have d: "valid_date d" "1900 \<le> dyear d" "dyear d \<le> 2099" using assms(2) by (simp_all add: fec_date_def)
  have m: "dmonth d \<le> 12" "dday d < 100" "1 \<le> dmonth d"
    using valid_date_components [OF d(1)] d(1) by (cases d; simp)+
  note ly = length_year [OF assms(2)] and y = fec_date_year [OF assms(2)]
  have t: "filter is_ascii_digit (trim ?s) = ?s"
    using compact_date_digits [OF assms(2)] by (simp add: trim_plain plain_digits) (simp add: list_all_iff)
  have "take 4 ?s = ?y" "take 2 (drop 4 ?s) = show_2 (dmonth d)" "take 2 (drop 6 ?s) = show_2 (dday d)" "take 8 ?s = ?s"
    using m ly length_compact_date [OF assms(2)] by (simp_all add: compact_date_eq [OF assms(2)])
  moreover have "Date (int (nat (dyear d))) (dmonth d) (dday d) = d" using d by (cases d) simp
  ultimately show ?thesis
    using m d y t length_compact_date [OF assms(2)]
    by (simp add: parse_fec_date_def Let_def time_crate.from_calendar_date [OF assms(1)] nat_le_iff del: valid_date.simps)
qed

text \<open>Amounts.\<close>

lemma decimal_comma_eq:
  "0 \<le> m \<Longrightarrow> decimal_comma m = show_nat (nat m div 100) @ CHR '','' # show_2 (nat m mod 100)"
proof -
  assume "0 \<le> m"
  have id: "map (\<lambda>c. if c = CHR ''.'' then CHR '','' else c) s = s" if "list_all is_ascii_digit s" for s
    using that by (intro map_idI) (auto simp: list_all_iff is_ascii_digit_def)
  show ?thesis using \<open>0 \<le> m\<close> by (simp add: decimal_comma_def to_decimal_string_def Let_def id)
qed

lemma decimal_comma_plain: "0 \<le> m \<Longrightarrow> list_all plain_char (decimal_comma m)"
  by (simp add: decimal_comma_eq plain_digits) (simp add: plain_char_def)

lemma sanitize_decimal_comma [simp]: "0 \<le> m \<Longrightarrow> sanitize (decimal_comma m) = decimal_comma m"
  by (simp add: sanitize_plain decimal_comma_plain)

lemma parse_decimal_comma:
  assumes "0 \<le> m" "in_i64 m"
  shows "parse_fec_amount (decimal_comma m) = Inr m"
proof -
  let ?a = "show_nat (nat m div 100)" and ?b = "show_2 (nat m mod 100)"
  let ?s = "?a @ CHR '','' # ?b"
  have s: "decimal_comma m = ?s" by (rule decimal_comma_eq [OF assms(1)])
  have p: "list_all plain_char ?s" using decimal_comma_plain [OF assms(1)] s by simp
  have dig: "is_ascii_digit c \<Longrightarrow> c \<noteq> CHR '','' \<and> c \<noteq> CHR ''.'' \<and> c \<noteq> CHR ''-'' \<and> c \<noteq> CHR ''+''" for c
    by (auto simp: is_ascii_digit_def)
  have pa: "CHR '','' \<notin> set ?a" "CHR '','' \<notin> set ?b"
    using show_nat_digits [of "nat m div 100"] show_2_digits [of "nat m mod 100"] dig by (auto simp: list_all_iff)
  have pc: "plain_char c \<Longrightarrow> c \<noteq> CHR ''.'' \<and> c \<noteq> CHR ''-'' \<and> c \<noteq> CHR ''+''" for c
    by (auto simp: plain_char_def is_ascii_digit_def)
  have "hd ?s \<in> set ?s" "List.last ?s \<in> set ?s" by (rule hd_in_set, simp, rule last_in_set, simp)
  then have ends: "hd ?s \<noteq> CHR ''-''" "hd ?s \<noteq> CHR ''+''" "List.last ?s \<noteq> CHR ''-''" "CHR ''.'' \<notin> set ?s"
    using p pc unfolding list_all_iff by metis+
  have asc: "plain_char c \<Longrightarrow> is_ascii c" for c
    by (auto simp: plain_char_def is_ascii_def byte_def is_ascii_digit_def)
  have "list_all is_ascii ?s"
    using p asc unfolding list_all_iff by blast
  then have chs: "chars ?s = map (\<lambda>c. [c]) ?s" by (rule chars_ascii)
  have "[c] \<notin> set white_space" if "plain_char c" for c
    using that by (auto simp: white_space_def plain_char_def is_ascii_digit_def)
  then have ws: "\<not> (\<exists>c \<in> set (chars ?s). c \<in> set white_space)" using p unfolding chs list_all_iff by auto
  have one: "length (filter (\<lambda>c. c = CHR '','') ?s) = 1"
    using pa by (simp add: filter_empty_conv) (metis)
  have v: "int (nat m div 100) * 100 + int (nat m mod 100) = m"
    using assms(1) by (metis div_mult_mod_eq int_nat_eq of_nat_add of_nat_mult of_nat_numeral)
  have r: "in_i64 (int (nat m div 100))" "in_i64 (int (nat m div 100) * 100)"
    using assms v by (auto simp: in_i64_def)
  have "length ?b = 2" by simp
  then have lb: "?b \<noteq> []" by (metis list.size(3) zero_neq_numeral)
  show ?thesis
    using ends ws one r assms(2) lb
    by (simp add: s parse_fec_amount_def Let_def trim_plain [OF p] split_once_append [OF pa(1)] v)
qed

section \<open>One record\<close>

text \<open>What the decree expects of the text of a book that the check does not question.\<close>

definition entry_label :: "ledger_entry \<Rightarrow> ledger_line \<Rightarrow> string" where
  "entry_label e l = (case line_label l of None \<Rightarrow> le_label e | Some t \<Rightarrow> t)"

definition clean_line :: "ledger_entry \<Rightarrow> ledger_line \<Rightarrow> bool" where
  "clean_line e l \<longleftrightarrow> starts_with_three_digits (sanitize (acc_number (ll_account l)))
     \<and> sanitize (acc_label (ll_account l)) \<noteq> [] \<and> sanitize (entry_label e l) \<noteq> [] \<and> ll_amount l \<noteq> 0"

definition clean_entry :: "ledger_entry \<Rightarrow> bool" where
  "clean_entry e \<longleftrightarrow> fec_date (le_date e) \<and> fec_date (piece_date e) \<and> sanitize (piece_ref e) \<noteq> []
     \<and> le_lines e \<noteq> [] \<and> list_all (clean_line e) (le_lines e) \<and> is_balanced e"

definition row :: "ledger_entry \<Rightarrow> ledger_line \<Rightarrow> string list" where
  "row e l = map sanitize (line_fields e l)"

lemma position_distinct:
  "i < length xs \<Longrightarrow> distinct (map f xs) \<Longrightarrow> position (\<lambda>n. f n = f (xs ! i)) xs = Some i"
  by (induction xs arbitrary: i) (auto simp: nth_Cons split: nat.split)

lemma column: "i < length HEADER \<Longrightarrow> HEADER ! i = name \<Longrightarrow> position (\<lambda>n. same_ignoring_case n name) HEADER = Some i"
proof -
  have "distinct (map (map to_ascii_lowercase) HEADER)" by code_simp
  then show "i < length HEADER \<Longrightarrow> HEADER ! i = name \<Longrightarrow> position (\<lambda>n. same_ignoring_case n name) HEADER = Some i"
    using position_distinct [of i HEADER "map to_ascii_lowercase"] by (auto simp: same_ignoring_case_def)
qed

lemma columns:
  "position (\<lambda>n. same_ignoring_case n ''JournalCode'') HEADER = Some 0"
  "position (\<lambda>n. same_ignoring_case n ''JournalLib'') HEADER = Some 1"
  "position (\<lambda>n. same_ignoring_case n ''EcritureNum'') HEADER = Some 2"
  "position (\<lambda>n. same_ignoring_case n ''EcritureDate'') HEADER = Some 3"
  "position (\<lambda>n. same_ignoring_case n ''CompteNum'') HEADER = Some 4"
  "position (\<lambda>n. same_ignoring_case n ''CompteLib'') HEADER = Some 5"
  "position (\<lambda>n. same_ignoring_case n ''PieceRef'') HEADER = Some 8"
  "position (\<lambda>n. same_ignoring_case n ''PieceDate'') HEADER = Some 9"
  "position (\<lambda>n. same_ignoring_case n ''EcritureLib'') HEADER = Some 10"
  "position (\<lambda>n. same_ignoring_case n ''Debit'') HEADER = Some 11"
  "position (\<lambda>n. same_ignoring_case n ''Credit'') HEADER = Some 12"
  "position (\<lambda>n. same_ignoring_case n ''DateLet'') HEADER = Some 14"
  "position (\<lambda>n. same_ignoring_case n ''ValidDate'') HEADER = Some 15"
  by (rule column; simp add: HEADER_def)+

lemma sides_nonneg [simp]: "0 \<le> debit_of l" "0 \<le> credit_side l"
  by (simp_all add: debit_of_def credit_side_def)

lemma line_fields_sides:
  "line_fields e l =
     [journal_code (le_journal e), journal_label (le_journal e), show_nat (le_number e), compact_date (le_date e),
      acc_number (ll_account l), acc_label (ll_account l),
      (case ll_aux l of None \<Rightarrow> [] | Some a \<Rightarrow> aux_number a), (case ll_aux l of None \<Rightarrow> [] | Some a \<Rightarrow> aux_label a),
      piece_ref e, compact_date (piece_date e), entry_label e l,
      decimal_comma (debit_of l), decimal_comma (credit_side l), [], [], compact_date (le_date e), [], []]"
  by (simp add: line_fields_def Let_def debit_of_def credit_side_def entry_label_def split: option.split)

lemma length_row [simp]: "length (row e l) = 18"
  by (simp add: row_def line_fields_sides)

lemma row_fields:
  assumes "fec_date (le_date e)" "fec_date (piece_date e)"
  shows "get_field HEADER (row e l) ''JournalCode'' = journal_code (le_journal e)"
    "get_field HEADER (row e l) ''JournalLib'' = sanitize (journal_label (le_journal e))"
    "get_field HEADER (row e l) ''EcritureNum'' = show_nat (le_number e)"
    "get_field HEADER (row e l) ''EcritureDate'' = compact_date (le_date e)"
    "get_field HEADER (row e l) ''CompteNum'' = sanitize (acc_number (ll_account l))"
    "get_field HEADER (row e l) ''CompteLib'' = sanitize (acc_label (ll_account l))"
    "get_field HEADER (row e l) ''PieceRef'' = sanitize (piece_ref e)"
    "get_field HEADER (row e l) ''PieceDate'' = compact_date (piece_date e)"
    "get_field HEADER (row e l) ''EcritureLib'' = sanitize (entry_label e l)"
    "get_field HEADER (row e l) ''Debit'' = decimal_comma (debit_of l)"
    "get_field HEADER (row e l) ''Credit'' = decimal_comma (credit_side l)"
    "get_field HEADER (row e l) ''DateLet'' = []"
    "get_field HEADER (row e l) ''ValidDate'' = compact_date (le_date e)"
  unfolding get_field_def columns using assms by (simp_all add: row_def line_fields_sides)

lemma split_row: "split_record (join SEPARATOR (row e l)) SEPARATOR = row e l"
proof -
  have "row e l \<noteq> []" using length_row [of e l] by (metis list.size(3) zero_neq_numeral)
  moreover have "\<forall>s \<in> set (row e l). SEPARATOR \<notin> set s" by (auto simp: row_def dest: sanitize_clean)
  ultimately have "split_on SEPARATOR (join SEPARATOR (row e l)) = row e l" by (rule split_on_join)
  moreover have "map trim (row e l) = row e l" by (simp add: row_def)
  ultimately show ?thesis by (simp add: split_record_def)
qed

lemma join_separator: "2 \<le> length fs \<Longrightarrow> c \<in> set (join c fs)"
  by (induction c fs rule: join.induct) auto

lemma row_not_blank: "trim (join SEPARATOR (row e l)) \<noteq> []"
  by (rule trim_separator) (simp add: join_separator)

lemma row_required:
  assumes "clean_entry e" "l \<in> set (le_lines e)"
  shows "required_findings n (get_field HEADER (row e l)) = []"
    "account_findings n (get_field HEADER (row e l)) = []"
proof -
  have d: "fec_date (le_date e)" "fec_date (piece_date e)"
    and c: "sanitize (piece_ref e) \<noteq> []" "clean_line e l"
    using assms by (auto simp: clean_entry_def list_all_iff)
  have date: "compact_date x \<noteq> []" if "fec_date x" for x
    using length_compact_date [OF that] by auto
  have three: "starts_with_three_digits [] = False" by code_simp
  have acc: "sanitize (acc_number (ll_account l)) \<noteq> []"
    using c(2) three by (auto simp: clean_line_def)
  have code: "journal_code j \<noteq> []" for j by (cases j) simp_all
  show "required_findings n (get_field HEADER (row e l)) = []"
    using c acc date [OF d(1)] date [OF d(2)] code
    by (simp add: required_findings_def REQUIRED_def row_fields [OF d, simplified] clean_line_def)
  show "account_findings n (get_field HEADER (row e l)) = []"
    using c(2) by (simp add: account_findings_def row_fields [OF d, simplified] clean_line_def)
qed

lemma row_dates:
  assumes "time_crate T" "clean_entry e" "case prev of None \<Rightarrow> True | Some p \<Rightarrow> p \<le> le_date e"
  shows "fold (date_step T n (get_field HEADER (row e l))) DATE_COLUMNS (fnd, prev)
    = (fnd, Some (le_date e))"
proof -
  have d: "fec_date (le_date e)" "fec_date (piece_date e)" using assms(2) by (simp_all add: clean_entry_def)
  note get = row_fields [OF d, simplified] and read = parse_compact_date [OF assms(1)]
  have date: "compact_date x \<noteq> []" if "fec_date x" for x
    using length_compact_date [OF that] by auto
  have "\<not> (\<exists>p. prev = Some p \<and> le_date e < p)" using assms(3) by (auto split: option.splits)
  then show ?thesis
    using date [OF d(1)] date [OF d(2)]
    by (auto simp: DATE_COLUMNS_def get read [OF d(1)] read [OF d(2)] Let_def split: option.split)
qed

lemma row_amounts:
  assumes "clean_entry e" "in_i64 (debit_of l)" "in_i64 (credit_side l)"
  shows "amount_or_zero n col (get_field HEADER (row e l) ''Debit'') = ([], debit_of l)"
    "amount_or_zero n col (get_field HEADER (row e l) ''Credit'') = ([], credit_side l)"
proof -
  have d: "fec_date (le_date e)" "fec_date (piece_date e)" using assms(1) by (simp_all add: clean_entry_def)
  show "amount_or_zero n col (get_field HEADER (row e l) ''Debit'') = ([], debit_of l)"
    unfolding row_fields [OF d] amount_or_zero_def by (simp add: parse_decimal_comma assms(2))
  show "amount_or_zero n col (get_field HEADER (row e l) ''Credit'') = ([], credit_side l)"
    unfolding row_fields [OF d] amount_or_zero_def by (simp add: parse_decimal_comma assms(3))
qed

definition add_row :: "nat \<times> ledger_entry \<times> ledger_line \<Rightarrow> ((string \<times> string) \<times> entry_agg) list \<Rightarrow> ((string \<times> string) \<times> entry_agg) list" where
  "add_row = (\<lambda>(k, e, l). add_to_entry (min (k + 1) u32_max) (journal_code (le_journal e)) (show_nat (le_number e))
     (debit_of l) (credit_side l) (compact_date (le_date e)))"

lemma check_row:
  assumes "time_crate T" "clean_entry e" "l \<in> set (le_lines e)"
    and fits: "in_i64 (debit_of l)" "in_i64 (credit_side l)"
    and ordered: "case s_last s of None \<Rightarrow> True | Some p \<Rightarrow> p \<le> le_date e"
  shows "check_record T HEADER SEPARATOR (k, join SEPARATOR (row e l)) s =
    s\<lparr>s_lines := s_lines s + 1, s_debit := saturating_add (s_debit s) (debit_of l),
      s_credit := saturating_add (s_credit s) (credit_side l), s_last := Some (le_date e),
      s_entries := add_row (k, e, l) (s_entries s)\<rparr>"
proof -
  have d: "fec_date (le_date e)" "fec_date (piece_date e)" and l: "clean_line e l"
    using assms(2,3) by (auto simp: clean_entry_def list_all_iff)
  have code: "journal_code j \<noteq> []" for j by (cases j) simp_all
  have H: "length HEADER = 18" by code_simp
  have side: "(debit_of l = 0) \<noteq> (credit_side l = 0)"
    using l by (auto simp: clean_line_def debit_of_def credit_side_def)
  show ?thesis
    unfolding check_record_def check_fields_def Let_def prod.case split_row
    using row_not_blank [of e l] side code
    by (simp add: H row_required [OF assms(2,3)] row_dates [OF assms(1,2)] ordered width_findings_def side_findings_def
        row_amounts [OF assms(2) fits] row_fields(1,3,4) [OF d] add_row_def Let_def)
qed

section \<open>The loop over the records\<close>

definition rows :: "ledger_entry list \<Rightarrow> (ledger_entry \<times> ledger_line) list" where
  "rows es = concat (map (\<lambda>e. map (Pair e) (le_lines e)) es)"

definition row_text :: "ledger_entry \<times> ledger_line \<Rightarrow> string" where
  "row_text x = join SEPARATOR (row (fst x) (snd x))"

definition good_row :: "ledger_entry \<times> ledger_line \<Rightarrow> bool" where
  "good_row x \<longleftrightarrow> clean_entry (fst x) \<and> snd x \<in> set (le_lines (fst x))
     \<and> in_i64 (debit_of (snd x)) \<and> in_i64 (credit_side (snd x))"

lemma check_rows:
  assumes "time_crate T"
  shows "\<forall>x \<in> set rs. good_row x \<Longrightarrow> sorted (map (le_date \<circ> fst) rs) \<Longrightarrow>
    (\<forall>x \<in> set rs. case s_last s of None \<Rightarrow> True | Some p \<Rightarrow> p \<le> le_date (fst x)) \<Longrightarrow>
    fold (check_record T HEADER SEPARATOR) (enumerate k (map row_text rs)) s =
      s\<lparr>s_lines := s_lines s + length rs,
        s_debit := fold (\<lambda>x acc. saturating_add acc (debit_of (snd x))) rs (s_debit s),
        s_credit := fold (\<lambda>x acc. saturating_add acc (credit_side (snd x))) rs (s_credit s),
        s_last := (if rs = [] then s_last s else Some (le_date (fst (List.last rs)))),
        s_entries := fold add_row (enumerate k rs) (s_entries s)\<rparr>"
proof (induction rs arbitrary: k s)
  case (Cons x rs)
  obtain e l where x: "x = (e, l)" by (cases x)
  let ?s = "check_record T HEADER SEPARATOR (k, row_text x) s"
  have st: "?s = s\<lparr>s_lines := s_lines s + 1, s_debit := saturating_add (s_debit s) (debit_of l),
      s_credit := saturating_add (s_credit s) (credit_side l), s_last := Some (le_date e),
      s_entries := add_row (k, e, l) (s_entries s)\<rparr>"
    unfolding row_text_def x fst_conv snd_conv
  proof (rule check_row [OF assms])
    show "case s_last s of None \<Rightarrow> True | Some p \<Rightarrow> p \<le> le_date e"
      using Cons.prems(3) x by (auto split: option.splits)
  qed (use Cons.prems(1) in \<open>simp_all add: x good_row_def\<close>)
  have "\<forall>y \<in> set rs. case s_last ?s of None \<Rightarrow> True | Some p \<Rightarrow> p \<le> le_date (fst y)"
    using Cons.prems(2) unfolding st by (simp add: x)
  then have "fold (check_record T HEADER SEPARATOR) (enumerate (Suc k) (map row_text rs)) ?s = ?s\<lparr>
        s_lines := s_lines ?s + length rs,
        s_debit := fold (\<lambda>x acc. saturating_add acc (debit_of (snd x))) rs (s_debit ?s),
        s_credit := fold (\<lambda>x acc. saturating_add acc (credit_side (snd x))) rs (s_credit ?s),
        s_last := (if rs = [] then s_last ?s else Some (le_date (fst (List.last rs)))),
        s_entries := fold add_row (enumerate (Suc k) rs) (s_entries ?s)\<rparr>"
    using Cons.prems by (intro Cons.IH) simp_all
  then show ?case by (simp add: st) (simp add: x)
qed simp

lemma saturating_sum:
  "\<forall>x \<in> set xs. 0 \<le> g x \<Longrightarrow> 0 \<le> a \<Longrightarrow> a + sum_list (map g xs) < 2 ^ 63 \<Longrightarrow>
     fold (\<lambda>x acc. saturating_add acc (g x)) xs a = a + sum_list (map g xs)"
proof (induction xs arbitrary: a)
  case (Cons x xs)
  then have "0 \<le> sum_list (map g xs)" by (intro sum_list_nonneg) auto
  with Cons.prems have "saturating_add a (g x) = a + g x" by (simp add: saturating_add_def)
  with Cons show ?case by (simp add: add.assoc)
qed simp

section \<open>The text of the file\<close>

lemma unify_newlines_id: "CHR 0x0D \<notin> set s \<Longrightarrow> unify_newlines s = s"
  by (induction s rule: unify_newlines.induct) auto

lemma split_lines: "\<forall>s \<in> set ss. c \<notin> set s \<Longrightarrow> split_on c (concat (map (\<lambda>s. s @ [c]) ss)) = ss @ [[]]"
  by (induction ss) (simp_all add: split_on_append)

lemma text_lines_records:
  "\<forall>s \<in> set ss. CHR 0x0A \<notin> set s \<Longrightarrow> text_lines (concat (map (\<lambda>s. s @ [CHR 0x0A]) ss)) = ss"
  unfolding text_lines_def Let_def by (subst (1 2 3) split_lines) simp_all

lemma records_rows: "records_of f = HEADER # map (\<lambda>x. row (fst x) (snd x)) (rows (fec_entries f))"
  unfolding records_of_def sanitize_header by (simp add: rows_def row_def map_concat o_def)

lemma row_clean: "c \<in> set (join SEPARATOR (row e l)) \<Longrightarrow> c \<noteq> CHR 0x0A \<and> c \<noteq> CHR 0x0D"
proof -
  assume "c \<in> set (join SEPARATOR (row e l))"
  then have "c = SEPARATOR \<or> (\<exists>s \<in> set (row e l). c \<in> set s)" using set_join by fastforce
  then show ?thesis by (auto simp: row_def SEPARATOR_def dest: sanitize_clean)
qed

lemma header_clean: "c \<in> set (join SEPARATOR HEADER) \<Longrightarrow> c \<noteq> CHR 0x0A \<and> c \<noteq> CHR 0x0D"
proof -
  have "list_all (\<lambda>c. c \<noteq> CHR 0x0A \<and> c \<noteq> CHR 0x0D) (join SEPARATOR HEADER)" by code_simp
  then show "c \<in> set (join SEPARATOR HEADER) \<Longrightarrow> c \<noteq> CHR 0x0A \<and> c \<noteq> CHR 0x0D" by (simp add: list_all_iff)
qed

lemma not_in_lines: "\<forall>s \<in> set ss. c \<notin> set s \<Longrightarrow> c \<noteq> d \<Longrightarrow> c \<notin> set (concat (map (\<lambda>s. s @ [d]) ss))"
  by (induction ss) auto

lemma lines_of_render:
  "text_lines (unify_newlines (render f)) = join SEPARATOR HEADER # map row_text (rows (fec_entries f))"
proof -
  let ?ss = "join SEPARATOR HEADER # map row_text (rows (fec_entries f))"
  have r: "render f = concat (map (\<lambda>s. s @ [CHR 0x0A]) ?ss)"
    by (simp add: render_records records_rows record_text_def row_text_def o_def)
  have "\<forall>s \<in> set ?ss. CHR 0x0A \<notin> set s \<and> CHR 0x0D \<notin> set s"
    using row_clean header_clean by (fastforce simp: row_text_def)
  moreover from this have "unify_newlines (concat (map (\<lambda>s. s @ [CHR 0x0A]) ?ss)) = concat (map (\<lambda>s. s @ [CHR 0x0A]) ?ss)"
    by (intro unify_newlines_id not_in_lines) simp_all
  ultimately show ?thesis unfolding r using text_lines_records [of ?ss] by metis
qed

lemma keep_nonblank: "xs \<noteq> [] \<Longrightarrow> \<not> P (List.last xs) \<Longrightarrow> rev (dropWhile P (rev xs)) = xs"
  by (cases xs rule: rev_cases) simp_all

lemma records_kept:
  "rev (dropWhile (\<lambda>l. trim l = []) (rev (join SEPARATOR HEADER # map row_text rs)))
    = join SEPARATOR HEADER # map row_text rs"
proof (rule keep_nonblank)
  have "trim (join SEPARATOR HEADER) \<noteq> []" by (rule trim_separator) (simp add: join_separator HEADER_def)
  then show "trim (List.last (join SEPARATOR HEADER # map row_text rs)) \<noteq> []"
    by (auto simp: last_map row_text_def row_not_blank)
qed simp

section \<open>Name and header\<close>

lemma header_split: "split_record (join SEPARATOR HEADER) SEPARATOR = HEADER"
proof -
  have "split_on SEPARATOR (join SEPARATOR HEADER) = HEADER" by (rule split_on_join; code_simp)
  moreover have "map trim (map sanitize HEADER) = map sanitize HEADER" by (simp add: HEADER_def)
  ultimately show ?thesis by (simp add: split_record_def sanitize_header)
qed

lemma detect_bar:
  assumes "length (split_record h SEPARATOR) = 18" "\<forall>c \<in> {CHR 0x09, CHR '';'', CHR '',''}. length (split_record h c) = 1"
  shows "detect_separator h = Some (SEPARATOR, [SEPARATOR])"
  using assms by (simp add: detect_separator_def max_by_key_def)

lemma header_separator: "detect_separator (join SEPARATOR HEADER) = Some (SEPARATOR, [SEPARATOR])"
proof (rule detect_bar)
  have "\<forall>c \<in> set [CHR 0x09, CHR '';'', CHR '','']. c \<notin> set (join SEPARATOR HEADER)" by code_simp
  then show "\<forall>c \<in> {CHR 0x09, CHR '';'', CHR '',''}. length (split_record (join SEPARATOR HEADER) c) = 1"
    by (simp add: split_record_def split_on_plain)
  show "length (split_record (join SEPARATOR HEADER) SEPARATOR) = 18"
    unfolding header_split by (simp add: HEADER_def)
qed

lemma strip_suffix_append: "strip_suffix (s @ p) p = Some s"
  by (simp add: strip_suffix_def)

lemma header_checked: "check_header HEADER = []"
  by (auto simp: check_header_def same_ignoring_case_def Let_def)

lemma split_once_text_FEC:
  "list_all is_ascii_digit a \<Longrightarrow> split_once_text ''FEC'' (a @ ''FEC'' @ b) = Some (a, b)"
proof (induction a)
  case (Cons c a)
  then have "c \<noteq> CHR ''F''" by (auto simp: is_ascii_digit_def)
  with Cons show ?case by simp
qed simp

lemma display_siren_digits: "valid_siren n \<Longrightarrow> list_all is_ascii_digit (display_siren n) \<and> length (display_siren n) = 9"
  by (auto simp: valid_siren_def display_siren_def display_digits list_all_iff)

lemma name_checked:
  assumes "time_crate T" "valid_siren (fec_siren f)" "fec_date (fy_end (fec_exercise f))"
  shows "check_name T (file_name f) = []" "path_file_name (file_name f) = Some (file_name f)"
proof -
  let ?a = "display_siren (fec_siren f)" and ?b = "compact_date (fy_end (fec_exercise f))"
  note a = display_siren_digits [OF assms(2)] and b = compact_date_digits [OF assms(3)] length_compact_date [OF assms(3)]
  show "check_name T (file_name f) = []"
    using strip_suffix_append [of "?a @ ''FEC'' @ ?b" "''.txt''", simplified] a b parse_compact_date [OF assms(1,3)] split_once_text_FEC [of ?a ?b]
    by (simp add: check_name_def file_name_def or_else_def Let_def)
  have "is_ascii_digit c \<Longrightarrow> c \<noteq> CHR 0x2F" for c by (auto simp: is_ascii_digit_def)
  then have "CHR 0x2F \<notin> set (file_name f)"
    using a b(1) by (auto simp: file_name_def list_all_iff)
  moreover have "length (file_name f) = 24" using a b(2) by (simp add: file_name_def)
  then have "file_name f \<noteq> []" "file_name f \<noteq> ''.''" "file_name f \<noteq> ''..''" by auto
  ultimately show "path_file_name (file_name f) = Some (file_name f)"
    by (simp add: path_file_name_def split_on_plain Let_def)
qed

end
