(* ===== verification/Fec_Conform.thy ===== *)
theory Fec_Conform
  imports Fec_Text
begin

text \<open>
  The FEC the program renders passes the program's own check, and what the check promises of any text
  it finds conformant.
\<close>

section \<open>The entries of the file\<close>

definition key_of :: "ledger_entry \<Rightarrow> string \<times> string" where
  "key_of e = (journal_code (le_journal e), show_nat (le_number e))"

definition row_agg :: "nat \<times> ledger_entry \<times> ledger_line \<Rightarrow> entry_agg \<Rightarrow> entry_agg" where
  "row_agg = (\<lambda>(k, e, l) a. a\<lparr>agg_debit := saturating_add (agg_debit a) (debit_of l),
     agg_credit := saturating_add (agg_credit a) (credit_side l),
     agg_dates := (if compact_date (le_date e) \<noteq> [] then List.insert (compact_date (le_date e)) (agg_dates a) else agg_dates a)\<rparr>)"

definition row_start :: "nat \<times> ledger_entry \<times> ledger_line \<Rightarrow> entry_agg" where
  "row_start = (\<lambda>(k, e, l). \<lparr>first_line = min (k + 1) u32_max, agg_journal = journal_code (le_journal e),
     agg_number = show_nat (le_number e), agg_debit = 0, agg_credit = 0, agg_dates = []\<rparr>)"

lemma add_row_upsert: "add_row = (\<lambda>x. upsert (key_of (fst (snd x))) (row_start x) (row_agg x))"
  by (auto simp: fun_eq_iff add_row_def add_to_entry_def key_of_def row_start_def row_agg_def abs_of_nonneg)

lemma row_agg_fold:
  "agg_journal (fold row_agg xs a) = agg_journal a" "agg_number (fold row_agg xs a) = agg_number a"
  "agg_debit (fold row_agg xs a) = fold (\<lambda>x acc. saturating_add acc (debit_of (snd (snd x)))) xs (agg_debit a)"
  "agg_credit (fold row_agg xs a) = fold (\<lambda>x acc. saturating_add acc (credit_side (snd (snd x)))) xs (agg_credit a)"
  by (induction xs arbitrary: a) (auto simp: row_agg_def)

lemma row_agg_dates:
  "\<forall>x \<in> set xs. compact_date (le_date (fst (snd x))) = d \<Longrightarrow> set (agg_dates a) \<subseteq> {d} \<Longrightarrow> distinct (agg_dates a) \<Longrightarrow>
     length (agg_dates (fold row_agg xs a)) \<le> 1"
proof (induction xs arbitrary: a)
  case Nil
  then have "card (set (agg_dates a)) \<le> 1" using card_mono [of "{d}"] by simp
  with Nil show ?case by (simp add: distinct_card)
next
  case (Cons x xs)
  show ?case
    unfolding fold_simps by (rule Cons.IH) (use Cons.prems in \<open>auto simp: row_agg_def split: prod.splits if_splits\<close>)
qed

lemma key_of_inj: "key_of e = key_of e' \<longleftrightarrow> le_journal e = le_journal e' \<and> le_number e = le_number e'"
proof -
  have "journal_code j = journal_code j' \<longleftrightarrow> j = j'" for j j' by (cases j; cases j') simp_all
  moreover have "show_nat n = show_nat m \<longleftrightarrow> n = m" for n m by (metis nat_of_digits_show_nat)
  ultimately show ?thesis by (simp add: key_of_def)
qed

text \<open>The sums over the rows of some entries.\<close>

lemma rows_filter: "filter (\<lambda>x. P (fst x)) (rows es) = rows (filter P es)"
proof -
  have "filter (\<lambda>x. P (fst x)) (map (Pair e) ls) = (if P e then map (Pair e) ls else [])" for e and ls :: "ledger_line list"
    by (induction ls) auto
  then show ?thesis by (induction es) (simp_all add: rows_def)
qed

lemma sum_sides: "sum_list (map debit_of ls) - sum_list (map credit_side ls) = sum_list (map ll_amount ls)"
  by (induction ls) (auto simp: debit_of_def credit_side_def)

lemma file_rows_sum: "sum_list (map (\<lambda>x. g (snd x)) (rows es)) = sum_list (map (\<lambda>e. sum_list (map g (le_lines e))) es)"
  by (induction es) (simp_all add: rows_def o_def)

lemma rows_balanced:
  assumes "\<forall>e \<in> set es. is_balanced e"
  shows "sum_list (map (\<lambda>x. debit_of (snd x)) (rows es)) = sum_list (map (\<lambda>x. credit_side (snd x)) (rows es))"
proof -
  have "sum_list (map debit_of (le_lines e)) = sum_list (map credit_side (le_lines e))" if "e \<in> set es" for e
    using assms that sum_sides [of "le_lines e"] by (simp add: is_balanced_def)
  then have "map (\<lambda>e. sum_list (map debit_of (le_lines e))) es = map (\<lambda>e. sum_list (map credit_side (le_lines e))) es"
    by (rule map_cong [OF refl])
  then show ?thesis by (simp only: file_rows_sum)
qed

lemma rows_debit: "sum_list (map (\<lambda>x. debit_of (snd x)) (rows (fec_entries f))) = fec_total_debit f"
proof -
  have "sum_list (map debit_of ls) = sum_list (map ll_amount (filter (\<lambda>l. \<not> ll_amount l < 0) ls))" for ls
    by (induction ls) (auto simp: debit_of_def)
  then show ?thesis by (simp add: file_rows_sum fec_total_debit_def entry_total_debit_def [abs_def])
qed

lemma filter_enumerate: "map snd (filter (\<lambda>x. P (snd x)) (enumerate k xs)) = filter P xs"
  by (induction xs arbitrary: k) auto

lemma sum_filter_le: "\<forall>x \<in> set xs. 0 \<le> (g x :: int) \<Longrightarrow> sum_list (map g (filter P xs)) \<le> sum_list (map g xs)"
  by (induction xs) auto


definition numbered :: "ledger_entry list \<Rightarrow> bool" where
  "numbered es \<longleftrightarrow> (\<forall>j \<in> {Opening, Sales, Purchases, Bank, Misc}.
     let ns = map le_number (filter (\<lambda>e. le_journal e = j) es) in ns = [1 ..< 1 + length ns])"

lemma numbered_journal:
  assumes "numbered es"
  shows "map le_number (filter (\<lambda>e. le_journal e = j) es) = [1 ..< 1 + length (filter (\<lambda>e. le_journal e = j) es)]"
proof -
  have "j \<in> {Opening, Sales, Purchases, Bank, Misc}" by (cases j) simp_all
  with assms show ?thesis unfolding numbered_def Let_def length_map by blast
qed

lemma numbered_keys:
  assumes "numbered es" "e \<in> set es" "e' \<in> set es" "key_of e = key_of e'"
  shows "e = e'"
proof -
  let ?es = "filter (\<lambda>x. le_journal x = le_journal e) es"
  have "distinct (map le_number ?es)" unfolding numbered_journal [OF assms(1)] by simp
  then have "inj_on le_number (set ?es)" by (simp add: distinct_map)
  moreover have "e \<in> set ?es" "e' \<in> set ?es" "le_number e = le_number e'"
    using assms by (auto simp: key_of_inj)
  ultimately show ?thesis by (simp add: inj_on_def)
qed

definition aggregated :: "ledger_entry list \<Rightarrow> ((string \<times> string) \<times> entry_agg) list" where
  "aggregated es = fold add_row (enumerate 1 (rows es)) []"

lemma aggregated_upsert:
  "aggregated es = fold (\<lambda>x. upsert (key_of (fst (snd x))) (row_start x) (row_agg x)) (enumerate 1 (rows es)) []"
  by (simp add: aggregated_def add_row_upsert)

lemma rows_mem: "x \<in> set (rows es) \<longleftrightarrow> fst x \<in> set es \<and> snd x \<in> set (le_lines (fst x))"
  by (cases x) (auto simp: rows_def)

lemma aggregated_entry:
  assumes "numbered es" "\<forall>e \<in> set es. is_balanced e"
    and fits: "sum_list (map (\<lambda>x. debit_of (snd x)) (rows es)) < 2 ^ 63"
    and mem: "(key, a) \<in> set (aggregated es)"
  shows "\<exists>e \<in> set es. key = key_of e" "agg_journal a = fst key" "agg_number a = snd key"
    "agg_debit a = agg_credit a" "length (agg_dates a) \<le> 1"
proof -
  let ?xs = "filter (\<lambda>x. key_of (fst (snd x)) = key) (enumerate 1 (rows es))"
  let ?rs = "filter (\<lambda>x. key_of (fst x) = key) (rows es)"
  have "map_of (aggregated es) key = Some a"
    unfolding aggregated_upsert
    by (rule map_of_is_SomeI [OF strict_sorted_distinct [OF tree.ok_built]]) (use mem in \<open>simp add: aggregated_upsert\<close>)
  then obtain y ys where y: "?xs = y # ys" and a: "a = fold row_agg (y # ys) (row_start y)"
    unfolding aggregated_upsert tree.lookup_built by (auto split: list.splits)
  have snd_xs: "map snd ?xs = ?rs" by (rule filter_enumerate)
  have "snd y \<in> set ?rs" using y snd_xs by (metis list.set_intros(1) list.set_map image_eqI)
  then have e: "fst (snd y) \<in> set es" "key = key_of (fst (snd y))" by (auto simp: rows_mem)
  then show "\<exists>e \<in> set es. key = key_of e" by blast
  have start: "agg_journal (row_start y) = fst key" "agg_number (row_start y) = snd key"
    "agg_debit (row_start y) = 0" "agg_credit (row_start y) = 0" "agg_dates (row_start y) = []"
    unfolding e(2) by (simp_all add: row_start_def key_of_def split: prod.split)
  then show "agg_journal a = fst key" "agg_number a = snd key" by (simp_all only: a row_agg_fold)
  have bal: "sum_list (map (\<lambda>x. debit_of (snd x)) ?rs) = sum_list (map (\<lambda>x. credit_side (snd x)) ?rs)"
    unfolding rows_filter [of "\<lambda>e. key_of e = key"] using assms(2) by (intro rows_balanced) auto
  have le: "sum_list (map (\<lambda>x. debit_of (snd x)) ?rs) < 2 ^ 63"
    using sum_filter_le [of "rows es" "\<lambda>x. debit_of (snd x)" "\<lambda>x. key_of (fst x) = key"] fits by simp
  have sums: "sum_list (map (\<lambda>x. g (snd (snd x))) (y # ys)) = sum_list (map (\<lambda>x. g (snd x)) ?rs)" for g :: "ledger_line \<Rightarrow> int"
    unfolding snd_xs [symmetric] y map_map o_def by (rule refl)
  have "agg_debit a = 0 + sum_list (map (\<lambda>x. debit_of (snd (snd x))) (y # ys))"
    unfolding a row_agg_fold start by (rule saturating_sum) (use le sums [of debit_of] in simp_all)
  moreover have "agg_credit a = 0 + sum_list (map (\<lambda>x. credit_side (snd (snd x))) (y # ys))"
    unfolding a row_agg_fold start by (rule saturating_sum) (use le bal sums [of credit_side] in simp_all)
  ultimately show "agg_debit a = agg_credit a" using sums [of debit_of] sums [of credit_side] bal by (simp only:)
  have "fst (snd x) = fst (snd y)" if "x \<in> set (y # ys)" for x
  proof -
    have "snd x \<in> set ?rs" using that y snd_xs by (metis list.set_map image_eqI)
    then have "fst (snd x) \<in> set es" "key_of (fst (snd x)) = key" by (auto simp: rows_mem)
    then show ?thesis using numbered_keys [OF assms(1) _ e(1)] e(2) by simp
  qed
  then have "\<forall>x \<in> set (y # ys). compact_date (le_date (fst (snd x))) = compact_date (le_date (fst (snd y)))"
    by metis
  then show "length (agg_dates a) \<le> 1"
    unfolding a by (rule row_agg_dates) (simp_all only: start, simp_all)
qed

lemma aggregated_keys: "\<forall>e \<in> set es. le_lines e \<noteq> [] \<Longrightarrow> fst ` set (aggregated es) = key_of ` set es"
proof -
  have keys: "fst ` set (fold (\<lambda>x. upsert (key_of (fst (snd x))) (row_start x) (row_agg x)) xs m)
      = fst ` set m \<union> (\<lambda>x. key_of (fst (snd x))) ` set xs" for xs m
    by (induction xs arbitrary: m) (auto simp: upsert_keys)
  have "(\<lambda>x. key_of (fst (snd x))) ` set (enumerate 1 (rows es)) = (\<lambda>x. key_of (fst x)) ` set (map snd (enumerate 1 (rows es)))"
    by (simp only: set_map image_image)
  also have "\<dots> = (\<lambda>x. key_of (fst x)) ` set (rows es)" by simp
  also assume ne: "\<forall>e \<in> set es. le_lines e \<noteq> []"
  have "(\<lambda>x. key_of (fst x)) ` set (rows es) = key_of ` set es"
  proof
    show "key_of ` set es \<subseteq> (\<lambda>x. key_of (fst x)) ` set (rows es)"
    proof
      fix k assume "k \<in> key_of ` set es"
      then obtain e where "e \<in> set es" "k = key_of e" by blast
      with ne have "(e, hd (le_lines e)) \<in> set (rows es)" by (simp add: rows_mem)
      with \<open>k = key_of e\<close> show "k \<in> (\<lambda>x. key_of (fst x)) ` set (rows es)" by force
    qed
  qed (auto simp: rows_mem)
  finally show ?thesis by (simp add: aggregated_upsert keys)
qed

section \<open>The numbering\<close>

lemma dedup_distinct: "distinct (map fst xs) \<Longrightarrow> dedup_by_key xs = xs"
  by (induction xs rule: dedup_by_key.induct) auto

lemma no_gap: "map fst xs = [i + 1 ..< i + 1 + length xs] \<Longrightarrow> i + length xs \<le> u32_max \<Longrightarrow> numbering_gap j i xs = []"
proof (induction xs arbitrary: i)
  case (Cons x xs)
  obtain n l where x: "x = (n, l)" by (cases x)
  from Cons.prems(1) have n: "n = i + 1" and t: "map fst xs = [i + 2 ..< i + 2 + length xs]"
    by (simp_all add: x upt_conv_Cons del: upt_Suc)
  have "numbering_gap j (i + 1) xs = []" by (rule Cons.IH) (use t Cons.prems(2) in simp_all)
  then show ?case using Cons.prems(2) by (simp add: x n)
qed simp

lemma parsed_numbers:
  "\<forall>x \<in> set xs. \<exists>k \<le> u32_max. fst x = show_nat k \<Longrightarrow>
     those (map (\<lambda>(n, l). map_option (\<lambda>v. (v, l)) (parse_u32 n)) xs) = Some (map (\<lambda>(n, l). (nat_of_digits n, l)) xs)"
proof (induction xs)
  case (Cons x xs)
  then obtain k where k: "k \<le> u32_max" "fst x = show_nat k" by auto
  have "parse_u32 (show_nat k) = Some k"
    using parse_u32_show [OF k(1)] by (simp add: trim_plain plain_digits)
  with k Cons show ?case by (cases x) simp
qed simp

lemma fold_snoc: "fold (\<lambda>a v. v @ [g a]) xs v = v @ map g xs"
  by (induction xs arbitrary: v) simp_all

lemma sort_numbers:
  assumes "distinct (map fst xs)" "set (map fst xs) = {1 ..< 1 + k}"
  shows "map fst (sort_key fst xs) = [1 ..< 1 + k :: nat]"
proof (rule sorted_distinct_set_unique)
  show "distinct (map fst (sort_key fst xs))" using assms(1) by (simp add: distinct_map)
  show "set (map fst (sort_key fst xs)) = set [1 ..< 1 + k]" using assms(2) by (simp only: set_map set_sort set_upt)
qed (simp_all del: upt_Suc)

definition journal_map :: "((string \<times> string) \<times> entry_agg) list \<Rightarrow> (string \<times> (string \<times> nat) list) list" where
  "journal_map m = fold (\<lambda>a. upsert (agg_journal a) [] (\<lambda>v. v @ [(agg_number a, first_line a)])) (map snd m) []"

lemma journal_map_entry:
  assumes "(c, nums) \<in> set (journal_map m)"
  shows "nums = map (\<lambda>a. (agg_number a, first_line a)) (filter (\<lambda>a. agg_journal a = c) (map snd m))" "nums \<noteq> []"
proof -
  have "map_of (journal_map m) c = Some nums"
    unfolding journal_map_def
    by (rule map_of_is_SomeI [OF strict_sorted_distinct [OF tree.ok_built]]) (use assms in \<open>simp add: journal_map_def\<close>)
  then show "nums = map (\<lambda>a. (agg_number a, first_line a)) (filter (\<lambda>a. agg_journal a = c) (map snd m))" "nums \<noteq> []"
    unfolding journal_map_def tree.lookup_built by (auto simp: fold_snoc split: list.splits)
qed

text \<open>The numbers of a journal, as its entries of the file give them.\<close>

lemma journal_numbers:
  assumes "numbered es" "\<forall>e \<in> set es. le_lines e \<noteq> []"
    and parts: "\<forall>(key, a) \<in> set (aggregated es). agg_journal a = fst key \<and> agg_number a = snd key"
  defines "ns \<equiv> \<lambda>j. map (\<lambda>a. nat_of_digits (agg_number a)) (filter (\<lambda>a. agg_journal a = journal_code j) (map snd (aggregated es)))"
  shows "distinct (ns j)" "set (ns j) = set (map le_number (filter (\<lambda>e. le_journal e = j) es))"
proof -
  let ?m = "filter (\<lambda>x. fst (fst x) = journal_code j) (aggregated es)"
  have ns: "ns j = map (\<lambda>x. nat_of_digits (snd (fst x))) ?m"
  proof -
    have "\<forall>(key, a) \<in> set xs. agg_journal a = fst key \<and> agg_number a = snd key \<Longrightarrow>
      map (\<lambda>a. nat_of_digits (agg_number a)) (filter (\<lambda>a. agg_journal a = c) (map snd xs))
        = map (\<lambda>x. nat_of_digits (snd (fst x))) (filter (\<lambda>x. fst (fst x) = c) xs)" for xs c
      by (induction xs) auto
    from this [OF parts] show ?thesis by (simp add: ns_def)
  qed
  have code: "journal_code i = journal_code j \<longleftrightarrow> i = j" for i by (cases i; cases j) simp_all
  have keys: "fst ` set (aggregated es) = key_of ` set es" by (rule aggregated_keys [OF assms(2)])
  have k: "fst x \<in> key_of ` set es" if "x \<in> set ?m" for x using that keys by auto
  have "distinct (map fst (aggregated es))"
    unfolding aggregated_upsert by (rule strict_sorted_distinct [OF tree.ok_built])
  then have d: "distinct (map fst ?m)" by (simp add: distinct_map_filter)
  have "inj_on (\<lambda>k. nat_of_digits (snd k)) (fst ` set ?m)"
  proof (rule inj_onI)
    fix k k' assume "k \<in> fst ` set ?m" "k' \<in> fst ` set ?m" and eq: "nat_of_digits (snd k) = nat_of_digits (snd k')"
    then obtain x x' where "x \<in> set ?m" "k = fst x" "x' \<in> set ?m" "k' = fst x'" by blast
    then have "fst k = fst k'" by auto
    moreover have "\<exists>e. k = key_of e" "\<exists>e. k' = key_of e" using \<open>k \<in> _\<close> \<open>k' \<in> _\<close> k by blast+
    ultimately show "k = k'" using eq by (auto simp: key_of_def)
  qed
  with d have "distinct (map (\<lambda>k. nat_of_digits (snd k)) (map fst ?m))" by (simp only: distinct_map set_map)
  then show "distinct (ns j)" by (simp add: ns o_def)
  have "set (ns j) = (\<lambda>k. nat_of_digits (snd k)) ` {k \<in> fst ` set (aggregated es). fst k = journal_code j}"
  proof -
    have "(\<lambda>x. h (fst x)) ` set (filter (\<lambda>x. Q (fst x)) xs) = h ` {k \<in> fst ` set xs. Q k}"
      for h :: "string \<times> string \<Rightarrow> nat" and Q and xs :: "((string \<times> string) \<times> entry_agg) list"
      by force
    from this [of "\<lambda>k. nat_of_digits (snd k)" "\<lambda>k. fst k = journal_code j"] show ?thesis by (simp only: ns set_map)
  qed
  also have "\<dots> = le_number ` {e \<in> set es. le_journal e = j}"
    unfolding keys by (auto simp: key_of_def code image_iff) force
  finally show "set (ns j) = set (map le_number (filter (\<lambda>e. le_journal e = j) es))" by simp
qed

lemma numbering_checked:
  assumes "numbered es" "\<forall>e \<in> set es. le_lines e \<noteq> []" "length es \<le> u32_max"
    and parts: "\<forall>(key, a) \<in> set (aggregated es). agg_journal a = fst key \<and> agg_number a = snd key"
  shows "check_numbering (aggregated es) = []"
proof -
  have "(case those (map (\<lambda>(n, l). map_option (\<lambda>v. (v, l)) (parse_u32 n)) nums) of None \<Rightarrow> []
         | Some parsed \<Rightarrow> numbering_gap c 0 (dedup_by_key (sort_key fst parsed))) = []"
    if mem: "(c, nums) \<in> set (journal_map (aggregated es))" for c nums
  proof -
    let ?as = "\<lambda>c. filter (\<lambda>a. agg_journal a = c) (map snd (aggregated es))"
    note n = journal_map_entry [OF mem]
    have agg: "\<exists>e \<in> set es. agg_journal a = journal_code (le_journal e) \<and> agg_number a = show_nat (le_number e)"
      if a: "a \<in> set (map snd (aggregated es))" for a
    proof -
      obtain key where key: "(key, a) \<in> set (aggregated es)" using a by auto
      then have "key \<in> fst ` set (aggregated es)" by (metis fst_conv image_eqI)
      then obtain e where "e \<in> set es" "key = key_of e" unfolding aggregated_keys [OF assms(2)] by blast
      moreover have "agg_journal a = fst key" "agg_number a = snd key" using parts key by auto
      ultimately show ?thesis by (auto simp: key_of_def)
    qed
    obtain a where a: "a \<in> set (?as c)" using n by (cases "?as c") auto
    with agg obtain j where c: "c = journal_code j" by fastforce
    let ?p = "map (\<lambda>(n, l). (nat_of_digits n, l)) nums" and ?k = "length (filter (\<lambda>e. le_journal e = j) es)"
    have k: "?k \<le> u32_max" using assms(3) length_filter_le [of "\<lambda>e. le_journal e = j" es] by linarith
    have nos: "map fst ?p = map (\<lambda>a. nat_of_digits (agg_number a)) (?as (journal_code j))"
      unfolding n(1) c by (simp add: o_def case_prod_unfold)
    have set: "set (map fst ?p) = {1 ..< 1 + ?k}" and dist: "distinct (map fst ?p)"
      using journal_numbers [OF assms(1,2) parts, of j] numbered_journal [OF assms(1), of j]
      unfolding nos by (simp_all only: set_upt)
    have "\<exists>i \<le> u32_max. fst x = show_nat i" if x: "x \<in> set nums" for x
    proof -
      have "nat_of_digits (fst x) \<in> set (map fst ?p)"
        using x by (simp only: map_map set_map) (rule image_eqI [of _ _ x]; simp add: case_prod_unfold)
      then have "nat_of_digits (fst x) \<le> u32_max" using set k by simp
      moreover obtain b where "b \<in> set (map snd (aggregated es))" "fst x = agg_number b"
      proof -
        have "x \<in> (\<lambda>a. (agg_number a, first_line a)) ` set (?as c)" using x unfolding n(1) by simp
        then obtain b where "b \<in> set (?as c)" "x = (agg_number b, first_line b)" by blast
        then show thesis by (intro that [of b]) simp_all
      qed
      ultimately show ?thesis using agg by fastforce
    qed
    then have those: "those (map (\<lambda>(n, l). map_option (\<lambda>v. (v, l)) (parse_u32 n)) nums) = Some ?p"
      by (intro parsed_numbers) blast
    let ?q = "sort_key fst ?p"
    have q: "map fst ?q = [1 ..< 1 + ?k]" by (rule sort_numbers [OF dist set])
    then have l: "length ?q = ?k" by (metis add_diff_cancel_left' length_map length_upt)
    have "dedup_by_key ?q = ?q" by (rule dedup_distinct) (simp only: q distinct_upt)
    moreover have "numbering_gap c 0 ?q = []" by (rule no_gap) (use q l k in simp_all)
    ultimately show ?thesis by (simp only: those option.case)
  qed
  then show ?thesis
    unfolding check_numbering_def Let_def journal_map_def [symmetric] by (auto simp: concat_eq_Nil_conv)
qed


section \<open>A rendered file passes its own check\<close>

text \<open>The files the check has nothing to say about, by their entries: complete texts, dates of the
  period, balanced entries in date order, numbered from 1 in each journal, totals in range.\<close>

definition clean_fec :: "fec \<Rightarrow> bool" where
  "clean_fec f \<longleftrightarrow> valid_siren (fec_siren f) \<and> fec_date (fy_end (fec_exercise f))
     \<and> fec_entries f \<noteq> [] \<and> list_all clean_entry (fec_entries f)
     \<and> sorted (map le_date (fec_entries f)) \<and> numbered (fec_entries f)
     \<and> int (length (fec_entries f)) < 2 ^ 32 \<and> fec_total_debit f < 2 ^ 63"

lemma rows_sorted: "sorted (map le_date es) \<Longrightarrow> sorted (map (le_date \<circ> fst) (rows es))"
proof (induction es)
  case (Cons e es)
  have "sorted (map ((\<lambda>x. le_date (fst x)) \<circ> Pair e) ls)" for ls :: "ledger_line list"
    by (induction ls) auto
  then show ?case using Cons by (auto simp: rows_def sorted_append)
qed (simp add: rows_def)

lemma clean_rows:
  assumes "clean_fec f"
  shows "\<forall>x \<in> set (rows (fec_entries f)). good_row x" "rows (fec_entries f) \<noteq> []"
    "sum_list (map (\<lambda>x. credit_side (snd x)) (rows (fec_entries f))) = fec_total_debit f"
proof -
  let ?rs = "rows (fec_entries f)"
  have bal: "\<forall>e \<in> set (fec_entries f). is_balanced e"
    using assms by (auto simp: clean_fec_def clean_entry_def list_all_iff)
  then show credit: "sum_list (map (\<lambda>x. credit_side (snd x)) ?rs) = fec_total_debit f"
    using rows_balanced [of "fec_entries f"] rows_debit [of f] by simp
  have fits: "in_i64 (g (snd x))"
    if "x \<in> set ?rs" "\<And>l. 0 \<le> g l" "sum_list (map (\<lambda>x. g (snd x)) ?rs) < 2 ^ 63" for x g
  proof -
    have "g (snd x) \<le> sum_list (map (\<lambda>x. g (snd x)) ?rs)"
      using that(1,2) by (intro member_le_sum_list) auto
    then show ?thesis using that(2) [of "snd x"] that(3) by (simp add: in_i64_def)
  qed
  have "fec_total_debit f < 2 ^ 63" using assms by (simp add: clean_fec_def)
  then show "\<forall>x \<in> set ?rs. good_row x"
    using fits [of _ debit_of] fits [of _ credit_side] credit rows_debit [of f] assms
    by (auto simp: good_row_def rows_mem clean_fec_def list_all_iff)
  obtain e where "e \<in> set (fec_entries f)" "le_lines e \<noteq> []"
    using assms by (cases "fec_entries f") (auto simp: clean_fec_def clean_entry_def)
  then have "(e, hd (le_lines e)) \<in> set ?rs" by (simp add: rows_mem)
  then show "?rs \<noteq> []" by (metis empty_iff list.set(1))
qed

lemma clean_aggregates:
  assumes "clean_fec f"
  shows "concat (map (entry_findings \<circ> snd) (aggregated (fec_entries f))) = []"
    "check_numbering (aggregated (fec_entries f)) = []"
proof -
  let ?es = "fec_entries f"
  have c: "numbered ?es" "\<forall>e \<in> set ?es. is_balanced e" "\<forall>e \<in> set ?es. le_lines e \<noteq> []" "length ?es \<le> u32_max"
    "sum_list (map (\<lambda>x. debit_of (snd x)) (rows ?es)) < 2 ^ 63"
    using assms rows_debit [of f] by (auto simp: clean_fec_def clean_entry_def list_all_iff u32_max_def)
  note entry = aggregated_entry [OF c(1,2,5)]
  have "entry_findings a = []" if "(key, a) \<in> set (aggregated ?es)" for key a
    using entry(4,5) [OF that] by (simp add: entry_findings_def)
  then show "concat (map (entry_findings \<circ> snd) (aggregated ?es)) = []" by (auto simp: concat_eq_Nil_conv)
  show "check_numbering (aggregated ?es) = []"
    by (rule numbering_checked [OF c(1,3,4)]) (use entry(2,3) in auto)
qed

lemma clean_checked:
  assumes "time_crate T" "clean_fec f"
  shows "fec_self_check T f = finish (Some (file_name f)) ''utf-8'' [SEPARATOR]
    (length (rows (fec_entries f))) (fec_total_debit f) (fec_total_debit f) []"
proof -
  let ?rs = "rows (fec_entries f)"
  let ?start = "\<lparr>s_findings = [], s_debit = 0, s_credit = 0, s_lines = 0, s_entries = [], s_last = None\<rparr>"
  note r = clean_rows [OF assms(2)]
  have sums: "fold (\<lambda>x acc. saturating_add acc (debit_of (snd x))) ?rs 0 = fec_total_debit f"
    "fold (\<lambda>x acc. saturating_add acc (credit_side (snd x))) ?rs 0 = fec_total_debit f"
    using saturating_sum [of ?rs "\<lambda>x. debit_of (snd x)" 0] saturating_sum [of ?rs "\<lambda>x. credit_side (snd x)" 0]
      r(3) rows_debit [of f] assms(2) by (simp_all add: clean_fec_def)
  have loop: "fold (check_record T HEADER SEPARATOR) (enumerate 1 (map row_text ?rs)) ?start =
      ?start\<lparr>s_lines := length ?rs, s_debit := fec_total_debit f, s_credit := fec_total_debit f,
        s_last := Some (le_date (fst (List.last ?rs))), s_entries := aggregated (fec_entries f)\<rparr>"
    using check_rows [OF assms(1) r(1), of ?start 1] rows_sorted assms(2) r(2)
    by (simp add: clean_fec_def sums aggregated_def)
  have n: "check_name T (file_name f) = []" "path_file_name (file_name f) = Some (file_name f)"
    using assms(2) by (simp_all add: clean_fec_def name_checked [OF assms(1)])
  have sep: "SEPARATOR \<noteq> CHR '';''" "SEPARATOR \<noteq> CHR '',''" by (simp_all add: SEPARATOR_def)
  show ?thesis
    unfolding fec_self_check_def check_text_def Let_def lines_of_render records_kept
    using sep n r(2) clean_aggregates [OF assms(2)]
    by (simp add: header_separator header_split header_checked loop [simplified] del: concat_eq_Nil_conv)
qed


lemma length_rows: "length (rows es) = sum_list (map (\<lambda>e. length (le_lines e)) es)"
  by (induction es) (simp_all add: rows_def)

lemma rows_credit: "sum_list (map (\<lambda>x. credit_side (snd x)) (rows (fec_entries f))) = fec_total_credit f"
proof -
  have "sum_list (map credit_side ls) = sum_list (map (\<lambda>x. - ll_amount x) (filter (\<lambda>x. ll_amount x < 0) ls))" for ls
    by (induction ls) (auto simp: credit_side_def)
  moreover have "sum_list (map (\<lambda>e. sum_list (map credit_side (le_lines e))) es)
      = sum_list (map credit_side (concat (map le_lines es)))" for es
    by (induction es) simp_all
  ultimately show ?thesis by (simp add: file_rows_sum fec_total_credit_def)
qed

definition sample_siren :: siren where
  "sample_siren = Siren [7, 3, 2, 8, 2, 9, 3, 2, 0]"

lemma sample_clean:
  "case build gregorian (sample_facts [sample_sale]) of
     Some (Inr l) \<Rightarrow> clean_fec (from_ledger sample_siren l) | _ \<Rightarrow> False"
  by code_simp

text \<open>C28: A FEC whose texts are complete and whose entries balance, in date order and numbered without
  gap, passes the program's own check of the file it renders: no finding, conformant, and the check
  reads from the text the lines and totals of the summary.\<close>

theorem rendered_file_conforms:
  assumes "time_crate T" "clean_fec f"
  shows "findings (fec_self_check T f) = [] \<and> is_conformant (fec_self_check T f)
    \<and> lines (fec_self_check T f) = sum_lines (summary f)
    \<and> check_total_debit (fec_self_check T f) = sum_total_debit_cents (summary f)
    \<and> check_total_credit (fec_self_check T f) = sum_total_credit_cents (summary f)"
  using clean_rows(2) [OF assms(2), folded length_greater_0_conv] clean_rows(3) [OF assms(2)] rows_credit [of f]
    length_rows [of "fec_entries f"]
  by (simp add: clean_checked [OF assms] finish_def is_conformant_def summary_def)

theorem rendered_file_conforms_witness:
  "\<exists>l. build gregorian (sample_facts [sample_sale]) = Some (Inr l)
     \<and> findings (fec_self_check gregorian (from_ledger sample_siren l)) = []
     \<and> is_conformant (fec_self_check gregorian (from_ledger sample_siren l))"
proof -
  obtain l where "build gregorian (sample_facts [sample_sale]) = Some (Inr l)" "clean_fec (from_ledger sample_siren l)"
    using sample_clean by (auto split: option.splits sum.splits)
  then show ?thesis using rendered_file_conforms [OF gregorian.time_crate_axioms] by blast
qed

text \<open>C29: The file reads back: cut into lines and fields, the text of a FEC gives the header and the
  eighteen sanitized fields of every line of every entry, whatever characters the texts hold.\<close>

theorem rendered_file_reads_back:
  "map (\<lambda>l. split_record l SEPARATOR) (text_lines (unify_newlines (render f)))
     = HEADER # concat (map (\<lambda>e. map (\<lambda>l. map sanitize (line_fields e l)) (le_lines e)) (fec_entries f))"
  unfolding lines_of_render
  by (simp add: header_split row_text_def split_row [unfolded row_def] o_def rows_def map_concat row_def)

section \<open>What a conformant file holds\<close>

definition error_free :: "fec_finding list \<Rightarrow> bool" where
  "error_free fs \<longleftrightarrow> (\<forall>f \<in> set fs. severity f \<noteq> Error)"

lemma error_free_simps [simp]:
  "error_free []" "error_free (xs @ ys) \<longleftrightarrow> error_free xs \<and> error_free ys"
  "error_free (x # xs) \<longleftrightarrow> severity x \<noteq> Error \<and> error_free xs"
  "severity (finding s l c m) = s" "severity (file_error m) = Error"
  by (auto simp: error_free_def finding_def file_error_def)

lemma date_step_keeps:
  "error_free (fst (date_step T n get col st)) \<Longrightarrow>
     error_free (fst st) \<and> (get col \<noteq> [] \<longrightarrow> parse_fec_date T (get col) \<noteq> InvalidDate)"
  by (cases st) (auto simp: Let_def split: if_splits date_parse.splits option.splits)

lemma date_steps_keep:
  "error_free (fst (fold (date_step T n get) cols st)) \<Longrightarrow>
     error_free (fst st) \<and> (\<forall>col \<in> set cols. get col \<noteq> [] \<longrightarrow> parse_fec_date T (get col) \<noteq> InvalidDate)"
proof (induction cols arbitrary: st)
  case (Cons col cols)
  have "error_free (fst (date_step T n get col st)) \<and> (\<forall>c \<in> set cols. get c \<noteq> [] \<longrightarrow> parse_fec_date T (get c) \<noteq> InvalidDate)"
    using Cons.prems by (intro Cons.IH) (simp del: date_step.simps)
  with date_step_keeps [of T n get col st] show ?case by (simp del: date_step.simps)
qed simp

text \<open>A line the decree accepts, under the names of the header.\<close>

definition sound_record :: "time_api \<Rightarrow> string list \<Rightarrow> char \<Rightarrow> string \<Rightarrow> bool" where
  "sound_record T names sep r \<longleftrightarrow>
     (let fs = split_record r sep; get = get_field names fs
      in trim r \<noteq> [] \<and> length HEADER \<le> length fs \<and> length fs \<le> length names
         \<and> (\<forall>col \<in> set REQUIRED. get col \<noteq> [])
         \<and> (\<forall>col \<in> set DATE_COLUMNS.
              get col \<noteq> [] \<longrightarrow> parse_fec_date T (get col) \<noteq> InvalidDate)
         \<and> (\<exists>d. parse_fec_amount (get ''Debit'') = Inr d) \<and> (\<exists>c. parse_fec_amount (get ''Credit'') = Inr c))"

lemma required_errors: "error_free (required_findings n get) \<Longrightarrow> \<forall>col \<in> set REQUIRED. get col \<noteq> []"
  unfolding required_findings_def error_free_def by (force simp: finding_def)

lemma amount_errors: "error_free (fst (amount_or_zero n col raw)) \<Longrightarrow> \<exists>v. parse_fec_amount raw = Inr v"
  by (auto simp: amount_or_zero_def split: sum.splits)

lemma check_fields_findings:
  "s_findings (check_fields T names n fs s) =
     fst (fold (date_step T n (get_field names fs)) DATE_COLUMNS
       (s_findings s @ width_findings n names fs @ required_findings n (get_field names fs) @ account_findings n (get_field names fs), s_last s))
     @ fst (amount_or_zero n ''Debit'' (get_field names fs ''Debit''))
     @ fst (amount_or_zero n ''Credit'' (get_field names fs ''Credit''))
     @ side_findings n (snd (amount_or_zero n ''Debit'' (get_field names fs ''Debit'')))
         (snd (amount_or_zero n ''Credit'' (get_field names fs ''Credit'')))"
  by (simp add: check_fields_def Let_def split: prod.split)

lemma check_record_sound:
  assumes "error_free (s_findings (check_record T names sep (k, r) s))"
  shows "error_free (s_findings s)" "sound_record T names sep r"
proof -
  let ?n = "min (k + 1) u32_max" and ?fs = "split_record r sep"
  let ?get = "get_field names ?fs"
  let ?st = "(s_findings s @ width_findings ?n names ?fs @ required_findings ?n ?get @ account_findings ?n ?get, s_last s)"
  have r: "trim r \<noteq> []" and l: "\<not> length ?fs < length HEADER"
    using assms by (auto simp: check_record_def Let_def split: if_splits)
  then have "error_free (s_findings (check_fields T names ?n ?fs (s\<lparr>s_lines := s_lines s + 1\<rparr>)))"
    using assms by (simp add: check_record_def Let_def)
  then have free: "error_free (fst (fold (date_step T ?n ?get) DATE_COLUMNS ?st))"
    "error_free (fst (amount_or_zero ?n ''Debit'' (?get ''Debit'')))" "error_free (fst (amount_or_zero ?n ''Credit'' (?get ''Credit'')))"
    unfolding check_fields_findings by simp_all
  note st = date_steps_keep [OF free(1)]
  then show "error_free (s_findings s)" by simp
  have "length ?fs \<le> length names" using st by (auto simp: width_findings_def split: if_splits)
  moreover have "\<forall>col \<in> set REQUIRED. ?get col \<noteq> []" using st by (intro required_errors [of ?n]) simp
  ultimately show "sound_record T names sep r"
    using r l st amount_errors [OF free(2)] amount_errors [OF free(3)] unfolding sound_record_def Let_def not_less by blast
qed

lemma check_records_sound:
  "error_free (s_findings (fold (check_record T names sep) xs s)) \<Longrightarrow>
     error_free (s_findings s) \<and> (\<forall>x \<in> set xs. sound_record T names sep (snd x))"
proof (induction xs arbitrary: s)
  case (Cons x xs)
  obtain k r where x: "x = (k, r)" by (cases x)
  have "error_free (s_findings (check_record T names sep (k, r) s)) \<and> (\<forall>x \<in> set xs. sound_record T names sep (snd x))"
    using Cons.prems by (intro Cons.IH) (simp add: x)
  with check_record_sound [of T names sep k r s] show ?case by (auto simp: x)
qed simp

lemma check_header_sound:
  assumes "error_free (check_header names)"
  shows "length HEADER \<le> length names \<and> list_all2 same_ignoring_case (take (length HEADER) names) HEADER"
proof -
  have ok: "i < length names \<and> same_ignoring_case (names ! i) (HEADER ! i)" if "i < length HEADER" for i
  proof -
    have "error_free (concat (map g [0..<length HEADER])) \<Longrightarrow> error_free (g i)" for g
      using that by (auto simp: error_free_def)
    from this [OF assms [unfolded check_header_def]] show ?thesis
      by (auto simp: Let_def split: if_splits)
  qed
  have "length HEADER = 18" by (simp add: HEADER_def)
  then have "length HEADER \<le> length names" using ok [of 17] by simp
  with ok show ?thesis by (auto simp: list_all2_conv_all_nth min_def)
qed


lemma check_record_counts: "s_lines (check_record T names sep (k, r) s) = s_lines s + (if trim r = [] then 0 else 1)"
  by (simp add: check_record_def check_fields_def Let_def split: prod.split)

lemma check_records_count:
  "\<forall>x \<in> set xs. trim (snd x) \<noteq> [] \<Longrightarrow> s_lines (fold (check_record T names sep) xs s) = s_lines s + length xs"
proof (induction xs arbitrary: s)
  case (Cons x xs)
  then show ?case using check_record_counts [of T names sep "fst x" "snd x" s] by simp
qed simp

lemma conformant_iff: "is_conformant (finish nm enc sp n d c fs) \<longleftrightarrow> error_free fs \<and> 0 < n"
  by (auto simp: is_conformant_def finish_def error_free_def filter_empty_conv Let_def)

lemma trailing_blanks:
  "\<exists>blank. xs = rev (dropWhile P (rev xs)) @ blank \<and> list_all P blank"
proof -
  have "xs = rev (dropWhile P (rev xs)) @ rev (takeWhile P (rev xs))"
    by (metis rev_append rev_rev_ident takeWhile_dropWhile_id)
  moreover have "list_all P (rev (takeWhile P (rev xs)))"
    by (auto simp: list_all_iff dest: set_takeWhileD)
  ultimately show ?thesis by blast
qed

lemma detected_separators: "detect_separator h = Some (sep, label) \<Longrightarrow> sep \<in> {SEPARATOR, CHR 0x09, CHR '';'', CHR '',''}"
  unfolding detect_separator_def Let_def by (fastforce dest!: max_by_key_in simp del: filter.simps)

text \<open>A text the check finds conformant is one: below a header naming the eighteen columns in order,
  separated by a bar or a tabulation, every line has the eighteen fields, the required ones filled,
  no malformed date and readable amounts; the lines counted are the lines of the file.\<close>

lemma conformant_text_sound:
  assumes "is_conformant (check_text T t enc nm)"
  shows "\<exists>header data blank sep label. text_lines (unify_newlines t) = header # data @ blank
     \<and> list_all (\<lambda>l. trim l = []) blank \<and> data \<noteq> []
     \<and> detect_separator header = Some (sep, label) \<and> (sep = SEPARATOR \<or> sep = CHR 0x09)
     \<and> list_all2 same_ignoring_case (take 18 (split_record header sep)) HEADER
     \<and> list_all (sound_record T (split_record header sep) sep) data
     \<and> lines (check_text T t enc nm) = length data"
proof -
  let ?ls = "text_lines (unify_newlines t)"
  obtain blank where blank: "?ls = rev (dropWhile (\<lambda>l. trim l = []) (rev ?ls)) @ blank" "list_all (\<lambda>l. trim l = []) blank"
    using trailing_blanks by metis
  obtain header data where records: "rev (dropWhile (\<lambda>l. trim l = []) (rev ?ls)) = header # data"
    using assms by (cases "rev (dropWhile (\<lambda>l. trim l = []) (rev ?ls))") (auto simp: check_text_def conformant_iff Let_def)
  obtain sep label where sep: "detect_separator header = Some (sep, label)"
    using assms by (cases "detect_separator header") (auto simp: check_text_def records conformant_iff Let_def)
  let ?names = "split_record header sep"
  let ?start = "\<lambda>fs. \<lparr>s_findings = fs, s_debit = 0, s_credit = 0, s_lines = 0, s_entries = [], s_last = None\<rparr>"
  let ?fs = "(case map_option (\<lambda>n. case path_file_name n of None \<Rightarrow> n | Some f \<Rightarrow> f) nm of None \<Rightarrow> [] | Some n \<Rightarrow> check_name T n)
    @ (if sep = CHR '';'' \<or> sep = CHR '','' then [file_error (''s'' @ e_acute @ ''parateur interdit depuis le 1er janvier 2013 : | ou tabulation attendu'')] else [])
    @ check_header ?names"
  let ?s = "fold (check_record T ?names sep) (enumerate 1 data) (?start ?fs)"
  have "\<exists>nm' d c fnd. check_text T t enc nm = finish nm' enc label (s_lines ?s) d c (s_findings ?s @ fnd)"
    unfolding check_text_def Let_def records list.case sep option.case prod.case by (intro exI) (rule refl)
  then obtain nm' d c fnd where c: "check_text T t enc nm = finish nm' enc label (s_lines ?s) d c (s_findings ?s @ fnd)"
    by blast
  from assms have "error_free (s_findings ?s)" and pos: "0 < s_lines ?s"
    unfolding c conformant_iff error_free_simps by simp_all
  from check_records_sound [OF this(1)]
  have free: "error_free ?fs" "\<forall>x \<in> set (enumerate 1 data). sound_record T ?names sep (snd x)" by simp_all
  have n: "lines (check_text T t enc nm) = s_lines ?s" unfolding c by (simp add: finish_def Let_def)
  have sound: "list_all (sound_record T ?names sep) data"
  proof -
    have "list_all P xs" if "\<forall>x \<in> set (enumerate k xs). P (snd x)" for P k and xs :: "string list"
      using that by (induction xs arbitrary: k) auto
    then show ?thesis using free(2) by blast
  qed
  have H: "length HEADER = 18" by (simp add: HEADER_def)
  have "s_lines ?s = length data"
    using free(2) check_records_count [of "enumerate 1 data" T ?names sep "?start ?fs"]
    by (simp add: sound_record_def Let_def)
  moreover have "list_all2 same_ignoring_case (take 18 ?names) HEADER" "sep \<noteq> CHR '';''" "sep \<noteq> CHR '',''"
    using free(1) check_header_sound [of ?names] H by (auto split: if_splits)
  moreover have "sep = SEPARATOR \<or> sep = CHR 0x09" using calculation(3,4) detected_separators [OF sep] by auto
  ultimately show ?thesis
    using blank records sep sound pos n by (intro exI [of _ header] exI [of _ data] exI [of _ blank]) auto
qed

end
