(* ===== verification/Steps.thy ===== *)
theory Steps
  imports Prelude
begin

text \<open>
  Runs of a labelled step relation, and the two ways the components argue about them: an invariant
  that every step keeps, and a property of labels that every step establishes.
\<close>

inductive run :: "('s \<Rightarrow> 'e \<Rightarrow> 's \<Rightarrow> bool) \<Rightarrow> 's \<Rightarrow> 'e list \<Rightarrow> 's \<Rightarrow> bool"
  for step where
  run_Nil: "run step s [] s"
| run_snoc: "run step s es t \<Longrightarrow> step t e u \<Longrightarrow> run step s (es @ [e]) u"

text \<open>The interface: an invariant of the steps, under which the labels are what they should be.\<close>

locale safe_steps =
  fixes step :: "'s \<Rightarrow> 'e \<Rightarrow> 's \<Rightarrow> bool"
    and inv :: "'s \<Rightarrow> bool"
    and allowed :: "'e \<Rightarrow> bool"
  assumes keeps: "inv s \<Longrightarrow> step s e t \<Longrightarrow> inv t"
    and allows: "inv s \<Longrightarrow> step s e t \<Longrightarrow> allowed e"
begin

lemma run_inv: "run step s es t \<Longrightarrow> inv s \<Longrightarrow> inv t"
  by (induction rule: run.induct) (auto intro: keeps)

lemma run_allowed: "run step s es t \<Longrightarrow> inv s \<Longrightarrow> \<forall>e \<in> set es. allowed e"
proof (induction rule: run.induct)
  case (run_snoc s es t e u)
  then show ?case using allows [OF run_inv] by auto
qed simp

end

text \<open>The interface of what happens at most once: an event that needs a state it leaves for ever.\<close>

locale once_only =
  fixes step :: "'s \<Rightarrow> 'e \<Rightarrow> 's \<Rightarrow> bool"
    and marked :: "'e \<Rightarrow> bool"
    and done_with :: "'s \<Rightarrow> bool"
  assumes marks: "step s e t \<Longrightarrow> marked e \<Longrightarrow> \<not> done_with s \<and> done_with t"
    and stays: "step s e t \<Longrightarrow> done_with s \<Longrightarrow> done_with t"
begin

lemma marked_once: "run step s es t \<Longrightarrow> length (filter marked es) \<le> 1"
proof -
  have "run step s es t \<Longrightarrow> length (filter marked es) \<le> 1 \<and> (filter marked es \<noteq> [] \<longrightarrow> done_with t)"
    by (induction rule: run.induct) (auto dest: marks intro: stays)
  then show "run step s es t \<Longrightarrow> length (filter marked es) \<le> 1" by blast
qed

end

lemma run_append: "run step t fs u \<Longrightarrow> run step s es t \<Longrightarrow> run step s (es @ fs) u"
proof (induction rule: run.induct)
  case (run_snoc t fs u e v)
  then show ?case using run.run_snoc [of step s "es @ fs" u e v] by simp
qed simp

lemma run_single: "step s e t \<Longrightarrow> run step s [e] t"
  using run.run_snoc [of step s "[]" s e t] by (simp add: run.run_Nil)

lemma run_Cons: "step s e t \<Longrightarrow> run step t es u \<Longrightarrow> run step s (e # es) u"
  using run_append [of step t es u s "[e]"] run.run_snoc [of step s "[]" s e t] by (simp add: run.run_Nil)

end
