(* ===== verification/App.thy ===== *)
theory App
  imports Chain Steps
begin

text \<open>
  \<open>app/\<close>: the only way to change the state. A command (\<open>app/command.rs\<close>) is a record of functions;
  the executor (\<open>app/executor.rs\<close>) runs it in one transaction over the business tables and the three
  tables of the application layer, so an error leaves the store as it was: the result is the error or
  the outcome with the new store. SHA-256 and serde are arguments, as is what the environment gives a
  call (the readings of the clock and the identifiers drawn). Disk failures are outside the model.
\<close>

section \<open>Actors and errors\<close>

datatype actor = Human | Agent string | System

fun actor_kind :: "actor \<Rightarrow> string" where
  "actor_kind Human = ''human''"
| "actor_kind (Agent s) = ''agent''"
| "actor_kind System = ''system''"

fun actor_session :: "actor \<Rightarrow> string option" where
  "actor_session (Agent s) = Some s"
| "actor_session Human = None"
| "actor_session System = None"

text \<open>The errors of libraries carry no payload here.\<close>

datatype app_error =
    Store
  | Sqlite
  | Serde
  | TimeFormat
  | PendingActionNotFound string
  | PendingActionKindMismatch string string string
  | PendingActionAlreadyResolved string
  | CommandFailed string
  | Domain string
  | Conflict string string

definition and_then :: "'e + 'a \<Rightarrow> ('a \<Rightarrow> 'e + 'b) \<Rightarrow> 'e + 'b" where
  "and_then r f = (case r of Inl e \<Rightarrow> Inl e | Inr x \<Rightarrow> f x)"

lemma and_then_Inr [simp]: "and_then r f = Inr y \<longleftrightarrow> (\<exists>x. r = Inr x \<and> f x = Inr y)"
  by (simp add: and_then_def split: sum.split)

section \<open>The audit log\<close>

datatype audit_outcome = Applied | AlreadyApplied | PendingConfirmation | Confirmed

fun audit_outcome_as_str :: "audit_outcome \<Rightarrow> string" where
  "audit_outcome_as_str Applied = ''applied''"
| "audit_outcome_as_str AlreadyApplied = ''already_applied''"
| "audit_outcome_as_str PendingConfirmation = ''pending_confirmation''"
| "audit_outcome_as_str Confirmed = ''confirmed''"

record audit_entry =
  au_sequence :: int
  occurred_at :: string
  au_kind :: string
  au_session :: "string option"
  au_command :: string
  au_json :: string
  au_outcome :: string
  au_output :: "string option"
  au_previous :: "string option"
  au_hash :: string

definition or_default :: "string option \<Rightarrow> string" where
  "or_default x = (case x of None \<Rightarrow> [] | Some s \<Rightarrow> s)"

definition hashed_text ::
    "string option \<Rightarrow> string \<Rightarrow> string option \<Rightarrow> string \<Rightarrow> string \<Rightarrow> string \<Rightarrow> string option \<Rightarrow> string" where
  "hashed_text prev kind session cmd json outcome output =
     concat (map (\<lambda>field. field @ [CHR 0x00])
       [or_default prev, kind, or_default session, cmd, json, outcome, or_default output])"

definition compute_hash ::
    "(string \<Rightarrow> string) \<Rightarrow> string option \<Rightarrow> string \<Rightarrow> string option \<Rightarrow> string \<Rightarrow> string \<Rightarrow> string \<Rightarrow> string option \<Rightarrow> string" where
  "compute_hash sha prev kind session cmd json outcome output =
     sha (hashed_text prev kind session cmd json outcome output)"

text \<open>What a call draws from its environment.\<close>

record env =
  now_text :: "app_error + string"
  audit_now :: "app_error + string"
  new_id :: string

definition append_audit ::
    "(string \<Rightarrow> string) \<Rightarrow> env \<Rightarrow> actor \<Rightarrow> string \<Rightarrow> string \<Rightarrow> audit_outcome \<Rightarrow> string option
       \<Rightarrow> audit_entry list \<Rightarrow> app_error + audit_entry list" where
  "append_audit sha v by cmd json outcome output log =
     (let prev = map_option au_hash (max_by_key au_sequence log)
      in and_then (audit_now v) (\<lambda>at.
           let h = compute_hash sha prev (actor_kind by) (actor_session by) cmd json
                     (audit_outcome_as_str outcome) output;
               number = (case max_by_key au_sequence log of None \<Rightarrow> 0 | Some e \<Rightarrow> au_sequence e) + 1
           in Inr (log @ [\<lparr>au_sequence = number, occurred_at = at, au_kind = actor_kind by,
                au_session = actor_session by, au_command = cmd, au_json = json,
                au_outcome = audit_outcome_as_str outcome, au_output = output, au_previous = prev,
                au_hash = h\<rparr>])))"

datatype chain_status = Intact | BrokenAt int

definition recomputed :: "(string \<Rightarrow> string) \<Rightarrow> audit_entry \<Rightarrow> string" where
  "recomputed sha e = compute_hash sha (au_previous e) (au_kind e) (au_session e) (au_command e)
     (au_json e) (au_outcome e) (au_output e)"

fun verify_rows :: "(string \<Rightarrow> string) \<Rightarrow> string option \<Rightarrow> audit_entry list \<Rightarrow> chain_status" where
  "verify_rows sha expected [] = Intact"
| "verify_rows sha expected (e # es) =
     (if au_previous e \<noteq> expected then BrokenAt (au_sequence e)
      else if recomputed sha e \<noteq> au_hash e then BrokenAt (au_sequence e)
      else verify_rows sha (Some (au_hash e)) es)"

definition verify_chain :: "(string \<Rightarrow> string) \<Rightarrow> audit_entry list \<Rightarrow> chain_status" where
  "verify_chain sha log = verify_rows sha None (sort_key au_sequence log)"

section \<open>Commands and pending actions\<close>

record ('c, 'o, 'db) command =
  NAME :: string
  idempotency_key :: "'c \<Rightarrow> string option"
  requires_confirmation :: "'c \<Rightarrow> bool"
  apply_cmd :: "'c \<Rightarrow> 'db \<Rightarrow> app_error + 'o \<times> 'db"
  to_json :: "'c \<Rightarrow> app_error + string"
  of_json :: "string \<Rightarrow> app_error + 'c"
  output_to_json :: "'o \<Rightarrow> app_error + string"
  output_of_json :: "string \<Rightarrow> app_error + 'o"

datatype pending_action_status = Pending | Confirmed | Rejected

fun pending_status_as_str :: "pending_action_status \<Rightarrow> string" where
  "pending_status_as_str Pending = ''pending''"
| "pending_status_as_str Confirmed = ''confirmed''"
| "pending_status_as_str Rejected = ''rejected''"

record pending_row =
  pa_id :: string
  pa_session :: string
  pa_command :: string
  pa_json :: string
  pa_created_at :: string
  pa_status :: string
  pa_resolved_at :: "string option"

record pending_action =
  act_id :: string
  act_session :: string
  act_command :: string
  act_json :: string
  act_status :: pending_action_status

record idempotency_row =
  id_key :: string
  id_command :: string
  id_output :: string
  id_recorded_at :: string

record 'db store =
  business :: 'db
  idempotency_keys :: "idempotency_row list"
  pending_actions :: "pending_row list"
  audit_log :: "audit_entry list"

section \<open>The executor\<close>

record execution_context =
  ctx_actor :: actor
  dry_run :: bool

datatype 'o outcome = Applied 'o | DryRun | AlreadyApplied 'o | PendingConfirmation string

fun is_agent :: "actor \<Rightarrow> bool" where
  "is_agent (Agent s) = True"
| "is_agent Human = False"
| "is_agent System = False"

definition deposit ::
    "(string \<Rightarrow> string) \<Rightarrow> ('c, 'o, 'db) command \<Rightarrow> env \<Rightarrow> actor \<Rightarrow> string \<Rightarrow> 'db store
       \<Rightarrow> app_error + 'o outcome \<times> 'db store" where
  "deposit sha C v by json st =
     and_then (now_text v) (\<lambda>at.
       if new_id v \<in> pa_id ` set (pending_actions st) then Inl Sqlite
       else and_then (append_audit sha v by (NAME C) json audit_outcome.PendingConfirmation None (audit_log st)) (\<lambda>log.
         Inr (PendingConfirmation (new_id v), st\<lparr>pending_actions := pending_actions st @
              [\<lparr>pa_id = new_id v, pa_session = or_default (actor_session by), pa_command = NAME C,
                pa_json = json, pa_created_at = at, pa_status = ''pending'', pa_resolved_at = None\<rparr>],
            audit_log := log\<rparr>)))"

definition record_key :: "string option \<Rightarrow> string \<Rightarrow> string \<Rightarrow> env \<Rightarrow> idempotency_row list \<Rightarrow> app_error + idempotency_row list" where
  "record_key key cmd json v keys =
     (case key of
        None \<Rightarrow> Inr keys
      | Some k \<Rightarrow> and_then (now_text v) (\<lambda>at.
          if k \<in> id_key ` set keys then Inl Sqlite
          else Inr (keys @ [\<lparr>id_key = k, id_command = cmd, id_output = json, id_recorded_at = at\<rparr>])))"

definition execute ::
    "(string \<Rightarrow> string) \<Rightarrow> ('c, 'o, 'db) command \<Rightarrow> env \<Rightarrow> 'c \<Rightarrow> execution_context \<Rightarrow> 'db store
       \<Rightarrow> app_error + 'o outcome \<times> 'db store" where
  "execute sha C v c ctx st =
     (if dry_run ctx then Inr (DryRun, st)
      else case Option.bind (idempotency_key C c) (\<lambda>k. find (\<lambda>r. id_key r = k) (idempotency_keys st)) of
        Some cached \<Rightarrow> and_then (output_of_json C (id_output cached)) (\<lambda>out. Inr (AlreadyApplied out, st))
      | None \<Rightarrow> and_then (to_json C c) (\<lambda>json.
          if requires_confirmation C c \<and> is_agent (ctx_actor ctx) then deposit sha C v (ctx_actor ctx) json st
          else and_then (apply_cmd C c (business st)) (\<lambda>(out, db).
               and_then (output_to_json C out) (\<lambda>out_json.
               and_then (record_key (idempotency_key C c) (NAME C) out_json v (idempotency_keys st)) (\<lambda>keys.
               and_then (append_audit sha v (ctx_actor ctx) (NAME C) json audit_outcome.Applied (Some out_json) (audit_log st)) (\<lambda>log.
                 Inr (Applied out, st\<lparr>business := db, idempotency_keys := keys, audit_log := log\<rparr>)))))))"

definition confirm ::
    "(string \<Rightarrow> string) \<Rightarrow> ('c, 'o, 'db) command \<Rightarrow> env \<Rightarrow> string \<Rightarrow> 'db store
       \<Rightarrow> app_error + 'o outcome \<times> 'db store" where
  "confirm sha C v i st =
     (case find (\<lambda>r. pa_id r = i) (pending_actions st) of
        None \<Rightarrow> Inl (PendingActionNotFound i)
      | Some r \<Rightarrow>
          if pa_status r \<noteq> ''pending'' then Inl (PendingActionAlreadyResolved i)
          else if pa_command r \<noteq> NAME C then Inl (PendingActionKindMismatch i (NAME C) (pa_command r))
          else and_then (of_json C (pa_json r)) (\<lambda>c.
               and_then (apply_cmd C c (business st)) (\<lambda>(out, db).
               and_then (output_to_json C out) (\<lambda>out_json.
               and_then (now_text v) (\<lambda>at.
               and_then (append_audit sha v Human (NAME C) (pa_json r) audit_outcome.Confirmed (Some out_json) (audit_log st)) (\<lambda>log.
                 Inr (Applied out, st\<lparr>business := db,
                        pending_actions := map (\<lambda>p. if pa_id p = i
                          then p\<lparr>pa_status := ''confirmed'', pa_resolved_at := Some at\<rparr> else p) (pending_actions st),
                        audit_log := log\<rparr>)))))))"

section \<open>Queries\<close>

definition row_to_pending_action :: "pending_row \<Rightarrow> app_error + pending_action" where
  "row_to_pending_action r =
     (let found = (\<lambda>s. Inr \<lparr>act_id = pa_id r, act_session = pa_session r, act_command = pa_command r,
                            act_json = pa_json r, act_status = s\<rparr>)
      in if pa_status r = ''pending'' then found Pending
         else if pa_status r = ''confirmed'' then found pending_action_status.Confirmed
         else if pa_status r = ''rejected'' then found Rejected
         else Inl Sqlite)"

definition pending_action_by_id :: "'db store \<Rightarrow> string \<Rightarrow> app_error + pending_action option" where
  "pending_action_by_id st i =
     (case find (\<lambda>r. pa_id r = i) (pending_actions st) of
        None \<Rightarrow> Inr None
      | Some r \<Rightarrow> and_then (row_to_pending_action r) (\<lambda>a. Inr (Some a)))"

fun collect_results :: "('e + 'a) list \<Rightarrow> 'e + 'a list" where
  "collect_results [] = Inr []"
| "collect_results (r # rs) = and_then r (\<lambda>x. and_then (collect_results rs) (\<lambda>xs. Inr (x # xs)))"

definition list_pending_actions :: "'db store \<Rightarrow> app_error + pending_action list" where
  "list_pending_actions st =
     collect_results (map row_to_pending_action
       (sort_key pa_created_at (filter (\<lambda>r. pa_status r = ''pending'') (pending_actions st))))"

text \<open>A negative \<open>LIMIT\<close> is no limit.\<close>

definition recent_audit_entries :: "'db store \<Rightarrow> int \<Rightarrow> int \<Rightarrow> audit_entry list" where
  "recent_audit_entries st since lim =
     (let rows = rev (sort_key au_sequence (filter (\<lambda>e. since < au_sequence e) (audit_log st)))
      in if lim < 0 then rows else take (nat lim) rows)"

section \<open>Revisions\<close>

definition current_revision :: "(string \<times> int) list \<Rightarrow> string \<Rightarrow> int option" where
  "current_revision table i = map_option snd (find (\<lambda>r. fst r = i) table)"

text \<open>The next revision; at the last \<open>i64\<close> the addition panics, which is the outer \<open>None\<close>.\<close>

definition require_revision :: "int \<Rightarrow> int \<Rightarrow> string \<Rightarrow> string \<Rightarrow> (app_error + int) option" where
  "require_revision current expected entity i =
     (if current \<noteq> expected then Some (Inl (Conflict entity i))
      else map_option Inr (i64_try_from (expected + 1)))"

end
