(* ===== verification/Executor.thy ===== *)
theory Executor
  imports App
begin

text \<open>
  The guarantees of \<open>app/executor.rs\<close> over whole runs, whatever the commands: the steps are the calls
  of \<open>execute\<close> and \<open>confirm\<close>, refusals included, in any order and by any actor.
\<close>

section \<open>Steps of the application\<close>

datatype ('c, 'o, 'db) event =
    Executed "('c, 'o, 'db) command" 'c execution_context "'o outcome"
  | ConfirmedBy "('c, 'o, 'db) command" string "'o outcome"
  | Refused app_error

inductive app_step ::
    "(string \<Rightarrow> string) \<Rightarrow> ('c, 'o, 'db) command set \<Rightarrow> 'db store \<Rightarrow> ('c, 'o, 'db) event \<Rightarrow> 'db store \<Rightarrow> bool"
  for sha Cs where
  exec: "C \<in> Cs \<Longrightarrow> execute sha C v c ctx st = Inr (out, st') \<Longrightarrow> app_step sha Cs st (Executed C c ctx out) st'"
| conf: "C \<in> Cs \<Longrightarrow> confirm sha C v i st = Inr (out, st') \<Longrightarrow> app_step sha Cs st (ConfirmedBy C i out) st'"
| exec_refused: "C \<in> Cs \<Longrightarrow> execute sha C v c ctx st = Inl e \<Longrightarrow> app_step sha Cs st (Refused e) st"
| conf_refused: "C \<in> Cs \<Longrightarrow> confirm sha C v i st = Inl e \<Longrightarrow> app_step sha Cs st (Refused e) st"

inductive_cases step_executed: "app_step sha Cs st (Executed C c ctx out) st'"
inductive_cases step_confirmed: "app_step sha Cs st (ConfirmedBy C i out) st'"

section \<open>What the calls change\<close>

lemma deposit_Inr:
  assumes "deposit sha C v by json st = Inr (out, st')"
  obtains at log where "out = PendingConfirmation (new_id v)" "now_text v = Inr at"
    "new_id v \<notin> pa_id ` set (pending_actions st)"
    "append_audit sha v by (NAME C) json audit_outcome.PendingConfirmation None (audit_log st) = Inr log"
    "st' = st\<lparr>pending_actions := pending_actions st @
              [\<lparr>pa_id = new_id v, pa_session = or_default (actor_session by), pa_command = NAME C,
                pa_json = json, pa_created_at = at, pa_status = ''pending'', pa_resolved_at = None\<rparr>],
            audit_log := log\<rparr>"
  using assms by (auto simp: deposit_def split: if_splits)

text \<open>The four ways an execution returns.\<close>

lemma execute_Inr:
  assumes "execute sha C v c ctx st = Inr (out, st')"
  obtains (dry) "dry_run ctx" "out = DryRun" "st' = st"
  | (cached) k r x where "idempotency_key C c = Some k" "find (\<lambda>r. id_key r = k) (idempotency_keys st) = Some r"
      "out = AlreadyApplied x" "st' = st"
  | (deposited) json where "to_json C c = Inr json" "requires_confirmation C c" "is_agent (ctx_actor ctx)"
      "deposit sha C v (ctx_actor ctx) json st = Inr (out, st')"
      "Option.bind (idempotency_key C c) (\<lambda>k. find (\<lambda>r. id_key r = k) (idempotency_keys st)) = None"
  | (applied) x db oj keys json log where "out = Applied x" "apply_cmd C c (business st) = Inr (x, db)"
      "\<not> (requires_confirmation C c \<and> is_agent (ctx_actor ctx))"
      "Option.bind (idempotency_key C c) (\<lambda>k. find (\<lambda>r. id_key r = k) (idempotency_keys st)) = None"
      "record_key (idempotency_key C c) (NAME C) oj v (idempotency_keys st) = Inr keys"
      "append_audit sha v (ctx_actor ctx) (NAME C) json audit_outcome.Applied (Some oj) (audit_log st) = Inr log"
      "st' = st\<lparr>business := db, idempotency_keys := keys, audit_log := log\<rparr>"
proof (cases "dry_run ctx")
  case True
  then show thesis using assms dry by (simp add: execute_def)
next
  case live: False
  let ?look = "Option.bind (idempotency_key C c) (\<lambda>k. find (\<lambda>r. id_key r = k) (idempotency_keys st))"
  show thesis
  proof (cases ?look)
    case (Some r)
    then obtain k where "idempotency_key C c = Some k" "find (\<lambda>r. id_key r = k) (idempotency_keys st) = Some r"
      by (cases "idempotency_key C c") auto
    moreover obtain x where "out = AlreadyApplied x" "st' = st"
      using assms live Some by (auto simp: execute_def)
    ultimately show thesis by (rule cached)
  next
    case None
    from assms live None obtain json where json: "to_json C c = Inr json"
      and rest: "(if requires_confirmation C c \<and> is_agent (ctx_actor ctx) then deposit sha C v (ctx_actor ctx) json st
          else and_then (apply_cmd C c (business st)) (\<lambda>(out, db).
               and_then (output_to_json C out) (\<lambda>out_json.
               and_then (record_key (idempotency_key C c) (NAME C) out_json v (idempotency_keys st)) (\<lambda>keys.
               and_then (append_audit sha v (ctx_actor ctx) (NAME C) json audit_outcome.Applied (Some out_json) (audit_log st)) (\<lambda>log.
                 Inr (Applied out, st\<lparr>business := db, idempotency_keys := keys, audit_log := log\<rparr>)))))) = Inr (out, st')"
      by (auto simp: execute_def)
    show thesis
    proof (cases "requires_confirmation C c \<and> is_agent (ctx_actor ctx)")
      case True
      with rest have "deposit sha C v (ctx_actor ctx) json st = Inr (out, st')" by simp
      with json True None show thesis by (intro deposited) auto
    next
      case False
      with rest have r: "and_then (apply_cmd C c (business st)) (\<lambda>(out, db).
               and_then (output_to_json C out) (\<lambda>out_json.
               and_then (record_key (idempotency_key C c) (NAME C) out_json v (idempotency_keys st)) (\<lambda>keys.
               and_then (append_audit sha v (ctx_actor ctx) (NAME C) json audit_outcome.Applied (Some out_json) (audit_log st)) (\<lambda>log.
                 Inr (Applied out, st\<lparr>business := db, idempotency_keys := keys, audit_log := log\<rparr>))))) = Inr (out, st')"
        by (simp only: if_False)
      then obtain x db where a: "apply_cmd C c (business st) = Inr (x, db)" by auto
      with r show thesis using applied [OF _ a False None] by auto
    qed
  qed
qed

lemma confirm_Inr:
  assumes "confirm sha C v i st = Inr (out, st')"
  obtains r c x db oj at log where "find (\<lambda>r. pa_id r = i) (pending_actions st) = Some r" "pa_status r = ''pending''"
    "pa_command r = NAME C" "of_json C (pa_json r) = Inr c" "apply_cmd C c (business st) = Inr (x, db)" "out = Applied x"
    "append_audit sha v Human (NAME C) (pa_json r) audit_outcome.Confirmed (Some oj) (audit_log st) = Inr log"
    "st' = st\<lparr>business := db,
       pending_actions := map (\<lambda>p. if pa_id p = i then p\<lparr>pa_status := ''confirmed'', pa_resolved_at := Some at\<rparr> else p) (pending_actions st),
       audit_log := log\<rparr>"
  using assms unfolding confirm_def by (auto split: if_splits option.splits prod.splits)

section \<open>The audit chain\<close>



text \<open>The log is numbered from 1 in the order of its rows, and its chain of hashes holds.\<close>

definition numbered_from_1 :: "audit_entry list \<Rightarrow> bool" where
  "numbered_from_1 log \<longleftrightarrow> map au_sequence log = map int [1 ..< 1 + length log]"

definition chained :: "(string \<Rightarrow> string) \<Rightarrow> audit_entry list \<Rightarrow> bool" where
  "chained sha log \<longleftrightarrow> numbered_from_1 log \<and> verify_rows sha None log = Intact"

lemma numbered_increasing: "numbered_from_1 log \<Longrightarrow> sorted_wrt (<) (map au_sequence log)"
  by (simp add: numbered_from_1_def sorted_wrt_map del: upt_Suc)

lemma numbered_sort: "numbered_from_1 log \<Longrightarrow> sort_key au_sequence log = log"
proof -
  assume "numbered_from_1 log"
  then have "sorted (map au_sequence log)" using numbered_increasing strict_sorted_imp_sorted by blast
  then show "sort_key au_sequence log = log" by (rule sort_key_id_if_sorted)
qed









section \<open>Confirmation and idempotency\<close>

text \<open>An event that changes the business tables, and the ones the policy allows.\<close>

fun mutates :: "('c, 'o, 'db) event \<Rightarrow> bool" where
  "mutates (Executed C c ctx (Applied x)) = True"
| "mutates (ConfirmedBy C i out) = True"
| "mutates e = False"

fun authorised :: "('c, 'o, 'db) event \<Rightarrow> bool" where
  "authorised (Executed C c ctx (Applied x)) \<longleftrightarrow> \<not> dry_run ctx \<and> \<not> (requires_confirmation C c \<and> is_agent (ctx_actor ctx))"
| "authorised e \<longleftrightarrow> True"

lemma execute_authorised:
  assumes "execute sha C v c ctx st = Inr (out, st')"
  shows "authorised (Executed C c ctx out)" "\<not> mutates (Executed C c ctx out) \<Longrightarrow> business st' = business st"
proof -
  have "authorised (Executed C c ctx out) \<and> (\<not> mutates (Executed C c ctx out) \<longrightarrow> business st' = business st)"
    using assms
  proof (cases rule: execute_Inr)
    case (deposited json)
    from deposited(4) show ?thesis by (cases rule: deposit_Inr) auto
  next
    case applied
    then show ?thesis using assms by (auto simp: execute_def split: if_splits)
  qed auto
  then show "authorised (Executed C c ctx out)" "\<not> mutates (Executed C c ctx out) \<Longrightarrow> business st' = business st"
    by blast+
qed

lemma step_authorised:
  assumes "app_step sha Cs st e st'"
  shows "authorised e" "\<not> mutates e \<Longrightarrow> business st' = business st"
  using assms by (cases; auto simp: execute_authorised)+

interpretation policy: safe_steps "app_step sha Cs" "\<lambda>_. True" authorised
  by unfold_locales (auto intro: step_authorised)

lemma run_unchanged:
  "run (app_step sha Cs) st es st' \<Longrightarrow> \<forall>e \<in> set es. \<not> mutates e \<Longrightarrow> business st' = business st"
  by (induction rule: run.induct) (auto dest: step_authorised(2))

text \<open>A key is spent from the first application that carries it.\<close>

fun applies_key :: "string \<Rightarrow> ('c, 'o, 'db) event \<Rightarrow> bool" where
  "applies_key k (Executed C c ctx (Applied x)) \<longleftrightarrow> idempotency_key C c = Some k"
| "applies_key k e \<longleftrightarrow> False"

definition spent :: "string \<Rightarrow> 'db store \<Rightarrow> bool" where
  "spent k st \<longleftrightarrow> k \<in> id_key ` set (idempotency_keys st)"

lemma find_key: "(find (\<lambda>r. id_key r = k) rs = None) \<longleftrightarrow> k \<notin> id_key ` set rs"
  by (auto simp: find_None_iff)

lemma record_key_spent:
  assumes "record_key key cmd oj v keys = Inr keys'"
  shows "id_key ` set keys \<subseteq> id_key ` set keys'" "key = Some k \<Longrightarrow> k \<in> id_key ` set keys'"
  using assms by (auto simp: record_key_def split: option.splits if_splits)

lemma execute_keys:
  assumes "execute sha C v c ctx st = Inr (out, st')"
  shows "spent k st \<Longrightarrow> spent k st'" "applies_key k (Executed C c ctx out) \<Longrightarrow> \<not> spent k st \<and> spent k st'"
proof -
  have "(spent k st \<longrightarrow> spent k st') \<and> (applies_key k (Executed C c ctx out) \<longrightarrow> \<not> spent k st \<and> spent k st')"
    using assms
  proof (cases rule: execute_Inr)
    case (deposited json)
    from deposited(4) show ?thesis by (cases rule: deposit_Inr) (auto simp: spent_def)
  next
    case (applied x db oj keys json log)
    then show ?thesis using record_key_spent [OF applied(5)] by (auto simp: spent_def find_key)
  qed auto
  then show "spent k st \<Longrightarrow> spent k st'" "applies_key k (Executed C c ctx out) \<Longrightarrow> \<not> spent k st \<and> spent k st'"
    by blast+
qed

lemma confirm_keys: "confirm sha C v i st = Inr (out, st') \<Longrightarrow> spent k st' \<longleftrightarrow> spent k st"
  by (erule confirm_Inr) (simp add: spent_def)

interpretation keys: once_only "app_step sha Cs" "applies_key k" "spent k"
proof
  fix s e t
  assume s: "app_step sha Cs s e t"
  show "applies_key k e \<Longrightarrow> \<not> spent k s \<and> spent k t" using s by cases (auto dest: execute_keys(2))
  show "spent k s \<Longrightarrow> spent k t" using s by cases (auto dest: execute_keys(1) confirm_keys)
qed

text \<open>A pending action is resolved from its first confirmation.\<close>

fun confirms :: "string \<Rightarrow> ('c, 'o, 'db) event \<Rightarrow> bool" where
  "confirms i (ConfirmedBy C j out) \<longleftrightarrow> i = j"
| "confirms i e \<longleftrightarrow> False"

definition resolved :: "string \<Rightarrow> 'db store \<Rightarrow> bool" where
  "resolved i st \<longleftrightarrow> (\<exists>r. find (\<lambda>r. pa_id r = i) (pending_actions st) = Some r \<and> pa_status r \<noteq> ''pending'')"

lemma find_append: "find P (xs @ ys) = (case find P xs of None \<Rightarrow> find P ys | Some x \<Rightarrow> Some x)"
  by (induction xs) auto

lemma find_map_id:
  "(\<And>r. pa_id (f r) = pa_id r) \<Longrightarrow> find (\<lambda>r. pa_id r = i) (map f rs) = map_option f (find (\<lambda>r. pa_id r = i) rs)"
  by (induction rs) auto

lemma confirm_resolves:
  assumes "confirm sha C v j st = Inr (out, st')"
  shows "resolved i st' \<longleftrightarrow> i = j \<or> resolved i st" "\<not> resolved j st"
  using assms by (auto elim!: confirm_Inr simp: resolved_def find_map_id dest: find_SomeD split: if_splits)

lemma execute_resolves:
  assumes "execute sha C v c ctx st = Inr (out, st')" "resolved i st"
  shows "resolved i st'"
  using assms(1)
proof (cases rule: execute_Inr)
  case (deposited json)
  from deposited(4) show ?thesis
    by (cases rule: deposit_Inr) (use assms(2) in \<open>auto simp: resolved_def find_append\<close>)
qed (use assms(2) in \<open>auto simp: resolved_def\<close>)

interpretation confirmations: once_only "app_step sha Cs" "confirms i" "resolved i"
proof
  fix s e t
  assume s: "app_step sha Cs s e t"
  show "confirms i e \<Longrightarrow> \<not> resolved i s \<and> resolved i t" using s by cases (auto simp: confirm_resolves)
  show "resolved i s \<Longrightarrow> resolved i t" using s by cases (auto simp: confirm_resolves execute_resolves)
qed

section \<open>Properties\<close>

text \<open>A counter as a command, for the witnesses: it needs a confirmation and carries a key.\<close>

definition sample_command :: "(unit, unit, nat) command" where
  "sample_command = \<lparr>NAME = ''count'', idempotency_key = (\<lambda>_. Some ''k''), requires_confirmation = (\<lambda>_. True),
     apply_cmd = (\<lambda>_ n. Inr ((), n + 1)), to_json = (\<lambda>_. Inr ''null''), of_json = (\<lambda>_. Inr ()),
     output_to_json = (\<lambda>_. Inr ''null''), output_of_json = (\<lambda>_. Inr ())\<rparr>"

definition sample_env :: "string \<Rightarrow> env" where
  "sample_env i = \<lparr>now_text = Inr ''2026-01-01T00:00:00Z'', audit_now = Inr ''2026-01-01T00:00:00Z'', new_id = i\<rparr>"

definition empty_store :: "nat store" where
  "empty_store = \<lparr>business = 0, idempotency_keys = [], pending_actions = [], audit_log = []\<rparr>"

definition as_agent :: execution_context where
  "as_agent = \<lparr>ctx_actor = Agent ''s'', dry_run = False\<rparr>"

definition as_human :: execution_context where
  "as_human = \<lparr>ctx_actor = Human, dry_run = False\<rparr>"

text \<open>The store a call returns, in the witnesses.\<close>

definition store_of :: "app_error + 'o outcome \<times> 'db store \<Rightarrow> 'db store" where
  "store_of r = (case r of Inr (_, st) \<Rightarrow> st | Inl e \<Rightarrow> undefined)"

definition outcome_of :: "app_error + 'o outcome \<times> 'db store \<Rightarrow> 'o outcome option" where
  "outcome_of r = (case r of Inr (x, st) \<Rightarrow> Some x | Inl e \<Rightarrow> None)"

lemma outcome_store: "outcome_of r = Some x \<Longrightarrow> r = Inr (x, store_of r)"
  by (auto simp: outcome_of_def store_of_def split: sum.splits prod.splits)

definition deposited_store :: "nat store" where
  "deposited_store = store_of (execute id sample_command (sample_env ''a'') () as_agent empty_store)"

definition confirmed_store :: "nat store" where
  "confirmed_store = store_of (confirm id sample_command (sample_env ''b'') ''a'' deposited_store)"

lemma sample_deposit: "execute id sample_command (sample_env ''a'') () as_agent empty_store = Inr (PendingConfirmation ''a'', deposited_store)"
  unfolding deposited_store_def by (rule outcome_store) code_simp

lemma sample_confirm: "confirm id sample_command (sample_env ''b'') ''a'' deposited_store = Inr (Applied (), confirmed_store)"
  unfolding confirmed_store_def by (rule outcome_store) code_simp

lemma sample_step: "app_step id {sample_command} empty_store (Executed sample_command () as_agent (PendingConfirmation ''a'')) deposited_store"
  by (rule exec [OF _ sample_deposit]) simp

lemma sample_run:
  "run (app_step id {sample_command}) empty_store
     [Executed sample_command () as_agent (PendingConfirmation ''a''), ConfirmedBy sample_command ''a'' (Applied ())] confirmed_store"
proof -
  have "app_step id {sample_command} deposited_store (ConfirmedBy sample_command ''a'' (Applied ())) confirmed_store"
    by (rule conf [OF _ sample_confirm]) simp
  then have "run (app_step id {sample_command}) deposited_store [ConfirmedBy sample_command ''a'' (Applied ())] confirmed_store"
    by (rule run_single)
  with sample_step show ?thesis by (rule run_Cons)
qed



text \<open>C24: An agent never changes the business tables by a command that requires a confirmation: over a
  whole run, every application is by a human or the system, or of a command that needs none, or is a
  confirmation; and a run without an application leaves the business tables as they were.\<close>

theorem agents_need_confirmation:
  assumes "run (app_step sha Cs) st es st'"
  shows "(\<forall>e \<in> set es. authorised e) \<and> ((\<forall>e \<in> set es. \<not> mutates e) \<longrightarrow> business st' = business st)"
  using policy.run_allowed [OF assms] run_unchanged [OF assms] by blast

theorem agents_need_confirmation_witness:
  "business deposited_store = 0"
proof -
  have "run (app_step id {sample_command}) empty_store [Executed sample_command () as_agent (PendingConfirmation ''a'')] deposited_store"
    by (rule run_single) (rule sample_step)
  from agents_need_confirmation [OF this] show ?thesis by (simp add: empty_store_def)
qed

text \<open>C25: Over any run, a given idempotency key is applied at most once by execution, and a given pending
  action is confirmed at most once.\<close>

theorem applied_at_most_once:
  assumes "run (app_step sha Cs) st es st'"
  shows "length (filter (applies_key k) es) \<le> 1 \<and> length (filter (confirms i) es) \<le> 1"
  using keys.marked_once [OF assms] confirmations.marked_once [OF assms] by blast

theorem applied_at_most_once_witness:
  "length (filter (confirms ''a'') [Executed sample_command () as_agent (PendingConfirmation ''a''),
     ConfirmedBy sample_command ''a'' (Applied ())]) \<le> 1"
  using applied_at_most_once [OF sample_run] by blast

text \<open>Confirming what an agent deposited does to the business tables exactly what a human's direct
  execution does, with the same output, provided the command reads back from its text.\<close>

lemma confirmation_is_direct_execution:
  assumes "execute sha C v c ctx st = Inr (PendingConfirmation i, st1)"
    and "\<And>json. to_json C c = Inr json \<Longrightarrow> of_json C json = Inr c"
    and "execute sha C w c \<lparr>ctx_actor = Human, dry_run = False\<rparr> st = Inr (Applied out, st2)"
    and "now_text w = Inr at"
  shows "\<exists>st3. confirm sha C w i st1 = Inr (Applied out, st3) \<and> business st3 = business st2"
proof -
  obtain json where json: "to_json C c = Inr json" and dep: "deposit sha C v (ctx_actor ctx) json st = Inr (PendingConfirmation i, st1)"
    using assms(1) by (cases rule: execute_Inr) auto
  from dep obtain created log where i: "new_id v = i" "i \<notin> pa_id ` set (pending_actions st)"
    and st1: "st1 = st\<lparr>pending_actions := pending_actions st @
              [\<lparr>pa_id = i, pa_session = or_default (actor_session (ctx_actor ctx)), pa_command = NAME C,
                pa_json = json, pa_created_at = created, pa_status = ''pending'', pa_resolved_at = None\<rparr>],
            audit_log := log\<rparr>"
    by (cases rule: deposit_Inr) auto
  obtain db oj keys log2 where effect: "apply_cmd C c (business st) = Inr (out, db)" "output_to_json C out = Inr oj"
      "audit_now w = Inr log2" "business st2 = db"
    using assms(3) json
    by (auto simp: execute_def append_audit_def Let_def split: option.splits prod.splits)
  have "find (\<lambda>r. pa_id r = i) (pending_actions st) = None" using i(2) by (auto simp: find_None_iff)
  then show ?thesis
    using effect assms(2) [OF json] assms(4)
    by (simp add: confirm_def st1 find_append and_then_def append_audit_def Let_def)
qed

text \<open>A confirmation neither looks up nor records the idempotency key of its command: once an agent's
  keyed command has been confirmed, executing the same command with the same key applies it again.\<close>

lemma confirmation_forgets_the_key:
  assumes "execute sha C v c ctx st = Inr (PendingConfirmation i, st1)" "idempotency_key C c = Some k"
    and "confirm sha C w i st1 = Inr (Applied x, st2)"
    and "execute sha C u c \<lparr>ctx_actor = Human, dry_run = False\<rparr> st2 = Inr (out, st3)"
  shows "\<exists>y. out = Applied y \<and> apply_cmd C c (business st2) = Inr (y, business st3)"
proof -
  have "\<not> spent k st"
    using assms(1,2) by (cases rule: execute_Inr) (auto simp: spent_def find_None_iff)
  moreover have "spent k st1 \<longleftrightarrow> spent k st"
    using assms(1) by (cases rule: execute_Inr) (auto elim!: deposit_Inr simp: spent_def)
  ultimately have "\<not> spent k st2" using confirm_keys [OF assms(3)] by blast
  then have "find (\<lambda>r. id_key r = k) (idempotency_keys st2) = None" by (simp add: spent_def find_key)
  with assms(2,4) show ?thesis by (auto elim!: execute_Inr)
qed

text \<open>What the chain of hashes covers. The texts are separated by a zero byte, which they do not hold.\<close>

definition no_nul :: "audit_entry \<Rightarrow> bool" where
  "no_nul e \<longleftrightarrow> (\<forall>s \<in> set [or_default (au_previous e), au_kind e, or_default (au_session e), au_command e, au_json e,
     au_outcome e, or_default (au_output e)]. CHR 0x00 \<notin> set s)"

definition hashed_fields :: "audit_entry \<Rightarrow> string list" where
  "hashed_fields e = [or_default (au_previous e), au_kind e, or_default (au_session e), au_command e, au_json e,
     au_outcome e, or_default (au_output e)]"

definition text_of :: "audit_entry \<Rightarrow> string" where
  "text_of e = hashed_text (au_previous e) (au_kind e) (au_session e) (au_command e) (au_json e) (au_outcome e) (au_output e)"

lemma zero_separated:
  "length ss = length ts \<Longrightarrow> \<forall>s \<in> set ss \<union> set ts. c \<notin> set s \<Longrightarrow>
     concat (map (\<lambda>s. s @ [c]) ss) = concat (map (\<lambda>s. s @ [c :: char]) ts) \<Longrightarrow> ss = ts"
proof (induction ss ts rule: list_induct2)
  case (Cons s ss t ts)
  then have eq: "split_once c (s @ c # concat (map (\<lambda>s. s @ [c]) ss)) = split_once c (t @ c # concat (map (\<lambda>s. s @ [c]) ts))"
    by simp
  have "c \<notin> set s" "c \<notin> set t" using Cons.prems(1) by simp_all
  from eq [unfolded split_once_append [OF this(1)] split_once_append [OF this(2)]] Cons show ?case by simp
qed simp

lemma text_determines_fields: "no_nul e \<Longrightarrow> no_nul e' \<Longrightarrow> text_of e = text_of e' \<Longrightarrow> hashed_fields e = hashed_fields e'"
  unfolding text_of_def hashed_text_def no_nul_def hashed_fields_def by (rule zero_separated) auto

lemma verify_rows_append:
  "verify_rows sha p (xs @ ys) = (case verify_rows sha p xs of
     Intact \<Rightarrow> verify_rows sha (if xs = [] then p else Some (au_hash (List.last xs))) ys | BrokenAt n \<Rightarrow> BrokenAt n)"
  by (induction xs arbitrary: p) (auto split: chain_status.split)

text \<open>A row of a verified log cannot be altered unnoticed: if one of its hashed fields is changed while
  its number and its hash stay, the verification names that row, as long as SHA-256 does not
  collide on the two texts.\<close>

lemma tampering_is_located:
  assumes "chained sha log" "i < length log"
    and "au_sequence e = au_sequence (log ! i)" "au_hash e = au_hash (log ! i)"
    and "hashed_fields e \<noteq> hashed_fields (log ! i)" "no_nul e" "no_nul (log ! i)"
    and collision_free: "sha (text_of e) = sha (text_of (log ! i)) \<Longrightarrow> text_of e = text_of (log ! i)"
  shows "verify_chain sha (log[i := e]) = BrokenAt (au_sequence (log ! i))"
proof -
  let ?x = "log ! i" and ?xs = "take i log" and ?ys = "drop (Suc i) log"
  have log: "log = ?xs @ ?x # ?ys" using assms(2) by (simp add: id_take_nth_drop)
  have "map au_sequence (log[i := e]) = map au_sequence log" using assms(3) by (simp add: map_update list_update_same_conv assms(2))
  then have sorted: "sort_key au_sequence (log[i := e]) = log[i := e]"
    using assms(1) numbered_sort [of "log[i := e]"] by (simp add: chained_def numbered_from_1_def)
  have before: "verify_rows sha None ?xs = Intact" and x: "recomputed sha ?x = au_hash ?x"
    using assms(1) log verify_rows_append [of sha None ?xs "?x # ?ys"]
    by (auto simp: chained_def split: chain_status.splits if_splits)
  have "text_of e \<noteq> text_of ?x" using text_determines_fields assms(5-7) by metis
  with collision_free x have "recomputed sha e \<noteq> au_hash e"
    by (auto simp: recomputed_def compute_hash_def text_of_def assms(4))
  then have "verify_rows sha None (?xs @ e # ?ys) = BrokenAt (au_sequence e)"
    by (simp add: verify_rows_append before)
  then show ?thesis using assms(2,3) unfolding verify_chain_def sorted by (simp add: upd_conv_take_nth_drop)
qed

lemma insort_map: "insort_key au_sequence (e\<lparr>occurred_at := f e\<rparr>) (map (\<lambda>e. e\<lparr>occurred_at := f e\<rparr>) xs)
    = map (\<lambda>e. e\<lparr>occurred_at := f e\<rparr>) (insort_key au_sequence e xs)"
  by (induction xs) simp_all

text \<open>The time of a row is not covered by the chain: rewriting the times of a log in any way leaves the
  verification as it was.\<close>

lemma times_are_not_covered:
  "verify_chain sha (map (\<lambda>e. e\<lparr>occurred_at := f e\<rparr>) log) = verify_chain sha log"
proof -
  have "verify_rows sha p (map (\<lambda>e. e\<lparr>occurred_at := f e\<rparr>) xs) = verify_rows sha p xs" for p xs
    by (induction xs arbitrary: p) (simp_all add: recomputed_def)
  moreover have "sort_key au_sequence (map (\<lambda>e. e\<lparr>occurred_at := f e\<rparr>) xs) = map (\<lambda>e. e\<lparr>occurred_at := f e\<rparr>) (sort_key au_sequence xs)" for xs
    by (induction xs) (simp_all add: insort_map)
  ultimately show ?thesis by (simp add: verify_chain_def)
qed

end
