(* ===== verification/Journal.thy ===== *)
theory Journal
  imports Ledger App
begin

text \<open>
  \<open>journal.rs\<close>: the kept entries and the operations that post, reverse or leave them. The journal's
  two tables are lists of rows with the text columns of the schema; the tables of facts the
  operations read (expenses, bank lines, assets, invoices, payments, clients, closed years) are lists of
  decoded records. Identifiers come from a supply \<open>uuid_at\<close>, of which \<open>drawn\<close> were used. A result is
  \<open>None\<close> for a panic, else an error or the new vault. The text of a library's error is left out of
  the messages that end with it.
\<close>

section \<open>Tables\<close>

record journal_head =
  jh_id :: string
  jh_journal :: string
  jh_date :: string
  jh_piece_ref :: string
  jh_piece_date :: string
  jh_label :: string
  source_kind :: string
  source_id :: string
  reversal_of :: "string option"
  reversed_at :: "string option"
  jh_created_at :: string

record journal_line =
  jl_entry_id :: string
  jl_position :: nat
  jl_account :: string
  jl_account_label :: string
  jl_amount :: int
  jl_aux_number :: "string option"
  jl_aux_label :: "string option"
  ecriture_lib :: "string option"

record vault =
  heads :: "journal_head list"
  jlines :: "journal_line list"
  drawn :: nat
  v_expenses :: "expense list"
  v_bank :: "bank_transaction list"
  v_assets :: "fixed_asset list"
  v_invoices :: "invoice list"
  v_payments :: "payment list"
  v_clients :: "client list"
  v_years :: "fiscal_year_record list"

text \<open>The clock and the identifiers.\<close>

record jenv =
  uuid_at :: "nat \<Rightarrow> string"
  clock_text :: "app_error + string"

definition PAYMENT :: string where "PAYMENT = ''expense_payment''"
definition REVERSAL :: string where "REVERSAL = ''expense_payment_reversal''"
definition SALE :: string where "SALE = ''sale''"
definition SALE_COLLECTION :: string where "SALE_COLLECTION = ''sale_collection''"
definition COLLECTION_REVERSAL :: string where "COLLECTION_REVERSAL = ''sale_collection_reversal''"
definition VAT_LIQUIDATION :: string where "VAT_LIQUIDATION = ''vat_liquidation''"
definition VAT_LIQUIDATION_REVERSAL :: string where "VAT_LIQUIDATION_REVERSAL = ''vat_liquidation_reversal''"
definition CORPORATE_TAX_KIND :: string where "CORPORATE_TAX_KIND = ''corporate_tax''"
definition CORPORATE_TAX_REVERSAL :: string where "CORPORATE_TAX_REVERSAL = ''corporate_tax_reversal''"
definition PAYROLL :: string where "PAYROLL = ''payroll''"
definition PAYROLL_REVERSAL :: string where "PAYROLL_REVERSAL = ''payroll_reversal''"
definition PAYROLL_NET :: string where "PAYROLL_NET = ''payroll_net''"
definition PAYROLL_NET_REVERSAL :: string where "PAYROLL_NET_REVERSAL = ''payroll_net_reversal''"
definition PAYROLL_URSSAF :: string where "PAYROLL_URSSAF = ''payroll_urssaf''"
definition PAYROLL_URSSAF_REVERSAL :: string where "PAYROLL_URSSAF_REVERSAL = ''payroll_urssaf_reversal''"

datatype sync_guard = RefuseClosedYear | Backfill

record stored =
  st_id :: string
  st_entry :: ledger_entry

section \<open>Results\<close>

definition ok :: "'a \<Rightarrow> (app_error + 'a) option" where
  "ok x = Some (Inr x)"

definition fail :: "app_error \<Rightarrow> (app_error + 'a) option" where
  "fail e = Some (Inl e)"

definition and_do :: "(app_error + 'a) option \<Rightarrow> ('a \<Rightarrow> (app_error + 'b) option) \<Rightarrow> (app_error + 'b) option" where
  "and_do r f = (case r of None \<Rightarrow> None | Some (Inl e) \<Rightarrow> Some (Inl e) | Some (Inr x) \<Rightarrow> f x)"

section \<open>Reading\<close>

definition is_live :: "journal_head \<Rightarrow> bool" where
  "is_live h \<longleftrightarrow> reversed_at h = None \<and> reversal_of h = None"

definition lines_of :: "vault \<Rightarrow> string \<Rightarrow> journal_line list" where
  "lines_of st i = sort_key jl_position (filter (\<lambda>l. jl_entry_id l = i) (jlines st))"

definition load_line :: "journal_line \<Rightarrow> ledger_line" where
  "load_line l =
     \<lparr>ll_account = numbered_account (jl_account l) (jl_account_label l),
      ll_aux = (case (jl_aux_number l, jl_aux_label l) of
                  (Some n, Some t) \<Rightarrow> Some \<lparr>aux_number = n, aux_label = t\<rparr> | _ \<Rightarrow> None),
      ll_amount = jl_amount l, line_label = ecriture_lib l\<rparr>"

definition load_entry :: "time_api \<Rightarrow> vault \<Rightarrow> journal_head \<Rightarrow> app_error + ledger_entry" where
  "load_entry T st h =
     (case journal_parse_code (jh_journal h) of
        None \<Rightarrow> Inl (Domain ((''journal inconnu dans une '' @ e_acute @ ''criture conserv'' @ e_acute @ ''e : '') @ jh_journal h))
      | Some j \<Rightarrow>
          (case parse_date T (jh_date h) of
             None \<Rightarrow> Inl (Domain ((''date d'' @ [CHR 0x27] @ e_acute @ ''criture illisible ('') @ jh_date h @ '') : ''))
           | Some on \<Rightarrow>
               (case parse_date T (jh_piece_date h) of
                  None \<Rightarrow> Inl (Domain ((''date de pi'' @ e_grave @ ''ce illisible ('') @ jh_piece_date h @ '') : ''))
                | Some piece_on \<Rightarrow>
                    Inr \<lparr>le_journal = j, le_number = 0, le_date = on, piece_ref = jh_piece_ref h,
                         piece_date = piece_on, le_label = jh_label h,
                         le_lines = map load_line (lines_of st (jh_id h))\<rparr>)))"

definition list_entries :: "time_api \<Rightarrow> vault \<Rightarrow> app_error + ledger_entry list" where
  "list_entries T st =
     collect_results (map (load_entry T st) (sort_key (\<lambda>h. (jh_date h, jh_id h)) (heads st)))"

definition live_source :: "time_api \<Rightarrow> vault \<Rightarrow> string \<Rightarrow> string \<Rightarrow> app_error + stored option" where
  "live_source T st kind i =
     (case find (\<lambda>h. source_kind h = kind \<and> source_id h = i \<and> is_live h) (heads st) of
        None \<Rightarrow> Inr None
      | Some h \<Rightarrow> and_then (load_entry T st h) (\<lambda>e. Inr (Some \<lparr>st_id = jh_id h, st_entry = e\<rparr>)))"

definition live_payment :: "time_api \<Rightarrow> vault \<Rightarrow> string \<Rightarrow> app_error + stored option" where
  "live_payment T st i = live_source T st PAYMENT i"

definition vat_liquidation_posted :: "time_api \<Rightarrow> vault \<Rightarrow> string \<Rightarrow> app_error + bool" where
  "vat_liquidation_posted T st key = and_then (live_source T st VAT_LIQUIDATION key) (\<lambda>l. Inr (l \<noteq> None))"

definition same_line :: "ledger_line \<Rightarrow> ledger_line \<Rightarrow> bool" where
  "same_line a b \<longleftrightarrow> acc_number (ll_account a) = acc_number (ll_account b) \<and> ll_amount a = ll_amount b
     \<and> line_label a = line_label b \<and> map_option aux_number (ll_aux a) = map_option aux_number (ll_aux b)"

definition same_booking :: "ledger_entry \<Rightarrow> ledger_entry \<Rightarrow> bool" where
  "same_booking a b \<longleftrightarrow> le_journal a = le_journal b \<and> le_date a = le_date b \<and> piece_ref a = piece_ref b
     \<and> piece_date a = piece_date b \<and> le_label a = le_label b
     \<and> length (le_lines a) = length (le_lines b)
     \<and> list_all (\<lambda>(x, y). same_line x y) (zip (le_lines a) (le_lines b))"

section \<open>Writing\<close>

definition stored_line :: "string \<Rightarrow> nat \<times> ledger_line \<Rightarrow> journal_line" where
  "stored_line i = (\<lambda>(position, l).
     \<lparr>jl_entry_id = i, jl_position = position, jl_account = acc_number (ll_account l),
      jl_account_label = acc_label (ll_account l), jl_amount = ll_amount l,
      jl_aux_number = map_option aux_number (ll_aux l), jl_aux_label = map_option aux_label (ll_aux l),
      ecriture_lib = line_label l\<rparr>)"

text \<open>The insertion fails on the primary key and on the index of one live entry by fact.\<close>

definition insert_entry ::
    "time_api \<Rightarrow> jenv \<Rightarrow> ledger_entry \<Rightarrow> string \<Rightarrow> string \<Rightarrow> string option \<Rightarrow> vault \<Rightarrow> app_error + vault" where
  "insert_entry T v e kind i rev_of st =
     (let new = uuid_at v (drawn st)
      in and_then (clock_text v) (\<lambda>now.
           let h = \<lparr>jh_id = new, jh_journal = journal_code (le_journal e), jh_date = format_date T (le_date e),
                    jh_piece_ref = piece_ref e, jh_piece_date = format_date T (piece_date e),
                    jh_label = le_label e, source_kind = kind, source_id = i, reversal_of = rev_of,
                    reversed_at = None, jh_created_at = now\<rparr>
           in if new \<in> jh_id ` set (heads st) then Inl Sqlite
              else if is_live h \<and> list_ex (\<lambda>x. source_kind x = kind \<and> source_id x = i \<and> is_live x) (heads st)
              then Inl Sqlite
              else Inr (st\<lparr>heads := heads st @ [h],
                           jlines := jlines st @ map (stored_line new) (enumerate 0 (le_lines e)),
                           drawn := drawn st + 1\<rparr>)))"

definition reverse :: "time_api \<Rightarrow> jenv \<Rightarrow> stored \<Rightarrow> string \<Rightarrow> vault \<Rightarrow> app_error + vault" where
  "reverse T v live kind st =
     and_then (clock_text v) (\<lambda>now.
       insert_entry T v (extourne_entry (st_entry live)) kind (st_id live) (Some (st_id live))
         (st\<lparr>heads := map (\<lambda>h. if jh_id h = st_id live then h\<lparr>reversed_at := Some now\<rparr> else h) (heads st)\<rparr>))"

definition insert_optional ::
    "time_api \<Rightarrow> jenv \<Rightarrow> ledger_entry option \<Rightarrow> string \<Rightarrow> string \<Rightarrow> string \<Rightarrow> vault \<Rightarrow> app_error + vault" where
  "insert_optional T v desired refusal kind i st =
     (case desired of
        None \<Rightarrow> Inr st
      | Some e \<Rightarrow> if \<not> is_balanced e then Inl (Domain refusal) else insert_entry T v e kind i None st)"

definition reverse_optional :: "time_api \<Rightarrow> jenv \<Rightarrow> stored option \<Rightarrow> string \<Rightarrow> vault \<Rightarrow> app_error + vault" where
  "reverse_optional T v live kind st = (case live of None \<Rightarrow> Inr st | Some l \<Rightarrow> reverse T v l kind st)"

section \<open>Closed exercises\<close>

text \<open>The comparison is SQL's, on the text of the dates.\<close>

definition date_in_recorded_exercise :: "time_api \<Rightarrow> vault \<Rightarrow> date \<Rightarrow> bool" where
  "date_in_recorded_exercise T st d \<longleftrightarrow>
     list_ex (\<lambda>r. format_date T (starts_on r) \<le> format_date T d \<and> format_date T d \<le> format_date T (ends_on r)) (v_years st)"

definition guarded_dates :: "stored option \<Rightarrow> ledger_entry option \<Rightarrow> date list" where
  "guarded_dates live desired =
     opt_list (map_option (\<lambda>s. le_date (st_entry s)) live) @ opt_list (map_option le_date desired)"

definition ensure_open ::
    "time_api \<Rightarrow> sync_guard \<Rightarrow> stored option \<Rightarrow> ledger_entry option \<Rightarrow> vault \<Rightarrow> app_error + unit" where
  "ensure_open T guard live desired st =
     (if guard = Backfill then Inr ()
      else case find (date_in_recorded_exercise T st) (guarded_dates live desired) of
             None \<Rightarrow> Inr ()
           | Some d \<Rightarrow> Inl (Domain ((''la d'' @ e_acute @ ''pense du '') @ format_date T d @ ('' tombe dans un exercice d'' @ e_acute @ ''j'' @ [CHR 0xC3, CHR 0xA0] @ '' cl'' @ o_circ @ ''tur'' @ e_acute @ '', dont le r'' @ e_acute @ ''sultat a '' @ e_acute @ ''t'' @ e_acute @ '' fig'' @ e_acute @ '' '' @ em_dash @ '' supprimez d'' @ [CHR 0x27] @ ''abord l'' @ [CHR 0x27] @ ''exercice s'' @ [CHR 0x27] @ ''il n'' @ [CHR 0x27] @ ''est qu'' @ [CHR 0x27] @ ''un projet, ou rattachez la d'' @ e_acute @ ''pense '' @ [CHR 0xC3, CHR 0xA0] @ '' l'' @ [CHR 0x27] @ ''exercice courant''))))"

definition refuse_closed_sale ::
    "time_api \<Rightarrow> sync_guard \<Rightarrow> stored option \<Rightarrow> ledger_entry option \<Rightarrow> vault \<Rightarrow> app_error + unit" where
  "refuse_closed_sale T guard live desired st =
     (if guard = Backfill then Inr ()
      else if list_ex (date_in_recorded_exercise T st) (guarded_dates live desired)
      then Inl (Domain ((''cet exercice est d'' @ e_acute @ ''j'' @ [CHR 0xC3, CHR 0xA0] @ '' clos''))) else Inr ())"

section \<open>What the facts ask for\<close>

definition bank_date :: "vault \<Rightarrow> uuid \<Rightarrow> date option" where
  "bank_date st i = map_option occurred_on (find (\<lambda>t. matched_expense_id t = Some i) (v_bank st))"

definition desired_entry :: "time_api \<Rightarrow> vault \<Rightarrow> uuid \<Rightarrow> ledger_entry option option" where
  "desired_entry T st i =
     (case find (\<lambda>e. exp_id e = i) (v_expenses st) of
        None \<Rightarrow> Some None
      | Some e \<Rightarrow>
          let payment = (case paid_by e of
                 PaidByAssociate \<Rightarrow> Some PaidByTheAssociate
               | PaidByCompany \<Rightarrow> map_option PaidFromBank (bank_date st i));
              immobilized = map_option (\<lambda>a. (as_str (fa_account a), fa_label a))
                 (find (\<lambda>a. fa_expense_id a = Some i) (v_assets st))
          in (case payment of None \<Rightarrow> Some None | Some p \<Rightarrow> expense_payment_entry T e p immobilized))"

definition desired_sale :: "vault \<Rightarrow> uuid \<Rightarrow> ledger_entry option option" where
  "desired_sale st i =
     (case find (\<lambda>x. inv_id x = i) (v_invoices st) of
        None \<Rightarrow> Some None
      | Some iv \<Rightarrow> service_sale_entry iv (find (\<lambda>c. client_id c = inv_client_id iv) (v_clients st))
          (Option.bind (credited_invoice_id iv)
             (\<lambda>j. map_option inv_number (find (\<lambda>x. inv_id x = j) (v_invoices st)))))"

definition vat_on_live_collection :: "time_api \<Rightarrow> vault \<Rightarrow> uuid \<Rightarrow> app_error + money" where
  "vat_on_live_collection T st p =
     and_then (live_source T st SALE_COLLECTION p) (\<lambda>live. Inr (case live of
        None \<Rightarrow> 0
      | Some s \<Rightarrow> sum_list (map ll_amount (filter (\<lambda>l. acc_number (ll_account l) = acc_number VAT_PENDING \<and> 0 < ll_amount l)
          (le_lines (st_entry s))))))"

fun collected_so_far :: "time_api \<Rightarrow> vault \<Rightarrow> payment list \<Rightarrow> money \<times> money \<Rightarrow> app_error + money \<times> money" where
  "collected_so_far T st [] (paid, moved) = Inr (paid, moved)"
| "collected_so_far T st (p # ps) (paid, moved) =
     and_then (vat_on_live_collection T st (pay_id p)) (\<lambda>m. collected_so_far T st ps (paid + pay_amount p, moved + m))"

definition collection_basis :: "time_api \<Rightarrow> vault \<Rightarrow> invoice \<Rightarrow> payment \<Rightarrow> (app_error + money \<times> money) option" where
  "collection_basis T st iv p =
     do { totals \<leftarrow> compute_totals (inv_lines iv);
          (credit_vat, credit_ttc) \<leftarrow> credited_before (v_invoices st) (inv_id iv) (received_on p);
          let others = filter (\<lambda>q. pay_invoice_id q = inv_id iv \<and> pay_id q \<noteq> pay_id p \<and> \<not> is_voided q) (v_payments st);
          and_do (Some (collected_so_far T st others (0, 0))) (\<lambda>(paid, moved).
            ok (non_negative (total_vat totals + credit_vat - moved), total_ttc totals + credit_ttc - paid)) }"

definition desired_collection :: "time_api \<Rightarrow> vault \<Rightarrow> uuid \<Rightarrow> (app_error + ledger_entry option) option" where
  "desired_collection T st i =
     (case find (\<lambda>p. pay_id p = i) (v_payments st) of
        None \<Rightarrow> ok None
      | Some p \<Rightarrow>
          if is_voided p then ok None
          else (case find (\<lambda>x. inv_id x = pay_invoice_id p) (v_invoices st) of
                  None \<Rightarrow> ok None
                | Some iv \<Rightarrow> and_do (collection_basis T st iv p) (\<lambda>(pending, due).
                    map_option (\<lambda>moved. Inr (receipt_entry p (inv_number iv) (inv_client_id iv)
                        (find (\<lambda>c. client_id c = inv_client_id iv) (v_clients st)) moved))
                      (vat_transferred_on_receipt pending (pay_amount p) due))))"

section \<open>Operations\<close>

definition unchanged :: "stored option \<Rightarrow> ledger_entry option \<Rightarrow> bool" where
  "unchanged live desired =
     (case (live, desired) of (Some l, Some e) \<Rightarrow> same_booking (st_entry l) e | _ \<Rightarrow> False)"

definition sync_expense_payment ::
    "time_api \<Rightarrow> jenv \<Rightarrow> uuid \<Rightarrow> sync_guard \<Rightarrow> vault \<Rightarrow> (app_error + vault) option" where
  "sync_expense_payment T v i guard st =
     do { desired \<leftarrow> desired_entry T st i;
          Some (and_then (live_payment T st i) (\<lambda>live.
            if unchanged live desired then Inr st
            else and_then (ensure_open T guard live desired st) (\<lambda>_.
                 and_then (reverse_optional T v live REVERSAL st) (\<lambda>st1.
                 insert_optional T v desired ((e_acute @ ''criture de paiement d'' @ e_acute @ ''s'' @ e_acute @ ''quilibr'' @ e_acute @ ''e '' @ em_dash @ '' refus'' @ e_acute @ ''e'')) PAYMENT i st1)))) }"

definition sync_sale ::
    "time_api \<Rightarrow> jenv \<Rightarrow> uuid \<Rightarrow> sync_guard \<Rightarrow> vault \<Rightarrow> (app_error + vault) option" where
  "sync_sale T v i guard st =
     and_do (Some (live_source T st SALE i)) (\<lambda>live.
       if live \<noteq> None then ok st
       else do { desired \<leftarrow> desired_sale st i;
                 Some (if desired = None then Inr st
                       else and_then (refuse_closed_sale T guard None desired st) (\<lambda>_.
                            insert_optional T v desired ((e_acute @ ''criture de vente d'' @ e_acute @ ''s'' @ e_acute @ ''quilibr'' @ e_acute @ ''e '' @ em_dash @ '' refus'' @ e_acute @ ''e'')) SALE i st)) })"

definition sync_collection ::
    "time_api \<Rightarrow> jenv \<Rightarrow> uuid \<Rightarrow> sync_guard \<Rightarrow> vault \<Rightarrow> (app_error + vault) option" where
  "sync_collection T v i guard st =
     and_do (desired_collection T st i) (\<lambda>desired.
       Some (and_then (live_source T st SALE_COLLECTION i) (\<lambda>live.
         if unchanged live desired then Inr st
         else and_then (refuse_closed_sale T guard live desired st) (\<lambda>_.
              and_then (reverse_optional T v live COLLECTION_REVERSAL st) (\<lambda>st1.
              insert_optional T v desired ((e_acute @ ''criture d'' @ [CHR 0x27] @ ''encaissement d'' @ e_acute @ ''s'' @ e_acute @ ''quilibr'' @ e_acute @ ''e '' @ em_dash @ '' refus'' @ e_acute @ ''e'')) SALE_COLLECTION i st1)))))"

fun for_each :: "('a \<Rightarrow> vault \<Rightarrow> (app_error + vault) option) \<Rightarrow> 'a list \<Rightarrow> vault \<Rightarrow> (app_error + vault) option" where
  "for_each f [] st = ok st"
| "for_each f (x # xs) st = and_do (f x st) (for_each f xs)"

text \<open>The errors of the two recoveries become SQLite errors; their payload is the error here left out.\<close>

definition app_to_sqlite :: "app_error + 'a \<Rightarrow> app_error + 'a" where
  "app_to_sqlite r = (case r of Inl e \<Rightarrow> Inl Sqlite | Inr x \<Rightarrow> Inr x)"

definition backfill_expense_payments :: "time_api \<Rightarrow> jenv \<Rightarrow> vault \<Rightarrow> (app_error + vault) option" where
  "backfill_expense_payments T v st =
     (let ids = map exp_id (filter (\<lambda>e. paid_by e = PaidByAssociate
                  \<or> list_ex (\<lambda>t. matched_expense_id t = Some (exp_id e)) (v_bank st)) (v_expenses st))
      in map_option app_to_sqlite (for_each (\<lambda>i. sync_expense_payment T v i Backfill) ids st))"

definition backfill_service_bookings :: "time_api \<Rightarrow> jenv \<Rightarrow> vault \<Rightarrow> (app_error + vault) option" where
  "backfill_service_bookings T v st =
     map_option app_to_sqlite
       (and_do (for_each (\<lambda>iv. sync_sale T v (inv_id iv) Backfill)
            (sort_key (\<lambda>iv. (issued_on iv, inv_id iv)) (v_invoices st)) st)
          (for_each (\<lambda>p. sync_collection T v (pay_id p) Backfill)
            (sort_key (\<lambda>p. (received_on p, pay_id p)) (filter (\<lambda>p. \<not> is_voided p) (v_payments st)))))"

definition sync_vat_liquidation ::
    "time_api \<Rightarrow> jenv \<Rightarrow> string \<Rightarrow> ledger_entry option \<Rightarrow> vault \<Rightarrow> app_error + bool \<times> vault" where
  "sync_vat_liquidation T v key desired st =
     and_then (live_source T st VAT_LIQUIDATION key) (\<lambda>live.
       if unchanged live desired \<or> (live = None \<and> desired = None) then Inr (False, st)
       else and_then (reverse_optional T v live VAT_LIQUIDATION_REVERSAL st) (\<lambda>st1.
            and_then (insert_optional T v desired ((e_acute @ ''criture de liquidation de TVA d'' @ e_acute @ ''s'' @ e_acute @ ''quilibr'' @ e_acute @ ''e '' @ em_dash @ '' refus'' @ e_acute @ ''e'')) VAT_LIQUIDATION key st1) (\<lambda>st2.
            Inr (True, st2))))"

record payroll_pieces =
  accrual :: "ledger_entry option"
  net_piece :: "ledger_entry option"
  urssaf :: "ledger_entry option"

definition payroll_kinds :: "(string \<times> string) list" where
  "payroll_kinds = [(PAYROLL, PAYROLL_REVERSAL), (PAYROLL_NET, PAYROLL_NET_REVERSAL), (PAYROLL_URSSAF, PAYROLL_URSSAF_REVERSAL)]"

text \<open>The first pass decides, before anything is written, which pieces change.\<close>

fun payroll_changes ::
    "time_api \<Rightarrow> vault \<Rightarrow> (stored option \<times> ledger_entry option) list \<Rightarrow> app_error + bool list" where
  "payroll_changes T st [] = Inr []"
| "payroll_changes T st ((live, want) # xs) =
     (if unchanged live want \<or> (live = None \<and> want = None)
      then and_then (payroll_changes T st xs) (\<lambda>bs. Inr (False # bs))
      else and_then (ensure_open T RefuseClosedYear live want st) (\<lambda>_.
           and_then (payroll_changes T st xs) (\<lambda>bs. Inr (True # bs))))"

fun payroll_writes ::
    "time_api \<Rightarrow> jenv \<Rightarrow> string \<Rightarrow> (bool \<times> (stored option \<times> ledger_entry option) \<times> string \<times> string) list \<Rightarrow> vault \<Rightarrow> app_error + vault" where
  "payroll_writes T v key [] st = Inr st"
| "payroll_writes T v key ((rewrite, (live, want), kind, reversal_kind) # xs) st =
     (if \<not> rewrite then payroll_writes T v key xs st
      else and_then (reverse_optional T v live reversal_kind st) (\<lambda>st1.
           and_then (case want of None \<Rightarrow> Inr st1 | Some e \<Rightarrow> insert_entry T v e kind key None st1)
             (payroll_writes T v key xs)))"

definition sync_payroll ::
    "time_api \<Rightarrow> jenv \<Rightarrow> string \<Rightarrow> payroll_pieces \<Rightarrow> vault \<Rightarrow> app_error + bool \<times> vault" where
  "sync_payroll T v key pieces st =
     (let wants = [accrual pieces, net_piece pieces, urssaf pieces]
      in if \<not> list_all is_balanced (concat (map opt_list wants))
         then Inl (Domain ((e_acute @ ''criture de paie d'' @ e_acute @ ''s'' @ e_acute @ ''quilibr'' @ e_acute @ ''e '' @ em_dash @ '' refus'' @ e_acute @ ''e'')))
         else and_then (collect_results (map (\<lambda>(kind, _). live_source T st kind key) payroll_kinds)) (\<lambda>lives.
              and_then (payroll_changes T st (zip lives wants)) (\<lambda>changes.
              and_then (payroll_writes T v key (zip changes (zip (zip lives wants) payroll_kinds)) st) (\<lambda>st1.
              Inr (list_ex (\<lambda>b. b) changes, st1)))))"

fun add_credits :: "int list \<Rightarrow> money \<Rightarrow> app_error + money" where
  "add_credits [] social = Inr social"
| "add_credits (c # cs) social =
     (if 0 \<le> c then add_credits cs social
      else (case i64_try_from (- c) of
              None \<Rightarrow> Inl (Domain ((''cr'' @ e_acute @ ''dit 431 de la paie illisible'')))
            | Some credit \<Rightarrow>
                (case i64_try_from (social + credit) of
                   None \<Rightarrow> Inl (Domain ((''cr'' @ e_acute @ ''dit 431 de la paie hors plafond'')))
                 | Some raised \<Rightarrow> add_credits cs raised)))"

definition payroll_social :: "vault \<Rightarrow> string \<Rightarrow> app_error + money" where
  "payroll_social st i =
     add_credits (map jl_amount (filter (\<lambda>l. jl_entry_id l = i \<and> jl_account l = acc_number SOCIAL_DUE) (jlines st))) 0"

record booked_payroll =
  bp_on :: date
  bp_social :: money

definition booked_payrolls :: "time_api \<Rightarrow> vault \<Rightarrow> app_error + booked_payroll list" where
  "booked_payrolls T st =
     collect_results (map (\<lambda>h. case parse_date T (jh_date h) of
          None \<Rightarrow> Inl (Domain (''date de paie illisible ('' @ jh_date h @ '') : ''))
        | Some on \<Rightarrow> and_then (payroll_social st (jh_id h)) (\<lambda>s. Inr \<lparr>bp_on = on, bp_social = s\<rparr>))
       (sort_key (\<lambda>h. (jh_date h, jh_id h)) (filter (\<lambda>h. source_kind h = PAYROLL \<and> is_live h) (heads st))))"

definition corporate_tax_source :: "time_api \<Rightarrow> fiscal_year \<Rightarrow> string" where
  "corporate_tax_source T p = format_date T (fy_start p) @ ''|'' @ format_date T (fy_end p)"

definition post_corporate_tax :: "time_api \<Rightarrow> jenv \<Rightarrow> fiscal_year \<Rightarrow> money \<Rightarrow> vault \<Rightarrow> app_error + vault" where
  "post_corporate_tax T v p tax st =
     (if tax \<le> 0 then Inr st
      else and_then (live_source T st CORPORATE_TAX_KIND (corporate_tax_source T p)) (\<lambda>live.
           if live \<noteq> None then Inr st
           else (case corporate_tax_booking (fy_end p) tax of
                   None \<Rightarrow> Inr st
                 | Some e \<Rightarrow> and_then (ensure_open T RefuseClosedYear None (Some e) st) (\<lambda>_.
                     insert_entry T v e CORPORATE_TAX_KIND (corporate_tax_source T p) None st))))"

definition reverse_corporate_tax :: "time_api \<Rightarrow> jenv \<Rightarrow> fiscal_year \<Rightarrow> vault \<Rightarrow> app_error + vault" where
  "reverse_corporate_tax T v p st =
     and_then (live_source T st CORPORATE_TAX_KIND (corporate_tax_source T p)) (\<lambda>live.
       case live of
         None \<Rightarrow> Inr st
       | Some l \<Rightarrow> and_then (ensure_open T RefuseClosedYear (Some l) None st) (\<lambda>_.
           reverse T v l CORPORATE_TAX_REVERSAL st))"

end
