(* ===== verification/Kept.thy ===== *)
theory Kept
  imports Journal
begin

text \<open>
  The guarantees of \<open>journal.rs\<close> over whole runs: every operation is a sequence of two writes, the
  posting of a balanced entry and the reversal of a live one, and these keep the invariant of the two
  tables. The steps are the operations with whatever facts they find, and any change of the facts
  in between.
\<close>

section \<open>The writes\<close>

definition kept_date :: "date \<Rightarrow> bool" where
  "kept_date d \<longleftrightarrow> valid_date d \<and> 0 \<le> dyear d"

definition entry_dated :: "ledger_entry \<Rightarrow> bool" where
  "entry_dated e \<longleftrightarrow> kept_date (le_date e) \<and> kept_date (piece_date e)"

definition stored_live :: "time_api \<Rightarrow> vault \<Rightarrow> stored \<Rightarrow> bool" where
  "stored_live T st s \<longleftrightarrow>
     (\<exists>h \<in> set (heads st). is_live h \<and> jh_id h = st_id s \<and> load_entry T st h = Inr (st_entry s))"

text \<open>Sequences of writes, all of them on dates of which \<open>D\<close> holds.\<close>

inductive booked :: "time_api \<Rightarrow> (date \<Rightarrow> bool) \<Rightarrow> vault \<Rightarrow> vault \<Rightarrow> bool"
  for T D where
  booked_none: "booked T D st st"
| booked_post: "booked T D st st1 \<Longrightarrow> is_balanced e \<Longrightarrow> entry_dated e \<Longrightarrow> D (le_date e)
    \<Longrightarrow> insert_entry T v e kind i None st1 = Inr st2 \<Longrightarrow> booked T D st st2"
| booked_undo: "booked T D st st1 \<Longrightarrow> stored_live T st1 s \<Longrightarrow> D (le_date (st_entry s))
    \<Longrightarrow> reverse T v s kind st1 = Inr st2 \<Longrightarrow> booked T D st st2"

definition new_row :: "time_api \<Rightarrow> string \<Rightarrow> ledger_entry \<Rightarrow> string \<Rightarrow> string \<Rightarrow> string option \<Rightarrow> string \<Rightarrow> journal_head" where
  "new_row T new e kind i rev_of now =
     \<lparr>jh_id = new, jh_journal = journal_code (le_journal e), jh_date = format_date T (le_date e),
      jh_piece_ref = piece_ref e, jh_piece_date = format_date T (piece_date e),
      jh_label = le_label e, source_kind = kind, source_id = i, reversal_of = rev_of,
      reversed_at = None, jh_created_at = now\<rparr>"

definition new_lines :: "string \<Rightarrow> ledger_entry \<Rightarrow> journal_line list" where
  "new_lines new e = map (stored_line new) (enumerate 0 (le_lines e))"

definition mark_reversed :: "string \<Rightarrow> string \<Rightarrow> journal_head \<Rightarrow> journal_head" where
  "mark_reversed i now h = (if jh_id h = i then h\<lparr>reversed_at := Some now\<rparr> else h)"

lemma new_row_sel [simp]:
  "jh_id (new_row T new e k i r now) = new" "source_kind (new_row T new e k i r now) = k"
  "source_id (new_row T new e k i r now) = i" "is_live (new_row T new e k i r now) \<longleftrightarrow> r = None"
  "jh_date (new_row T new e k i r now) = format_date T (le_date e)"
  "reversed_at (new_row T new e k i r now) = None"
  by (simp_all add: new_row_def is_live_def)

lemma mark_reversed_sel [simp]:
  "jh_id (mark_reversed i now h) = jh_id h" "source_kind (mark_reversed i now h) = source_kind h"
  "source_id (mark_reversed i now h) = source_id h" "jh_date (mark_reversed i now h) = jh_date h"
  "is_live (mark_reversed i now h) \<longleftrightarrow> is_live h \<and> jh_id h \<noteq> i"
  by (auto simp: mark_reversed_def is_live_def)

lemma insert_Inr:
  assumes "insert_entry T v e kind i r st = Inr st'"
  obtains now where "uuid_at v (drawn st) \<notin> jh_id ` set (heads st)"
    "r = None \<Longrightarrow> \<forall>x \<in> set (heads st). is_live x \<longrightarrow> (source_kind x, source_id x) \<noteq> (kind, i)"
    "st' = st\<lparr>heads := heads st @ [new_row T (uuid_at v (drawn st)) e kind i r now],
              jlines := jlines st @ new_lines (uuid_at v (drawn st)) e, drawn := drawn st + 1\<rparr>"
proof -
  obtain now where now: "clock_text v = Inr now"
    using assms by (auto simp: insert_entry_def Let_def and_then_def split: sum.splits)
  show thesis
    by (rule that [of now])
      (use assms now in \<open>auto simp: insert_entry_def Let_def and_then_def new_row_def new_lines_def is_live_def
        list_ex_iff split: if_splits\<close>)
qed

lemma reverse_Inr:
  assumes "reverse T v s kind st = Inr st'"
  obtains now where "uuid_at v (drawn st) \<notin> jh_id ` set (heads st)"
    "st' = st\<lparr>heads := map (mark_reversed (st_id s) now) (heads st)
                @ [new_row T (uuid_at v (drawn st)) (extourne_entry (st_entry s)) kind (st_id s) (Some (st_id s)) now],
              jlines := jlines st @ new_lines (uuid_at v (drawn st)) (extourne_entry (st_entry s)), drawn := drawn st + 1\<rparr>"
proof -
  have m: "map (\<lambda>h. if jh_id h = st_id s then h\<lparr>reversed_at := Some now\<rparr> else h) hs = map (mark_reversed (st_id s) now) hs" for now hs
    by (simp add: mark_reversed_def)
  obtain now where now: "clock_text v = Inr now"
    using assms by (auto simp: reverse_def and_then_def split: sum.splits)
  show thesis
    by (rule that [of now])
      (use assms now in \<open>auto simp: reverse_def insert_entry_def and_then_def m Let_def new_row_def new_lines_def
        image_image is_live_def split: if_splits\<close>)
qed

section \<open>Sums of lines\<close>

definition line_sum :: "(journal_line \<Rightarrow> bool) \<Rightarrow> journal_line list \<Rightarrow> money" where
  "line_sum P ls = sum_list (map jl_amount (filter P ls))"

lemma line_sum_append [simp]: "line_sum P (xs @ ys) = line_sum P xs + line_sum P ys"
  by (simp add: line_sum_def)

lemma line_sum_none: "\<forall>l \<in> set ls. \<not> P l \<Longrightarrow> line_sum P ls = 0"
  by (simp add: line_sum_def cong: filter_cong)

lemma line_sum_split: "line_sum P ls = line_sum (\<lambda>l. P l \<and> Q l) ls + line_sum (\<lambda>l. P l \<and> \<not> Q l) ls"
  by (induction ls) (auto simp: line_sum_def)

lemma line_sum_cong: "(\<And>l. l \<in> set ls \<Longrightarrow> P l = Q l) \<Longrightarrow> line_sum P ls = line_sum Q ls"
  by (simp add: line_sum_def cong: filter_cong)

lemma numbered_account_number [simp]: "acc_number (numbered_account n label) = n"
  by (auto simp: numbered_account_def account_for_number_def find_Some_iff split: option.splits)

lemma load_line_sel [simp]: "ll_amount (load_line l) = jl_amount l" "acc_number (ll_account (load_line l)) = jl_account l"
  by (simp_all add: load_line_def)

lemma sum_sort_key: "sum_list (map f (sort_key k xs)) = sum_list (map (f :: 'a \<Rightarrow> int) xs)"
  by (metis mset_map mset_sort sum_mset_sum_list)

lemma sum_lines_of: "sum_list (map jl_amount (filter P (lines_of st i))) = line_sum (\<lambda>l. P l \<and> jl_entry_id l = i) (jlines st)"
proof -
  have "sum_list (map jl_amount (filter P (sort_key k xs))) = sum_list (map jl_amount (filter P xs))" for k :: "journal_line \<Rightarrow> nat" and xs
    by (metis mset_filter mset_map mset_sort sum_mset_sum_list)
  then show ?thesis by (simp add: lines_of_def line_sum_def conj_commute)
qed

definition on_number :: "(string \<Rightarrow> bool) \<Rightarrow> ledger_entry \<Rightarrow> money" where
  "on_number P e = sum_on (\<lambda>a. P (acc_number a)) [e]"

lemma on_number_lines: "on_number P e = sum_list (map ll_amount (filter (\<lambda>l. P (acc_number (ll_account l))) (le_lines e)))"
  by (simp add: on_number_def sum_on_def)

lemma new_lines_ids: "l \<in> set (new_lines new e) \<Longrightarrow> jl_entry_id l = new"
  by (auto simp: new_lines_def stored_line_def split: prod.splits)

lemma new_lines_sum: "line_sum (\<lambda>l. P (jl_account l)) (new_lines new e) = on_number P e"
proof -
  have "sum_list (map jl_amount (filter (\<lambda>l. P (jl_account l)) (map (stored_line new) (enumerate k ls))))
      = sum_list (map ll_amount (filter (\<lambda>l. P (acc_number (ll_account l))) ls))" for k ls
    by (induction ls arbitrary: k) (auto simp: stored_line_def)
  then show ?thesis by (simp add: line_sum_def new_lines_def on_number_lines)
qed

lemma balanced_number: "is_balanced e \<longleftrightarrow> on_number (\<lambda>_. True) e = 0"
  by (simp add: is_balanced_def on_number_lines)

lemma on_number_extourne [simp]: "on_number P (extourne_entry e) = - on_number P e"
  by (simp add: on_number_def)

section \<open>The invariant of the tables\<close>

definition live_ids :: "vault \<Rightarrow> string set" where
  "live_ids st = jh_id ` {h \<in> set (heads st). is_live h}"

definition readable :: "time_api \<Rightarrow> journal_head \<Rightarrow> bool" where
  "readable T h \<longleftrightarrow> (\<exists>j d p. jh_journal h = journal_code j \<and> kept_date d \<and> kept_date p
     \<and> jh_date h = format_date T d \<and> jh_piece_date h = format_date T p)"

definition one_live :: "vault \<Rightarrow> bool" where
  "one_live st \<longleftrightarrow> distinct (map (\<lambda>h. (source_kind h, source_id h)) (filter is_live (heads st)))"

definition known_rows :: "vault \<Rightarrow> bool" where
  "known_rows st \<longleftrightarrow> distinct (map jh_id (heads st))
     \<and> jl_entry_id ` set (jlines st) \<subseteq> jh_id ` set (heads st)"

definition balanced_rows :: "vault \<Rightarrow> bool" where
  "balanced_rows st \<longleftrightarrow> (\<forall>h \<in> set (heads st). line_sum (\<lambda>l. jl_entry_id l = jh_id h) (jlines st) = 0)"

text \<open>What is not live adds up to nothing, on any selection of account numbers.\<close>

definition live_sums :: "vault \<Rightarrow> bool" where
  "live_sums st \<longleftrightarrow> (\<forall>P. line_sum (\<lambda>l. P (jl_account l)) (jlines st)
     = line_sum (\<lambda>l. P (jl_account l) \<and> jl_entry_id l \<in> live_ids st) (jlines st))"

definition kept :: "time_api \<Rightarrow> vault \<Rightarrow> bool" where
  "kept T st \<longleftrightarrow> known_rows st \<and> list_all (readable T) (heads st) \<and> one_live st
     \<and> balanced_rows st \<and> live_sums st"

context time_crate
begin

lemma read_date: "kept_date d \<Longrightarrow> parse_date T (format_date T d) = Some d"
  by (simp add: kept_date_def format_date_def parse_date_def format_ymd parse_format)

lemma load_readable:
  assumes "readable T h"
  obtains e where "load_entry T st h = Inr e" "le_lines e = map load_line (lines_of st (jh_id h))"
    "format_date T (le_date e) = jh_date h" "entry_dated e"
  using assms by (auto simp: readable_def load_entry_def read_date journal_code_roundtrip entry_dated_def)

lemma readable_new [simp]: "entry_dated e \<Longrightarrow> readable T (new_row T new e k i r now)"
  by (auto simp: readable_def new_row_def entry_dated_def)

lemma readable_marked [simp]: "readable T (mark_reversed i now h) \<longleftrightarrow> readable T h"
  by (simp add: readable_def mark_reversed_def)

text \<open>The loaded entry of a live row.\<close>

lemma loaded_number: "load_entry T st h = Inr e \<Longrightarrow>
    on_number P e = line_sum (\<lambda>l. P (jl_account l) \<and> jl_entry_id l = jh_id h) (jlines st)"
  using sum_lines_of [of "\<lambda>l. P (jl_account l)" st "jh_id h"]
  by (auto simp: load_entry_def on_number_lines filter_map o_def split: option.splits)

end

lemma fresh_lines:
  assumes "known_rows st" "new \<notin> jh_id ` set (heads st)"
  shows "line_sum (\<lambda>l. P l \<and> jl_entry_id l = new) (jlines st) = 0"
  using assms by (intro line_sum_none) (auto simp: known_rows_def)

lemma old_lines:
  assumes "i \<noteq> new"
  shows "line_sum (\<lambda>l. P l \<and> jl_entry_id l = i) (new_lines new e) = 0"
  using assms by (intro line_sum_none) (auto dest: new_lines_ids)

lemma id_injective:
  "distinct (map jh_id hs) \<Longrightarrow> h \<in> set hs \<Longrightarrow> h' \<in> set hs \<Longrightarrow> jh_id h = jh_id h' \<Longrightarrow> h = h'"
  by (simp add: distinct_map inj_on_def)

text \<open>Both writes in one: the heads keep their identifiers, one is added.\<close>

definition one_more :: "vault \<Rightarrow> journal_head list \<Rightarrow> journal_head \<Rightarrow> ledger_entry \<Rightarrow> vault \<Rightarrow> bool" where
  "one_more st hs h e st' \<longleftrightarrow> map jh_id hs = map jh_id (heads st)
     \<and> jh_id h \<notin> jh_id ` set (heads st)
     \<and> st' = st\<lparr>heads := hs @ [h], jlines := jlines st @ new_lines (jh_id h) e, drawn := drawn st + 1\<rparr>"

lemma one_more_ids:
  assumes "one_more st hs h e st'"
  shows "map jh_id (heads st') = map jh_id (heads st) @ [jh_id h]"
    and "jh_id ` set (heads st') = insert (jh_id h) (jh_id ` set (heads st))"
    and "jlines st' = jlines st @ new_lines (jh_id h) e"
    and "jh_id h \<notin> jh_id ` set (heads st)"
proof -
  show m: "map jh_id (heads st') = map jh_id (heads st) @ [jh_id h]"
    using assms by (simp add: one_more_def)
  show "jh_id ` set (heads st') = insert (jh_id h) (jh_id ` set (heads st))"
    using arg_cong [OF m, of set] by simp
qed (use assms in \<open>auto simp: one_more_def\<close>)

lemma line_not_new:
  "one_more st hs h e st' \<Longrightarrow> known_rows st \<Longrightarrow> l \<in> set (jlines st) \<Longrightarrow> jl_entry_id l \<noteq> jh_id h"
  using one_more_ids(4) [of st hs h e st'] unfolding known_rows_def by (metis image_eqI subsetD)

lemma one_more_known:
  assumes m: "one_more st hs h e st'" and k: "known_rows st"
  shows "known_rows st'"
proof -
  have new: "jl_entry_id ` set (new_lines (jh_id h) e) \<subseteq> {jh_id h}"
    by (auto dest: new_lines_ids)
  show ?thesis
    unfolding known_rows_def
  proof (intro conjI)
    show "distinct (map jh_id (heads st'))"
      using k one_more_ids(4) [OF m] by (simp add: known_rows_def one_more_ids(1) [OF m])
    show "jl_entry_id ` set (jlines st') \<subseteq> jh_id ` set (heads st')"
      using k new unfolding known_rows_def one_more_ids(2,3) [OF m] by (simp add: image_Un) blast
  qed
qed

lemma one_more_balanced:
  assumes "one_more st hs h e st'" "known_rows st" "balanced_rows st" "is_balanced e"
  shows "balanced_rows st'"
  unfolding balanced_rows_def
proof
  fix x assume "x \<in> set (heads st')"
  then consider "jh_id x \<in> jh_id ` set (heads st)" | "jh_id x = jh_id h"
    using one_more_ids(2) [OF assms(1)] by blast
  then show "line_sum (\<lambda>l. jl_entry_id l = jh_id x) (jlines st') = 0"
  proof cases
    case 1
    then have "jh_id x \<noteq> jh_id h" using assms(1) by (auto simp: one_more_def)
    with 1 show ?thesis using assms(1,3) old_lines [of "jh_id x" "jh_id h" "\<lambda>_. True" e]
      by (auto simp: one_more_def balanced_rows_def)
  next
    case 2
    have "line_sum (\<lambda>l. jl_entry_id l = jh_id h) (new_lines (jh_id h) e) = on_number (\<lambda>_. True) e"
      by (subst new_lines_sum [symmetric], rule line_sum_cong) (auto dest: new_lines_ids)
    then show ?thesis
      using 2 assms(4) fresh_lines [OF assms(2) one_more_ids(4) [OF assms(1)], of "\<lambda>_. True"]
      by (simp add: one_more_ids(3) [OF assms(1)] balanced_number)
  qed
qed

lemma one_more_post:
  assumes "one_more st (heads st) h e st'" "is_live h" "live_sums st" "known_rows st"
  shows "live_sums st'"
proof -
  have "{x \<in> set (heads st'). is_live x} = insert h {x \<in> set (heads st). is_live x}"
    using assms(1,2) by (auto simp: one_more_def)
  then have ids: "live_ids st' = insert (jh_id h) (live_ids st)" by (simp add: live_ids_def)
  have old: "line_sum (\<lambda>l. P (jl_account l) \<and> jl_entry_id l \<in> live_ids st') (jlines st)
      = line_sum (\<lambda>l. P (jl_account l) \<and> jl_entry_id l \<in> live_ids st) (jlines st)" for P
    by (rule line_sum_cong) (use line_not_new [OF assms(1,4)] in \<open>auto simp: ids\<close>)
  have new: "line_sum (\<lambda>l. P (jl_account l) \<and> jl_entry_id l \<in> live_ids st') (new_lines (jh_id h) e)
      = line_sum (\<lambda>l. P (jl_account l)) (new_lines (jh_id h) e)" for P
    by (rule line_sum_cong) (auto simp: ids dest: new_lines_ids)
  show ?thesis
    unfolding live_sums_def
  proof
    fix P
    have "jlines st' = jlines st @ new_lines (jh_id h) e" using assms(1) by (simp add: one_more_def)
    then show "line_sum (\<lambda>l. P (jl_account l)) (jlines st')
      = line_sum (\<lambda>l. P (jl_account l) \<and> jl_entry_id l \<in> live_ids st') (jlines st')"
      using old [of P] new [of P] assms(3) by (simp add: live_sums_def)
  qed
qed


text \<open>A reversal: the reversed row is no longer live and its opposite is added.\<close>

lemma one_more_undo:
  assumes m: "one_more st hs h e st'" and h: "\<not> is_live h" and s: "live_sums st" and k: "known_rows st"
    and old: "x \<in> set (heads st)" "is_live x"
    and ids: "live_ids st' = live_ids st - {jh_id x}"
    and e: "\<And>P. on_number P e = - line_sum (\<lambda>l. P (jl_account l) \<and> jl_entry_id l = jh_id x) (jlines st)"
  shows "live_sums st'"
  unfolding live_sums_def
proof
  fix P
  have x: "jh_id x \<in> live_ids st" using old by (auto simp: live_ids_def)
  have split: "line_sum (\<lambda>l. P (jl_account l) \<and> jl_entry_id l \<in> live_ids st) (jlines st)
      = line_sum (\<lambda>l. P (jl_account l) \<and> jl_entry_id l = jh_id x) (jlines st)
        + line_sum (\<lambda>l. P (jl_account l) \<and> jl_entry_id l \<in> live_ids st') (jlines st)"
    using x line_sum_split [of "\<lambda>l. P (jl_account l) \<and> jl_entry_id l \<in> live_ids st" "jlines st" "\<lambda>l. jl_entry_id l = jh_id x"]
    by (auto simp: ids intro!: line_sum_cong arg_cong2 [where f = "(+)"])
  have "jh_id h \<notin> live_ids st'"
    using one_more_ids(4) [OF m] unfolding ids by (auto simp: live_ids_def)
  then have none: "line_sum (\<lambda>l. P (jl_account l) \<and> jl_entry_id l \<in> live_ids st') (new_lines (jh_id h) e) = 0"
    by (intro line_sum_none) (auto dest: new_lines_ids)
  show "line_sum (\<lambda>l. P (jl_account l)) (jlines st')
      = line_sum (\<lambda>l. P (jl_account l) \<and> jl_entry_id l \<in> live_ids st') (jlines st')"
    using s split none e [of P] by (simp add: one_more_ids(3) [OF m] new_lines_sum live_sums_def)
qed

context time_crate
begin

lemma post_kept:
  assumes k: "kept T st" and e: "is_balanced e" "entry_dated e"
    and i: "insert_entry T v e kind i None st = Inr st'"
  shows "kept T st'"
proof -
  from i obtain now where new: "uuid_at v (drawn st) \<notin> jh_id ` set (heads st)"
    and dup: "\<forall>x \<in> set (heads st). is_live x \<longrightarrow> (source_kind x, source_id x) \<noteq> (kind, i)"
    and st': "st' = st\<lparr>heads := heads st @ [new_row T (uuid_at v (drawn st)) e kind i None now],
              jlines := jlines st @ new_lines (uuid_at v (drawn st)) e, drawn := drawn st + 1\<rparr>"
    by (rule insert_Inr) simp_all
  let ?h = "new_row T (uuid_at v (drawn st)) e kind i None now"
  have m: "one_more st (heads st) ?h e st'" using new by (simp add: one_more_def st')
  have k': "known_rows st" "live_sums st" "balanced_rows st" using k by (simp_all add: kept_def)
  have "live_sums st'" by (rule one_more_post [OF m _ k'(2,1)]) simp
  moreover have "one_live st'" using k dup by (auto simp: kept_def one_live_def st')
  ultimately show ?thesis
    using k e one_more_known [OF m k'(1)] one_more_balanced [OF m k'(1,3) e(1)] by (simp add: kept_def st')
qed

lemma undo_kept:
  assumes k: "kept T st" and s: "stored_live T st s"
    and r: "reverse T v s kind st = Inr st'"
  shows "kept T st'"
proof -
  let ?e = "extourne_entry (st_entry s)"
  from r obtain now where new: "uuid_at v (drawn st) \<notin> jh_id ` set (heads st)"
    and st': "st' = st\<lparr>heads := map (mark_reversed (st_id s) now) (heads st)
          @ [new_row T (uuid_at v (drawn st)) ?e kind (st_id s) (Some (st_id s)) now],
              jlines := jlines st @ new_lines (uuid_at v (drawn st)) ?e, drawn := drawn st + 1\<rparr>"
    by (rule reverse_Inr) simp_all
  let ?h = "new_row T (uuid_at v (drawn st)) ?e kind (st_id s) (Some (st_id s)) now"
  have m: "one_more st (map (mark_reversed (st_id s) now) (heads st)) ?h ?e st'"
    using new by (simp add: one_more_def st')
  have k': "known_rows st" "live_sums st" "balanced_rows st" "list_all (readable T) (heads st)"
    using k by (simp_all add: kept_def)
  from s obtain x where x: "x \<in> set (heads st)" "is_live x" "jh_id x = st_id s"
    and ld: "load_entry T st x = Inr (st_entry s)" by (auto simp: stored_live_def)
  then have "readable T x" using k'(4) by (auto simp: list_all_iff)
  then have dated: "entry_dated (st_entry s)" using ld by (auto elim: load_readable [where st = st])
  have num: "on_number P ?e = - line_sum (\<lambda>l. P (jl_account l) \<and> jl_entry_id l = jh_id x) (jlines st)" for P
    using loaded_number [OF ld] by simp
  have bal: "is_balanced ?e"
    using num [of "\<lambda>_. True"] k'(3) x(1) by (simp add: balanced_number balanced_rows_def)
  have live: "filter is_live (heads st') = map (mark_reversed (st_id s) now) (filter (\<lambda>h. is_live h \<and> jh_id h \<noteq> st_id s) (heads st))"
    by (simp add: st' filter_map o_def)
  have ids: "live_ids st' = live_ids st - {jh_id x}"
  proof -
    have "live_ids st' = jh_id ` set (filter is_live (heads st'))" by (simp add: live_ids_def)
    also have "\<dots> = live_ids st - {jh_id x}" unfolding live by (auto simp: image_image x(3) live_ids_def)
    finally show ?thesis .
  qed
  have "one_live st'"
  proof -
    have "distinct (map f (filter (\<lambda>h. P h \<and> Q h) xs))" if "distinct (map f (filter P xs))" for P Q xs and f :: "journal_head \<Rightarrow> string \<times> string"
      using distinct_map_filter [OF that, of Q] by (simp add: conj_commute)
    then show ?thesis using k by (simp add: kept_def one_live_def live o_def)
  qed
  moreover have "live_sums st'" by (rule one_more_undo [OF m _ k'(2,1) x(1,2) ids num]) simp
  moreover have "list_all (readable T) (heads st')"
    using k'(4) dated by (simp add: st' list_all_iff entry_dated_def extourne_entry_def)
  ultimately show ?thesis
    using one_more_known [OF m k'(1)] one_more_balanced [OF m k'(1,3) bal] by (simp add: kept_def)
qed

lemma booked_kept: "booked T D st st' \<Longrightarrow> kept T st \<Longrightarrow> kept T st'"
  by (induction rule: booked.induct) (blast intro: post_kept undo_kept)+


end

section \<open>Operations are writes\<close>

lemma found_at: "find P xs = Some x \<Longrightarrow> x \<in> set xs \<and> P x"
  by (auto simp: find_Some_iff)

lemma live_source_Some:
  assumes "live_source T st k i = Inr (Some s)"
  obtains h where "h \<in> set (heads st)" "source_kind h = k" "source_id h = i" "is_live h"
    "st_id s = jh_id h" "load_entry T st h = Inr (st_entry s)"
  using assms by (auto simp: live_source_def split: option.splits dest!: found_at)

lemma live_source_stored:
  "live_source T st k i = Inr (Some s) \<Longrightarrow> stored_live T st s"
  by (rule live_source_Some) (auto simp: stored_live_def)

lemma booked_trans: "booked T D b c \<Longrightarrow> booked T D a b \<Longrightarrow> booked T D a c"
  by (induction rule: booked.induct) (blast intro: booked.intros)+

lemma reverse_optional_booked:
  assumes "reverse_optional T v live k st = Inr st'" "live_source T st k0 i = Inr live"
    "\<And>s. live = Some s \<Longrightarrow> D (le_date (st_entry s))"
  shows "booked T D st st'"
  using assms by (auto simp: reverse_optional_def split: option.splits
    intro: booked_none booked_undo live_source_stored)

lemma insert_optional_booked:
  assumes "insert_optional T v desired m k i st = Inr st'"
    "\<And>e. desired = Some e \<Longrightarrow> entry_dated e \<and> D (le_date e)"
  shows "booked T D st st'"
  using assms by (auto simp: insert_optional_def split: option.splits if_splits intro: booked_none booked_post)

text \<open>The facts whose dates become dates of entries.\<close>

definition facts_dated :: "vault \<Rightarrow> bool" where
  "facts_dated st \<longleftrightarrow> list_all (\<lambda>e. kept_date (incurred_on e)) (v_expenses st)
     \<and> list_all (\<lambda>t. kept_date (occurred_on t)) (v_bank st)
     \<and> list_all (\<lambda>i. kept_date (issued_on i)) (v_invoices st)
     \<and> list_all (\<lambda>p. kept_date (received_on p)) (v_payments st)"

lemma entry_dates: "entry j d piece label ls = Some e \<Longrightarrow> le_date e = d \<and> piece_date e = d"
  by (auto simp: entry_def Let_def split: if_splits)

lemma find_all: "find P xs = Some x \<Longrightarrow> list_all Q xs \<Longrightarrow> Q x"
  by (auto simp: list_all_iff dest: found_at)

lemma expense_payment_dates:
  "expense_payment_entry T x p im = Some (Some e) \<Longrightarrow>
     le_date e = (case p of PaidFromBank on \<Rightarrow> on | PaidByTheAssociate \<Rightarrow> incurred_on x) \<and> piece_date e = le_date e"
  by (auto simp: expense_payment_entry_def Let_def split: expense_payment.splits bind_splits if_splits
      dest!: entry_dates)

lemma desired_entry_dated:
  "desired_entry T st i = Some (Some e) \<Longrightarrow> facts_dated st \<Longrightarrow> entry_dated e"
  by (auto simp: desired_entry_def bank_date_def facts_dated_def entry_dated_def Let_def
      split: option.splits expense_paid_by.splits dest!: expense_payment_dates dest: find_all)

lemma desired_sale_dated:
  "desired_sale st i = Some (Some e) \<Longrightarrow> facts_dated st \<Longrightarrow> entry_dated e"
  by (auto simp: desired_sale_def service_sale_entry_def facts_dated_def entry_dated_def Let_def
      split: option.splits bind_splits dest!: entry_dates dest: find_all)

lemma and_do_ok: "and_do r f = Some (Inr y) \<longleftrightarrow> (\<exists>x. r = Some (Inr x) \<and> f x = Some (Inr y))"
  by (auto simp: and_do_def split: option.split sum.split)

lemma ok_eq [simp]: "ok x = Some (Inr y) \<longleftrightarrow> x = y"
  by (simp add: ok_def)

lemma desired_collection_dated:
  "desired_collection T st i = Some (Inr (Some e)) \<Longrightarrow> facts_dated st \<Longrightarrow> entry_dated e"
  by (auto simp: desired_collection_def receipt_entry_def facts_dated_def entry_dated_def and_do_ok
      split: option.splits if_splits dest!: entry_dates dest: find_all)

text \<open>The facts are not the journal's to change.\<close>

definition facts_of :: "vault \<Rightarrow> vault" where
  "facts_of st = st\<lparr>heads := [], jlines := [], drawn := 0\<rparr>"

lemma facts_eq:
  assumes "facts_of st = facts_of st'"
  shows "v_expenses st = v_expenses st'" "v_bank st = v_bank st'" "v_assets st = v_assets st'"
    "v_invoices st = v_invoices st'" "v_payments st = v_payments st'" "v_clients st = v_clients st'"
    "v_years st = v_years st'"
  using assms by (cases st; cases st'; simp add: facts_of_def)+

lemma booked_facts: "booked T D st st' \<Longrightarrow> facts_of st' = facts_of st"
  by (induction rule: booked.induct) (auto simp: facts_of_def elim!: insert_Inr reverse_Inr)

lemma facts_dated_cong: "facts_of st = facts_of st' \<Longrightarrow> facts_dated st \<longleftrightarrow> facts_dated st'"
  by (simp add: facts_dated_def facts_eq [of st st'])

text \<open>What a guard leaves open.\<close>

definition open_for :: "time_api \<Rightarrow> sync_guard \<Rightarrow> vault \<Rightarrow> date \<Rightarrow> bool" where
  "open_for T g st d \<longleftrightarrow> g = RefuseClosedYear \<longrightarrow> \<not> date_in_recorded_exercise T st d"

lemma guarded_dates_mem:
  "set (guarded_dates live desired) = (\<lambda>s. le_date (st_entry s)) ` set_option live \<union> le_date ` set_option desired"
  by (cases live; cases desired; auto simp: guarded_dates_def opt_list_def)

lemma ensure_open_Inr:
  assumes "ensure_open T g live desired st = Inr u \<or> refuse_closed_sale T g live desired st = Inr u"
  shows "live = Some s \<Longrightarrow> open_for T g st (le_date (st_entry s))" "desired = Some e \<Longrightarrow> open_for T g st (le_date e)"
proof -
  have "\<forall>d \<in> set (guarded_dates live desired). open_for T g st d"
    using assms by (cases g) (auto simp: ensure_open_def refuse_closed_sale_def open_for_def find_None_iff list_ex_iff
        split: option.splits if_splits)
  then show "live = Some s \<Longrightarrow> open_for T g st (le_date (st_entry s))" "desired = Some e \<Longrightarrow> open_for T g st (le_date e)"
    by (auto simp: guarded_dates_mem)
qed

lemma ensure_open_both: "ensure_open T g live desired st = Inr u \<Longrightarrow>
    (\<forall>s. live = Some s \<longrightarrow> open_for T g st (le_date (st_entry s))) \<and> (\<forall>e. desired = Some e \<longrightarrow> open_for T g st (le_date e))"
  using ensure_open_Inr [of T g live desired st u] by blast

lemmas open_live = ensure_open_Inr(1) [OF disjI1 refl] ensure_open_Inr(1) [OF disjI2 refl]
lemmas open_desired = ensure_open_Inr(2) [OF disjI1 refl] ensure_open_Inr(2) [OF disjI2 refl]

lemma rewritten:
  assumes "reverse_optional T v live rk st = Inr st1" "insert_optional T v desired m k i st1 = Inr st'"
    "live_source T st k i = Inr live" "\<And>e. desired = Some e \<Longrightarrow> entry_dated e"
    and guard: "ensure_open T g live desired st = Inr u \<or> refuse_closed_sale T g live desired st = Inr u"
    and D: "\<And>d. open_for T g st d \<Longrightarrow> D d"
  shows "booked T D st st'"
proof (rule booked_trans)
  show "booked T D st st1"
    using assms(1,3) ensure_open_Inr(1) [OF guard] D by (blast intro: reverse_optional_booked)
  show "booked T D st1 st'"
    using assms(2,4) ensure_open_Inr(2) [OF guard] D by (blast intro: insert_optional_booked)
qed

lemma sync_expense_booked:
  assumes "sync_expense_payment T v i g st = Some (Inr st')" "facts_dated st" "\<And>d. open_for T g st d \<Longrightarrow> D d"
  shows "booked T D st st'"
  using assms by (auto simp: sync_expense_payment_def live_payment_def split: bind_splits if_splits
    intro: booked_none rewritten desired_entry_dated)

lemma sync_sale_booked:
  assumes "sync_sale T v i g st = Some (Inr st')" "facts_dated st" "\<And>d. open_for T g st d \<Longrightarrow> D d"
  shows "booked T D st st'"
  using assms by (auto simp: sync_sale_def and_do_ok split: bind_splits if_splits
    intro: booked_none insert_optional_booked desired_sale_dated open_desired)

lemma sync_collection_booked:
  assumes "sync_collection T v i g st = Some (Inr st')" "facts_dated st" "\<And>d. open_for T g st d \<Longrightarrow> D d"
  shows "booked T D st st'"
  using assms by (auto simp: sync_collection_def and_do_ok split: if_splits
    intro: booked_none rewritten desired_collection_dated)

lemma sync_vat_booked:
  assumes "sync_vat_liquidation T v key desired st = Inr (b, st')" "\<And>e. desired = Some e \<Longrightarrow> entry_dated e" "\<And>d. D d"
  shows "booked T D st st'"
proof -
  from assms(1) obtain live where live: "live_source T st VAT_LIQUIDATION key = Inr live"
    by (auto simp: sync_vat_liquidation_def)
  show ?thesis
  proof (cases "unchanged live desired \<or> live = None \<and> desired = None")
    case True
    then show ?thesis using assms(1) live by (auto simp: sync_vat_liquidation_def intro: booked_none)
  next
    case False
    with assms(1) live obtain st1 m where "reverse_optional T v live VAT_LIQUIDATION_REVERSAL st = Inr st1"
      "insert_optional T v desired m VAT_LIQUIDATION key st1 = Inr st'"
      by (auto simp: sync_vat_liquidation_def split: if_splits)
    then have "booked T D st st1" "booked T D st1 st'"
      using assms(2,3) by (simp_all add: reverse_optional_booked [OF _ live] insert_optional_booked)
    then show ?thesis by (blast intro: booked_trans)
  qed
qed

lemma for_each_booked:
  assumes "for_each f xs st = Some (Inr st')" "facts_dated st"
    "\<And>x s s'. f x s = Some (Inr s') \<Longrightarrow> facts_dated s \<Longrightarrow> booked T D s s'"
  shows "booked T D st st'"
  using assms(1,2)
proof (induction xs arbitrary: st)
  case (Cons x xs)
  then obtain s where s: "f x st = Some (Inr s)" "for_each f xs s = Some (Inr st')" by (auto simp: and_do_ok)
  with assms(3) Cons.prems(2) have b: "booked T D st s" by blast
  then have "facts_dated s" using Cons.prems(2) booked_facts facts_dated_cong by metis
  with Cons.IH s(2) have "booked T D s st'" by blast
  with b show ?case by (blast intro: booked_trans)
qed (simp add: booked_none)

lemma app_to_sqlite_Inr [simp]: "app_to_sqlite r = Inr x \<longleftrightarrow> r = Inr x"
  by (simp add: app_to_sqlite_def split: sum.split)

lemma to_sqlite_ok: "map_option app_to_sqlite r = Some (Inr x) \<longleftrightarrow> r = Some (Inr x)"
  by auto

lemma backfill_expenses_booked:
  "backfill_expense_payments T v st = Some (Inr st') \<Longrightarrow> facts_dated st \<Longrightarrow> (\<And>d. D d) \<Longrightarrow> booked T D st st'"
  unfolding backfill_expense_payments_def Let_def to_sqlite_ok
  by (erule for_each_booked) (auto intro: sync_expense_booked)

lemma backfill_services_booked:
  assumes "backfill_service_bookings T v st = Some (Inr st')" "facts_dated st" "\<And>d. D d"
  shows "booked T D st st'"
proof -
  from assms(1) obtain s where s: "for_each (\<lambda>iv. sync_sale T v (inv_id iv) Backfill)
        (sort_key (\<lambda>iv. (issued_on iv, inv_id iv)) (v_invoices st)) st = Some (Inr s)"
    and t: "for_each (\<lambda>p. sync_collection T v (pay_id p) Backfill)
        (sort_key (\<lambda>p. (received_on p, pay_id p)) (filter (\<lambda>p. \<not> is_voided p) (v_payments st))) s = Some (Inr st')"
    unfolding backfill_service_bookings_def to_sqlite_ok and_do_ok by blast
  have b: "booked T D st s" using for_each_booked [OF s assms(2)] sync_sale_booked assms(3) by blast
  then have "facts_dated s" using assms(2) booked_facts facts_dated_cong by metis
  then have "booked T D s st'" using for_each_booked [OF t] sync_collection_booked assms(3) by blast
  with b show ?thesis by (blast intro: booked_trans)
qed

lemma post_tax_booked:
  assumes "post_corporate_tax T v p tax st = Inr st'" "kept_date (fy_end p)"
    "\<And>d. open_for T RefuseClosedYear st d \<Longrightarrow> D d"
  shows "booked T D st st'"
proof -
  have "entry_dated e" if "corporate_tax_booking (fy_end p) tax = Some e" for e
    using that assms(2) by (auto simp: corporate_tax_booking_def entry_dated_def split: if_splits dest!: entry_dates)
  then show ?thesis
    using assms(1,3) by (auto simp: post_corporate_tax_def split: if_splits option.splits
        intro: booked_none booked_post tax_booking_balanced open_desired)
qed

lemma reverse_tax_booked:
  assumes "reverse_corporate_tax T v p st = Inr st'" "\<And>d. open_for T RefuseClosedYear st d \<Longrightarrow> D d"
  shows "booked T D st st'"
proof -
  from assms(1) obtain live where live: "live_source T st CORPORATE_TAX_KIND (corporate_tax_source T p) = Inr live"
    by (auto simp: reverse_corporate_tax_def)
  show ?thesis
  proof (cases live)
    case None
    then show ?thesis using assms(1) live by (auto simp: reverse_corporate_tax_def intro: booked_none)
  next
    case (Some s)
    then have "ensure_open T RefuseClosedYear (Some s) None st = Inr ()" "reverse T v s CORPORATE_TAX_REVERSAL st = Inr st'"
      using assms(1) live by (auto simp: reverse_corporate_tax_def)
    then show ?thesis
      using booked_undo [OF booked_none live_source_stored] live Some assms(2) open_live(1) by blast
  qed
qed

subsection \<open>The three entries of a payroll\<close>

lemma not_image: "x \<notin> f ` A \<Longrightarrow> y \<in> A \<Longrightarrow> f y \<noteq> x"
  by auto

lemma opt_list_all: "list_all P (opt_list x) \<longleftrightarrow> (\<forall>y. x = Some y \<longrightarrow> P y)"
  by (simp add: opt_list_def split: option.split)

lemma set_opt_option [simp]: "set (opt_list x) = set_option x"
  by (cases x) (simp_all add: opt_list_def)

lemma lines_of_new: "i \<noteq> new \<Longrightarrow> jlines st' = jlines st @ new_lines new e \<Longrightarrow> lines_of st' i = lines_of st i"
proof -
  assume i: "i \<noteq> new" and l: "jlines st' = jlines st @ new_lines new e"
  have "filter (\<lambda>l. jl_entry_id l = i) (new_lines new e) = []" using i by (auto simp: filter_empty_conv dest: new_lines_ids)
  then show ?thesis by (simp add: lines_of_def l)
qed

lemma load_entry_lines: "lines_of st' (jh_id h) = lines_of st (jh_id h) \<Longrightarrow> load_entry T st' h = load_entry T st h"
  by (simp only: load_entry_def)

lemma load_marked: "load_entry T st (mark_reversed i now h) = load_entry T st h"
proof -
  have "jh_journal (mark_reversed i now h) = jh_journal h" "jh_piece_ref (mark_reversed i now h) = jh_piece_ref h"
    "jh_piece_date (mark_reversed i now h) = jh_piece_date h" "jh_label (mark_reversed i now h) = jh_label h"
    by (simp_all add: mark_reversed_def)
  then show ?thesis by (simp only: load_entry_def mark_reversed_sel)
qed

lemma stored_live_post:
  assumes "insert_entry T v e kind i None st = Inr st'" "stored_live T st s"
  shows "stored_live T st' s"
proof -
  from assms(1) obtain now where new: "uuid_at v (drawn st) \<notin> jh_id ` set (heads st)"
    and st': "st' = st\<lparr>heads := heads st @ [new_row T (uuid_at v (drawn st)) e kind i None now],
              jlines := jlines st @ new_lines (uuid_at v (drawn st)) e, drawn := drawn st + 1\<rparr>"
    by (rule insert_Inr) simp
  from assms(2) obtain h where h: "h \<in> set (heads st)" "is_live h" "jh_id h = st_id s" "load_entry T st h = Inr (st_entry s)"
    by (auto simp: stored_live_def)
  have "jh_id h \<noteq> uuid_at v (drawn st)" by (rule not_image [OF new h(1)])
  then have "lines_of st' (jh_id h) = lines_of st (jh_id h)" by (rule lines_of_new) (simp add: st')
  from load_entry_lines [OF this] h(4) have "load_entry T st' h = Inr (st_entry s)" by simp
  then show ?thesis using h by (auto simp: stored_live_def st')
qed

lemma stored_live_undo:
  assumes "reverse T v s0 kind st = Inr st'" "stored_live T st s" "st_id s \<noteq> st_id s0"
  shows "stored_live T st' s"
proof -
  from assms(1) obtain now where new: "uuid_at v (drawn st) \<notin> jh_id ` set (heads st)"
    and st': "st' = st\<lparr>heads := map (mark_reversed (st_id s0) now) (heads st)
                @ [new_row T (uuid_at v (drawn st)) (extourne_entry (st_entry s0)) kind (st_id s0) (Some (st_id s0)) now],
              jlines := jlines st @ new_lines (uuid_at v (drawn st)) (extourne_entry (st_entry s0)), drawn := drawn st + 1\<rparr>"
    by (rule reverse_Inr) simp
  from assms(2) obtain h where h: "h \<in> set (heads st)" "is_live h" "jh_id h = st_id s" "load_entry T st h = Inr (st_entry s)"
    by (auto simp: stored_live_def)
  have "jh_id h \<noteq> uuid_at v (drawn st)" by (rule not_image [OF new h(1)])
  then have "lines_of st' (jh_id h) = lines_of st (jh_id h)" by (rule lines_of_new) (simp add: st')
  from load_entry_lines [OF this] h(4) have "load_entry T st' (mark_reversed (st_id s0) now h) = Inr (st_entry s)"
    by (simp add: load_marked)
  moreover have "mark_reversed (st_id s0) now h \<in> set (heads st')" using h(1) by (simp add: st')
  moreover have "is_live (mark_reversed (st_id s0) now h)" using h(2,3) assms(3) by simp
  ultimately show ?thesis using h(3) unfolding stored_live_def by (metis mark_reversed_sel(1))
qed

lemma reverse_optional_live:
  "reverse_optional T v live kind st = Inr st' \<Longrightarrow> stored_live T st s \<Longrightarrow> Some (st_id s) \<noteq> map_option st_id live
     \<Longrightarrow> stored_live T st' s"
  by (auto simp: reverse_optional_def split: option.splits intro: stored_live_undo)

definition planned :: "(bool \<times> (stored option \<times> ledger_entry option) \<times> string \<times> string) list \<Rightarrow> stored list" where
  "planned items = concat (map (\<lambda>(_, (live, _), _). opt_list live) items)"

lemma planned_simps [simp]: "planned [] = []" "planned ((c, (live, want), ks) # xs) = opt_list live @ planned xs"
  by (simp_all add: planned_def)

lemma payroll_writes_booked:
  assumes "payroll_writes T v key items st = Inr st'"
    "\<forall>s \<in> set (planned items). stored_live T st s" "distinct (map st_id (planned items))"
    "\<forall>(_, (_, want), _) \<in> set items. \<forall>e. want = Some e \<longrightarrow> is_balanced e \<and> entry_dated e"
    "\<forall>(rewrite, (live, want), _) \<in> set items. rewrite \<longrightarrow> (\<forall>s. live = Some s \<longrightarrow> D (le_date (st_entry s)))
       \<and> (\<forall>e. want = Some e \<longrightarrow> D (le_date e))"
  shows "booked T D st st'"
  using assms
proof (induction T v key items st rule: payroll_writes.induct)
  case (2 T v key rewrite live want kind reversal_kind xs st)
  show ?case
  proof (cases rewrite)
    case False
    then show ?thesis using 2 by auto
  next
    case True
    then obtain st1 st2 where r: "reverse_optional T v live reversal_kind st = Inr st1"
      and i: "(case want of None \<Rightarrow> Inr st1 | Some e \<Rightarrow> insert_entry T v e kind key None st1) = Inr st2"
      and w: "payroll_writes T v key xs st2 = Inr st'"
      using 2(3) by auto
    have "booked T D st st1"
      using r True 2(4,7) by (auto simp: reverse_optional_def opt_list_def split: option.splits intro: booked_none booked_undo)
    moreover have "booked T D st1 st2"
      using i True 2(6,7) by (auto split: option.splits intro: booked_none booked_post)
    moreover have "\<forall>s \<in> set (planned xs). stored_live T st2 s"
    proof
      fix s assume s: "s \<in> set (planned xs)"
      then have "st_id s \<in> st_id ` set (planned xs)" by simp
      then have "Some (st_id s) \<noteq> map_option st_id live" using 2(5) by (cases live) (auto simp: opt_list_def)
      with r s 2(4) have "stored_live T st1 s" by (auto intro: reverse_optional_live)
      with i show "stored_live T st2 s" by (auto split: option.splits intro: stored_live_post)
    qed
    then have "booked T D st2 st'"
      using 2(2) True w 2(5-7) by auto
    ultimately show ?thesis by (blast intro: booked_trans)
  qed
qed (auto intro: booked_none)

lemma distinct_lives:
  assumes "known_rows st" "live_source T st k i = Inr live" "live_source T st k' i' = Inr live'" "k \<noteq> k'"
    "live = Some s" "live' = Some s'"
  shows "st_id s \<noteq> st_id s'"
proof
  assume eq: "st_id s = st_id s'"
  from assms obtain h h' where "h \<in> set (heads st)" "source_kind h = k" "st_id s = jh_id h"
    "h' \<in> set (heads st)" "source_kind h' = k'" "st_id s' = jh_id h'"
    by (metis live_source_Some)
  with eq id_injective [of "heads st" h h'] assms(1,4) show False by (auto simp: known_rows_def)
qed

lemma payroll_changes_open:
  "payroll_changes T st items = Inr bs \<Longrightarrow> \<forall>(rewrite, (live, want)) \<in> set (zip bs items). rewrite \<longrightarrow>
     (\<forall>s. live = Some s \<longrightarrow> open_for T RefuseClosedYear st (le_date (st_entry s)))
     \<and> (\<forall>e. want = Some e \<longrightarrow> open_for T RefuseClosedYear st (le_date e))"
proof (induction T st items arbitrary: bs rule: payroll_changes.induct)
  case (2 T st live want xs)
  show ?case
  proof (cases "unchanged live want \<or> live = None \<and> want = None")
    case True
    then obtain cs where "bs = False # cs" "payroll_changes T st xs = Inr cs" using 2(3) by auto
    then show ?thesis using 2(1) [OF True] by simp
  next
    case False
    then obtain cs u where "bs = True # cs" "payroll_changes T st xs = Inr cs" "ensure_open T RefuseClosedYear live want st = Inr u"
      using 2(3) by (auto split: if_splits)
    then show ?thesis using 2(2) [OF False] ensure_open_both by simp
  qed
qed simp

lemma sync_payroll_booked:
  assumes p: "sync_payroll T v key pieces st = Inr (b, st')" and k: "known_rows st"
    and dated: "list_all entry_dated (concat (map opt_list [accrual pieces, net_piece pieces, urssaf pieces]))"
    and D: "\<And>d. open_for T RefuseClosedYear st d \<Longrightarrow> D d"
  shows "booked T D st st'"
proof -
  let ?wants = "[accrual pieces, net_piece pieces, urssaf pieces]"
  from p have bal: "list_all is_balanced (concat (map opt_list ?wants))"
    by (auto simp: sync_payroll_def Let_def split: if_splits)
  with p obtain l1 l2 l3 changes where l: "live_source T st PAYROLL key = Inr l1"
      "live_source T st PAYROLL_NET key = Inr l2" "live_source T st PAYROLL_URSSAF key = Inr l3"
    and c: "payroll_changes T st (zip [l1, l2, l3] ?wants) = Inr changes"
    and w: "payroll_writes T v key (zip changes (zip (zip [l1, l2, l3] ?wants) payroll_kinds)) st = Inr st'"
    by (auto simp: sync_payroll_def payroll_kinds_def Let_def split: if_splits)
  let ?items = "zip changes (zip (zip [l1, l2, l3] ?wants) payroll_kinds)"
  have "live_source T st k i = Inr live \<Longrightarrow> s \<in> set (opt_list live) \<Longrightarrow> stored_live T st s" for k i live s
    by (auto simp: opt_list_def split: option.splits intro: live_source_stored)
  note stored = this [OF l(1)] this [OF l(2)] this [OF l(3)]
  have kinds: "PAYROLL \<noteq> PAYROLL_NET" "PAYROLL \<noteq> PAYROLL_URSSAF" "PAYROLL_NET \<noteq> PAYROLL_URSSAF"
    by (simp_all add: PAYROLL_def PAYROLL_NET_def PAYROLL_URSSAF_def)
  note apart = distinct_lives [OF k l(1,2) kinds(1)] distinct_lives [OF k l(1,3) kinds(2)] distinct_lives [OF k l(2,3) kinds(3)]
  show ?thesis
  proof (rule payroll_writes_booked [OF w])
    show "\<forall>s \<in> set (planned ?items). stored_live T st s"
      using stored by (auto simp: planned_def payroll_kinds_def dest!: set_zip_rightD)
    have all: "distinct (map st_id (opt_list l1 @ opt_list l2 @ opt_list l3))"
      using apart by (auto simp: opt_list_def split: option.splits)
    show "distinct (map st_id (planned ?items))"
      using all by (cases changes; cases "tl changes"; cases "tl (tl changes)") (auto simp: planned_def payroll_kinds_def)
    show "\<forall>(_, (_, want), _) \<in> set ?items. \<forall>e. want = Some e \<longrightarrow> is_balanced e \<and> entry_dated e"
      using bal dated by (auto simp: payroll_kinds_def opt_list_all dest!: set_zip_rightD sym [of "Some _"])
    show "\<forall>(rewrite, (live, want), _) \<in> set ?items. rewrite \<longrightarrow> (\<forall>s. live = Some s \<longrightarrow> D (le_date (st_entry s)))
       \<and> (\<forall>e. want = Some e \<longrightarrow> D (le_date e))"
      using payroll_changes_open [OF c] D by (fastforce simp: set_zip)
  qed
qed

end
