(* ===== verification/Kept_Runs.thy ===== *)
theory Kept_Runs
  imports Kept
begin

text \<open>
  Runs of the operations of \<open>journal.rs\<close>: the readable and balanced book they keep, the rows they may
  touch, and the dates a closed exercise takes away from them.
\<close>

section \<open>Steps\<close>

datatype journal_event =
    ExpenseSynced uuid sync_guard
  | SaleSynced uuid sync_guard
  | CollectionSynced uuid sync_guard
  | ExpensesRecovered
  | ServicesRecovered
  | VatSynced string "ledger_entry option"
  | PayrollSynced string payroll_pieces
  | TaxPosted fiscal_year money
  | TaxReversed fiscal_year
  | FactsChanged

text \<open>An operation that fails leaves no trace: it runs in a transaction.\<close>

inductive journal_step :: "time_api \<Rightarrow> vault \<Rightarrow> journal_event \<Rightarrow> vault \<Rightarrow> bool" for T where
  "sync_expense_payment T v i g st = Some (Inr st') \<Longrightarrow> journal_step T st (ExpenseSynced i g) st'"
| "sync_sale T v i g st = Some (Inr st') \<Longrightarrow> journal_step T st (SaleSynced i g) st'"
| "sync_collection T v i g st = Some (Inr st') \<Longrightarrow> journal_step T st (CollectionSynced i g) st'"
| "backfill_expense_payments T v st = Some (Inr st') \<Longrightarrow> journal_step T st ExpensesRecovered st'"
| "backfill_service_bookings T v st = Some (Inr st') \<Longrightarrow> journal_step T st ServicesRecovered st'"
| "sync_vat_liquidation T v key desired st = Inr (b, st') \<Longrightarrow> pred_option entry_dated desired
    \<Longrightarrow> journal_step T st (VatSynced key desired) st'"
| "sync_payroll T v key pieces st = Inr (b, st')
    \<Longrightarrow> list_all entry_dated (concat (map opt_list [accrual pieces, net_piece pieces, urssaf pieces]))
    \<Longrightarrow> journal_step T st (PayrollSynced key pieces) st'"
| "post_corporate_tax T v p tax st = Inr st' \<Longrightarrow> kept_date (fy_end p) \<Longrightarrow> journal_step T st (TaxPosted p tax) st'"
| "reverse_corporate_tax T v p st = Inr st' \<Longrightarrow> journal_step T st (TaxReversed p) st'"
| "heads st' = heads st \<Longrightarrow> jlines st' = jlines st \<Longrightarrow> facts_dated st' \<Longrightarrow> journal_step T st FactsChanged st'"

inductive_cases facts_step: "journal_step T st FactsChanged st'"

text \<open>The operations that a closed exercise stops.\<close>

fun guarded :: "journal_event \<Rightarrow> bool" where
  "guarded (ExpenseSynced i g) \<longleftrightarrow> g = RefuseClosedYear"
| "guarded (SaleSynced i g) \<longleftrightarrow> g = RefuseClosedYear"
| "guarded (CollectionSynced i g) \<longleftrightarrow> g = RefuseClosedYear"
| "guarded ExpensesRecovered \<longleftrightarrow> False"
| "guarded ServicesRecovered \<longleftrightarrow> False"
| "guarded (VatSynced key desired) \<longleftrightarrow> False"
| "guarded (PayrollSynced key pieces) \<longleftrightarrow> True"
| "guarded (TaxPosted p tax) \<longleftrightarrow> True"
| "guarded (TaxReversed p) \<longleftrightarrow> True"
| "guarded FactsChanged \<longleftrightarrow> False"

lemma step_booked:
  assumes "journal_step T st ev st'" "ev \<noteq> FactsChanged" "facts_dated st" "known_rows st"
    and D: "\<And>d. (guarded ev \<longrightarrow> \<not> date_in_recorded_exercise T st d) \<Longrightarrow> D d"
  shows "booked T D st st'"
  using assms(1)
proof cases
  case 1
  then show ?thesis using D assms(3) by (auto intro!: sync_expense_booked simp: open_for_def)
next
  case 2
  then show ?thesis using D assms(3) by (auto intro!: sync_sale_booked simp: open_for_def)
next
  case 3
  then show ?thesis using D assms(3) by (auto intro!: sync_collection_booked simp: open_for_def)
next
  case 4
  then show ?thesis using D assms(3) by (auto intro!: backfill_expenses_booked)
next
  case 5
  then show ?thesis using D assms(3) by (auto intro!: backfill_services_booked)
next
  case 6
  then show ?thesis using D by (auto intro!: sync_vat_booked)
next
  case 7
  then show ?thesis using D assms(4) by (auto intro!: sync_payroll_booked simp: open_for_def)
next
  case 8
  then show ?thesis using D by (auto intro!: post_tax_booked simp: open_for_def)
next
  case 9
  then show ?thesis using D by (auto intro!: reverse_tax_booked simp: open_for_def)
next
  case 10
  then show ?thesis using assms(2) by simp
qed

definition sound_vault :: "time_api \<Rightarrow> vault \<Rightarrow> bool" where
  "sound_vault T st \<longleftrightarrow> kept T st \<and> facts_dated st"

lemma kept_tables: "heads st' = heads st \<Longrightarrow> jlines st' = jlines st \<Longrightarrow> kept T st' \<longleftrightarrow> kept T st"
  by (simp add: kept_def known_rows_def one_live_def balanced_rows_def live_sums_def live_ids_def)

context time_crate
begin

lemma step_sound:
  assumes "sound_vault T st" "journal_step T st ev st'"
  shows "sound_vault T st'"
proof (cases "ev = FactsChanged")
  case True
  then obtain "heads st' = heads st" "jlines st' = jlines st" "facts_dated st'"
    using assms(2) by (auto elim: facts_step)
  then show ?thesis using assms(1) kept_tables [of st' st T] by (simp add: sound_vault_def)
next
  case False
  have "known_rows st" "facts_dated st" using assms(1) by (simp_all add: sound_vault_def kept_def)
  then have b: "booked T (\<lambda>_. True) st st'" by (intro step_booked [OF assms(2) False]) simp_all
  then show ?thesis
    using assms(1) booked_kept [OF b] facts_dated_cong [OF booked_facts [OF b]] by (simp add: sound_vault_def)
qed

end

sublocale time_crate \<subseteq> kept_journal: safe_steps "journal_step T" "sound_vault T" "\<lambda>_. True"
  by unfold_locales (auto intro: step_sound)

section \<open>Reading what was kept\<close>

definition live_entries :: "time_api \<Rightarrow> vault \<Rightarrow> app_error + ledger_entry list" where
  "live_entries T st = collect_results (map (load_entry T st) (filter is_live (heads st)))"

lemma collect_loaded:
  "collect_results (map f hs) = Inr es \<longleftrightarrow> map f hs = map Inr es"
  by (induction hs arbitrary: es) (auto simp: Cons_eq_map_conv map_eq_Cons_conv)

lemma collect_all: "(\<forall>h \<in> set hs. \<exists>e. f h = Inr e) \<Longrightarrow> \<exists>es. collect_results (map f hs) = Inr es"
  by (induction hs) (auto simp: and_then_def)

lemma one_by_one:
  assumes "distinct (map jh_id hs)"
  shows "sum_list (map (\<lambda>h. line_sum (\<lambda>l. P l \<and> jl_entry_id l = jh_id h) ls) hs)
    = line_sum (\<lambda>l. P l \<and> jl_entry_id l \<in> jh_id ` set hs) ls"
  using assms
proof (induction hs)
  case Nil
  then show ?case by (simp add: line_sum_def)
next
  case (Cons h hs)
  have "line_sum (\<lambda>l. P l \<and> jl_entry_id l \<in> jh_id ` set (h # hs)) ls
      = line_sum (\<lambda>l. P l \<and> jl_entry_id l = jh_id h) ls + line_sum (\<lambda>l. P l \<and> jl_entry_id l \<in> jh_id ` set hs) ls"
    using Cons.prems by (subst line_sum_split [where Q = "\<lambda>l. jl_entry_id l = jh_id h"])
      (auto intro!: arg_cong2 [where f = "(+)"] line_sum_cong)
  then show ?case using Cons by simp
qed

context time_crate
begin

lemma sum_loaded:
  "map (load_entry T st) hs = map Inr es \<Longrightarrow> sum_on (\<lambda>a. P (acc_number a)) es
     = sum_list (map (\<lambda>h. line_sum (\<lambda>l. P (jl_account l) \<and> jl_entry_id l = jh_id h) (jlines st)) hs)"
proof (induction hs arbitrary: es)
  case (Cons h hs)
  then obtain e fs where es: "es = e # fs" "load_entry T st h = Inr e" "map (load_entry T st) hs = map Inr fs"
    by (auto simp: Cons_eq_map_conv)
  then show ?case
    using Cons.IH [OF es(3)] loaded_number [OF es(2), of P] sum_on_Cons [of "\<lambda>a. P (acc_number a)" e fs]
    by (simp add: on_number_def)
qed simp

lemma book_reads:
  assumes "kept T st"
  obtains es where "list_entries T st = Inr es" "list_all is_balanced es"
proof -
  let ?hs = "sort_key (\<lambda>h. (jh_date h, jh_id h)) (heads st)"
  have r: "\<forall>h \<in> set ?hs. readable T h" using assms by (auto simp: kept_def list_all_iff)
  then have "\<forall>h \<in> set ?hs. \<exists>e. load_entry T st h = Inr e" by (meson load_readable)
  then obtain es where es: "list_entries T st = Inr es" unfolding list_entries_def by (blast dest: collect_all)
  have "list_all is_balanced es"
    unfolding list_all_iff
  proof
    fix e assume "e \<in> set es"
    then have "Inr e \<in> set (map (load_entry T st) ?hs)"
      using es by (simp add: list_entries_def collect_loaded)
    then obtain h where h: "h \<in> set (heads st)" "load_entry T st h = Inr e" by auto
    then show "is_balanced e"
      using loaded_number [OF h(2), of "\<lambda>_. True"] assms by (simp add: balanced_number kept_def balanced_rows_def)
  qed
  with es show thesis by (rule that)
qed

lemma live_reads: "kept T st \<Longrightarrow> \<exists>ls. live_entries T st = Inr ls"
  unfolding live_entries_def by (rule collect_all) (auto simp: kept_def list_all_iff elim: load_readable)

lemma book_sums:
  assumes "kept T st" "list_entries T st = Inr es" "live_entries T st = Inr ls"
  shows "sum_on (\<lambda>a. P (acc_number a)) es = sum_on (\<lambda>a. P (acc_number a)) ls"
proof -
  let ?hs = "sort_key (\<lambda>h. (jh_date h, jh_id h)) (heads st)"
  have k: "distinct (map jh_id (heads st))" "jl_entry_id ` set (jlines st) \<subseteq> jh_id ` set (heads st)"
    using assms(1) by (simp_all add: kept_def known_rows_def)
  have d: "distinct (map jh_id ?hs)" using k(1) by (simp add: distinct_map)
  have "sum_on (\<lambda>a. P (acc_number a)) es = line_sum (\<lambda>l. P (jl_account l) \<and> jl_entry_id l \<in> jh_id ` set ?hs) (jlines st)"
    using sum_loaded [of st ?hs es P] assms(2) by (simp add: list_entries_def collect_loaded one_by_one [OF d])
  also have "\<dots> = line_sum (\<lambda>l. P (jl_account l)) (jlines st)"
    using k(2) by (intro line_sum_cong) auto
  also have "\<dots> = line_sum (\<lambda>l. P (jl_account l) \<and> jl_entry_id l \<in> live_ids st) (jlines st)"
    using assms(1) by (simp add: kept_def live_sums_def)
  also have "\<dots> = sum_on (\<lambda>a. P (acc_number a)) ls"
    using sum_loaded [of st "filter is_live (heads st)" ls P] assms(3)
    by (simp add: live_entries_def collect_loaded live_ids_def one_by_one [OF distinct_map_filter [OF k(1), of is_live]])
  finally show ?thesis .
qed

end

section \<open>What the writes leave alone\<close>

text \<open>A row is never rewritten, save that a live one can be marked as reversed.\<close>

definition same_or_reversed :: "journal_head \<Rightarrow> journal_head \<Rightarrow> bool" where
  "same_or_reversed h h' \<longleftrightarrow> h' = h \<or> is_live h \<and> h' = h\<lparr>reversed_at := reversed_at h'\<rparr>"

definition only_added :: "vault \<Rightarrow> vault \<Rightarrow> bool" where
  "only_added st st' \<longleftrightarrow> length (heads st) \<le> length (heads st')
     \<and> list_all2 same_or_reversed (heads st) (take (length (heads st)) (heads st'))
     \<and> (\<exists>ls. jlines st' = jlines st @ ls)"

lemma same_or_reversed_trans: "same_or_reversed a b \<Longrightarrow> same_or_reversed b c \<Longrightarrow> same_or_reversed a c"
  by (cases a; cases b; cases c; auto simp: same_or_reversed_def is_live_def)

lemma same_or_reversed_refl [simp]: "same_or_reversed h h"
  by (simp add: same_or_reversed_def)

lemma same_rows [simp]: "list_all2 same_or_reversed hs hs"
  by (rule list_all2_refl) simp

lemma only_added_refl [simp]: "only_added st st"
  by (simp add: only_added_def)

lemma only_added_trans:
  assumes "only_added a b" "only_added b c"
  shows "only_added a c"
proof -
  have "list_all2 same_or_reversed (take (length (heads a)) (heads b))
      (take (length (heads a)) (take (length (heads b)) (heads c)))"
    using assms(2) by (intro list_all2_takeI) (simp add: only_added_def)
  then have bc: "list_all2 same_or_reversed (take (length (heads a)) (heads b)) (take (length (heads a)) (heads c))"
    using assms(1) by (simp add: only_added_def min_absorb1)
  from assms(1) have ab: "list_all2 same_or_reversed (heads a) (take (length (heads a)) (heads b))"
    unfolding only_added_def by blast
  have "list_all2 same_or_reversed (heads a) (take (length (heads a)) (heads c))"
    by (rule list_all2_trans [OF same_or_reversed_trans ab bc])
  moreover from assms obtain ls ls' where "jlines b = jlines a @ ls" "jlines c = jlines b @ ls'"
    unfolding only_added_def by blast
  ultimately show ?thesis using assms by (simp add: only_added_def)
qed

text \<open>The one row a reversal marks.\<close>

lemma marks_one:
  assumes "distinct (map jh_id hs)" "x \<in> set hs" "jh_id x = i" "h \<in> set hs"
  shows "mark_reversed i now h = (if h = x then h\<lparr>reversed_at := Some now\<rparr> else h)"
proof (cases "h = x")
  case True
  then show ?thesis using assms(3) by (simp add: mark_reversed_def)
next
  case False
  then have "jh_id h \<noteq> i" using id_injective [OF assms(1,2,4)] assms(3) by metis
  with False show ?thesis by (simp add: mark_reversed_def)
qed

lemma post_only_added:
  assumes "insert_entry T v e k i None st = Inr st'"
  shows "only_added st st'"
proof -
  from assms obtain now where "st' = st\<lparr>heads := heads st @ [new_row T (uuid_at v (drawn st)) e k i None now],
              jlines := jlines st @ new_lines (uuid_at v (drawn st)) e, drawn := drawn st + 1\<rparr>"
    by (rule insert_Inr) (erule that)
  then show ?thesis by (simp add: only_added_def)
qed

lemma undo_only_added:
  assumes "reverse T v s k st = Inr st'" "stored_live T st s" "known_rows st"
  shows "only_added st st'"
proof -
  obtain x where x: "x \<in> set (heads st)" "is_live x" "jh_id x = st_id s" using assms(2) by (auto simp: stored_live_def)
  have "same_or_reversed h (mark_reversed (st_id s) now h)" if "h \<in> set (heads st)" for h now
    using marks_one [OF _ x(1,3) that, of now] assms(3) x(2) by (simp add: known_rows_def same_or_reversed_def)
  note marked = this
  from assms(1) obtain now where st': "st' = st\<lparr>heads := map (mark_reversed (st_id s) now) (heads st)
                @ [new_row T (uuid_at v (drawn st)) (extourne_entry (st_entry s)) k (st_id s) (Some (st_id s)) now],
              jlines := jlines st @ new_lines (uuid_at v (drawn st)) (extourne_entry (st_entry s)), drawn := drawn st + 1\<rparr>"
    by (rule reverse_Inr) (erule that)
  have "list_all2 same_or_reversed (heads st) (map (mark_reversed (st_id s) now) (heads st))"
    using marked by (simp add: list_all2_conv_all_nth)
  then show ?thesis by (simp add: only_added_def st')
qed

context time_crate
begin

lemma booked_only_added: "booked T D st st' \<Longrightarrow> kept T st \<Longrightarrow> only_added st st'"
proof (induction rule: booked.induct)
  case (booked_post st st1 e v kind i st2)
  then show ?case using post_only_added only_added_trans by blast
next
  case (booked_undo st st1 s v kind st2)
  have "kept T st1" using booked_kept booked_undo by blast
  then have "only_added st1 st2" using booked_undo undo_only_added by (simp add: kept_def)
  then show ?case using booked_undo only_added_trans by blast
qed simp

lemma step_only_added:
  assumes "sound_vault T st" "journal_step T st ev st'"
  shows "only_added st st'"
proof (cases "ev = FactsChanged")
  case True
  then obtain "heads st' = heads st" "jlines st' = jlines st"
    using assms(2) by (auto elim: facts_step)
  then show ?thesis by (simp add: only_added_def)
next
  case False
  have k: "kept T st" "known_rows st" "facts_dated st" using assms(1) by (simp_all add: sound_vault_def kept_def)
  then have "booked T (\<lambda>_. True) st st'" by (intro step_booked [OF assms(2) False]) simp_all
  then show ?thesis using booked_only_added k(1) by blast
qed

lemma run_only_added: "run (journal_step T) st es st' \<Longrightarrow> sound_vault T st \<Longrightarrow> only_added st st'"
proof (induction rule: run.induct)
  case (run_snoc st es st1 e st2)
  then show ?case using step_only_added [OF kept_journal.run_inv] only_added_trans by blast
qed simp

end

section \<open>Closed exercises\<close>

text \<open>The rows whose date, as text, is within a recorded exercise.\<close>

definition closed_row :: "time_api \<Rightarrow> vault \<Rightarrow> journal_head \<Rightarrow> bool" where
  "closed_row T st h \<longleftrightarrow> list_ex (\<lambda>r. format_date T (starts_on r) \<le> jh_date h \<and> jh_date h \<le> format_date T (ends_on r)) (v_years st)"

lemma closed_row_date: "jh_date h = format_date T d \<Longrightarrow> closed_row T st h \<longleftrightarrow> date_in_recorded_exercise T st d"
  by (simp add: closed_row_def date_in_recorded_exercise_def)

context time_crate
begin

lemma booked_closed:
  assumes "booked T (\<lambda>d. \<not> date_in_recorded_exercise T st d) st st'" "kept T st"
  shows "filter (closed_row T st) (heads st') = filter (closed_row T st) (heads st)"
proof -
  have "booked T D st st' \<Longrightarrow> kept T st \<Longrightarrow> (\<And>d. D d \<Longrightarrow> \<not> date_in_recorded_exercise T vt d) \<Longrightarrow>
      filter (closed_row T vt) (heads st') = filter (closed_row T vt) (heads st)" for D st st' vt
  proof (induction rule: booked.induct)
    case (booked_post st st1 e v kind i st2)
    from booked_post.hyps(5) obtain now where
      "heads st2 = heads st1 @ [new_row T (uuid_at v (drawn st1)) e kind i None now]" by (elim insert_Inr) (rule that, simp)
    then show ?case using booked_post closed_row_date [of "new_row T (uuid_at v (drawn st1)) e kind i None now" T "le_date e" vt] by simp
  next
    case (booked_undo st st1 s v kind st2)
    let ?new = "\<lambda>now. new_row T (uuid_at v (drawn st1)) (extourne_entry (st_entry s)) kind (st_id s) (Some (st_id s)) now"
    from booked_undo.hyps(4) obtain now where "st2 = st1\<lparr>heads := map (mark_reversed (st_id s) now) (heads st1) @ [?new now],
              jlines := jlines st1 @ new_lines (uuid_at v (drawn st1)) (extourne_entry (st_entry s)), drawn := drawn st1 + 1\<rparr>"
      by (rule reverse_Inr) (erule that)
    then have h: "heads st2 = map (mark_reversed (st_id s) now) (heads st1) @ [?new now]" by simp
    have k: "kept T st1" using booked_kept booked_undo by blast
    obtain x where x: "x \<in> set (heads st1)" "jh_id x = st_id s" "load_entry T st1 x = Inr (st_entry s)"
      using booked_undo.hyps(2) by (auto simp: stored_live_def)
    have "readable T x" using k x(1) by (auto simp: kept_def list_all_iff)
    then have date: "jh_date x = format_date T (le_date (st_entry s))" using x(3) by (auto elim: load_readable [where st = st1])
    have shut: "\<not> date_in_recorded_exercise T vt (le_date (st_entry s))" using booked_undo by blast
    have "\<not> closed_row T vt x" "\<not> closed_row T vt (?new now)"
      using shut closed_row_date [OF date] closed_row_date [of "?new now" T "le_date (st_entry s)" vt]
      by (simp_all add: extourne_entry_def)
    moreover have "filter (closed_row T vt) (map (mark_reversed (st_id s) now) hs) = filter (closed_row T vt) hs"
      if "set hs \<subseteq> set (heads st1)" for hs
      using that
    proof (induction hs)
      case (Cons a hs)
      then have "mark_reversed (st_id s) now a = (if a = x then a\<lparr>reversed_at := Some now\<rparr> else a)"
        using marks_one [OF _ x(1,2)] k by (simp add: kept_def known_rows_def)
      then show ?case using Cons \<open>\<not> closed_row T vt x\<close> by (auto simp: closed_row_def)
    qed simp
    ultimately show ?case using booked_undo h by simp
  qed simp
  then show ?thesis using assms by blast
qed

lemma run_closed:
  assumes "run (journal_step T) st es st'" "sound_vault T st" "list_all guarded es"
  shows "filter (closed_row T st) (heads st') = filter (closed_row T st) (heads st) \<and> v_years st' = v_years st"
  using assms
proof (induction rule: run.induct)
  case (run_snoc st es st1 e st2)
  then have e: "e \<noteq> FactsChanged" "guarded e" by auto
  have s: "sound_vault T st1" using run_snoc kept_journal.run_inv by blast
  then have "booked T (\<lambda>d. \<not> date_in_recorded_exercise T st1 d) st1 st2"
    using e(2) by (intro step_booked [OF run_snoc.hyps(2) e(1)]) (simp_all add: sound_vault_def kept_def)
  then have "filter (closed_row T st1) (heads st2) = filter (closed_row T st1) (heads st1)" "v_years st2 = v_years st1"
    using booked_closed s facts_eq(7) booked_facts by (blast intro: sound_vault_def [THEN iffD1, THEN conjunct1])+
  moreover have "closed_row T st1 = closed_row T st" using run_snoc by (auto simp: closed_row_def fun_eq_iff)
  ultimately show ?case using run_snoc by simp
qed simp

end

section \<open>A second synchronisation\<close>

lemma new_lines_sorted: "sort_key jl_position (new_lines new e) = new_lines new e"
proof -
  have "map jl_position (map (stored_line new) (enumerate n ls)) = [n ..< n + length ls]" for n ls
    by (induction ls arbitrary: n) (auto simp: stored_line_def upt_conv_Cons simp del: upt_Suc)
  then have "map jl_position (new_lines new e) = [0 ..< length (le_lines e)]" by (simp add: new_lines_def)
  then have "sorted (map jl_position (new_lines new e))" by (metis sorted_upt)
  then show ?thesis by (rule sort_key_id_if_sorted)
qed

lemma lines_of_row:
  assumes "known_rows st" "new \<notin> jh_id ` set (heads st)" "jlines st' = jlines st @ new_lines new e"
  shows "lines_of st' new = new_lines new e"
proof -
  have "filter (\<lambda>l. jl_entry_id l = new) (jlines st) = []"
    using assms(1,2) by (auto simp: known_rows_def filter_empty_conv)
  moreover have "filter (\<lambda>l. jl_entry_id l = new) (new_lines new e) = new_lines new e"
    by (auto simp: filter_id_conv dest: new_lines_ids)
  ultimately show ?thesis by (simp add: lines_of_def assms(3) new_lines_sorted)
qed

lemma reread_lines:
  "list_all (\<lambda>(x, y). same_line x y) (zip (map load_line (map (stored_line new) (enumerate k ls))) ls)"
  by (induction ls arbitrary: k)
    (auto simp: same_line_def load_line_def stored_line_def split: option.split)

lemma find_snoc: "\<forall>x \<in> set xs. \<not> P x \<Longrightarrow> P y \<Longrightarrow> find P (xs @ [y]) = Some y"
  by (induction xs) auto

lemma live_source_None: "\<forall>h \<in> set (heads st). is_live h \<longrightarrow> (source_kind h, source_id h) \<noteq> (k, i)
    \<Longrightarrow> live_source T st k i = Inr None"
  by (auto simp: live_source_def find_None_iff split: option.split dest!: found_at)

lemma one_live_eq:
  assumes "one_live st" "h \<in> set (heads st)" "h' \<in> set (heads st)" "is_live h" "is_live h'"
    "source_kind h = source_kind h'" "source_id h = source_id h'"
  shows "h = h'"
  using assms by (auto simp: one_live_def distinct_map inj_on_def)

lemma desired_entry_facts:
  assumes "facts_of st' = facts_of st"
  shows "desired_entry T st' i = desired_entry T st i"
  by (simp only: desired_entry_def bank_date_def facts_eq [OF assms])

lemma live_after_reverse:
  assumes "known_rows st" "one_live st" "live_source T st k i = Inr (Some s)" "reverse T v s rk st = Inr st'"
  shows "live_source T st' k i = Inr None"
proof (rule live_source_None, intro ballI impI)
  fix h assume h: "h \<in> set (heads st')" "is_live h"
  obtain x where x: "x \<in> set (heads st)" "source_kind x = k" "source_id x = i" "is_live x" "jh_id x = st_id s"
    by (rule live_source_Some [OF assms(3)]) (metis that)
  from assms(4) obtain now where st': "st' = st\<lparr>heads := map (mark_reversed (st_id s) now) (heads st)
                @ [new_row T (uuid_at v (drawn st)) (extourne_entry (st_entry s)) rk (st_id s) (Some (st_id s)) now],
              jlines := jlines st @ new_lines (uuid_at v (drawn st)) (extourne_entry (st_entry s)), drawn := drawn st + 1\<rparr>"
    by (rule reverse_Inr) (erule that)
  from h obtain a where a: "a \<in> set (heads st)" "h = mark_reversed (st_id s) now a" by (auto simp: st')
  with h(2) have "is_live a" "jh_id a \<noteq> jh_id x" by (simp_all add: x(5))
  then show "(source_kind h, source_id h) \<noteq> (k, i)"
    using one_live_eq [OF assms(2) a(1) x(1)] x a(2) by auto
qed

context time_crate
begin

lemma live_after_insert:
  assumes "known_rows st" "insert_entry T v e k i None st = Inr st'" "entry_dated e"
  obtains s where "live_source T st' k i = Inr (Some s)" "same_booking (st_entry s) e"
proof -
  from assms(2) obtain now where new: "uuid_at v (drawn st) \<notin> jh_id ` set (heads st)"
    and none: "\<forall>x \<in> set (heads st). is_live x \<longrightarrow> (source_kind x, source_id x) \<noteq> (k, i)"
    and st': "st' = st\<lparr>heads := heads st @ [new_row T (uuid_at v (drawn st)) e k i None now],
              jlines := jlines st @ new_lines (uuid_at v (drawn st)) e, drawn := drawn st + 1\<rparr>"
    by (rule insert_Inr) simp
  let ?h = "new_row T (uuid_at v (drawn st)) e k i None now"
  let ?e = "\<lparr>le_journal = le_journal e, le_number = 0, le_date = le_date e, piece_ref = piece_ref e,
      piece_date = piece_date e, le_label = le_label e,
      le_lines = map load_line (new_lines (uuid_at v (drawn st)) e)\<rparr>"
  have "lines_of st' (uuid_at v (drawn st)) = new_lines (uuid_at v (drawn st)) e"
    by (rule lines_of_row [OF assms(1) new]) (simp add: st')
  then have load: "load_entry T st' ?h = Inr ?e"
    using assms(3) by (simp add: load_entry_def new_row_def journal_code_roundtrip read_date entry_dated_def)
  have "find (\<lambda>h. source_kind h = k \<and> source_id h = i \<and> is_live h) (heads st') = Some ?h"
    using none find_snoc [of "heads st" "\<lambda>h. source_kind h = k \<and> source_id h = i \<and> is_live h" ?h] by (auto simp: st')
  then have "live_source T st' k i = Inr (Some \<lparr>st_id = jh_id ?h, st_entry = ?e\<rparr>)"
    using load by (simp add: live_source_def and_then_def)
  moreover have "same_booking ?e e"
    using reread_lines [of "uuid_at v (drawn st)" 0 "le_lines e"] by (simp add: same_booking_def new_lines_def)
  ultimately show thesis using that by simp
qed

lemma sync_again:
  assumes s: "sound_vault T st" and c: "sync_expense_payment T v i g st = Some (Inr st')"
  shows "sync_expense_payment T v' i g' st' = Some (Inr st')"
proof -
  have k: "kept T st" "known_rows st" "one_live st" "facts_dated st" using s by (simp_all add: sound_vault_def kept_def)
  have b: "booked T (\<lambda>_. True) st st'" using sync_expense_booked [OF c k(4)] by simp
  from c obtain desired live where d: "desired_entry T st i = Some desired" and l: "live_source T st PAYMENT i = Inr live"
    by (auto simp: sync_expense_payment_def live_payment_def split: bind_splits)
  have d': "desired_entry T st' i = Some desired"
    using d by (simp add: desired_entry_facts [OF booked_facts [OF b]])
  have same: ?thesis if "live_source T st' PAYMENT i = Inr live'" "unchanged live' desired \<or> live' = None \<and> desired = None" for live'
  proof (cases "unchanged live' desired")
    case False
    with that(2) have "live' = None" "desired = None" by auto
    moreover have "ensure_open T g' None None st' = Inr ()" by (simp add: ensure_open_def guarded_dates_def opt_list_def)
    ultimately show ?thesis
      using that(1) d' False by (simp add: sync_expense_payment_def live_payment_def reverse_optional_def insert_optional_def and_then_def)
  qed (use that(1) d' in \<open>simp add: sync_expense_payment_def live_payment_def and_then_def\<close>)
  show ?thesis
  proof (cases "unchanged live desired")
    case True
    then have "st' = st" using c d l by (auto simp: sync_expense_payment_def live_payment_def)
    with same [of live] l True show ?thesis by simp
  next
    case False
    then obtain st1 m where r: "reverse_optional T v live REVERSAL st = Inr st1"
      and w: "insert_optional T v desired m PAYMENT i st1 = Inr st'"
      using c d l by (auto simp: sync_expense_payment_def live_payment_def)
    have none: "live_source T st1 PAYMENT i = Inr None"
      using r l live_after_reverse [OF k(2,3)] by (cases live) (auto simp: reverse_optional_def)
    have "booked T (\<lambda>_. True) st st1" using reverse_optional_booked [OF r l] by simp
    then have k1: "known_rows st1" using booked_kept k(1) by (simp add: kept_def)
    show ?thesis
    proof (cases desired)
      case None
      then show ?thesis using same [of None] none w by (simp add: insert_optional_def)
    next
      case (Some e)
      have "entry_dated e" using d Some desired_entry_dated k(4) by simp
      moreover have "insert_entry T v e PAYMENT i None st1 = Inr st'"
        using w Some by (simp add: insert_optional_def split: if_splits)
      ultimately obtain s where "live_source T st' PAYMENT i = Inr (Some s)" "same_booking (st_entry s) e"
        by (metis live_after_insert [OF k1])
      then show ?thesis using same [of "Some s"] Some by (simp add: unchanged_def)
    qed
  qed
qed

end

section \<open>A sample run\<close>

definition sample_expense :: "money \<Rightarrow> expense" where
  "sample_expense m =
     \<lparr>exp_id = ''e1'', exp_label = ''Train'', exp_category = Travel, exp_amount = m, exp_vat_rate = Zero,
      vat_deductible = 0, incurred_on = Date 2026 3 10, receipt_hash = None, receipt_filename = None,
      supplier = None, paid_by = PaidByAssociate, reverse_charge = False, exp_created_at = 0, exp_revision = 1\<rparr>"

definition sample_vault :: "money \<Rightarrow> vault" where
  "sample_vault m =
     \<lparr>heads = [], jlines = [], drawn = 0, v_expenses = [sample_expense m], v_bank = [], v_assets = [],
      v_invoices = [], v_payments = [], v_clients = [], v_years = [sample_record]\<rparr>"

definition sample_jenv :: jenv where
  "sample_jenv = \<lparr>uuid_at = (\<lambda>n. ''id'' @ show_2 n), clock_text = Inr ''now''\<rparr>"

definition vault_of :: "vault \<Rightarrow> (app_error + vault) option \<Rightarrow> vault" where
  "vault_of st r = (case r of Some (Inr st') \<Rightarrow> st' | _ \<Rightarrow> st)"

definition sample_synced :: vault where
  "sample_synced = vault_of (sample_vault 4200)
     (sync_expense_payment gregorian sample_jenv ''e1'' RefuseClosedYear (sample_vault 4200))"

text \<open>The amount of the expense is corrected, and the entry with it.\<close>

definition sample_corrected :: vault where
  "sample_corrected = sample_synced\<lparr>v_expenses := [sample_expense 5100]\<rparr>"

definition sample_resynced :: vault where
  "sample_resynced = vault_of sample_corrected
     (sync_expense_payment gregorian sample_jenv ''e1'' RefuseClosedYear sample_corrected)"

lemma vault_of_ok: "(case r of Some (Inr _) \<Rightarrow> True | _ \<Rightarrow> False) \<Longrightarrow> r = Some (Inr (vault_of st r))"
  by (auto simp: vault_of_def split: option.splits sum.splits)

lemma sample_sync_1:
  "sync_expense_payment gregorian sample_jenv ''e1'' RefuseClosedYear (sample_vault 4200) = Some (Inr sample_synced)"
proof -
  have "case sync_expense_payment gregorian sample_jenv ''e1'' RefuseClosedYear (sample_vault 4200) of
      Some (Inr _) \<Rightarrow> True | _ \<Rightarrow> False" by code_simp
  then show ?thesis unfolding sample_synced_def by (rule vault_of_ok)
qed

lemma sample_sync_2:
  "sync_expense_payment gregorian sample_jenv ''e1'' RefuseClosedYear sample_corrected = Some (Inr sample_resynced)"
proof -
  have "case sync_expense_payment gregorian sample_jenv ''e1'' RefuseClosedYear sample_corrected of
      Some (Inr _) \<Rightarrow> True | _ \<Rightarrow> False" by code_simp
  then show ?thesis unfolding sample_resynced_def by (rule vault_of_ok)
qed

lemma sample_dated: "facts_dated (sample_vault 4200)" "facts_dated sample_corrected"
proof -
  show first: "facts_dated (sample_vault 4200)"
    by (simp add: facts_dated_def sample_vault_def sample_expense_def kept_date_def month_length_def)
  have "booked gregorian (\<lambda>_. True) (sample_vault 4200) sample_synced"
    by (rule sync_expense_booked [OF sample_sync_1 first]) simp
  from facts_eq [OF booked_facts [OF this]] show "facts_dated sample_corrected"
    by (simp add: facts_dated_def sample_corrected_def sample_vault_def sample_expense_def kept_date_def month_length_def)
qed

lemma sample_start: "run (journal_step gregorian) (sample_vault 4200) [ExpenseSynced ''e1'' RefuseClosedYear, FactsChanged] sample_corrected"
proof -
  have "journal_step gregorian sample_synced FactsChanged sample_corrected"
    by (rule journal_step.intros) (simp_all add: sample_corrected_def sample_dated(2) [unfolded sample_corrected_def])
  from journal_step.intros(1) [OF sample_sync_1] run_single [of "journal_step gregorian", OF this]
  show ?thesis by (rule run_Cons [of "journal_step gregorian"])
qed

lemma sample_end: "run (journal_step gregorian) sample_corrected [ExpenseSynced ''e1'' RefuseClosedYear] sample_resynced"
  by (rule run_single) (rule journal_step.intros(1) [OF sample_sync_2])

lemma sample_journal_run: "run (journal_step gregorian) (sample_vault 4200)
    [ExpenseSynced ''e1'' RefuseClosedYear, FactsChanged, ExpenseSynced ''e1'' RefuseClosedYear] sample_resynced"
  using run_append [OF sample_end sample_start] by simp

lemma sample_empty: "heads (sample_vault 4200) = []" "jlines (sample_vault 4200) = []"
  by (simp_all add: sample_vault_def)

lemma empty_sound: "heads st = [] \<Longrightarrow> jlines st = [] \<Longrightarrow> facts_dated st \<Longrightarrow> sound_vault T st"
  by (simp add: sound_vault_def kept_def known_rows_def one_live_def balanced_rows_def live_sums_def live_ids_def
      line_sum_def)

context time_crate
begin

lemma reached_sound:
  "run (journal_step T) st es st' \<Longrightarrow> heads st = [] \<Longrightarrow> jlines st = [] \<Longrightarrow> facts_dated st \<Longrightarrow> sound_vault T st'"
  by (rule kept_journal.run_inv) (auto intro: empty_sound)

end

lemma gregorian_crate: "time_crate gregorian"
  by unfold_locales

lemmas sample_reached = gregorian_crate sample_journal_run sample_empty sample_dated(1)
lemmas sample_half = gregorian_crate sample_start sample_empty sample_dated(1)

section \<open>Properties\<close>

text \<open>C21: Whatever sequence of synchronisations, recoveries, payrolls, corporation tax bookings and changes of
  the facts has been applied to an empty journal, the kept book can be read, every entry of it is in
  balance, and each fact has at most one live entry.\<close>

theorem kept_book_is_sound:
  assumes "time_crate T" "run (journal_step T) st es st'" "heads st = []" "jlines st = []" "facts_dated st"
  shows "\<exists>b. list_entries T st' = Inr b \<and> list_all is_balanced b
    \<and> distinct (map (\<lambda>h. (source_kind h, source_id h)) (filter is_live (heads st')))"
proof -
  have k: "kept T st'" using time_crate.reached_sound [OF assms] by (simp add: sound_vault_def)
  obtain b where "list_entries T st' = Inr b" "list_all is_balanced b"
    by (rule time_crate.book_reads [OF assms(1) k])
  with k show ?thesis by (simp add: kept_def one_live_def)
qed

theorem kept_book_is_sound_witness: "\<exists>b. list_entries gregorian sample_resynced = Inr b \<and> list_all is_balanced b"
  using kept_book_is_sound [OF sample_reached] by blast

text \<open>C22: Reversals cancel what they reverse: on any selection of account numbers the whole kept book, reversed
  entries and reversals included, adds up to what its live entries add up to.\<close>

theorem reversals_cancel:
  assumes "time_crate T" "run (journal_step T) st es st'" "heads st = []" "jlines st = []" "facts_dated st"
    and "list_entries T st' = Inr book" "live_entries T st' = Inr live"
  shows "sum_on (\<lambda>a. P (acc_number a)) book = sum_on (\<lambda>a. P (acc_number a)) live"
  using time_crate.book_sums [OF assms(1) _ assms(6,7)] time_crate.reached_sound [OF assms(1-5)]
  by (simp add: sound_vault_def)

theorem reversals_cancel_witness:
  "\<exists>b l. list_entries gregorian sample_resynced = Inr b \<and> live_entries gregorian sample_resynced = Inr l
     \<and> sum_on (\<lambda>a. acc_number a = acc_number TRAVEL) b = sum_on (\<lambda>a. acc_number a = acc_number TRAVEL) l"
proof -
  have k: "kept gregorian sample_resynced"
    using time_crate.reached_sound [OF sample_reached] by (simp add: sound_vault_def)
  obtain b l where "list_entries gregorian sample_resynced = Inr b" "live_entries gregorian sample_resynced = Inr l"
    using time_crate.book_reads [OF gregorian_crate k] time_crate.live_reads [OF gregorian_crate k] by blast
  with reversals_cancel [OF sample_reached, where P = "\<lambda>n. n = acc_number TRAVEL"] show ?thesis by blast
qed

text \<open>Kept entries are never rewritten: the operations only add rows and lines, and the one change they make
  to a row is to mark a live one as reversed.\<close>

lemma kept_rows_are_not_rewritten:
  assumes "time_crate T" "run (journal_step T) st0 es0 st" "heads st0 = []" "jlines st0 = []" "facts_dated st0"
    and "run (journal_step T) st es st'"
  shows "length (heads st) \<le> length (heads st')
    \<and> (\<forall>i < length (heads st). heads st' ! i = heads st ! i
         \<or> is_live (heads st ! i) \<and> heads st' ! i = (heads st ! i)\<lparr>reversed_at := reversed_at (heads st' ! i)\<rparr>)
    \<and> take (length (jlines st)) (jlines st') = jlines st"
  using time_crate.run_only_added [OF assms(1,6) time_crate.reached_sound [OF assms(1-5)]]
  by (auto simp: only_added_def list_all2_conv_all_nth same_or_reversed_def)

text \<open>C23: A closed exercise stays as it was: payments, sales, receipts, payrolls and tax bookings under the guard
  against closed exercises leave every kept entry dated in one as it is, add none to it and reverse none.\<close>

theorem closed_exercises_stay:
  assumes "time_crate T" "run (journal_step T) st0 es0 st" "heads st0 = []" "jlines st0 = []" "facts_dated st0"
    and "run (journal_step T) st es st'" "list_all guarded es"
  shows "filter (closed_row T st) (heads st') = filter (closed_row T st) (heads st)"
  using time_crate.run_closed [OF assms(1,6) time_crate.reached_sound [OF assms(1-5)] assms(7)] by blast

theorem closed_exercises_stay_witness:
  "filter (closed_row gregorian sample_corrected) (heads sample_resynced)
   = filter (closed_row gregorian sample_corrected) (heads sample_corrected)"
  using closed_exercises_stay [OF sample_half sample_end] by simp

text \<open>Synchronising the payment of an expense a second time, with the same facts and whatever the guard and
  the clock, changes nothing.\<close>

lemma payment_sync_idempotent:
  assumes "time_crate T" "run (journal_step T) st0 es0 st" "heads st0 = []" "jlines st0 = []" "facts_dated st0"
    and "sync_expense_payment T v i g st = Some (Inr st')"
  shows "sync_expense_payment T v' i g' st' = Some (Inr st')"
  by (rule time_crate.sync_again [OF assms(1) time_crate.reached_sound [OF assms(1-5)] assms(6)])

end
