(* ===== verification/Invoicing.thy ===== *)
theory Invoicing
  imports Journal Fec
begin

text \<open>
  \<open>billing/commands.rs\<close>, \<open>billing/row.rs\<close>, \<open>billing/queries.rs\<close>, \<open>billing/error.rs\<close> and the hash of
  \<open>billing/totals.rs\<close>: invoices, credit notes, payments, write-offs and bank lines. The office is the
  vault of the kept journal with the remaining tables the commands read: the counters of numbers, the
  write-offs, the keys of the filed VAT returns, the missions with their client, the VAT regime of the
  profile, the date of the opening balance. Rows are decoded records in the order of their insertion, which for invoices is the order
  of their sequence. JSON and SHA-256 are arguments. A command's result is \<open>None\<close> for a panic, else an
  error, which leaves no trace, or its output and the new office.
\<close>

section \<open>Errors\<close>

datatype billing_error =
    NotFound uuid
  | EmptyInvoice
  | EmptyInvoiceNumber
  | DuplicateInvoiceNumber string
  | MissionDoesNotBelongToClient
  | CannotCreditImportedInvoice uuid
  | CannotCreditACreditNote uuid
  | AlreadyCredited uuid
  | CannotWriteOffCreditNote uuid
  | CannotWriteOffAlreadyCredited uuid
  | AlreadyWrittenOff uuid
  | NothingOutstanding uuid
  | WriteOffBeforeIssue uuid
  | WriteOffPeriodAlreadyFiled
  | WriteOffNotFound uuid
  | WriteOffAlreadyRetracted
  | ExerciseClosed
  | CannotCreditWrittenOff uuid
  | ImportedCreditNoteWrongClient
  | ImportedCreditNoteMustBeNegative
  | TransactionNotFound
  | InvalidPaymentAmount
  | PaymentNotFound uuid
  | PaymentAlreadyVoided uuid
  | AlreadyReconciled uuid
  | TransactionNotReconciled uuid
  | TransactionNotSettled uuid
  | SettlementLabelRequired string
  | TransactionStillMatched uuid

primrec billing_error_text :: "billing_error \<Rightarrow> string" where
  "billing_error_text (NotFound i) = ''facture introuvable : '' @ i"
| "billing_error_text EmptyInvoice = ''une facture doit avoir au moins une ligne''"
| "billing_error_text EmptyInvoiceNumber = (''un num'' @ e_acute @ ''ro de facture est obligatoire '' @ em_dash @ '' c'' @ [CHR 0x27] @ ''est celui de la PA, pas un FA- invent'' @ e_acute @ '' ici'')"
| "billing_error_text (DuplicateInvoiceNumber n) = (''une facture porte d'' @ e_acute @ ''j'' @ [CHR 0xC3, CHR 0xA0] @ '' le num'' @ e_acute @ ''ro '') @ n"
| "billing_error_text MissionDoesNotBelongToClient = (''cette mission n'' @ [CHR 0x27] @ ''appartient pas '' @ [CHR 0xC3, CHR 0xA0] @ '' ce client'')"
| "billing_error_text (CannotCreditImportedInvoice i) = ''la facture '' @ i @ ('' est n'' @ e_acute @ ''e ailleurs : importez l'' @ [CHR 0x27] @ ''avoir (m'' @ [CHR 0xC3, CHR 0xAA] @ ''me bouche que la facture), n'' @ [CHR 0x27] @ e_acute @ ''mettez pas un FA-'')"
| "billing_error_text (CannotCreditACreditNote i) = (''impossible d'' @ [CHR 0x27] @ e_acute @ ''mettre un avoir sur un avoir ('') @ i @ ('') : annulez la facture d'' @ [CHR 0x27] @ ''origine'')"
| "billing_error_text (AlreadyCredited i) = ''la facture '' @ i @ ('' a d'' @ e_acute @ ''j'' @ [CHR 0xC3, CHR 0xA0] @ '' un avoir associ'' @ e_acute)"
| "billing_error_text (CannotWriteOffCreditNote i) = ''impossible de passer en perte un avoir ('' @ i @ ('') : ce n'' @ [CHR 0x27] @ ''est pas une cr'' @ e_acute @ ''ance'')"
| "billing_error_text (CannotWriteOffAlreadyCredited i) = ''la facture '' @ i @ ('' a d'' @ e_acute @ ''j'' @ [CHR 0xC3, CHR 0xA0] @ '' un avoir : on ne m'' @ e_acute @ ''lange pas avoir et perte'')"
| "billing_error_text (AlreadyWrittenOff i) = ''la facture '' @ i @ ('' est d'' @ e_acute @ ''j'' @ [CHR 0xC3, CHR 0xA0] @ '' pass'' @ e_acute @ ''e en perte'')"
| "billing_error_text (NothingOutstanding i) = (''rien '' @ [CHR 0xC3, CHR 0xA0] @ '' passer en perte : le solde de la facture '') @ i @ ('' est d'' @ e_acute @ ''j'' @ [CHR 0xC3, CHR 0xA0] @ '' '' @ [CHR 0xC3, CHR 0xA0] @ '' z'' @ e_acute @ ''ro'')"
| "billing_error_text (WriteOffBeforeIssue i) = (''on ne peut pas constater la perte avant la date d'' @ [CHR 0x27] @ e_acute @ ''mission de la facture '') @ i"
| "billing_error_text WriteOffPeriodAlreadyFiled = (''on ne peut plus constater ni r'' @ e_acute @ ''tablir une perte : cette p'' @ e_acute @ ''riode est d'' @ e_acute @ ''j'' @ [CHR 0xC3, CHR 0xA0] @ '' d'' @ e_acute @ ''pos'' @ e_acute @ ''e'')"
| "billing_error_text (WriteOffNotFound i) = ''perte introuvable : '' @ i"
| "billing_error_text WriteOffAlreadyRetracted = (''cette perte est d'' @ e_acute @ ''j'' @ [CHR 0xC3, CHR 0xA0] @ '' r'' @ e_acute @ ''tract'' @ e_acute @ ''e'')"
| "billing_error_text ExerciseClosed = (''cet exercice est d'' @ e_acute @ ''j'' @ [CHR 0xC3, CHR 0xA0] @ '' clos'')"
| "billing_error_text (CannotCreditWrittenOff i) = ''la facture '' @ i @ ('' est d'' @ e_acute @ ''j'' @ [CHR 0xC3, CHR 0xA0] @ '' pass'' @ e_acute @ ''e en perte : un avoir n'' @ [CHR 0x27] @ ''est plus le bon geste'')"
| "billing_error_text ImportedCreditNoteWrongClient = (''un avoir doit porter sur une facture du m'' @ [CHR 0xC3, CHR 0xAA] @ ''me client'')"
| "billing_error_text ImportedCreditNoteMustBeNegative = (''un avoir import'' @ e_acute @ '' doit totaliser un TTC strictement n'' @ e_acute @ ''gatif '' @ em_dash @ '' inversez la quantit'' @ e_acute @ '', n'' @ [CHR 0x27] @ ''ajoutez pas une seconde cr'' @ e_acute @ ''ance'')"
| "billing_error_text TransactionNotFound = ''transaction bancaire introuvable''"
| "billing_error_text InvalidPaymentAmount = (''montant d'' @ [CHR 0x27] @ ''encaissement invalide : doit '' @ [CHR 0xC3, CHR 0xAA] @ ''tre strictement positif'')"
| "billing_error_text (PaymentNotFound i) = ''encaissement introuvable : '' @ i"
| "billing_error_text (PaymentAlreadyVoided i) = (''l'' @ [CHR 0x27] @ ''encaissement '') @ i @ ('' est d'' @ e_acute @ ''j'' @ [CHR 0xC3, CHR 0xA0] @ '' annul'' @ e_acute)"
| "billing_error_text (AlreadyReconciled i) = ''la transaction '' @ i @ ('' est d'' @ e_acute @ ''j'' @ [CHR 0xC3, CHR 0xA0] @ '' rapproch'' @ e_acute @ ''e '' @ em_dash @ '' d'' @ e_acute @ ''faites d'' @ [CHR 0x27] @ ''abord ce rapprochement si elle visait la mauvaise facture ou la mauvaise d'' @ e_acute @ ''pense'')"
| "billing_error_text (TransactionNotReconciled i) = ''la transaction '' @ i @ ('' n'' @ [CHR 0x27] @ ''est pas rapproch'' @ e_acute @ ''e : rien '' @ [CHR 0xC3, CHR 0xA0] @ '' d'' @ e_acute @ ''faire'')"
| "billing_error_text (TransactionNotSettled i) = ''la transaction '' @ i @ ('' n'' @ [CHR 0x27] @ ''est pas un r'' @ e_grave @ ''glement de compte de bilan : rien '' @ [CHR 0xC3, CHR 0xA0] @ '' d'' @ e_acute @ ''faire (pour un rapprochement de facture ou de d'' @ e_acute @ ''pense, d'' @ e_acute @ ''faites-le d'' @ [CHR 0x27] @ ''abord)'')"
| "billing_error_text (SettlementLabelRequired n) = ''le compte '' @ n @ ('' n'' @ [CHR 0x27] @ ''est pas dans le plan de comptes de Griffe : donnez-lui un libell'' @ e_acute @ '' (--label), comme au bilan d'' @ [CHR 0x27] @ ''ouverture'')"
| "billing_error_text (TransactionStillMatched i) = ''la transaction '' @ i @ ('' est rapproch'' @ e_acute @ ''e (facture, d'' @ e_acute @ ''pense ou r'' @ e_grave @ ''glement) : d'' @ e_acute @ ''faites d'' @ [CHR 0x27] @ ''abord le rapprochement avant de la supprimer'')"

definition refuse :: "billing_error \<Rightarrow> (app_error + 'a) option" where
  "refuse e = fail (Domain (billing_error_text e))"

section \<open>The state\<close>

record office =
  books :: vault
  invoice_sequences :: "(int \<times> int) list"
  write_offs :: "invoice_write_off list"
  ca3_keys :: "string list"
  missions_of :: "(uuid \<times> uuid) list"
  regime_set :: "vat_regime option"
  opening_date :: "date option"

text \<open>The environment of a call: the one of the journal and the clock as a time stamp.\<close>

record benv =
  draws :: jenv
  stamp :: "app_error + offset_date_time"

abbreviation invoices :: "office \<Rightarrow> invoice list" where
  "invoices o1 \<equiv> v_invoices (books o1)"

abbreviation payments :: "office \<Rightarrow> payment list" where
  "payments o1 \<equiv> v_payments (books o1)"

abbreviation bank_lines :: "office \<Rightarrow> bank_transaction list" where
  "bank_lines o1 \<equiv> v_bank (books o1)"

text \<open>A new identifier is drawn from the supply of the vault.\<close>

definition draw_id :: "benv \<Rightarrow> office \<Rightarrow> uuid \<times> office" where
  "draw_id v o1 = (uuid_at (draws v) (drawn (books o1)), o1\<lparr>books := (books o1)\<lparr>drawn := drawn (books o1) + 1\<rparr>\<rparr>)"

text \<open>An operation of the journal, inside the same transaction.\<close>

definition in_books :: "(vault \<Rightarrow> (app_error + vault) option) \<Rightarrow> office \<Rightarrow> (app_error + office) option" where
  "in_books f o1 = and_do (f (books o1)) (\<lambda>st. ok (o1\<lparr>books := st\<rparr>))"

section \<open>Rows\<close>

definition invoice_number :: "int \<Rightarrow> int \<Rightarrow> string" where
  "invoice_number year n = ''FA-'' @ pad_int 4 year @ ''-'' @ pad_int 4 n"

definition allocate_invoice_number :: "int \<Rightarrow> office \<Rightarrow> string \<times> office" where
  "allocate_invoice_number year o1 =
     (case map_of (invoice_sequences o1) year of
        None \<Rightarrow> (invoice_number year 1, o1\<lparr>invoice_sequences := invoice_sequences o1 @ [(year, 1)]\<rparr>)
      | Some n \<Rightarrow> (invoice_number year (n + 1),
          o1\<lparr>invoice_sequences := map (\<lambda>(y, k). if y = year then (y, k + 1) else (y, k)) (invoice_sequences o1)\<rparr>))"

definition last_invoice_hash :: "office \<Rightarrow> string option" where
  "last_invoice_hash o1 = (if invoices o1 = [] then None else Some (inv_hash (List.last (invoices o1))))"

text \<open>The insertion fails on the primary key, the unique number and the foreign keys.\<close>

definition insert_invoice :: "invoice \<Rightarrow> office \<Rightarrow> (app_error + office) option" where
  "insert_invoice iv o1 =
     (if inv_id iv \<in> inv_id ` set (invoices o1) \<or> inv_number iv \<in> inv_number ` set (invoices o1)
         \<or> inv_client_id iv \<notin> client_id ` set (v_clients (books o1))
         \<or> (\<exists>m \<in> set_option (inv_mission_id iv). m \<notin> fst ` set (missions_of o1))
         \<or> (\<exists>c \<in> set_option (credited_invoice_id iv). c \<notin> inv_id ` set (invoices o1))
      then fail Sqlite
      else ok (o1\<lparr>books := (books o1)\<lparr>v_invoices := invoices o1 @ [iv]\<rparr>\<rparr>))"

definition invoice_by_id :: "office \<Rightarrow> uuid \<Rightarrow> invoice option" where
  "invoice_by_id o1 i = find (\<lambda>x. inv_id x = i) (invoices o1)"

definition invoice_by_number :: "office \<Rightarrow> string \<Rightarrow> invoice option" where
  "invoice_by_number o1 n = find (\<lambda>x. inv_number x = n) (invoices o1)"

definition has_credit_note :: "office \<Rightarrow> uuid \<Rightarrow> bool" where
  "has_credit_note o1 i \<longleftrightarrow> list_ex (\<lambda>x. credited_invoice_id x = Some i) (invoices o1)"

definition active_write_off_for :: "office \<Rightarrow> uuid \<Rightarrow> invoice_write_off option" where
  "active_write_off_for o1 i = find (\<lambda>w. wo_invoice_id w = i \<and> retracted_on w = None) (write_offs o1)"

definition insert_payment :: "payment \<Rightarrow> office \<Rightarrow> (app_error + office) option" where
  "insert_payment p o1 =
     (if pay_id p \<in> pay_id ` set (payments o1) \<or> pay_invoice_id p \<notin> inv_id ` set (invoices o1)
         \<or> (\<exists>t \<in> set_option (bank_transaction_id p). t \<notin> tx_id ` set (bank_lines o1))
      then fail Sqlite
      else ok (o1\<lparr>books := (books o1)\<lparr>v_payments := payments o1 @ [p]\<rparr>\<rparr>))"

definition payment_by_id :: "office \<Rightarrow> uuid \<Rightarrow> payment option" where
  "payment_by_id o1 i = find (\<lambda>p. pay_id p = i) (payments o1)"

definition all_payments :: "time_api \<Rightarrow> office \<Rightarrow> payment list" where
  "all_payments T o1 = rev (sort_key (\<lambda>p. (format_date T (received_on p), pay_id p)) (payments o1))"

definition payments_for_invoice :: "time_api \<Rightarrow> office \<Rightarrow> uuid \<Rightarrow> payment list" where
  "payments_for_invoice T o1 i =
     sort_key (\<lambda>p. (format_date T (received_on p), pay_id p)) (filter (\<lambda>p. pay_invoice_id p = i) (payments o1))"

definition mark_payment_voided :: "uuid \<Rightarrow> offset_date_time \<Rightarrow> office \<Rightarrow> office" where
  "mark_payment_voided i at o1 =
     o1\<lparr>books := (books o1)\<lparr>v_payments := map (\<lambda>p. if pay_id p = i \<and> voided_at p = None then p\<lparr>voided_at := Some at\<rparr> else p)
       (payments o1)\<rparr>\<rparr>"

record parsed_transaction =
  pt_occurred_on :: date
  pt_amount_cents :: int
  pt_description :: string
  pt_fitid :: "string option"

definition update_bank :: "uuid \<Rightarrow> (bank_transaction \<Rightarrow> bank_transaction) \<Rightarrow> office \<Rightarrow> office" where
  "update_bank i f o1 =
     o1\<lparr>books := (books o1)\<lparr>v_bank := map (\<lambda>t. if tx_id t = i then f t else t) (bank_lines o1)\<rparr>\<rparr>"

text \<open>\<open>INSERT OR IGNORE\<close>: the primary key, the triple of the line and the bank's identifier.\<close>

definition insert_bank_transaction ::
    "time_api \<Rightarrow> benv \<Rightarrow> parsed_transaction \<Rightarrow> office \<Rightarrow> bool \<times> office" where
  "insert_bank_transaction T v p o1 =
     (let (new, o2) = draw_id v o1
      in if list_ex (\<lambda>t. tx_id t = new
             \<or> format_date T (occurred_on t) = format_date T (pt_occurred_on p) \<and> amount_cents t = pt_amount_cents p
               \<and> tx_description t = pt_description p
             \<or> fitid t \<noteq> None \<and> fitid t = pt_fitid p) (bank_lines o1)
         then (False, o2)
         else (True, o2\<lparr>books := (books o2)\<lparr>v_bank := bank_lines o2 @
                [\<lparr>tx_id = new, occurred_on = pt_occurred_on p, amount_cents = pt_amount_cents p,
                  tx_description = pt_description p, matched_invoice_id = None, matched_expense_id = None,
                  tx_settlement_account = None, settlement_label = None, fitid = pt_fitid p\<rparr>]\<rparr>\<rparr>))"

definition bank_transaction_by_id :: "office \<Rightarrow> uuid \<Rightarrow> bank_transaction option" where
  "bank_transaction_by_id o1 i = find (\<lambda>t. tx_id t = i) (bank_lines o1)"

definition is_already_imported :: "time_api \<Rightarrow> office \<Rightarrow> parsed_transaction \<Rightarrow> bool" where
  "is_already_imported T o1 p \<longleftrightarrow>
     (let triple = (\<lambda>t. format_date T (occurred_on t) = format_date T (pt_occurred_on p)
            \<and> amount_cents t = pt_amount_cents p \<and> tx_description t = pt_description p)
      in case pt_fitid p of
           Some f \<Rightarrow> list_ex (\<lambda>t. fitid t = Some f \<or> triple t) (bank_lines o1)
         | None \<Rightarrow> list_ex triple (bank_lines o1))"

text \<open>A payment, even a voided one, keeps its foreign key on the line it came from.\<close>

definition delete_bank_row :: "uuid \<Rightarrow> office \<Rightarrow> (app_error + office) option" where
  "delete_bank_row i o1 =
     (if list_ex (\<lambda>p. bank_transaction_id p = Some i) (payments o1) \<and> list_ex (\<lambda>t. tx_id t = i) (bank_lines o1)
      then fail Sqlite
      else ok (o1\<lparr>books := (books o1)\<lparr>v_bank := filter (\<lambda>t. tx_id t \<noteq> i) (bank_lines o1)\<rparr>\<rparr>))"

definition mark_transaction_settled :: "uuid \<Rightarrow> settlement_account \<Rightarrow> string \<Rightarrow> office \<Rightarrow> office" where
  "mark_transaction_settled i a label =
     update_bank i (\<lambda>t. t\<lparr>tx_settlement_account := Some a, settlement_label := Some label\<rparr>)"

definition mark_transaction_matched :: "uuid \<Rightarrow> uuid \<Rightarrow> office \<Rightarrow> office" where
  "mark_transaction_matched i iv = update_bank i (\<lambda>t. t\<lparr>matched_invoice_id := Some iv\<rparr>)"

definition clear_transaction_match :: "uuid \<Rightarrow> office \<Rightarrow> office" where
  "clear_transaction_match i =
     update_bank i (\<lambda>t. t\<lparr>matched_invoice_id := None, matched_expense_id := None,
       tx_settlement_account := None, settlement_label := None\<rparr>)"

text \<open>The index of one row by expense.\<close>

definition mark_transaction_matched_expense :: "uuid \<Rightarrow> uuid \<Rightarrow> office \<Rightarrow> (app_error + office) option" where
  "mark_transaction_matched_expense i e o1 =
     (if list_ex (\<lambda>t. tx_id t \<noteq> i \<and> matched_expense_id t = Some e) (bank_lines o1) \<and> list_ex (\<lambda>t. tx_id t = i) (bank_lines o1)
      then fail Sqlite
      else ok (update_bank i (\<lambda>t. t\<lparr>matched_expense_id := Some e\<rparr>) o1))"

definition bank_transaction_for_expense :: "office \<Rightarrow> uuid \<Rightarrow> bank_transaction option" where
  "bank_transaction_for_expense o1 e = find (\<lambda>t. matched_expense_id t = Some e) (bank_lines o1)"

definition all_bank_transactions :: "time_api \<Rightarrow> office \<Rightarrow> bank_transaction list" where
  "all_bank_transactions T o1 = rev (sort_key (\<lambda>t. (format_date T (occurred_on t), tx_id t)) (bank_lines o1))"

definition period_key_for :: "office \<Rightarrow> date \<Rightarrow> string" where
  "period_key_for o1 d =
     (let quarterly = regime_set o1 = Some RealNormalQuarterly;
          month = (if quarterly then (if dmonth d \<le> 3 then 1 else if dmonth d \<le> 6 then 4 else if dmonth d \<le> 9 then 7 else 10)
                   else dmonth d)
      in pad_int 4 (dyear d) @ ''-'' @ show_2 month)"

definition ca3_filed :: "office \<Rightarrow> string \<Rightarrow> bool" where
  "ca3_filed o1 key \<longleftrightarrow> key \<in> set (ca3_keys o1)"

definition exercise_closed :: "time_api \<Rightarrow> office \<Rightarrow> date \<Rightarrow> bool" where
  "exercise_closed T o1 d \<longleftrightarrow>
     list_ex (\<lambda>r. format_date T (starts_on r) \<le> format_date T d \<and> format_date T d \<le> format_date T (ends_on r)) (v_years (books o1))"

text \<open>The index of one live write-off by invoice.\<close>

definition insert_write_off :: "invoice_write_off \<Rightarrow> office \<Rightarrow> (app_error + office) option" where
  "insert_write_off w o1 =
     (if wo_id w \<in> wo_id ` set (write_offs o1) \<or> wo_invoice_id w \<notin> inv_id ` set (invoices o1)
         \<or> retracted_on w = None \<and> active_write_off_for o1 (wo_invoice_id w) \<noteq> None
      then fail Sqlite else ok (o1\<lparr>write_offs := write_offs o1 @ [w]\<rparr>))"

definition write_off_by_id :: "office \<Rightarrow> uuid \<Rightarrow> invoice_write_off option" where
  "write_off_by_id o1 i = find (\<lambda>w. wo_id w = i) (write_offs o1)"

definition set_retracted_on :: "uuid \<Rightarrow> date \<Rightarrow> office \<Rightarrow> (app_error + office) option" where
  "set_retracted_on i d o1 =
     (if write_off_by_id o1 i = None then refuse (WriteOffNotFound i)
      else ok (o1\<lparr>write_offs := map (\<lambda>w. if wo_id w = i then w\<lparr>retracted_on := Some d\<rparr> else w) (write_offs o1)\<rparr>))"

definition list_write_offs :: "time_api \<Rightarrow> office \<Rightarrow> invoice_write_off list" where
  "list_write_offs T o1 = sort_key (\<lambda>w. (format_date T (written_off_on w), wo_id w)) (write_offs o1)"

section \<open>The hash of an invoice\<close>

record canonical_invoice =
  ci_number :: string
  ci_client_id :: string
  ci_mission_id :: "string option"
  ci_lines :: "invoice_line list"
  ci_issued_on :: string
  ci_due_on :: string
  ci_credited_invoice_id :: "string option"

definition compute_invoice_hash ::
    "(string \<Rightarrow> string) \<Rightarrow> (canonical_invoice \<Rightarrow> string) \<Rightarrow> string option \<Rightarrow> canonical_invoice \<Rightarrow> string" where
  "compute_invoice_hash sha json prev c = sha (or_default prev @ [CHR 0x00] @ json c)"

definition canonical_of :: "time_api \<Rightarrow> invoice \<Rightarrow> canonical_invoice" where
  "canonical_of T iv =
     \<lparr>ci_number = inv_number iv, ci_client_id = inv_client_id iv, ci_mission_id = inv_mission_id iv,
      ci_lines = inv_lines iv, ci_issued_on = format_date T (issued_on iv), ci_due_on = format_date T (due_on iv),
      ci_credited_invoice_id = credited_invoice_id iv\<rparr>"

section \<open>Commands\<close>

record emitted_invoice =
  em_id :: uuid
  em_number :: string

record emit_invoice =
  ei_client_id :: uuid
  ei_mission_id :: "uuid option"
  ei_lines :: "invoice_line list"
  ei_issued_on :: date
  payment_terms_days :: nat

text \<open>\<open>Date::saturating_add\<close>.\<close>

definition due_date :: "time_api \<Rightarrow> date \<Rightarrow> nat \<Rightarrow> date" where
  "due_date T d days = (case add_days T d (int days) of Some e \<Rightarrow> e | None \<Rightarrow> Date 9999 12 31)"

text \<open>The end of the three commands that add an invoice: its hash, its row and its entry in the book.\<close>

definition add_invoice ::
    "time_api \<Rightarrow> (string \<Rightarrow> string) \<Rightarrow> (canonical_invoice \<Rightarrow> string) \<Rightarrow> benv \<Rightarrow> invoice \<Rightarrow> office
       \<Rightarrow> (app_error + emitted_invoice \<times> office) option" where
  "add_invoice T sha json v draft o1 =
     (let prev = last_invoice_hash o1;
          (new, o2) = draw_id v o1;
          iv = draft\<lparr>inv_id := new, previous_hash := prev,
                 inv_hash := compute_invoice_hash sha json prev (canonical_of T draft)\<rparr>
      in and_do (insert_invoice iv o2) (\<lambda>o3.
         and_do (in_books (sync_sale T (draws v) new RefuseClosedYear) o3) (\<lambda>o4.
         ok (\<lparr>em_id = new, em_number = inv_number iv\<rparr>, o4))))"

text \<open>An invoice before its identifier and its hash.\<close>

definition draft_invoice ::
    "string \<Rightarrow> uuid \<Rightarrow> uuid option \<Rightarrow> invoice_line list \<Rightarrow> invoice_origin \<Rightarrow> date \<Rightarrow> date \<Rightarrow> uuid option \<Rightarrow> invoice" where
  "draft_invoice number client mission ls org issued due credited =
     \<lparr>inv_id = [], inv_number = number, inv_client_id = client, inv_mission_id = mission, inv_lines = ls,
      inv_status = Issued, origin = org, issued_on = issued, due_on = due, previous_hash = None, inv_hash = [],
      credited_invoice_id = credited\<rparr>"

definition apply_emit_invoice ::
    "time_api \<Rightarrow> (string \<Rightarrow> string) \<Rightarrow> (canonical_invoice \<Rightarrow> string) \<Rightarrow> benv \<Rightarrow> emit_invoice \<Rightarrow> office
       \<Rightarrow> (app_error + emitted_invoice \<times> office) option" where
  "apply_emit_invoice T sha json v c o1 =
     (if ei_lines c = [] then refuse EmptyInvoice
      else let (number, o2) = allocate_invoice_number (dyear (ei_issued_on c)) o1
           in add_invoice T sha json v
                (draft_invoice number (ei_client_id c) (ei_mission_id c) (ei_lines c) OriginIssued (ei_issued_on c)
                   (due_date T (ei_issued_on c) (payment_terms_days c)) None) o2)"

record import_issued_invoice =
  ii_number :: string
  ii_client_id :: uuid
  ii_mission_id :: "uuid option"
  ii_lines :: "invoice_line list"
  ii_issued_on :: date
  ii_payment_terms_days :: nat
  ii_credited_invoice_id :: "uuid option"

definition check_imported_credit :: "import_issued_invoice \<Rightarrow> office \<Rightarrow> (app_error + unit) option" where
  "check_imported_credit c o1 =
     (case ii_credited_invoice_id c of
        None \<Rightarrow> ok ()
      | Some i \<Rightarrow>
          (case invoice_by_id o1 i of
             None \<Rightarrow> refuse (NotFound i)
           | Some original \<Rightarrow>
               if credited_invoice_id original \<noteq> None then refuse (CannotCreditACreditNote i)
               else if has_credit_note o1 i then refuse (AlreadyCredited i)
               else if inv_client_id original \<noteq> ii_client_id c then refuse ImportedCreditNoteWrongClient
               else do { totals \<leftarrow> compute_totals (ii_lines c);
                         if \<not> total_ttc totals < 0 then refuse ImportedCreditNoteMustBeNegative else ok () }))"

definition apply_import_issued_invoice ::
    "time_api \<Rightarrow> (string \<Rightarrow> string) \<Rightarrow> (canonical_invoice \<Rightarrow> string) \<Rightarrow> benv \<Rightarrow> import_issued_invoice \<Rightarrow> office
       \<Rightarrow> (app_error + emitted_invoice \<times> office) option" where
  "apply_import_issued_invoice T sha json v c o1 =
     (let number = trim (ii_number c)
      in if number = [] then refuse EmptyInvoiceNumber
         else if ii_lines c = [] then refuse EmptyInvoice
         else if invoice_by_number o1 number \<noteq> None then refuse (DuplicateInvoiceNumber number)
         else if \<exists>m \<in> set_option (ii_mission_id c). map_of (missions_of o1) m \<noteq> Some (ii_client_id c)
         then refuse MissionDoesNotBelongToClient
         else and_do (check_imported_credit c o1) (\<lambda>_.
              add_invoice T sha json v
                (draft_invoice number (ii_client_id c) (ii_mission_id c) (ii_lines c) OriginImported (ii_issued_on c)
                   (due_date T (ii_issued_on c) (ii_payment_terms_days c)) (ii_credited_invoice_id c)) o1))"

record issue_credit_note =
  cn_invoice_id :: uuid
  cn_issued_on :: date

definition apply_issue_credit_note ::
    "time_api \<Rightarrow> (string \<Rightarrow> string) \<Rightarrow> (canonical_invoice \<Rightarrow> string) \<Rightarrow> benv \<Rightarrow> issue_credit_note \<Rightarrow> office
       \<Rightarrow> (app_error + emitted_invoice \<times> office) option" where
  "apply_issue_credit_note T sha json v c o1 =
     (let i = cn_invoice_id c
      in case invoice_by_id o1 i of
           None \<Rightarrow> refuse (NotFound i)
         | Some original \<Rightarrow>
             if origin original = OriginImported then refuse (CannotCreditImportedInvoice i)
             else if credited_invoice_id original \<noteq> None then refuse (CannotCreditACreditNote i)
             else if has_credit_note o1 i then refuse (AlreadyCredited i)
             else if active_write_off_for o1 i \<noteq> None then refuse (CannotCreditWrittenOff i)
             else let (number, o2) = allocate_invoice_number (dyear (cn_issued_on c)) o1
                  in add_invoice T sha json v
                       (draft_invoice number (inv_client_id original) (inv_mission_id original)
                          (map negate_line (inv_lines original)) OriginIssued
                          (cn_issued_on c) (cn_issued_on c) (Some i)) o2)"

definition credited_total :: "office \<Rightarrow> uuid \<Rightarrow> money option" where
  "credited_total o1 i =
     map_option sum_list (those (map (\<lambda>c. map_option total_ttc (compute_totals (inv_lines c)))
       (filter (\<lambda>c. credited_invoice_id c = Some i) (invoices o1))))"

definition paid_amount :: "time_api \<Rightarrow> office \<Rightarrow> uuid \<Rightarrow> money" where
  "paid_amount T o1 i = sum_list (map pay_amount (filter (\<lambda>p. \<not> is_voided p) (payments_for_invoice T o1 i)))"

record write_off_receivable =
  wr_invoice_id :: uuid
  wr_written_off_on :: date

definition write_off_refusal :: "time_api \<Rightarrow> write_off_receivable \<Rightarrow> invoice \<Rightarrow> office \<Rightarrow> billing_error option" where
  "write_off_refusal T c iv o1 =
     (let i = wr_invoice_id c; d = wr_written_off_on c
      in if credited_invoice_id iv \<noteq> None then Some (CannotWriteOffCreditNote i)
         else if has_credit_note o1 i then Some (CannotWriteOffAlreadyCredited i)
         else if active_write_off_for o1 i \<noteq> None then Some (AlreadyWrittenOff i)
         else if d < issued_on iv then Some (WriteOffBeforeIssue i)
         else if exercise_closed T o1 d then Some ExerciseClosed
         else if ca3_filed o1 (period_key_for o1 d) then Some WriteOffPeriodAlreadyFiled
         else None)"

text \<open>The share of the loss in the amount before tax and in the VAT.\<close>

definition write_off_amounts :: "invoice_totals \<Rightarrow> money \<Rightarrow> (money \<times> money \<times> money) option" where
  "write_off_amounts totals outstanding =
     (if outstanding = total_ttc totals then Some (subtotal_ht totals, total_vat totals, total_ttc totals)
      else do { ht \<leftarrow> scale (subtotal_ht totals) outstanding (total_ttc totals);
                Some (ht, outstanding - ht, outstanding) })"

definition apply_write_off_receivable ::
    "time_api \<Rightarrow> benv \<Rightarrow> write_off_receivable \<Rightarrow> office \<Rightarrow> (app_error + invoice_write_off \<times> office) option" where
  "apply_write_off_receivable T v c o1 =
     (case invoice_by_id o1 (wr_invoice_id c) of
        None \<Rightarrow> refuse (NotFound (wr_invoice_id c))
      | Some iv \<Rightarrow>
          (case write_off_refusal T c iv o1 of
             Some e \<Rightarrow> refuse e
           | None \<Rightarrow>
               do { totals \<leftarrow> compute_totals (inv_lines iv);
                    credited \<leftarrow> credited_total o1 (wr_invoice_id c);
                    let outstanding = total_ttc totals + credited - paid_amount T o1 (wr_invoice_id c);
                    if outstanding = 0 then refuse (NothingOutstanding (wr_invoice_id c))
                    else do { (ht, vat, ttc) \<leftarrow> write_off_amounts totals outstanding;
                              let (new, o2) = draw_id v o1;
                              let w = \<lparr>wo_id = new, wo_invoice_id = wr_invoice_id c, written_off_on = wr_written_off_on c,
                                      wo_ht = ht, wo_vat = vat, wo_ttc = ttc,
                                      recovers_vat = ca3_filed o1 (period_key_for o1 (issued_on iv)), retracted_on = None\<rparr>;
                              and_do (insert_write_off w o2) (\<lambda>o3. ok (w, o3)) } }))"

record retract_write_off =
  rw_write_off_id :: uuid
  rw_retracted_on :: date

definition apply_retract_write_off :: "retract_write_off \<Rightarrow> office \<Rightarrow> (app_error + unit \<times> office) option" where
  "apply_retract_write_off c o1 =
     (case write_off_by_id o1 (rw_write_off_id c) of
        None \<Rightarrow> refuse (WriteOffNotFound (rw_write_off_id c))
      | Some w \<Rightarrow>
          if retracted_on w \<noteq> None then refuse WriteOffAlreadyRetracted
          else if ca3_filed o1 (period_key_for o1 (written_off_on w)) then refuse WriteOffPeriodAlreadyFiled
          else and_do (set_retracted_on (rw_write_off_id c) (rw_retracted_on c) o1) (\<lambda>o2. ok ((), o2)))"

record record_payment =
  rp_invoice_id :: uuid
  rp_amount :: money
  rp_received_on :: date
  rp_method :: payment_method

definition apply_record_payment ::
    "time_api \<Rightarrow> benv \<Rightarrow> record_payment \<Rightarrow> office \<Rightarrow> (app_error + uuid \<times> office) option" where
  "apply_record_payment T v c o1 =
     (if rp_amount c \<le> 0 then refuse InvalidPaymentAmount
      else if invoice_by_id o1 (rp_invoice_id c) = None then refuse (NotFound (rp_invoice_id c))
      else let (new, o2) = draw_id v o1
           in and_do (insert_payment \<lparr>pay_id = new, pay_invoice_id = rp_invoice_id c, pay_amount = rp_amount c,
                  received_on = rp_received_on c, pay_method = rp_method c, bank_transaction_id = None, voided_at = None\<rparr> o2) (\<lambda>o3.
              and_do (in_books (sync_collection T (draws v) new RefuseClosedYear) o3) (\<lambda>o4. ok (new, o4))))"

record void_payment =
  vp_payment_id :: uuid
  vp_reason :: "string option"

definition apply_void_payment :: "time_api \<Rightarrow> benv \<Rightarrow> void_payment \<Rightarrow> office \<Rightarrow> (app_error + unit \<times> office) option" where
  "apply_void_payment T v c o1 =
     (let i = vp_payment_id c
      in case payment_by_id o1 i of
           None \<Rightarrow> refuse (PaymentNotFound i)
         | Some p \<Rightarrow>
             if is_voided p then refuse (PaymentAlreadyVoided i)
             else and_do (Some (stamp v)) (\<lambda>at.
                  let o2 = mark_payment_voided i at o1;
                      o3 = (case bank_transaction_id p of None \<Rightarrow> o2 | Some t \<Rightarrow> clear_transaction_match t o2)
                  in and_do (in_books (sync_collection T (draws v) i RefuseClosedYear) o3) (\<lambda>o4. ok ((), o4))))"

fun apply_import_bank_transactions ::
    "time_api \<Rightarrow> benv \<Rightarrow> parsed_transaction list \<Rightarrow> office \<Rightarrow> nat \<times> office" where
  "apply_import_bank_transactions T v [] o1 = (0, o1)"
| "apply_import_bank_transactions T v (p # ps) o1 =
     (let (added, o2) = insert_bank_transaction T v p o1;
          (n, o3) = apply_import_bank_transactions T v ps o2
      in (if added then n + 1 else n, o3))"

record reconcile_transaction =
  rc_transaction_id :: uuid
  rc_invoice_id :: uuid

definition apply_reconcile_transaction ::
    "time_api \<Rightarrow> benv \<Rightarrow> reconcile_transaction \<Rightarrow> office \<Rightarrow> (app_error + uuid \<times> office) option" where
  "apply_reconcile_transaction T v c o1 =
     (if invoice_by_id o1 (rc_invoice_id c) = None then refuse (NotFound (rc_invoice_id c))
      else case bank_transaction_by_id o1 (rc_transaction_id c) of
             None \<Rightarrow> refuse TransactionNotFound
           | Some t \<Rightarrow>
               if is_matched t then refuse (AlreadyReconciled (rc_transaction_id c))
               else if amount_cents t \<le> 0 then refuse InvalidPaymentAmount
               else let (new, o2) = draw_id v o1
                    in and_do (insert_payment \<lparr>pay_id = new, pay_invoice_id = rc_invoice_id c, pay_amount = amount_cents t,
                         received_on = occurred_on t, pay_method = BankTransfer,
                         bank_transaction_id = Some (rc_transaction_id c), voided_at = None\<rparr> o2) (\<lambda>o3.
                       let o4 = mark_transaction_matched (rc_transaction_id c) (rc_invoice_id c) o3
                       in and_do (in_books (sync_collection T (draws v) new RefuseClosedYear) o4) (\<lambda>o5. ok (new, o5))))"

definition apply_unreconcile_transaction ::
    "time_api \<Rightarrow> benv \<Rightarrow> uuid \<Rightarrow> office \<Rightarrow> (app_error + uuid option \<times> office) option" where
  "apply_unreconcile_transaction T v i o1 =
     (case bank_transaction_by_id o1 i of
        None \<Rightarrow> refuse TransactionNotFound
      | Some t \<Rightarrow>
          if \<not> is_matched t then refuse (TransactionNotReconciled i)
          else and_do (case find (\<lambda>p. bank_transaction_id p = Some i \<and> \<not> is_voided p) (all_payments T o1) of
                         None \<Rightarrow> ok (None, o1)
                       | Some p \<Rightarrow> and_do (Some (stamp v)) (\<lambda>at. ok (Some (pay_id p), mark_payment_voided (pay_id p) at o1)))
               (\<lambda>(voided, o2).
                let o3 = clear_transaction_match i o2
                in and_do (case matched_expense_id t of
                             None \<Rightarrow> ok o3
                           | Some e \<Rightarrow> in_books (sync_expense_payment T (draws v) e RefuseClosedYear) o3) (\<lambda>o4.
                   and_do (case voided of
                             None \<Rightarrow> ok o4
                           | Some p \<Rightarrow> in_books (sync_collection T (draws v) p RefuseClosedYear) o4) (\<lambda>o5.
                   ok (voided, o5)))))"

record settle_bank_transaction =
  sb_transaction_id :: uuid
  sb_account :: settlement_account
  sb_label :: "string option"

definition settlement_label_for :: "settle_bank_transaction \<Rightarrow> string option" where
  "settlement_label_for c =
     (case account_for_number (settlement_as_str (sb_account c)) None of
        Some a \<Rightarrow> Some (acc_label a)
      | None \<Rightarrow> Option.bind (sb_label c) (\<lambda>l. if trim l = [] then None else Some (trim l)))"

definition apply_settle_bank_transaction ::
    "settle_bank_transaction \<Rightarrow> office \<Rightarrow> (app_error + unit \<times> office) option" where
  "apply_settle_bank_transaction c o1 =
     (case bank_transaction_by_id o1 (sb_transaction_id c) of
        None \<Rightarrow> refuse TransactionNotFound
      | Some t \<Rightarrow>
          if is_matched t then refuse (AlreadyReconciled (sb_transaction_id c))
          else case settlement_label_for c of
                 None \<Rightarrow> refuse (SettlementLabelRequired (settlement_as_str (sb_account c)))
               | Some label \<Rightarrow> ok ((), mark_transaction_settled (sb_transaction_id c) (sb_account c) label o1))"

definition apply_unsettle_bank_transaction :: "uuid \<Rightarrow> office \<Rightarrow> (app_error + unit \<times> office) option" where
  "apply_unsettle_bank_transaction i o1 =
     (case bank_transaction_by_id o1 i of
        None \<Rightarrow> refuse TransactionNotFound
      | Some t \<Rightarrow> if \<not> is_settled t then refuse (TransactionNotSettled i) else ok ((), clear_transaction_match i o1))"

definition apply_delete_bank_transaction :: "uuid \<Rightarrow> office \<Rightarrow> (app_error + unit \<times> office) option" where
  "apply_delete_bank_transaction i o1 =
     (case bank_transaction_by_id o1 i of
        None \<Rightarrow> refuse TransactionNotFound
      | Some t \<Rightarrow>
          if is_matched t then refuse (TransactionStillMatched i)
          else and_do (delete_bank_row i o1) (\<lambda>o2. ok ((), o2)))"

section \<open>Queries\<close>

definition list_invoices :: "office \<Rightarrow> invoice list" where
  "list_invoices o1 = rev (invoices o1)"

definition new_transactions_among :: "time_api \<Rightarrow> office \<Rightarrow> parsed_transaction list \<Rightarrow> bool list" where
  "new_transactions_among T o1 ps = map (\<lambda>p. \<not> is_already_imported T o1 p) ps"

definition unmatched_debits :: "time_api \<Rightarrow> office \<Rightarrow> bank_transaction list" where
  "unmatched_debits T o1 = filter (\<lambda>t. is_debit t \<and> \<not> is_matched t) (all_bank_transactions T o1)"

datatype invoice_chain_status = ChainIntact | ChainBrokenAt uuid

fun verify_invoices ::
    "time_api \<Rightarrow> (string \<Rightarrow> string) \<Rightarrow> (canonical_invoice \<Rightarrow> string) \<Rightarrow> string option \<Rightarrow> invoice list \<Rightarrow> invoice_chain_status" where
  "verify_invoices T sha json expected [] = ChainIntact"
| "verify_invoices T sha json expected (iv # ivs) =
     (if previous_hash iv \<noteq> expected then ChainBrokenAt (inv_id iv)
      else if compute_invoice_hash sha json (previous_hash iv) (canonical_of T iv) \<noteq> inv_hash iv then ChainBrokenAt (inv_id iv)
      else verify_invoices T sha json (Some (inv_hash iv)) ivs)"

definition verify_invoice_chain ::
    "time_api \<Rightarrow> (string \<Rightarrow> string) \<Rightarrow> (canonical_invoice \<Rightarrow> string) \<Rightarrow> office \<Rightarrow> invoice_chain_status" where
  "verify_invoice_chain T sha json o1 = verify_invoices T sha json None (invoices o1)"

datatype aging_bucket = Current | Due1To30 | Due31To60 | Due61To90 | Due91Plus

definition bucket_for :: "int \<Rightarrow> aging_bucket" where
  "bucket_for days =
     (if days \<le> 0 then Current else if days \<le> 30 then Due1To30 else if days \<le> 60 then Due31To60
      else if days \<le> 90 then Due61To90 else Due91Plus)"

record aged_invoice =
  ag_invoice_id :: uuid
  ag_client_id :: uuid
  ag_outstanding :: money
  days_overdue :: int
  ag_bucket :: aging_bucket

definition outstanding_of :: "office \<Rightarrow> invoice \<Rightarrow> money option" where
  "outstanding_of o1 iv =
     do { totals \<leftarrow> compute_totals (inv_lines iv);
          credited \<leftarrow> credited_total o1 (inv_id iv);
          let paid = sum_list (map pay_amount (filter (\<lambda>p. pay_invoice_id p = inv_id iv \<and> \<not> is_voided p) (payments o1)));
          let due = total_ttc totals + credited - paid;
          Some (case active_write_off_for o1 (inv_id iv) of Some w \<Rightarrow> due - wo_ttc w | None \<Rightarrow> due) }"

definition aged_balance :: "time_api \<Rightarrow> office \<Rightarrow> date \<Rightarrow> aged_invoice list option" where
  "aged_balance T o1 today =
     map_option concat (those (map (\<lambda>iv.
         if credited_invoice_id iv \<noteq> None then Some []
         else do { due \<leftarrow> outstanding_of o1 iv;
                   let days = days_since T today (due_on iv);
                   Some (if due = 0 then []
                         else [\<lparr>ag_invoice_id = inv_id iv, ag_client_id = inv_client_id iv, ag_outstanding = due,
                                days_overdue = days, ag_bucket = bucket_for days\<rparr>]) })
       (invoices o1)))"

end
