(* ===== verification/Expenses.thy ===== *)
theory Expenses
  imports Invoicing
begin

text \<open>
  \<open>expenses.rs\<close>: recording, correcting, reconciling and deleting the expenses,
  over the office of \<open>Invoicing\<close>, with the entry each command keeps in the journal. The hash and the
  copy of a receipt are the caller's. The lists whose order leaves ties (\<open>list_expenses\<close>,
  \<open>expenses_between\<close>, \<open>fees_by_supplier\<close>) are not modelled.
\<close>

section \<open>Errors\<close>

datatype expenses_error =
    ExpenseNotFound uuid
  | VatExceedsRate money money string money
  | ExpenseYearClosed string
  | BeforeOpeningBalance string string
  | DebitNotFound uuid
  | NotADebit uuid
  | TransactionAlreadyReconciled uuid
  | ExpenseAlreadyReconciled uuid
  | AmountMismatch money money
  | ReconciledAmountLocked uuid
  | Immobilized uuid
  | PaidByAssociateNotABankPayment
  | ExpenseAdvancedByAssociate uuid
  | PaidByLockedWhenReconciled uuid

primrec expenses_error_text :: "expenses_error \<Rightarrow> string" where
  "expenses_error_text (ExpenseNotFound i) = (''d'' @ e_acute @ ''pense introuvable : '') @ i"
| "expenses_error_text (VatExceedsRate requested amount rate most) =
     (''la TVA d'' @ e_acute @ ''ductible ('') @ display_money requested @ ('') d'' @ e_acute @ ''passe la TVA contenue dans '') @ display_money amount
       @ '' au taux '' @ rate @ '' : au plus '' @ display_money most @ ('' (montant TTC '' @ [CHR 0xE2, CHR 0x88, CHR 0x92] @ '' montant TTC / (1 + taux))'')"
| "expenses_error_text (ExpenseYearClosed d) = (''la d'' @ e_acute @ ''pense du '') @ d @ ('' tombe dans un exercice d'' @ e_acute @ ''j'' @ [CHR 0xC3, CHR 0xA0] @ '' cl'' @ o_circ @ ''tur'' @ e_acute @ '', dont le r'' @ e_acute @ ''sultat a '' @ e_acute @ ''t'' @ e_acute @ '' fig'' @ e_acute @ '' '' @ em_dash @ '' supprimez d'' @ [CHR 0x27] @ ''abord l'' @ [CHR 0x27] @ ''exercice s'' @ [CHR 0x27] @ ''il n'' @ [CHR 0x27] @ ''est qu'' @ [CHR 0x27] @ ''un projet, ou rattachez la d'' @ e_acute @ ''pense '' @ [CHR 0xC3, CHR 0xA0] @ '' l'' @ [CHR 0x27] @ ''exercice courant'')"
| "expenses_error_text (BeforeOpeningBalance d opens) = (''la d'' @ e_acute @ ''pense du '') @ d @ ('' est ant'' @ e_acute @ ''rieure au bilan d'' @ [CHR 0x27] @ ''ouverture ('') @ opens @ ('') : ce bilan reprend d'' @ e_acute @ ''j'' @ [CHR 0xC3, CHR 0xA0] @ '' tout ce qui s'' @ [CHR 0x27] @ ''est pass'' @ e_acute @ '' avant '' @ em_dash @ '' une pi'' @ e_grave @ ''ce dat'' @ e_acute @ ''e avant ce jour a '' @ e_acute @ ''t'' @ e_acute @ '' comptabilis'' @ e_acute @ ''e par le cabinet, pas ici (corrigez la date, ou la date du bilan)'')"
| "expenses_error_text (DebitNotFound i) = ''transaction bancaire introuvable : '' @ i"
| "expenses_error_text (NotADebit i) = ''la transaction '' @ i @ ('' est un cr'' @ e_acute @ ''dit : seul un d'' @ e_acute @ ''bit (sortie d'' @ [CHR 0x27] @ ''argent) paie une d'' @ e_acute @ ''pense'')"
| "expenses_error_text (TransactionAlreadyReconciled i) = ''la transaction '' @ i @ ('' est d'' @ e_acute @ ''j'' @ [CHR 0xC3, CHR 0xA0] @ '' rapproch'' @ e_acute @ ''e '' @ em_dash @ '' d'' @ e_acute @ ''faites d'' @ [CHR 0x27] @ ''abord ce rapprochement si elle visait la mauvaise d'' @ e_acute @ ''pense ou la mauvaise facture'')"
| "expenses_error_text (ExpenseAlreadyReconciled i) = (''la d'' @ e_acute @ ''pense '') @ i @ ('' est d'' @ e_acute @ ''j'' @ [CHR 0xC3, CHR 0xA0] @ '' rapproch'' @ e_acute @ ''e d'' @ [CHR 0x27] @ ''un d'' @ e_acute @ ''bit du relev'' @ e_acute @ '' '' @ em_dash @ '' d'' @ e_acute @ ''faites d'' @ [CHR 0x27] @ ''abord ce rapprochement'')"
| "expenses_error_text (AmountMismatch x t) = (''le montant de la d'' @ e_acute @ ''pense ('') @ display_money x @ ('') diff'' @ e_grave @ ''re du d'' @ e_acute @ ''bit du relev'' @ e_acute @ '' ('') @ display_money t @ '') : un rapprochement se fait au montant exact''"
| "expenses_error_text (ReconciledAmountLocked i) = (''la d'' @ e_acute @ ''pense '') @ i @ ('' est rapproch'' @ e_acute @ ''e d'' @ [CHR 0x27] @ ''un d'' @ e_acute @ ''bit du relev'' @ e_acute @ '' : son montant est celui du relev'' @ e_acute @ '' '' @ em_dash @ '' d'' @ e_acute @ ''faites d'' @ [CHR 0x27] @ ''abord le rapprochement pour le modifier'')"
| "expenses_error_text (Immobilized i) = (''la d'' @ e_acute @ ''pense '') @ i @ ('' est immobilis'' @ e_acute @ ''e : son net (TTC '' @ [CHR 0xE2, CHR 0x88, CHR 0x92] @ '' TVA d'' @ e_acute @ ''ductible) est la base amortissable de l'' @ [CHR 0x27] @ ''immobilisation '' @ em_dash @ '' supprimez d'' @ [CHR 0x27] @ ''abord l'' @ [CHR 0x27] @ ''immobilisation pour la modifier ou la supprimer'')"
| "expenses_error_text PaidByAssociateNotABankPayment = (''une d'' @ e_acute @ ''pense avanc'' @ e_acute @ ''e par l'' @ [CHR 0x27] @ ''associ'' @ e_acute @ '' n'' @ [CHR 0x27] @ ''est pas un paiement du relev'' @ e_acute @ '' : elle n'' @ [CHR 0x27] @ ''appara'' @ [CHR 0xC3, CHR 0xAE] @ ''t pas sur le compte de la soci'' @ e_acute @ ''t'' @ e_acute)"
| "expenses_error_text (ExpenseAdvancedByAssociate i) = (''cette d'' @ e_acute @ ''pense a '' @ e_acute @ ''t'' @ e_acute @ '' avanc'' @ e_acute @ ''e par l'' @ [CHR 0x27] @ ''associ'' @ e_acute @ '' : elle n'' @ [CHR 0x27] @ ''est pas sur le relev'' @ e_acute @ '' de la soci'' @ e_acute @ ''t'' @ e_acute)"
| "expenses_error_text (PaidByLockedWhenReconciled i) = (''cette d'' @ e_acute @ ''pense est rapproch'' @ e_acute @ ''e d'' @ [CHR 0x27] @ ''un d'' @ e_acute @ ''bit du relev'' @ e_acute @ '' : elle a '' @ e_acute @ ''t'' @ e_acute @ '' pay'' @ e_acute @ ''e par la soci'' @ e_acute @ ''t'' @ e_acute)"

definition refuse_expense :: "expenses_error \<Rightarrow> (app_error + 'a) option" where
  "refuse_expense e = fail (Domain (expenses_error_text e))"

section \<open>Guards\<close>

abbreviation expenses :: "office \<Rightarrow> expense list" where
  "expenses o1 \<equiv> v_expenses (books o1)"

definition EXPENSE_ENTITY :: string where
  "EXPENSE_ENTITY = (''d'' @ e_acute @ ''pense'')"

definition require_expense_revision :: "office \<Rightarrow> uuid \<Rightarrow> int \<Rightarrow> (app_error + int) option" where
  "require_expense_revision o1 i expected =
     (case current_revision (map (\<lambda>e. (exp_id e, exp_revision e)) (expenses o1)) i of
        None \<Rightarrow> refuse_expense (ExpenseNotFound i)
      | Some current \<Rightarrow> require_revision current expected EXPENSE_ENTITY i)"

definition ensure_outside_closed_fiscal_year :: "time_api \<Rightarrow> office \<Rightarrow> date \<Rightarrow> (app_error + unit) option" where
  "ensure_outside_closed_fiscal_year T o1 d =
     (if exercise_closed T o1 d then refuse_expense (ExpenseYearClosed (format_date T d)) else ok ())"

definition ensure_not_before_opening_balance :: "time_api \<Rightarrow> office \<Rightarrow> date \<Rightarrow> (app_error + unit) option" where
  "ensure_not_before_opening_balance T o1 d =
     (case opening_date o1 of
        Some opens \<Rightarrow>
          if d < opens then refuse_expense (BeforeOpeningBalance (format_date T d) (format_date T opens)) else ok ()
      | None \<Rightarrow> ok ())"

text \<open>The most VAT an amount can hold at a rate, rounded up to the cent.\<close>

definition max_deductible_vat :: "money \<Rightarrow> vat_rate \<Rightarrow> money" where
  "max_deductible_vat amount rate =
     (let bps = int (basis_points rate)
      in if bps = 0 \<or> amount \<le> 0 then 0
         else let product = amount * bps; divisor = 10000 + bps;
                  most = product div divisor + (if product mod divisor \<noteq> 0 then 1 else 0)
              in if in_i64 most then most else 2 ^ 63 - 1)"

definition ensure_vat_within_amount :: "money \<Rightarrow> money \<Rightarrow> vat_rate \<Rightarrow> (app_error + unit) option" where
  "ensure_vat_within_amount vat amount rate =
     (let most = max_deductible_vat amount rate
      in if vat > most then refuse_expense (VatExceedsRate vat amount (vat_rate_as_str rate) most) else ok ())"

definition posted_vat :: "bool \<Rightarrow> money \<Rightarrow> vat_rate \<Rightarrow> money \<Rightarrow> (app_error + money) option" where
  "posted_vat reversed amount rate vat =
     (if reversed then map_option Inr (tax_on rate amount)
      else and_do (ensure_vat_within_amount vat amount rate) (\<lambda>_. ok vat))"

definition debit_amount :: "bank_transaction \<Rightarrow> money option" where
  "debit_amount t = (if amount_cents t = - (2 ^ 63) then None else Some (- amount_cents t))"

definition rapprochable_debit :: "office \<Rightarrow> uuid \<Rightarrow> money \<Rightarrow> (app_error + bank_transaction) option" where
  "rapprochable_debit o1 i amount =
     (case bank_transaction_by_id o1 i of
        None \<Rightarrow> refuse_expense (DebitNotFound i)
      | Some t \<Rightarrow>
          if is_matched t then refuse_expense (TransactionAlreadyReconciled i)
          else if \<not> is_debit t then refuse_expense (NotADebit i)
          else do { paid \<leftarrow> debit_amount t;
                    if paid \<noteq> amount then refuse_expense (AmountMismatch amount paid) else ok t })"

section \<open>Rows\<close>

definition insert_expense :: "expense \<Rightarrow> office \<Rightarrow> (app_error + office) option" where
  "insert_expense e o1 =
     (if exp_id e \<in> exp_id ` set (expenses o1) then fail Sqlite
      else ok (o1\<lparr>books := (books o1)\<lparr>v_expenses := expenses o1 @ [e]\<rparr>\<rparr>))"

definition expense_by_id :: "office \<Rightarrow> uuid \<Rightarrow> expense option" where
  "expense_by_id o1 i = find (\<lambda>e. exp_id e = i) (expenses o1)"

definition asset_for_expense :: "office \<Rightarrow> uuid \<Rightarrow> fixed_asset option" where
  "asset_for_expense o1 i = find (\<lambda>a. fa_expense_id a = Some i) (v_assets (books o1))"

definition write_expenses :: "(expense list \<Rightarrow> expense list) \<Rightarrow> office \<Rightarrow> office" where
  "write_expenses f o1 = o1\<lparr>books := (books o1)\<lparr>v_expenses := f (expenses o1)\<rparr>\<rparr>"

definition update_expense_row :: "uuid \<Rightarrow> int \<Rightarrow> (expense \<Rightarrow> expense) \<Rightarrow> office \<Rightarrow> office" where
  "update_expense_row i revision f =
     write_expenses (map (\<lambda>e. if exp_id e = i \<and> exp_revision e = revision then f e else e))"

section \<open>Commands\<close>

text \<open>The end of every command: the entry of the payment.\<close>

definition sync_payment :: "time_api \<Rightarrow> benv \<Rightarrow> uuid \<Rightarrow> 'a \<Rightarrow> office \<Rightarrow> (app_error + 'a \<times> office) option" where
  "sync_payment T v i output o1 =
     and_do (in_books (sync_expense_payment T (draws v) i RefuseClosedYear) o1) (\<lambda>o2. ok (output, o2))"

record record_expense =
  re_label :: string
  re_category :: expense_category
  re_amount :: money
  re_vat_rate :: vat_rate
  re_vat_deductible :: money
  re_incurred_on :: date
  re_receipt_hash :: "string option"
  re_receipt_filename :: "string option"
  re_bank_transaction_id :: "uuid option"
  re_supplier :: "string option"
  re_paid_by :: expense_paid_by
  re_reverse_charge :: bool

definition record_requires_confirmation :: "record_expense \<Rightarrow> bool" where
  "record_requires_confirmation c \<longleftrightarrow> re_bank_transaction_id c \<noteq> None \<or> re_paid_by c = PaidByAssociate"

definition recorded_expense :: "record_expense \<Rightarrow> uuid \<Rightarrow> money \<Rightarrow> offset_date_time \<Rightarrow> expense" where
  "recorded_expense c new vat at =
     \<lparr>exp_id = new, exp_label = re_label c, exp_category = re_category c, exp_amount = re_amount c,
      exp_vat_rate = re_vat_rate c, vat_deductible = vat, incurred_on = re_incurred_on c,
      receipt_hash = re_receipt_hash c, receipt_filename = re_receipt_filename c, supplier = re_supplier c,
      paid_by = re_paid_by c, reverse_charge = re_reverse_charge c, exp_created_at = at, exp_revision = 1\<rparr>"

definition apply_record_expense :: "time_api \<Rightarrow> benv \<Rightarrow> record_expense \<Rightarrow> office \<Rightarrow> (app_error + uuid \<times> office) option" where
  "apply_record_expense T v c o1 =
     and_do (posted_vat (re_reverse_charge c) (re_amount c) (re_vat_rate c) (re_vat_deductible c)) (\<lambda>vat.
     and_do (ensure_outside_closed_fiscal_year T o1 (re_incurred_on c)) (\<lambda>_.
     and_do (ensure_not_before_opening_balance T o1 (re_incurred_on c)) (\<lambda>_.
     if re_paid_by c = PaidByAssociate \<and> re_bank_transaction_id c \<noteq> None then refuse_expense PaidByAssociateNotABankPayment
     else and_do (case re_bank_transaction_id c of
                    None \<Rightarrow> ok ()
                  | Some i \<Rightarrow> and_do (rapprochable_debit o1 i (re_amount c)) (\<lambda>_. ok ())) (\<lambda>_.
          let (new, o2) = draw_id v o1
          in and_do (Some (stamp v)) (\<lambda>at.
             and_do (insert_expense (recorded_expense c new vat at) o2) (\<lambda>o3.
             and_do (case re_bank_transaction_id c of
                       None \<Rightarrow> ok o3
                     | Some i \<Rightarrow> mark_transaction_matched_expense i new o3) (\<lambda>o4.
             sync_payment T v new new o4)))))))"

record reconcile_expense =
  rx_transaction_id :: uuid
  rx_expense_id :: uuid

definition apply_reconcile_expense :: "time_api \<Rightarrow> benv \<Rightarrow> reconcile_expense \<Rightarrow> office \<Rightarrow> (app_error + unit \<times> office) option" where
  "apply_reconcile_expense T v c o1 =
     (let i = rx_expense_id c
      in case expense_by_id o1 i of
           None \<Rightarrow> refuse_expense (ExpenseNotFound i)
         | Some e \<Rightarrow>
             if paid_by e = PaidByAssociate then refuse_expense (ExpenseAdvancedByAssociate i)
             else if bank_transaction_for_expense o1 i \<noteq> None then refuse_expense (ExpenseAlreadyReconciled i)
             else and_do (rapprochable_debit o1 (rx_transaction_id c) (exp_amount e)) (\<lambda>_.
                  and_do (mark_transaction_matched_expense (rx_transaction_id c) i o1) (\<lambda>o2.
                  sync_payment T v i () o2)))"

record update_expense =
  ue_id :: uuid
  ue_revision :: int
  ue_label :: string
  ue_category :: expense_category
  ue_amount :: money
  ue_vat_rate :: vat_rate
  ue_vat_deductible :: money
  ue_incurred_on :: date
  ue_receipt_hash :: "string option"
  ue_receipt_filename :: "string option"
  ue_supplier :: "string option"
  ue_paid_by :: expense_paid_by
  ue_reverse_charge :: bool

definition updated_expense :: "update_expense \<Rightarrow> money \<Rightarrow> int \<Rightarrow> expense \<Rightarrow> expense" where
  "updated_expense c vat revision e =
     e\<lparr>exp_label := ue_label c, exp_category := ue_category c, exp_amount := ue_amount c, exp_vat_rate := ue_vat_rate c,
       vat_deductible := vat, incurred_on := ue_incurred_on c, receipt_hash := ue_receipt_hash c,
       receipt_filename := ue_receipt_filename c, exp_revision := revision, supplier := ue_supplier c,
       paid_by := ue_paid_by c, reverse_charge := ue_reverse_charge c\<rparr>"

definition update_refusal :: "update_expense \<Rightarrow> expense \<Rightarrow> money \<Rightarrow> office \<Rightarrow> expenses_error option" where
  "update_refusal c current vat o1 =
     (let i = ue_id c; reconciled = bank_transaction_for_expense o1 i \<noteq> None
      in if ue_amount c \<noteq> exp_amount current \<and> reconciled then Some (ReconciledAmountLocked i)
         else if ue_paid_by c \<noteq> PaidByCompany \<and> reconciled then Some (PaidByLockedWhenReconciled i)
         else if (ue_amount c \<noteq> exp_amount current \<or> vat \<noteq> vat_deductible current) \<and> asset_for_expense o1 i \<noteq> None
         then Some (Immobilized i) else None)"

definition apply_update_expense :: "time_api \<Rightarrow> benv \<Rightarrow> update_expense \<Rightarrow> office \<Rightarrow> (app_error + int \<times> office) option" where
  "apply_update_expense T v c o1 =
     and_do (posted_vat (ue_reverse_charge c) (ue_amount c) (ue_vat_rate c) (ue_vat_deductible c)) (\<lambda>vat.
     case expense_by_id o1 (ue_id c) of
       None \<Rightarrow> refuse_expense (ExpenseNotFound (ue_id c))
     | Some current \<Rightarrow>
         and_do (ensure_outside_closed_fiscal_year T o1 (incurred_on current)) (\<lambda>_.
         and_do (ensure_outside_closed_fiscal_year T o1 (ue_incurred_on c)) (\<lambda>_.
         and_do (ensure_not_before_opening_balance T o1 (ue_incurred_on c)) (\<lambda>_.
         case update_refusal c current vat o1 of
           Some e \<Rightarrow> refuse_expense e
         | None \<Rightarrow>
             and_do (require_expense_revision o1 (ue_id c) (ue_revision c)) (\<lambda>revision.
             sync_payment T v (ue_id c) revision
               (update_expense_row (ue_id c) (ue_revision c) (updated_expense c vat revision) o1))))))"

record attach_receipt =
  ar_id :: uuid
  ar_revision :: int
  ar_receipt_hash :: string
  ar_receipt_filename :: string

definition with_receipt :: "attach_receipt \<Rightarrow> int \<Rightarrow> expense \<Rightarrow> expense" where
  "with_receipt c revision e =
     e\<lparr>receipt_hash := Some (ar_receipt_hash c), receipt_filename := Some (ar_receipt_filename c), exp_revision := revision\<rparr>"

definition apply_attach_receipt :: "time_api \<Rightarrow> benv \<Rightarrow> attach_receipt \<Rightarrow> office \<Rightarrow> (app_error + int \<times> office) option" where
  "apply_attach_receipt T v c o1 =
     (if expense_by_id o1 (ar_id c) = None then refuse_expense (ExpenseNotFound (ar_id c))
      else and_do (require_expense_revision o1 (ar_id c) (ar_revision c)) (\<lambda>revision.
           sync_payment T v (ar_id c) revision (update_expense_row (ar_id c) (ar_revision c) (with_receipt c revision) o1)))"

record delete_expense =
  dx_id :: uuid
  dx_revision :: int

definition apply_delete_expense :: "time_api \<Rightarrow> benv \<Rightarrow> delete_expense \<Rightarrow> office \<Rightarrow> (app_error + unit \<times> office) option" where
  "apply_delete_expense T v c o1 =
     (case expense_by_id o1 (dx_id c) of
        None \<Rightarrow> refuse_expense (ExpenseNotFound (dx_id c))
      | Some current \<Rightarrow>
          and_do (ensure_outside_closed_fiscal_year T o1 (incurred_on current)) (\<lambda>_.
          if asset_for_expense o1 (dx_id c) \<noteq> None then refuse_expense (Immobilized (dx_id c))
          else and_do (require_expense_revision o1 (dx_id c) (dx_revision c)) (\<lambda>_.
               let o2 = (case bank_transaction_for_expense o1 (dx_id c) of
                           None \<Rightarrow> o1 | Some t \<Rightarrow> clear_transaction_match (tx_id t) o1)
               in sync_payment T v (dx_id c) ()
                    (write_expenses (filter (\<lambda>e. \<not> (exp_id e = dx_id c \<and> exp_revision e = dx_revision c))) o2))))"

section \<open>Queries\<close>

record expense_detail =
  ed_expense :: expense
  ed_bank_transaction :: "bank_transaction option"

definition expense_detail_of :: "office \<Rightarrow> uuid \<Rightarrow> expense_detail option" where
  "expense_detail_of o1 i =
     map_option (\<lambda>e. \<lparr>ed_expense = e, ed_bank_transaction = bank_transaction_for_expense o1 i\<rparr>) (expense_by_id o1 i)"

definition reconciled_debits :: "time_api \<Rightarrow> office \<Rightarrow> uuid \<Rightarrow> bank_transaction option" where
  "reconciled_debits T o1 =
     map_of (rev (concat (map (\<lambda>t. case matched_expense_id t of None \<Rightarrow> [] | Some i \<Rightarrow> [(i, t)]) (all_bank_transactions T o1))))"

end
