(* ===== verification/Bank.thy ===== *)
theory Bank
  imports Expenses Steps
begin

text \<open>
  What the commands of \<open>billing/commands.rs\<close> and \<open>expenses.rs\<close> promise of the statement of the bank and
  of the payments: an abstract machine over the two tables, whose moves are the only changes, and its
  invariant, by which a line and the payment it gave agree.
\<close>

section \<open>The machine\<close>

type_synonym bank_state = "payment list \<times> bank_transaction list"

datatype bank_event =
    Paid uuid
  | Received uuid uuid
  | Voided uuid
  | Undone uuid
  | Released uuid
  | Arrived uuid
  | SettledLine uuid
  | PaysExpense uuid uuid
  | Removed uuid

definition live_receipts :: "payment list \<Rightarrow> uuid \<Rightarrow> payment list" where
  "live_receipts ps i = filter (\<lambda>p. \<not> is_voided p \<and> bank_transaction_id p = Some i) ps"

definition void_in :: "uuid \<Rightarrow> offset_date_time \<Rightarrow> payment list \<Rightarrow> payment list" where
  "void_in j at ps = map (\<lambda>p. if pay_id p = j \<and> voided_at p = None then p\<lparr>voided_at := Some at\<rparr> else p) ps"

definition on_line :: "uuid \<Rightarrow> (bank_transaction \<Rightarrow> bank_transaction) \<Rightarrow> bank_transaction list \<Rightarrow> bank_transaction list" where
  "on_line i f ts = map (\<lambda>t. if tx_id t = i then f t else t) ts"

definition cleared :: "bank_transaction \<Rightarrow> bank_transaction" where
  "cleared t = t\<lparr>matched_invoice_id := None, matched_expense_id := None, tx_settlement_account := None,
     settlement_label := None\<rparr>"

definition line_at :: "bank_transaction list \<Rightarrow> uuid \<Rightarrow> bank_transaction option" where
  "line_at ts i = find (\<lambda>t. tx_id t = i) ts"

inductive bank_move :: "uuid set \<Rightarrow> bank_state \<Rightarrow> bank_event \<Rightarrow> bank_state \<Rightarrow> bool" for K where
  paid: "pay_id p \<notin> pay_id ` set ps \<Longrightarrow> pay_invoice_id p \<in> K \<Longrightarrow> 0 < pay_amount p \<Longrightarrow> bank_transaction_id p = None
    \<Longrightarrow> bank_move K (ps, ts) (Paid (pay_id p)) (ps @ [p], ts)"
| received: "line_at ts i = Some t \<Longrightarrow> \<not> is_matched t \<Longrightarrow> 0 < amount_cents t
    \<Longrightarrow> pay_id p \<notin> pay_id ` set ps \<Longrightarrow> pay_invoice_id p \<in> K \<Longrightarrow> \<not> is_voided p \<Longrightarrow> bank_transaction_id p = Some i
    \<Longrightarrow> pay_amount p = amount_cents t \<Longrightarrow> received_on p = occurred_on t
    \<Longrightarrow> bank_move K (ps, ts) (Received i (pay_id p))
          (ps @ [p], on_line i (\<lambda>t. t\<lparr>matched_invoice_id := Some (pay_invoice_id p)\<rparr>) ts)"
| voided: "p \<in> set ps \<Longrightarrow> bank_transaction_id p = None
    \<Longrightarrow> bank_move K (ps, ts) (Voided (pay_id p)) (void_in (pay_id p) at ps, ts)"
| undone: "p \<in> set ps \<Longrightarrow> \<not> is_voided p \<Longrightarrow> bank_transaction_id p = Some i
    \<Longrightarrow> bank_move K (ps, ts) (Undone i) (void_in (pay_id p) at ps, on_line i cleared ts)"
| released: "live_receipts ps i = [] \<Longrightarrow> bank_move K (ps, ts) (Released i) (ps, on_line i cleared ts)"
| arrived: "tx_id t \<notin> tx_id ` set ts \<Longrightarrow> \<not> is_matched t \<Longrightarrow> settlement_label t = None
    \<Longrightarrow> bank_move K (ps, ts) (Arrived (tx_id t)) (ps, ts @ [t])"
| settled_line: "line_at ts i = Some t \<Longrightarrow> \<not> is_matched t
    \<Longrightarrow> bank_move K (ps, ts) (SettledLine i)
          (ps, on_line i (\<lambda>t. t\<lparr>tx_settlement_account := Some a, settlement_label := Some l\<rparr>) ts)"
| pays_expense: "line_at ts i = Some t \<Longrightarrow> \<not> is_matched t \<Longrightarrow> amount_cents t < 0
    \<Longrightarrow> bank_move K (ps, ts) (PaysExpense i e) (ps, on_line i (\<lambda>t. t\<lparr>matched_expense_id := Some e\<rparr>) ts)"
| removed: "Some i \<notin> bank_transaction_id ` set ps
    \<Longrightarrow> bank_move K (ps, ts) (Removed i) (ps, filter (\<lambda>t. tx_id t \<noteq> i) ts)"

section \<open>The invariant\<close>

text \<open>
  At most one of the three uses of a line, its label exactly with its account, a debit for an expense,
  and one live payment, of its amount and its day, exactly when it is matched to an invoice.
\<close>

definition line_sound :: "payment list \<Rightarrow> bank_transaction \<Rightarrow> bool" where
  "line_sound ps t \<longleftrightarrow>
     (matched_invoice_id t = None \<or> matched_expense_id t = None)
     \<and> (tx_settlement_account t = None \<or> matched_invoice_id t = None \<and> matched_expense_id t = None)
     \<and> (settlement_label t = None \<longleftrightarrow> tx_settlement_account t = None)
     \<and> (matched_expense_id t = None \<or> amount_cents t < 0)
     \<and> map (\<lambda>p. (pay_invoice_id p, pay_amount p, received_on p)) (live_receipts ps (tx_id t))
        = (case matched_invoice_id t of None \<Rightarrow> [] | Some i \<Rightarrow> [(i, amount_cents t, occurred_on t)])"

definition payment_sound :: "uuid set \<Rightarrow> bank_transaction list \<Rightarrow> payment \<Rightarrow> bool" where
  "payment_sound K ts p \<longleftrightarrow> pay_invoice_id p \<in> K \<and> 0 < pay_amount p
     \<and> set_option (bank_transaction_id p) \<subseteq> tx_id ` set ts"

definition bank_sound :: "uuid set \<Rightarrow> bank_state \<Rightarrow> bool" where
  "bank_sound K = (\<lambda>(ps, ts). distinct (map pay_id ps) \<and> distinct (map tx_id ts)
     \<and> list_all (payment_sound K ts) ps \<and> list_all (line_sound ps) ts)"

section \<open>Receipts and lines\<close>

lemma tx_id_on_line: "(\<And>t. tx_id (f t) = tx_id t) \<Longrightarrow> map tx_id (on_line i f ts) = map tx_id ts"
  by (simp add: on_line_def)

lemma cleared_sel [simp]:
  "tx_id (cleared t) = tx_id t" "matched_invoice_id (cleared t) = None" "matched_expense_id (cleared t) = None"
  "tx_settlement_account (cleared t) = None" "settlement_label (cleared t) = None"
  "amount_cents (cleared t) = amount_cents t" "occurred_on (cleared t) = occurred_on t" "\<not> is_matched (cleared t)"
  by (simp_all add: cleared_def is_matched_def)

lemma receipts_append [simp]:
  "live_receipts (ps @ [p]) i = live_receipts ps i @ (if \<not> is_voided p \<and> bank_transaction_id p = Some i then [p] else [])"
  by (simp add: live_receipts_def)

lemma void_in_sel:
  "map pay_id (void_in j at ps) = map pay_id ps" "list_all (payment_sound K ts) (void_in j at ps) = list_all (payment_sound K ts) ps"
  "bank_transaction_id ` set (void_in j at ps) = bank_transaction_id ` set ps"
  by (induction ps) (auto simp: void_in_def payment_sound_def)

lemma receipts_void: "live_receipts (void_in j at ps) i = filter (\<lambda>p. pay_id p \<noteq> j) (live_receipts ps i)"
  by (induction ps) (auto simp: void_in_def live_receipts_def is_voided_def)

lemma receipts_unknown: "Some i \<notin> bank_transaction_id ` set ps \<Longrightarrow> live_receipts ps i = []"
  by (auto simp: live_receipts_def filter_empty_conv image_iff)

lemma line_sound_cong:
  "live_receipts ps' (tx_id t) = live_receipts ps (tx_id t) \<Longrightarrow> line_sound ps' t = line_sound ps t"
  by (simp add: line_sound_def)

lemma line_sound_unmatched:
  "\<not> is_matched t \<Longrightarrow> settlement_label t = None \<Longrightarrow> line_sound ps t \<longleftrightarrow> live_receipts ps (tx_id t) = []"
  by (simp add: line_sound_def is_matched_def)

lemma line_at_Some: "line_at ts i = Some t \<Longrightarrow> t \<in> set ts \<and> tx_id t = i"
  by (auto simp: line_at_def find_Some_iff in_set_conv_nth)

lemma line_at_in: "distinct (map tx_id ts) \<Longrightarrow> t \<in> set ts \<Longrightarrow> line_at ts (tx_id t) = Some t"
  by (induction ts) (auto simp: line_at_def)

lemma same_line_at: "distinct (map tx_id ts) \<Longrightarrow> line_at ts i = Some t \<Longrightarrow> t' \<in> set ts \<Longrightarrow> tx_id t' = i \<Longrightarrow> t' = t"
  using line_at_in by fastforce

text \<open>A change of one line: the others must keep their receipts and the line must be sound after.\<close>

lemma on_line_sound:
  assumes "list_all (line_sound ps) ts"
    and "\<And>t. t \<in> set ts \<Longrightarrow> tx_id t \<noteq> i \<Longrightarrow> live_receipts ps' (tx_id t) = live_receipts ps (tx_id t)"
    and "\<And>t. t \<in> set ts \<Longrightarrow> tx_id t = i \<Longrightarrow> line_sound ps t \<Longrightarrow> line_sound ps' (f t)"
  shows "list_all (line_sound ps') (on_line i f ts)"
proof -
  have "line_sound ps' (if tx_id t = i then f t else t)" if t: "t \<in> set ts" for t
    using assms(2,3) [OF t] assms(1) t line_sound_cong [of ps' t ps] by (simp add: list_all_iff)
  then show ?thesis unfolding on_line_def list_all_iff set_map ball_simps by blast
qed

lemma payments_on_line: "(\<And>t. tx_id (f t) = tx_id t) \<Longrightarrow> payment_sound K (on_line i f ts) = payment_sound K ts"
proof -
  assume f: "\<And>t. tx_id (f t) = tx_id t"
  have "tx_id ` set (on_line i f ts) = tx_id ` set ts"
    using tx_id_on_line [of f i ts, OF f] by (metis list.set_map)
  then show ?thesis by (simp add: payment_sound_def fun_eq_iff)
qed

lemma receipt_alone:
  assumes "line_sound ps t" "p \<in> set ps" "\<not> is_voided p" "bank_transaction_id p = Some (tx_id t)"
  shows "live_receipts ps (tx_id t) = [p] \<and> matched_invoice_id t = Some (pay_invoice_id p)
     \<and> pay_amount p = amount_cents t \<and> received_on p = occurred_on t"
proof -
  have "p \<in> set (live_receipts ps (tx_id t))" using assms by (simp add: live_receipts_def)
  then show ?thesis using assms(1) by (auto simp: line_sound_def split: option.splits)
qed

lemma payment_line_known:
  assumes "list_all (payment_sound K ts) ps" "i \<notin> tx_id ` set ts"
  shows "Some i \<notin> bank_transaction_id ` set ps"
proof
  assume "Some i \<in> bank_transaction_id ` set ps"
  then obtain p where p: "p \<in> set ps" "bank_transaction_id p = Some i" by force
  then show False using assms by (auto simp: list_all_iff payment_sound_def)
qed

section \<open>Every move keeps the invariant\<close>

lemma bank_move_sound:
  assumes "bank_sound K s" "bank_move K s e s'"
  shows "bank_sound K s'"
  using assms(2,1)
proof cases
  case (paid p ps ts)
  then have "live_receipts (ps @ [p]) i = live_receipts ps i" for i by simp
  then have "line_sound (ps @ [p]) = line_sound ps" using line_sound_cong by blast
  then show ?thesis using paid assms(1) by (simp add: bank_sound_def payment_sound_def)
next
  case (received ts i t p ps)
  let ?f = "\<lambda>t. t\<lparr>matched_invoice_id := Some (pay_invoice_id p)\<rparr>"
  have s: "distinct (map pay_id ps)" "distinct (map tx_id ts)" "list_all (payment_sound K ts) ps" "list_all (line_sound ps) ts"
    using assms(1) received(1) by (simp_all add: bank_sound_def)
  have "list_all (line_sound (ps @ [p])) (on_line i ?f ts)"
  proof (rule on_line_sound [OF s(4)])
    show "live_receipts (ps @ [p]) (tx_id u) = live_receipts ps (tx_id u)" if "tx_id u \<noteq> i" for u
      using that received(10) by simp
    show "line_sound (ps @ [p]) (?f u)" if "u \<in> set ts" "tx_id u = i" "line_sound ps u" for u
      using that same_line_at [OF s(2) received(4) that(1,2)] received by (simp add: line_sound_def is_matched_def)
  qed
  moreover have "payment_sound K ts p"
    using received line_at_Some [OF received(4)] by (auto simp: payment_sound_def)
  ultimately show ?thesis
    using s received by (simp add: bank_sound_def tx_id_on_line payments_on_line)
next
  case (voided p ps ts at)
  have s: "distinct (map pay_id ps)" "list_all (line_sound ps) ts" using assms(1) voided(1) by (simp_all add: bank_sound_def)
  have "live_receipts (void_in (pay_id p) at ps) i = live_receipts ps i" for i
  proof -
    have "pay_id q \<noteq> pay_id p" if "q \<in> set (live_receipts ps i)" for q
      using that voided(4,5) s(1) by (auto simp: live_receipts_def distinct_map inj_on_def)
    then show ?thesis by (simp add: receipts_void filter_id_conv)
  qed
  then have "line_sound (void_in (pay_id p) at ps) = line_sound ps" using line_sound_cong by blast
  then show ?thesis using voided assms(1) by (simp add: bank_sound_def void_in_sel)
next
  case (undone p ps i ts at)
  have s: "distinct (map pay_id ps)" "list_all (line_sound ps) ts" using assms(1) undone(1) by (simp_all add: bank_sound_def)
  have "list_all (line_sound (void_in (pay_id p) at ps)) (on_line i cleared ts)"
  proof (rule on_line_sound [OF s(2)])
    fix u assume u: "u \<in> set ts"
    show "live_receipts (void_in (pay_id p) at ps) (tx_id u) = live_receipts ps (tx_id u)" if "tx_id u \<noteq> i"
    proof -
      have "pay_id q \<noteq> pay_id p" if "q \<in> set (live_receipts ps (tx_id u))" for q
        using that \<open>tx_id u \<noteq> i\<close> undone(4,6) s(1) by (auto simp: live_receipts_def distinct_map inj_on_def)
      then show ?thesis by (simp add: receipts_void filter_id_conv)
    qed
    show "line_sound (void_in (pay_id p) at ps) (cleared u)" if "tx_id u = i" "line_sound ps u"
      using receipt_alone [OF that(2) undone(4,5)] undone(6) that(1) by (simp add: line_sound_unmatched receipts_void)
  qed
  then show ?thesis using undone assms(1) by (simp add: bank_sound_def void_in_sel tx_id_on_line payments_on_line)
next
  case (released ps i ts)
  then have "list_all (line_sound ps) (on_line i cleared ts)"
    using assms(1) by (intro on_line_sound [of ps]) (auto simp: bank_sound_def line_sound_unmatched)
  then show ?thesis using released assms(1) by (simp add: bank_sound_def tx_id_on_line payments_on_line)
next
  case (arrived t ts ps)
  have "live_receipts ps (tx_id t) = []"
    using arrived assms(1) payment_line_known [of K ts ps] by (simp add: bank_sound_def receipts_unknown)
  then have "line_sound ps t" using arrived by (simp add: line_sound_unmatched)
  moreover have "list_all (payment_sound K (ts @ [t])) ps"
    using arrived(1) assms(1) by (auto simp: bank_sound_def list_all_iff payment_sound_def)
  ultimately show ?thesis using arrived assms(1) by (simp add: bank_sound_def)
next
  case (settled_line ts i t ps l a)
  have "list_all (line_sound ps) (on_line i (\<lambda>t. t\<lparr>tx_settlement_account := Some a, settlement_label := Some l\<rparr>) ts)"
  proof (rule on_line_sound [of ps])
    show "line_sound ps (u\<lparr>tx_settlement_account := Some a, settlement_label := Some l\<rparr>)"
      if "u \<in> set ts" "tx_id u = i" "line_sound ps u" for u
      using that same_line_at [OF _ settled_line(4) that(1,2)] settled_line assms(1)
      by (simp add: bank_sound_def line_sound_def is_matched_def)
  qed (use settled_line assms(1) in \<open>simp_all add: bank_sound_def\<close>)
  then show ?thesis using settled_line assms(1) by (simp add: bank_sound_def tx_id_on_line payments_on_line)
next
  case (pays_expense ts i t ps e)
  have "list_all (line_sound ps) (on_line i (\<lambda>t. t\<lparr>matched_expense_id := Some e\<rparr>) ts)"
  proof (rule on_line_sound [of ps])
    show "line_sound ps (u\<lparr>matched_expense_id := Some e\<rparr>)" if "u \<in> set ts" "tx_id u = i" "line_sound ps u" for u
      using that same_line_at [OF _ pays_expense(4) that(1,2)] pays_expense assms(1)
      by (simp add: bank_sound_def line_sound_def is_matched_def)
  qed (use pays_expense assms(1) in \<open>simp_all add: bank_sound_def\<close>)
  then show ?thesis using pays_expense assms(1) by (simp add: bank_sound_def tx_id_on_line payments_on_line)
next
  case (removed i ps ts)
  have "list_all (payment_sound K (filter (\<lambda>t. tx_id t \<noteq> i) ts)) ps"
    using removed assms(1) by (fastforce simp: bank_sound_def list_all_iff payment_sound_def image_iff)
  then show ?thesis using removed assms(1) by (simp add: bank_sound_def distinct_map_filter list_all_iff)
qed

interpretation bank: safe_steps "bank_move K" "bank_sound K" "\<lambda>_. True" for K
  by unfold_locales (auto intro: bank_move_sound)

lemma bank_sound_mono: "bank_sound K s \<Longrightarrow> K \<subseteq> K' \<Longrightarrow> bank_sound K' s"
  by (cases s) (auto simp: bank_sound_def list_all_iff payment_sound_def)

end
