(* ===== verification/Invoicing_Runs.thy ===== *)
theory Invoicing_Runs
  imports Bank Kept_Runs
begin

text \<open>
  The guarantees of the billing commands: the numbering without gap, the chain of hashes, the
  immutability of invoices, the balance a credit note or a write-off leaves, and what defeats them.
\<close>

section \<open>The journal leaves the facts\<close>

lemma insert_entry_facts: "insert_entry T v e k i r st = Inr st' \<Longrightarrow> facts_of st' = facts_of st"
  by (erule insert_Inr) (simp add: facts_of_def)

lemma reverse_facts: "reverse T v s k st = Inr st' \<Longrightarrow> facts_of st' = facts_of st"
  by (erule reverse_Inr) (simp add: facts_of_def)

lemma optional_facts:
  "reverse_optional T v live k st = Inr st1 \<Longrightarrow> facts_of st1 = facts_of st"
  "insert_optional T v desired m k i st1 = Inr st2 \<Longrightarrow> facts_of st2 = facts_of st1"
  by (auto simp: reverse_optional_def insert_optional_def split: option.splits if_splits
      dest: insert_entry_facts reverse_facts)

lemma sync_facts:
  "sync_sale T v i g st = Some (Inr st') \<Longrightarrow> facts_of st' = facts_of st"
  "sync_collection T v i g st = Some (Inr st') \<Longrightarrow> facts_of st' = facts_of st"
  "sync_expense_payment T v i g st = Some (Inr st') \<Longrightarrow> facts_of st' = facts_of st"
  by (auto simp: sync_sale_def sync_collection_def sync_expense_payment_def and_do_ok
      split: bind_splits if_splits dest!: optional_facts)

lemma in_books_ok:
  "in_books f o1 = Some (Inr o2) \<longleftrightarrow> (\<exists>st. f (books o1) = Some (Inr st) \<and> o2 = o1\<lparr>books := st\<rparr>)"
  by (auto simp: in_books_def and_do_ok)

text \<open>What a call of the journal leaves of an office.\<close>

definition same_but_books :: "office \<Rightarrow> office \<Rightarrow> bool" where
  "same_but_books o1 o2 \<longleftrightarrow> invoices o2 = invoices o1 \<and> payments o2 = payments o1 \<and> bank_lines o2 = bank_lines o1
     \<and> v_clients (books o2) = v_clients (books o1) \<and> v_years (books o2) = v_years (books o1)
     \<and> invoice_sequences o2 = invoice_sequences o1 \<and> write_offs o2 = write_offs o1
     \<and> missions_of o2 = missions_of o1 \<and> ca3_keys o2 = ca3_keys o1 \<and> regime_set o2 = regime_set o1"

lemma in_books_facts:
  assumes "in_books f o1 = Some (Inr o2)" "\<And>st. f (books o1) = Some (Inr st) \<Longrightarrow> facts_of st = facts_of (books o1)"
  shows "same_but_books o1 o2"
proof -
  obtain st where st: "f (books o1) = Some (Inr st)" "o2 = o1\<lparr>books := st\<rparr>"
    using assms(1) by (auto simp: in_books_ok)
  from facts_eq [OF assms(2) [OF st(1)]] show ?thesis by (simp add: same_but_books_def st(2))
qed

lemma in_books_sync:
  "in_books (sync_sale T v i g) o1 = Some (Inr o2) \<Longrightarrow> same_but_books o1 o2"
  "in_books (sync_collection T v i g) o1 = Some (Inr o2) \<Longrightarrow> same_but_books o1 o2"
  "in_books (sync_expense_payment T v i g) o1 = Some (Inr o2) \<Longrightarrow> same_but_books o1 o2"
  by (erule in_books_facts, erule sync_facts)+

lemma refuse_not_ok [simp]: "refuse e \<noteq> Some (Inr x)"
  by (simp add: refuse_def fail_def)

lemma fail_not_ok [simp]: "fail e \<noteq> Some (Inr x)"
  by (simp add: fail_def)

section \<open>Adding an invoice\<close>

definition completed ::
    "time_api \<Rightarrow> (string \<Rightarrow> string) \<Rightarrow> (canonical_invoice \<Rightarrow> string) \<Rightarrow> uuid \<Rightarrow> invoice \<Rightarrow> office \<Rightarrow> invoice" where
  "completed T sha json new draft o1 =
     draft\<lparr>inv_id := new, previous_hash := last_invoice_hash o1,
       inv_hash := compute_invoice_hash sha json (last_invoice_hash o1) (canonical_of T draft)\<rparr>"

lemma add_invoice_Inr:
  assumes "add_invoice T sha json v draft o1 = Some (Inr (em, o2))"
  shows "invoices o2 = invoices o1 @ [completed T sha json (em_id em) draft o1]"
    "em_id em \<notin> inv_id ` set (invoices o1)" "inv_number draft \<notin> inv_number ` set (invoices o1)"
    "em_number em = inv_number draft" "invoice_sequences o2 = invoice_sequences o1"
    "payments o2 = payments o1" "bank_lines o2 = bank_lines o1" "write_offs o2 = write_offs o1"
proof -
  let ?new = "uuid_at (draws v) (drawn (books o1))"
  let ?o2 = "o1\<lparr>books := (books o1)\<lparr>drawn := drawn (books o1) + 1\<rparr>\<rparr>"
  let ?iv = "completed T sha json ?new draft o1"
  from assms obtain o3 where i: "insert_invoice ?iv ?o2 = Some (Inr o3)"
    and b: "in_books (sync_sale T (draws v) ?new RefuseClosedYear) o3 = Some (Inr o2)"
    and em: "em = \<lparr>em_id = ?new, em_number = inv_number draft\<rparr>"
    by (auto simp: add_invoice_def draw_id_def Let_def and_do_ok completed_def)
  from i have o3: "o3 = ?o2\<lparr>books := (books ?o2)\<lparr>v_invoices := invoices o1 @ [?iv]\<rparr>\<rparr>"
    and fresh: "?new \<notin> inv_id ` set (invoices o1)" "inv_number draft \<notin> inv_number ` set (invoices o1)"
    by (auto simp: insert_invoice_def completed_def split: if_splits)
  note same = in_books_sync(1) [OF b, unfolded same_but_books_def]
  show "invoices o2 = invoices o1 @ [completed T sha json (em_id em) draft o1]"
    "em_id em \<notin> inv_id ` set (invoices o1)" "inv_number draft \<notin> inv_number ` set (invoices o1)"
    "em_number em = inv_number draft" "invoice_sequences o2 = invoice_sequences o1"
    "payments o2 = payments o1" "bank_lines o2 = bank_lines o1" "write_offs o2 = write_offs o1"
    using fresh by (simp_all add: same em o3)
qed

lemma completed_sel [simp]:
  "inv_id (completed T sha json new d o1) = new" "inv_number (completed T sha json new d o1) = inv_number d"
  "origin (completed T sha json new d o1) = origin d" "issued_on (completed T sha json new d o1) = issued_on d"
  "credited_invoice_id (completed T sha json new d o1) = credited_invoice_id d"
  "inv_lines (completed T sha json new d o1) = inv_lines d"
  "previous_hash (completed T sha json new d o1) = last_invoice_hash o1"
  "inv_hash (completed T sha json new d o1) = compute_invoice_hash sha json (last_invoice_hash o1) (canonical_of T d)"
  "canonical_of T (completed T sha json new d o1) = canonical_of T d"
  by (simp_all add: completed_def canonical_of_def)

lemma draft_sel [simp]:
  "inv_number (draft_invoice n c m ls org d due cr) = n" "origin (draft_invoice n c m ls org d due cr) = org"
  "issued_on (draft_invoice n c m ls org d due cr) = d" "credited_invoice_id (draft_invoice n c m ls org d due cr) = cr"
  "inv_lines (draft_invoice n c m ls org d due cr) = ls"
  by (simp_all add: draft_invoice_def)

section \<open>The numbering\<close>

definition counter :: "office \<Rightarrow> int \<Rightarrow> int" where
  "counter o1 y = (case map_of (invoice_sequences o1) y of None \<Rightarrow> 0 | Some n \<Rightarrow> n)"

definition issued_in :: "int \<Rightarrow> invoice \<Rightarrow> bool" where
  "issued_in y iv \<longleftrightarrow> origin iv = OriginIssued \<and> dyear (issued_on iv) = y"

definition numbered_office :: "office \<Rightarrow> bool" where
  "numbered_office o1 \<longleftrightarrow> (\<forall>y. 0 \<le> counter o1 y
     \<and> map inv_number (filter (issued_in y) (invoices o1)) = map (\<lambda>k. invoice_number y (int k)) [1 ..< Suc (nat (counter o1 y))])"

lemma allocate_counter:
  assumes "allocate_invoice_number y o1 = (n, o2)"
  shows "n = invoice_number y (counter o1 y + 1)"
    "counter o2 z = (if z = y then counter o1 y + 1 else counter o1 z)" "books o2 = books o1" "write_offs o2 = write_offs o1"
proof -
  have upd: "map_of (map (\<lambda>(x, k). if x = y then (x, k + 1) else (x, k)) xs) w
      = (if w = y then map_option (\<lambda>k. k + 1) (map_of xs y) else map_of xs w)" for w and xs :: "(int \<times> int) list"
    by (induction xs) auto
  show "n = invoice_number y (counter o1 y + 1)" "books o2 = books o1" "write_offs o2 = write_offs o1"
    using assms by (auto simp: allocate_invoice_number_def counter_def split: option.splits)
  show "counter o2 z = (if z = y then counter o1 y + 1 else counter o1 z)"
    using assms by (auto simp: allocate_invoice_number_def counter_def upd map_add_Some_iff split: option.splits)
qed

lemma counter_cong: "invoice_sequences o2 = invoice_sequences o1 \<Longrightarrow> counter o2 = counter o1"
  by (simp add: counter_def fun_eq_iff)

lemma next_number:
  "0 \<le> c \<Longrightarrow> map (\<lambda>k. f (int k)) [Suc 0 ..< Suc (nat (c + 1))] = map (\<lambda>k. f (int k)) [Suc 0 ..< Suc (nat c)] @ [f (c + 1)]"
  by (simp add: nat_add_distrib ac_simps)

lemma numbered_next:
  assumes n: "numbered_office o1" and a: "allocate_invoice_number (dyear d) o1 = (number, o2)"
    and add: "add_invoice T sha json v (draft_invoice number c m ls OriginIssued d due cr) o2 = Some (Inr (em, o3))"
  shows "numbered_office o3"
  unfolding numbered_office_def
proof
  fix y
  have inv: "invoices o3 = invoices o1 @ [completed T sha json (em_id em) (draft_invoice number c m ls OriginIssued d due cr) o2]"
    using add_invoice_Inr(1) [OF add] allocate_counter(3) [OF a] by simp
  have c: "counter o3 y = (if y = dyear d then counter o1 (dyear d) + 1 else counter o1 y)"
    using counter_cong [OF add_invoice_Inr(5) [OF add]] allocate_counter(2) [OF a] by simp
  have 1: "0 \<le> counter o1 y" "map inv_number (filter (issued_in y) (invoices o1))
      = map (\<lambda>k. invoice_number y (int k)) [1 ..< Suc (nat (counter o1 y))]"
    using n by (auto simp: numbered_office_def)
  show "0 \<le> counter o3 y \<and> map inv_number (filter (issued_in y) (invoices o3))
      = map (\<lambda>k. invoice_number y (int k)) [1 ..< Suc (nat (counter o3 y))]"
  proof (cases "y = dyear d")
    case True
    have "map inv_number (filter (issued_in y) (invoices o3))
        = map (\<lambda>k. invoice_number y (int k)) [1 ..< Suc (nat (counter o1 y))] @ [invoice_number y (counter o1 y + 1)]"
      using 1(2) True by (simp add: inv issued_in_def allocate_counter(1) [OF a] del: upt_Suc)
    then show ?thesis using 1(1) True c by (simp add: next_number [where f = "invoice_number (dyear d)"] del: upt_Suc)
  next
    case False
    then show ?thesis using 1 by (simp add: inv c issued_in_def)
  qed
qed

lemma numbered_import:
  assumes "numbered_office o1" "add_invoice T sha json v (draft_invoice number c m ls OriginImported d due cr) o1 = Some (Inr (em, o2))"
  shows "numbered_office o2"
  using assms(1) counter_cong [OF add_invoice_Inr(5) [OF assms(2)]]
  by (simp add: numbered_office_def add_invoice_Inr(1) [OF assms(2)] issued_in_def)

lemma numbered_cong: "invoices o2 = invoices o1 \<Longrightarrow> invoice_sequences o2 = invoice_sequences o1
    \<Longrightarrow> numbered_office o1 \<Longrightarrow> numbered_office o2"
  using counter_cong [of o2 o1] by (simp add: numbered_office_def)

section \<open>The chain\<close>

lemma verify_snoc:
  "verify_invoices T sha json p (xs @ [x]) = ChainIntact \<longleftrightarrow> verify_invoices T sha json p xs = ChainIntact
     \<and> previous_hash x = (if xs = [] then p else Some (inv_hash (List.last xs)))
     \<and> compute_invoice_hash sha json (previous_hash x) (canonical_of T x) = inv_hash x"
  by (induction xs arbitrary: p) auto

lemma chain_next:
  assumes "verify_invoice_chain T sha json o1 = ChainIntact" "add_invoice T sha json v draft o1 = Some (Inr (em, o2))"
  shows "verify_invoice_chain T sha json o2 = ChainIntact"
  using assms(1) by (simp add: verify_invoice_chain_def add_invoice_Inr(1) [OF assms(2)] verify_snoc last_invoice_hash_def)

section \<open>The commands that add no invoice\<close>

text \<open>Payments, write-offs, bank lines and expenses, whatever the arguments and the environment.\<close>

inductive settlement_command :: "time_api \<Rightarrow> office \<Rightarrow> office \<Rightarrow> bool" for T where
  "apply_write_off_receivable T v wr o1 = Some (Inr (w, o2)) \<Longrightarrow> settlement_command T o1 o2"
| "apply_retract_write_off rw o1 = Some (Inr (u, o2)) \<Longrightarrow> settlement_command T o1 o2"
| "apply_record_payment T v rp o1 = Some (Inr (p, o2)) \<Longrightarrow> settlement_command T o1 o2"
| "apply_void_payment T v vp o1 = Some (Inr (u, o2)) \<Longrightarrow> settlement_command T o1 o2"
| "apply_import_bank_transactions T v ps o1 = (n, o2) \<Longrightarrow> settlement_command T o1 o2"
| "apply_reconcile_transaction T v rc o1 = Some (Inr (p, o2)) \<Longrightarrow> settlement_command T o1 o2"
| "apply_unreconcile_transaction T v i o1 = Some (Inr (q, o2)) \<Longrightarrow> settlement_command T o1 o2"
| "apply_settle_bank_transaction sb o1 = Some (Inr (u, o2)) \<Longrightarrow> settlement_command T o1 o2"
| "apply_unsettle_bank_transaction i o1 = Some (Inr (u, o2)) \<Longrightarrow> settlement_command T o1 o2"
| "apply_delete_bank_transaction i o1 = Some (Inr (u, o2)) \<Longrightarrow> settlement_command T o1 o2"
| "apply_record_expense T v rx o1 = Some (Inr (i, o2)) \<Longrightarrow> settlement_command T o1 o2"
| "apply_reconcile_expense T v cx o1 = Some (Inr (u, o2)) \<Longrightarrow> settlement_command T o1 o2"
| "apply_update_expense T v ux o1 = Some (Inr (r, o2)) \<Longrightarrow> settlement_command T o1 o2"
| "apply_attach_receipt T v ax o1 = Some (Inr (r, o2)) \<Longrightarrow> settlement_command T o1 o2"
| "apply_delete_expense T v dx o1 = Some (Inr (u, o2)) \<Longrightarrow> settlement_command T o1 o2"

definition same_invoices :: "office \<Rightarrow> office \<Rightarrow> bool" where
  "same_invoices o1 o2 \<longleftrightarrow> invoices o2 = invoices o1 \<and> invoice_sequences o2 = invoice_sequences o1"

lemma same_invoices_trans: "same_invoices a b \<Longrightarrow> same_invoices b c \<Longrightarrow> same_invoices a c"
  by (simp add: same_invoices_def)

lemma same_invoices_rows [simp]:
  "same_invoices o1 o1"
  "same_invoices o1 (snd (draw_id v o1))"
  "same_invoices o1 (mark_payment_voided i at o1)"
  "same_invoices o1 (update_bank i f o1)"
  "same_invoices o1 (clear_transaction_match i o1)"
  "same_invoices o1 (mark_transaction_matched i j o1)"
  "same_invoices o1 (mark_transaction_settled i ac l o1)"
  by (simp_all add: same_invoices_def draw_id_def mark_payment_voided_def update_bank_def clear_transaction_match_def
      mark_transaction_matched_def mark_transaction_settled_def)

lemma same_invoices_inserts:
  "insert_payment p o1 = Some (Inr o2) \<Longrightarrow> same_invoices o1 o2"
  "insert_write_off w o1 = Some (Inr o2) \<Longrightarrow> same_invoices o1 o2"
  "set_retracted_on i d o1 = Some (Inr o2) \<Longrightarrow> same_invoices o1 o2"
  "delete_bank_row i o1 = Some (Inr o2) \<Longrightarrow> same_invoices o1 o2"
  "same_but_books o1 o2 \<Longrightarrow> same_invoices o1 o2"
  by (auto simp: insert_payment_def insert_write_off_def set_retracted_on_def delete_bank_row_def same_but_books_def
      same_invoices_def split: if_splits)

lemma drawn_same [simp]: "draw_id v o1 = (new, o2) \<Longrightarrow> same_invoices o1 o2"
  using same_invoices_rows(2) [of o1 v] by simp

lemma same_if_synced: "in_books (sync_collection T v i g) o1 = Some (Inr o2) \<Longrightarrow> same_invoices o0 o1 \<Longrightarrow> same_invoices o0 o2"
  using in_books_sync(2) same_invoices_inserts(5) same_invoices_trans by blast

lemma write_off_Inr:
  assumes "apply_write_off_receivable T v c o1 = Some (Inr (w, o2))"
  obtains iv totals credited where "invoice_by_id o1 (wr_invoice_id c) = Some iv" "write_off_refusal T c iv o1 = None"
    "compute_totals (inv_lines iv) = Some totals" "credited_total o1 (wr_invoice_id c) = Some credited"
    "wo_ttc w = total_ttc totals + credited - paid_amount T o1 (wr_invoice_id c)"
    "wo_ttc w = wo_ht w + wo_vat w" "wo_invoice_id w = wr_invoice_id c" "retracted_on w = None"
    "insert_write_off w (snd (draw_id v o1)) = Some (Inr o2)"
proof -
  obtain iv where iv: "invoice_by_id o1 (wr_invoice_id c) = Some iv"
    using assms by (cases "invoice_by_id o1 (wr_invoice_id c)") (simp_all add: apply_write_off_receivable_def)
  moreover have r: "write_off_refusal T c iv o1 = None"
    using assms by (cases "write_off_refusal T c iv o1") (simp_all add: apply_write_off_receivable_def iv)
  moreover obtain totals where t: "compute_totals (inv_lines iv) = Some totals"
    using assms by (cases "compute_totals (inv_lines iv)") (simp_all add: apply_write_off_receivable_def iv r)
  moreover obtain credited where cr: "credited_total o1 (wr_invoice_id c) = Some credited"
    using assms by (cases "credited_total o1 (wr_invoice_id c)") (simp_all add: apply_write_off_receivable_def iv r t)
  moreover obtain ht vat ttc where a: "write_off_amounts totals (total_ttc totals + credited - paid_amount T o1 (wr_invoice_id c)) = Some (ht, vat, ttc)"
    using assms by (auto simp: apply_write_off_receivable_def iv r t cr Let_def split: if_splits bind_splits)
  moreover have "ttc = total_ttc totals + credited - paid_amount T o1 (wr_invoice_id c)" "ttc = ht + vat"
    using a compute_totals_Some(4) [OF t] by (auto simp: write_off_amounts_def split: if_splits bind_splits)
  ultimately show thesis
    using assms that
    by (auto simp: apply_write_off_receivable_def iv r t cr Let_def and_do_ok split_beta split: if_splits)
qed

lemma reconcile_Inr:
  assumes "apply_reconcile_transaction T v c o1 = Some (Inr (p, o2))"
  obtains t o3 where "bank_transaction_by_id o1 (rc_transaction_id c) = Some t" "\<not> is_matched t" "0 < amount_cents t"
    "insert_payment \<lparr>pay_id = p, pay_invoice_id = rc_invoice_id c, pay_amount = amount_cents t, received_on = occurred_on t,
       pay_method = BankTransfer, bank_transaction_id = Some (rc_transaction_id c), voided_at = None\<rparr> (snd (draw_id v o1))
       = Some (Inr o3)"
    "in_books (sync_collection T (draws v) p RefuseClosedYear)
       (mark_transaction_matched (rc_transaction_id c) (rc_invoice_id c) o3) = Some (Inr o2)"
proof -
  have i: "invoice_by_id o1 (rc_invoice_id c) \<noteq> None"
    using assms by (cases "invoice_by_id o1 (rc_invoice_id c)") (simp_all add: apply_reconcile_transaction_def)
  obtain t where t: "bank_transaction_by_id o1 (rc_transaction_id c) = Some t"
    using assms i by (cases "bank_transaction_by_id o1 (rc_transaction_id c)") (simp_all add: apply_reconcile_transaction_def)
  have g: "\<not> is_matched t" "\<not> amount_cents t \<le> 0"
    using assms i t by (auto simp: apply_reconcile_transaction_def split: if_splits)
  show thesis
    using assms i t g that by (auto simp: apply_reconcile_transaction_def Let_def and_do_ok split_beta)
qed

lemma same_but_books_refl [simp]: "same_but_books o1 o1"
  by (simp add: same_but_books_def)

lemma same_but_books_trans: "same_but_books a b \<Longrightarrow> same_but_books b c \<Longrightarrow> same_but_books a c"
  by (simp add: same_but_books_def)

lemma unreconcile_Inr:
  assumes "apply_unreconcile_transaction T v i o1 = Some (Inr (q, o2))"
  obtains t o3 where "bank_transaction_by_id o1 i = Some t" "is_matched t"
    "(case find (\<lambda>p. bank_transaction_id p = Some i \<and> \<not> is_voided p) (all_payments T o1) of
        None \<Rightarrow> q = None \<and> o3 = o1
      | Some p \<Rightarrow> q = Some (pay_id p) \<and> (\<exists>at. o3 = mark_payment_voided (pay_id p) at o1))"
    "same_but_books (clear_transaction_match i o3) o2"
proof -
  let ?find = "find (\<lambda>p. bank_transaction_id p = Some i \<and> \<not> is_voided p) (all_payments T o1)"
  obtain t where t: "bank_transaction_by_id o1 i = Some t" "is_matched t"
    using assms by (auto simp: apply_unreconcile_transaction_def split: option.splits if_splits)
  define undone where "undone = (case ?find of None \<Rightarrow> ok (None, o1)
      | Some p \<Rightarrow> and_do (Some (stamp v)) (\<lambda>at. ok (Some (pay_id p), mark_payment_voided (pay_id p) at o1)))"
  obtain o3 o4 where u: "undone = Some (Inr (q, o3))"
    and e: "(case matched_expense_id t of None \<Rightarrow> ok (clear_transaction_match i o3)
        | Some e \<Rightarrow> in_books (sync_expense_payment T (draws v) e RefuseClosedYear) (clear_transaction_match i o3)) = Some (Inr o4)"
    and c: "(case q of None \<Rightarrow> ok o4 | Some p \<Rightarrow> in_books (sync_collection T (draws v) p RefuseClosedYear) o4) = Some (Inr o2)"
    using assms by (simp add: apply_unreconcile_transaction_def t Let_def and_do_ok flip: undone_def) blast
  have o3: "case ?find of None \<Rightarrow> q = None \<and> o3 = o1
      | Some p \<Rightarrow> q = Some (pay_id p) \<and> (\<exists>at. o3 = mark_payment_voided (pay_id p) at o1)"
    using u by (cases ?find) (auto simp: undone_def and_do_ok)
  have "same_but_books (clear_transaction_match i o3) o4"
    using e in_books_sync(3) by (cases "matched_expense_id t") auto
  moreover have "same_but_books o4 o2"
    using c in_books_sync(2) by (cases q) auto
  ultimately show thesis using that t o3 same_but_books_trans by blast
qed

text \<open>The commands on expenses, down to the line they match or release.\<close>

definition only_lines :: "(bank_transaction list \<Rightarrow> bank_transaction list) \<Rightarrow> office \<Rightarrow> office \<Rightarrow> bool" where
  "only_lines f o1 o2 \<longleftrightarrow> same_invoices o1 o2 \<and> payments o2 = payments o1 \<and> bank_lines o2 = f (bank_lines o1)
     \<and> write_offs o2 = write_offs o1"

lemma sync_payment_Inr:
  "sync_payment T v i output o1 = Some (Inr (x, o2)) \<Longrightarrow> x = output \<and> same_but_books o1 o2"
  using in_books_sync(3) by (auto simp: sync_payment_def and_do_ok)

lemma only_lines_synced:
  "only_lines f o1 o2 \<Longrightarrow> sync_payment T v i output o2 = Some (Inr (x, o3)) \<Longrightarrow> only_lines f o1 o3"
  by (drule sync_payment_Inr) (simp add: only_lines_def same_but_books_def same_invoices_def)

lemma only_lines_rows:
  "only_lines id o1 (write_expenses g o1)" "only_lines id o1 (update_expense_row i r h o1)" "only_lines id o1 o1"
  "only_lines f o1 o2 \<Longrightarrow> only_lines f o1 (write_expenses g o2)"
  "only_lines (on_line i cleared) o1 (clear_transaction_match i o1)"
  by (simp_all add: only_lines_def same_invoices_def write_expenses_def update_expense_row_def clear_transaction_match_def
      update_bank_def on_line_def cleared_def [abs_def] cong: if_cong)

lemma rapprochable_Inr:
  assumes "rapprochable_debit o1 i m = Some (Inr t)"
  shows "line_at (bank_lines o1) i = Some t \<and> \<not> is_matched t \<and> amount_cents t < 0 \<and> amount_cents t = - m"
  using assms
  by (auto simp: rapprochable_debit_def line_at_def bank_transaction_by_id_def refuse_expense_def is_debit_def debit_amount_def
      split: option.splits if_splits bind_splits)

lemma matched_expense_Inr:
  assumes "mark_transaction_matched_expense i e o1 = Some (Inr o2)"
  shows "only_lines (on_line i (\<lambda>t. t\<lparr>matched_expense_id := Some e\<rparr>)) o1 o2"
  using assms by (auto simp: mark_transaction_matched_expense_def only_lines_def same_invoices_def update_bank_def on_line_def
      split: if_splits)

definition expense_lines :: "office \<Rightarrow> office \<Rightarrow> bool" where
  "expense_lines o1 o2 \<longleftrightarrow> only_lines id o1 o2
     \<or> (\<exists>i e t. line_at (bank_lines o1) i = Some t \<and> \<not> is_matched t \<and> amount_cents t < 0
          \<and> only_lines (on_line i (\<lambda>t. t\<lparr>matched_expense_id := Some e\<rparr>)) o1 o2)
     \<or> (\<exists>t \<in> set (bank_lines o1). matched_expense_id t \<noteq> None \<and> only_lines (on_line (tx_id t) cleared) o1 o2)"

lemma expense_lines_idle: "only_lines id o1 o2 \<Longrightarrow> expense_lines o1 o2"
  by (simp add: expense_lines_def)

lemma expense_lines_paid:
  "rapprochable_debit o1 i m = Some (Inr t) \<Longrightarrow> only_lines (on_line i (\<lambda>t. t\<lparr>matched_expense_id := Some e\<rparr>)) o1 o2
    \<Longrightarrow> expense_lines o1 o2"
  using rapprochable_Inr [of o1 i m t] unfolding expense_lines_def by blast

lemma only_lines_inserted:
  "insert_expense e (snd (draw_id v o1)) = Some (Inr o2) \<Longrightarrow> only_lines id o1 o2"
  by (auto simp: insert_expense_def draw_id_def only_lines_def same_invoices_def split: if_splits)

lemma only_lines_after: "only_lines id o1 o2 \<Longrightarrow> only_lines f o2 o3 \<Longrightarrow> only_lines f o1 o3"
  by (simp add: only_lines_def same_invoices_def)

lemma record_expense_lines:
  assumes "apply_record_expense T v c o1 = Some (Inr (i, o2))"
  shows "expense_lines o1 o2"
proof (cases "re_bank_transaction_id c")
  case None
  then obtain e k o3 where "insert_expense e (snd (draw_id v o1)) = Some (Inr o3)" "sync_payment T v k k o3 = Some (Inr (i, o2))"
    using assms by (auto simp: apply_record_expense_def and_do_ok split_beta Let_def split: if_splits)
  then show ?thesis by (metis only_lines_inserted only_lines_synced expense_lines_idle)
next
  case (Some j)
  then obtain t e k o3 o4 where "rapprochable_debit o1 j (re_amount c) = Some (Inr t)"
    "insert_expense e (snd (draw_id v o1)) = Some (Inr o3)" "mark_transaction_matched_expense j k o3 = Some (Inr o4)"
    "sync_payment T v k k o4 = Some (Inr (i, o2))"
    using assms by (auto simp: apply_record_expense_def refuse_expense_def and_do_ok split_beta Let_def split: if_splits)
  then show ?thesis
    by (metis only_lines_inserted only_lines_after matched_expense_Inr only_lines_synced expense_lines_paid)
qed

lemma reconcile_expense_lines:
  "apply_reconcile_expense T v c o1 = Some (Inr (u, o2)) \<Longrightarrow> expense_lines o1 o2"
  by (auto simp: apply_reconcile_expense_def and_do_ok refuse_expense_def Let_def split: option.splits if_splits
      intro: expense_lines_paid only_lines_synced dest!: matched_expense_Inr)

lemma update_expense_lines:
  assumes "apply_update_expense T v c o1 = Some (Inr (r, o2))"
  shows "expense_lines o1 o2"
proof (cases "expense_by_id o1 (ue_id c)")
  case None
  then show ?thesis using assms by (auto simp: apply_update_expense_def and_do_ok refuse_expense_def)
next
  case (Some e)
  obtain vat where "update_refusal c e vat o1 = None" and
    "(case update_refusal c e vat o1 of Some e \<Rightarrow> refuse_expense e
      | None \<Rightarrow> and_do (require_expense_revision o1 (ue_id c) (ue_revision c)) (\<lambda>revision.
             sync_payment T v (ue_id c) revision
               (update_expense_row (ue_id c) (ue_revision c) (updated_expense c vat revision) o1))) = Some (Inr (r, o2))"
    using assms Some by (auto simp: apply_update_expense_def and_do_ok refuse_expense_def split: option.splits)
  then show ?thesis
    by (auto simp: and_do_ok intro: expense_lines_idle only_lines_synced [OF only_lines_rows(2)])
qed

lemma attach_receipt_lines:
  "apply_attach_receipt T v c o1 = Some (Inr (r, o2)) \<Longrightarrow> expense_lines o1 o2"
  by (auto simp: apply_attach_receipt_def and_do_ok refuse_expense_def split: if_splits
      intro: expense_lines_idle only_lines_synced [OF only_lines_rows(2)])

lemma delete_expense_lines:
  assumes "apply_delete_expense T v c o1 = Some (Inr (u, o2))"
  shows "expense_lines o1 o2"
proof -
  define o3 where "o3 = (case bank_transaction_for_expense o1 (dx_id c) of None \<Rightarrow> o1 | Some t \<Rightarrow> clear_transaction_match (tx_id t) o1)"
  obtain g where s: "sync_payment T v (dx_id c) () (write_expenses g o3) = Some (Inr (u, o2))"
    using assms unfolding o3_def apply_delete_expense_def Let_def
    by (cases "expense_by_id o1 (dx_id c)") (auto simp: and_do_ok refuse_expense_def split: if_splits)
  show ?thesis
  proof (cases "bank_transaction_for_expense o1 (dx_id c)")
    case None
    then show ?thesis using s only_lines_rows(1) [of o1 g] by (auto simp: o3_def intro: expense_lines_idle only_lines_synced)
  next
    case (Some t)
    have "only_lines (on_line (tx_id t) cleared) o1 o2"
      using s by (simp add: o3_def Some) (rule only_lines_synced, rule only_lines_rows(4), rule only_lines_rows(5))
    moreover have "t \<in> set (bank_lines o1)" "matched_expense_id t \<noteq> None"
      using Some by (auto simp: bank_transaction_for_expense_def find_Some_iff)
    ultimately show ?thesis unfolding expense_lines_def by blast
  qed
qed

lemmas expense_command_lines =
  record_expense_lines reconcile_expense_lines update_expense_lines attach_receipt_lines delete_expense_lines

lemma settlement_same_invoices: "settlement_command T o1 o2 \<Longrightarrow> same_invoices o1 o2"
proof (induction rule: settlement_command.induct)
  case (1 v wr o1 w o2)
  then show ?case
    by (elim write_off_Inr) (metis drawn_same same_invoices_inserts(2) same_invoices_trans surjective_pairing)
next
  case (2 rw o1 u o2)
  then show ?case by (auto simp: apply_retract_write_off_def and_do_ok split: option.splits if_splits intro: same_invoices_inserts)
next
  case (3 v rp o1 p o2)
  then show ?case
    by (auto simp: apply_record_payment_def and_do_ok split: if_splits prod.splits
        intro: same_if_synced same_invoices_trans [OF drawn_same same_invoices_inserts(1)])
next
  case (4 v vp o1 u o2)
  then show ?case
    by (auto simp: apply_void_payment_def Let_def and_do_ok split: option.splits if_splits
        intro: same_if_synced same_invoices_trans [OF same_invoices_rows(3) same_invoices_rows(5)])
next
  case (5 v ps o1 n o2)
  have "same_invoices o1 (snd (insert_bank_transaction T v p o1))" for p o1
    by (simp add: insert_bank_transaction_def draw_id_def same_invoices_def Let_def)
  then have "same_invoices o1 (snd (apply_import_bank_transactions T v ps o1))"
    by (induction ps arbitrary: o1) (auto simp: split_beta Let_def intro: same_invoices_trans)
  with 5 show ?case by simp
next
  case (6 v rc o1 p o2)
  then show ?case
  proof (rule reconcile_Inr)
    fix t o3
    assume "insert_payment \<lparr>pay_id = p, pay_invoice_id = rc_invoice_id rc, pay_amount = amount_cents t, received_on = occurred_on t,
       pay_method = BankTransfer, bank_transaction_id = Some (rc_transaction_id rc), voided_at = None\<rparr> (snd (draw_id v o1))
       = Some (Inr o3)"
    then have "same_invoices o1 o3" by (blast intro: same_invoices_trans [OF same_invoices_rows(2) same_invoices_inserts(1)])
    then have "same_invoices o1 (mark_transaction_matched (rc_transaction_id rc) (rc_invoice_id rc) o3)"
      using same_invoices_trans same_invoices_rows(6) by blast
    moreover assume "in_books (sync_collection T (draws v) p RefuseClosedYear)
       (mark_transaction_matched (rc_transaction_id rc) (rc_invoice_id rc) o3) = Some (Inr o2)"
    ultimately show ?case by (rule same_if_synced [rotated])
  qed
next
  case (7 v i o1 q o2)
  then show ?case
  proof (rule unreconcile_Inr)
    fix t o3
    assume c: "case find (\<lambda>p. bank_transaction_id p = Some i \<and> \<not> is_voided p) (all_payments T o1) of
        None \<Rightarrow> q = None \<and> o3 = o1
      | Some p \<Rightarrow> q = Some (pay_id p) \<and> (\<exists>at. o3 = mark_payment_voided (pay_id p) at o1)"
      and s: "same_but_books (clear_transaction_match i o3) o2"
    have "same_invoices o1 o3" using c by (auto split: option.splits)
    then show ?case using same_invoices_trans same_invoices_rows(5) same_invoices_inserts(5) [OF s] by blast
  qed
next
  case (8 sb o1 u o2)
  then show ?case by (auto simp: apply_settle_bank_transaction_def split: option.splits if_splits)
next
  case (9 i o1 u o2)
  then show ?case by (auto simp: apply_unsettle_bank_transaction_def split: option.splits if_splits)
next
  case (10 i o1 u o2)
  then show ?case by (auto simp: apply_delete_bank_transaction_def and_do_ok split: option.splits if_splits intro: same_invoices_inserts)
qed (auto dest!: expense_command_lines simp: expense_lines_def only_lines_def)

section \<open>Steps\<close>

datatype billing_event =
    Emitted date emitted_invoice
  | Imported emitted_invoice
  | Credited date uuid emitted_invoice
  | Settled
  | ElsewhereChanged

text \<open>
  The three commands that add an invoice, the other commands of billing and expenses, and what the
  other modules change: never the invoices, their counters, the payments, the bank lines and the
  write-offs, which these two modules alone write.
\<close>

definition own_tables_kept :: "office \<Rightarrow> office \<Rightarrow> bool" where
  "own_tables_kept o1 o2 \<longleftrightarrow> same_invoices o1 o2 \<and> payments o2 = payments o1 \<and> bank_lines o2 = bank_lines o1
     \<and> write_offs o2 = write_offs o1"

inductive billing_step ::
    "time_api \<Rightarrow> (string \<Rightarrow> string) \<Rightarrow> (canonical_invoice \<Rightarrow> string) \<Rightarrow> office \<Rightarrow> billing_event \<Rightarrow> office \<Rightarrow> bool"
  for T sha json where
  emitting: "apply_emit_invoice T sha json v c o1 = Some (Inr (em, o2))
    \<Longrightarrow> billing_step T sha json o1 (Emitted (ei_issued_on c) em) o2"
| importing: "apply_import_issued_invoice T sha json v c o1 = Some (Inr (em, o2)) \<Longrightarrow> billing_step T sha json o1 (Imported em) o2"
| crediting: "apply_issue_credit_note T sha json v c o1 = Some (Inr (em, o2))
    \<Longrightarrow> billing_step T sha json o1 (Credited (cn_issued_on c) (cn_invoice_id c) em) o2"
| settling: "settlement_command T o1 o2 \<Longrightarrow> billing_step T sha json o1 Settled o2"
| elsewhere: "own_tables_kept o1 o2 \<Longrightarrow> billing_step T sha json o1 ElsewhereChanged o2"

text \<open>The cases in which the commands return, down to the invoice they add.\<close>

lemma emit_Inr:
  assumes "apply_emit_invoice T sha json v c o1 = Some (Inr (em, o2))"
  obtains number o3 where "allocate_invoice_number (dyear (ei_issued_on c)) o1 = (number, o3)"
    "add_invoice T sha json v (draft_invoice number (ei_client_id c) (ei_mission_id c) (ei_lines c) OriginIssued (ei_issued_on c)
       (due_date T (ei_issued_on c) (payment_terms_days c)) None) o3 = Some (Inr (em, o2))"
  using assms by (auto simp: apply_emit_invoice_def split: if_splits prod.splits)

lemma import_Inr:
  assumes "apply_import_issued_invoice T sha json v c o1 = Some (Inr (em, o2))"
  obtains "check_imported_credit c o1 = Some (Inr ())"
    "add_invoice T sha json v (draft_invoice (trim (ii_number c)) (ii_client_id c) (ii_mission_id c) (ii_lines c) OriginImported
       (ii_issued_on c) (due_date T (ii_issued_on c) (ii_payment_terms_days c)) (ii_credited_invoice_id c)) o1 = Some (Inr (em, o2))"
  using assms by (auto simp: apply_import_issued_invoice_def Let_def and_do_ok split: if_splits)

lemma credit_Inr:
  assumes "apply_issue_credit_note T sha json v c o1 = Some (Inr (em, o2))"
  obtains original number o3 where "invoice_by_id o1 (cn_invoice_id c) = Some original"
    "origin original = OriginIssued" "credited_invoice_id original = None" "\<not> has_credit_note o1 (cn_invoice_id c)"
    "active_write_off_for o1 (cn_invoice_id c) = None"
    "allocate_invoice_number (dyear (cn_issued_on c)) o1 = (number, o3)"
    "add_invoice T sha json v (draft_invoice number (inv_client_id original) (inv_mission_id original)
       (map negate_line (inv_lines original)) OriginIssued (cn_issued_on c) (cn_issued_on c)
       (Some (cn_invoice_id c))) o3 = Some (Inr (em, o2))"
  using assms
  by (cases "invoice_by_id o1 (cn_invoice_id c)")
    (auto simp: apply_issue_credit_note_def Let_def split: if_splits prod.splits intro: invoice_origin.exhaust)

lemma chain_cong: "invoices o2 = invoices o1 \<Longrightarrow> verify_invoice_chain T sha json o2 = verify_invoice_chain T sha json o1"
  by (simp add: verify_invoice_chain_def)

definition sound_office :: "time_api \<Rightarrow> (string \<Rightarrow> string) \<Rightarrow> (canonical_invoice \<Rightarrow> string) \<Rightarrow> office \<Rightarrow> bool" where
  "sound_office T sha json o1 \<longleftrightarrow> numbered_office o1 \<and> verify_invoice_chain T sha json o1 = ChainIntact
     \<and> distinct (map inv_id (invoices o1)) \<and> distinct (map inv_number (invoices o1))"

lemma add_distinct:
  assumes "add_invoice T sha json v draft o1 = Some (Inr (em, o2))"
    "distinct (map inv_id (invoices o1))" "distinct (map inv_number (invoices o1))"
  shows "distinct (map inv_id (invoices o2)) \<and> distinct (map inv_number (invoices o2))"
  using assms(2,3) add_invoice_Inr(2,3) [OF assms(1)] by (simp add: add_invoice_Inr(1) [OF assms(1)])

lemma same_sound: "sound_office T sha json o1 \<Longrightarrow> same_invoices o1 o2 \<Longrightarrow> sound_office T sha json o2"
  using numbered_cong [of o2 o1] chain_cong [of o2 o1] by (simp add: sound_office_def same_invoices_def)

lemma billing_step_sound:
  assumes s: "sound_office T sha json o1" and step: "billing_step T sha json o1 e o2"
  shows "sound_office T sha json o2"
  using step
proof cases
  case (emitting v c em)
  from emitting(2) obtain number o3 where a: "allocate_invoice_number (dyear (ei_issued_on c)) o1 = (number, o3)"
    and add: "add_invoice T sha json v (draft_invoice number (ei_client_id c) (ei_mission_id c) (ei_lines c) OriginIssued (ei_issued_on c)
       (due_date T (ei_issued_on c) (payment_terms_days c)) None) o3 = Some (Inr (em, o2))"
    by (rule emit_Inr)
  then show ?thesis
    using s numbered_next [OF _ a add] chain_next [OF _ add] add_distinct [OF add] chain_cong [of o3 o1]
    by (simp add: sound_office_def allocate_counter(3) [OF a])
next
  case (importing v c em)
  from importing(2) obtain
    add: "add_invoice T sha json v (draft_invoice (trim (ii_number c)) (ii_client_id c) (ii_mission_id c) (ii_lines c) OriginImported
       (ii_issued_on c) (due_date T (ii_issued_on c) (ii_payment_terms_days c)) (ii_credited_invoice_id c)) o1 = Some (Inr (em, o2))"
    by (rule import_Inr) (rule that)
  then show ?thesis
    using s numbered_import [OF _ add] chain_next [OF _ add] add_distinct [OF add] by (simp add: sound_office_def)
next
  case (crediting v c em)
  from crediting(2) obtain original :: invoice and number o3 where a: "allocate_invoice_number (dyear (cn_issued_on c)) o1 = (number, o3)"
    and add: "add_invoice T sha json v (draft_invoice number (inv_client_id original) (inv_mission_id original)
       (map negate_line (inv_lines original)) OriginIssued (cn_issued_on c) (cn_issued_on c)
       (Some (cn_invoice_id c))) o3 = Some (Inr (em, o2))"
    by (rule credit_Inr) (rule that)
  then show ?thesis
    using s numbered_next [OF _ a add] chain_next [OF _ add] add_distinct [OF add] chain_cong [of o3 o1]
    by (simp add: sound_office_def allocate_counter(3) [OF a])
next
  case settling
  then show ?thesis using same_sound s settlement_same_invoices by blast
next
  case elsewhere
  then show ?thesis using same_sound s by (simp add: own_tables_kept_def)
qed

section \<open>Invoices are only added\<close>

fun added :: "billing_event \<Rightarrow> (uuid \<times> string) list" where
  "added (Emitted d em) = [(em_id em, em_number em)]"
| "added (Imported em) = [(em_id em, em_number em)]"
| "added (Credited d i em) = [(em_id em, em_number em)]"
| "added Settled = []"
| "added ElsewhereChanged = []"

lemma billing_step_adds:
  assumes "billing_step T sha json o1 e o2"
  obtains new where "invoices o2 = invoices o1 @ new" "map (\<lambda>x. (inv_id x, inv_number x)) new = added e"
  using assms
proof cases
  case (emitting v c em)
  then obtain number o3 d where a: "allocate_invoice_number (dyear (ei_issued_on c)) o1 = (number, o3)"
    and add: "add_invoice T sha json v d o3 = Some (Inr (em, o2))"
    by (blast elim: emit_Inr)
  then show ?thesis
    using that [of "[completed T sha json (em_id em) d o3]"] add_invoice_Inr(1,4) [OF add] allocate_counter(3) [OF a] emitting by simp
next
  case (importing v c em)
  then obtain d where add: "add_invoice T sha json v d o1 = Some (Inr (em, o2))" by (blast elim: import_Inr)
  then show ?thesis
    using that [of "[completed T sha json (em_id em) d o1]"] add_invoice_Inr(1,4) [OF add] importing by simp
next
  case (crediting v c em)
  then obtain number o3 d where a: "allocate_invoice_number (dyear (cn_issued_on c)) o1 = (number, o3)"
    and add: "add_invoice T sha json v d o3 = Some (Inr (em, o2))"
    by (blast elim: credit_Inr)
  then show ?thesis
    using that [of "[completed T sha json (em_id em) d o3]"] add_invoice_Inr(1,4) [OF add] allocate_counter(3) [OF a] crediting by simp
next
  case settling
  then show ?thesis using that [of "[]"] settlement_same_invoices by (auto simp: same_invoices_def)
next
  case elsewhere
  then show ?thesis using that [of "[]"] by (simp add: own_tables_kept_def same_invoices_def)
qed

lemma billing_run_adds:
  "run (billing_step T sha json) o1 es o2 \<Longrightarrow>
     \<exists>new. invoices o2 = invoices o1 @ new \<and> map (\<lambda>x. (inv_id x, inv_number x)) new = concat (map added es)"
proof (induction rule: run.induct)
  case (run_snoc s es t e u)
  then obtain new where "invoices t = invoices s @ new" "map (\<lambda>x. (inv_id x, inv_number x)) new = concat (map added es)" by blast
  moreover obtain more where "invoices u = invoices t @ more" "map (\<lambda>x. (inv_id x, inv_number x)) more = added e"
    using run_snoc.hyps(2) by (rule billing_step_adds)
  ultimately show ?case by (intro exI [of _ "new @ more"]) simp
qed simp

interpretation billing: safe_steps "billing_step T sha json" "sound_office T sha json" "\<lambda>_. True"
  for T sha json
  by unfold_locales (auto intro: billing_step_sound)

end
