(* ===== verification/Bank_Runs.thy ===== *)
theory Bank_Runs
  imports Invoicing_Runs
begin

text \<open>
  The commands refine the machine of \<open>Bank\<close>: whatever a command of billing or of expenses does to the
  payments and the lines of the bank is a sequence of its moves, so that its invariant holds of every
  office a run reaches.
\<close>

section \<open>The abstraction\<close>

definition known :: "office \<Rightarrow> uuid set" where
  "known o1 = inv_id ` set (invoices o1)"

definition bank_of :: "office \<Rightarrow> bank_state" where
  "bank_of o1 = (payments o1, bank_lines o1)"

definition bank_moves :: "office \<Rightarrow> office \<Rightarrow> bool" where
  "bank_moves o1 o2 \<longleftrightarrow> (\<exists>ms. run (bank_move (known o1)) (bank_of o1) ms (bank_of o2))"

lemma no_move: "payments o2 = payments o1 \<Longrightarrow> bank_lines o2 = bank_lines o1 \<Longrightarrow> bank_moves o1 o2"
  unfolding bank_moves_def bank_of_def by (intro exI [of _ "[]"]) (simp add: run_Nil)

lemma one_move: "bank_move (known o1) (bank_of o1) m (bank_of o2) \<Longrightarrow> bank_moves o1 o2"
  unfolding bank_moves_def by (blast intro: run_single)

lemma moves_trans: "bank_moves o1 o2 \<Longrightarrow> known o2 = known o1 \<Longrightarrow> bank_moves o2 o3 \<Longrightarrow> bank_moves o1 o3"
  unfolding bank_moves_def using run_append by metis

lemma known_same: "same_invoices o1 o2 \<Longrightarrow> known o2 = known o1"
  by (simp add: known_def same_invoices_def)

lemma bank_of_same: "same_but_books o1 o2 \<Longrightarrow> bank_of o2 = bank_of o1"
  by (simp add: bank_of_def same_but_books_def)

text \<open>The rows as changes of the two tables.\<close>

lemma bank_of_rows [simp]:
  "bank_of (snd (draw_id v o1)) = bank_of o1"
  "bank_of (mark_payment_voided j at o1) = (void_in j at (payments o1), bank_lines o1)"
  "bank_of (clear_transaction_match i o1) = (payments o1, on_line i cleared (bank_lines o1))"
  "bank_of (mark_transaction_matched i k o1) = (payments o1, on_line i (\<lambda>t. t\<lparr>matched_invoice_id := Some k\<rparr>) (bank_lines o1))"
  "bank_of (mark_transaction_settled i a l o1)
     = (payments o1, on_line i (\<lambda>t. t\<lparr>tx_settlement_account := Some a, settlement_label := Some l\<rparr>) (bank_lines o1))"
  by (simp_all add: bank_of_def draw_id_def mark_payment_voided_def void_in_def clear_transaction_match_def update_bank_def
      on_line_def cleared_def [abs_def] mark_transaction_matched_def mark_transaction_settled_def cong: if_cong)

lemma tables_of_bank: "bank_of o2 = (ps, ts) \<longleftrightarrow> payments o2 = ps \<and> bank_lines o2 = ts"
  by (simp add: bank_of_def)

lemma bank_of_insert:
  "insert_payment p o1 = Some (Inr o2) \<Longrightarrow> bank_of o2 = (payments o1 @ [p], bank_lines o1)
     \<and> pay_id p \<notin> pay_id ` set (payments o1) \<and> pay_invoice_id p \<in> known o1"
  by (auto simp: insert_payment_def bank_of_def known_def split: if_splits)

lemma bank_of_synced: "in_books (sync_collection T v i g) o1 = Some (Inr o2) \<Longrightarrow> bank_of o2 = bank_of o1"
  using in_books_sync(2) bank_of_same by blast

lemma drawn_tables [simp]:
  "payments (snd (draw_id v o1)) = payments o1" "bank_lines (snd (draw_id v o1)) = bank_lines o1"
  "known (snd (draw_id v o1)) = known o1"
  by (simp_all add: draw_id_def known_def)

lemma voided_tables [simp]:
  "payments (mark_payment_voided j at o1) = void_in j at (payments o1)" "bank_lines (mark_payment_voided j at o1) = bank_lines o1"
  using bank_of_rows(2) unfolding tables_of_bank by blast+

section \<open>Each command\<close>

lemma record_payment_moves:
  assumes "apply_record_payment T v c o1 = Some (Inr (i, o2))"
  shows "bank_moves o1 o2"
proof -
  let ?p = "\<lparr>pay_id = fst (draw_id v o1), pay_invoice_id = rp_invoice_id c, pay_amount = rp_amount c,
    received_on = rp_received_on c, pay_method = rp_method c, bank_transaction_id = None, voided_at = None\<rparr>"
  obtain o3 where i: "insert_payment ?p (snd (draw_id v o1)) = Some (Inr o3)" and p: "0 < rp_amount c"
    and s: "\<exists>n. in_books (sync_collection T (draws v) n RefuseClosedYear) o3 = Some (Inr o2)"
    using assms by (auto simp: apply_record_payment_def and_do_ok split_beta Let_def split: if_splits)
  from s bank_of_synced have "bank_of o2 = bank_of o3" by blast
  then show ?thesis
    using bank_of_insert [OF i] paid [of ?p "payments o1" "known o1" "bank_lines o1"] p by (intro one_move) (simp add: bank_of_def)
qed

lemma reconcile_moves:
  assumes "apply_reconcile_transaction T v c o1 = Some (Inr (i, o2))"
  shows "bank_moves o1 o2"
  using assms
proof (rule reconcile_Inr)
  fix t :: bank_transaction and o3
  let ?p = "\<lparr>pay_id = i, pay_invoice_id = rc_invoice_id c, pay_amount = amount_cents t, received_on = occurred_on t,
       pay_method = BankTransfer, bank_transaction_id = Some (rc_transaction_id c), voided_at = None\<rparr>"
  assume t: "bank_transaction_by_id o1 (rc_transaction_id c) = Some t" "\<not> is_matched t" "0 < amount_cents t"
    and i: "insert_payment ?p (snd (draw_id v o1)) = Some (Inr o3)"
    and s: "in_books (sync_collection T (draws v) i RefuseClosedYear)
       (mark_transaction_matched (rc_transaction_id c) (rc_invoice_id c) o3) = Some (Inr o2)"
  have l: "line_at (bank_lines o1) (rc_transaction_id c) = Some t" using t(1) by (simp add: bank_transaction_by_id_def line_at_def)
  have "bank_of o2 = (payments o1 @ [?p],
      on_line (rc_transaction_id c) (\<lambda>t. t\<lparr>matched_invoice_id := Some (rc_invoice_id c)\<rparr>) (bank_lines o1))"
    using bank_of_insert [OF i] bank_of_synced [OF s] by (simp add: tables_of_bank)
  moreover have "bank_move (known o1) (bank_of o1) (Received (rc_transaction_id c) (pay_id ?p)) (payments o1 @ [?p],
      on_line (rc_transaction_id c) (\<lambda>t. t\<lparr>matched_invoice_id := Some (pay_invoice_id ?p)\<rparr>) (bank_lines o1))"
    unfolding bank_of_def using bank_of_insert [OF i] t l by (intro received) (simp_all add: is_voided_def)
  ultimately show ?thesis by (intro one_move) simp
qed

lemma void_moves:
  assumes "apply_void_payment T v c o1 = Some (Inr (u, o2))"
  shows "bank_moves o1 o2"
proof -
  obtain p :: payment where p: "payment_by_id o1 (vp_payment_id c) = Some p" "\<not> is_voided p"
    using assms by (auto simp: apply_void_payment_def Let_def split: option.splits if_splits)
  obtain at where s: "in_books (sync_collection T (draws v) (vp_payment_id c) RefuseClosedYear)
      (case bank_transaction_id p of None \<Rightarrow> mark_payment_voided (vp_payment_id c) at o1
       | Some t \<Rightarrow> clear_transaction_match t (mark_payment_voided (vp_payment_id c) at o1)) = Some (Inr o2)"
    using assms p by (auto simp: apply_void_payment_def Let_def and_do_ok)
  have m: "p \<in> set (payments o1)" "vp_payment_id c = pay_id p"
    using p(1) by (auto simp: payment_by_id_def find_Some_iff)
  have "\<exists>e. bank_move (known o1) (bank_of o1) e (bank_of o2)"
  proof (cases "bank_transaction_id p")
    case None
    then show ?thesis
      using voided [of p "payments o1" "known o1" "bank_lines o1" at] bank_of_synced [OF s] m
      by (auto simp: bank_of_def [of o1])
  next
    case (Some i)
    then show ?thesis
      using undone [of p "payments o1" i "known o1" "bank_lines o1" at] bank_of_synced [OF s] m p(2)
      by (auto simp: bank_of_def [of o1])
  qed
  then show ?thesis by (blast intro: one_move)
qed

lemma all_payments_set: "set (all_payments T o1) = set (payments o1)"
  by (simp add: all_payments_def)

lemma unreconcile_moves:
  assumes "apply_unreconcile_transaction T v i o1 = Some (Inr (q, o2))"
  shows "bank_moves o1 o2"
  using assms
proof (rule unreconcile_Inr)
  fix t o3
  let ?found = "find (\<lambda>p. bank_transaction_id p = Some i \<and> \<not> is_voided p) (all_payments T o1)"
  assume u: "case ?found of None \<Rightarrow> q = None \<and> o3 = o1
      | Some p \<Rightarrow> q = Some (pay_id p) \<and> (\<exists>at. o3 = mark_payment_voided (pay_id p) at o1)"
    and s: "same_but_books (clear_transaction_match i o3) o2"
  have "\<exists>e. bank_move (known o1) (bank_of o1) e (bank_of o2)"
  proof (cases ?found)
    case None
    then have "live_receipts (payments o1) i = []"
      by (auto simp: find_None_iff all_payments_set live_receipts_def filter_empty_conv)
    then show ?thesis using released [of "payments o1" i "known o1" "bank_lines o1"] bank_of_same [OF s] u None
      by (auto simp: bank_of_def [of o1])
  next
    case (Some p)
    then have "p \<in> set (payments o1)" "bank_transaction_id p = Some i" "\<not> is_voided p"
      by (metis (mono_tags, lifting) find_Some_iff nth_mem all_payments_set)+
    moreover obtain at where "bank_of o2 = (void_in (pay_id p) at (payments o1), on_line i cleared (bank_lines o1))"
      using bank_of_same [OF s] u Some by auto
    ultimately show ?thesis unfolding bank_of_def [of o1] by (metis undone)
  qed
  then show ?thesis by (blast intro: one_move)
qed

lemma import_line_moves: "bank_moves o1 (snd (insert_bank_transaction T v p o1))"
proof (cases "fst (insert_bank_transaction T v p o1)")
  case True
  let ?t = "\<lparr>tx_id = uuid_at (draws v) (drawn (books o1)), occurred_on = pt_occurred_on p, amount_cents = pt_amount_cents p,
      tx_description = pt_description p, matched_invoice_id = None, matched_expense_id = None,
      tx_settlement_account = None, settlement_label = None, fitid = pt_fitid p\<rparr>"
  have "tx_id ?t \<notin> tx_id ` set (bank_lines o1)" "bank_of (snd (insert_bank_transaction T v p o1)) = (payments o1, bank_lines o1 @ [?t])"
    using True by (auto simp: insert_bank_transaction_def draw_id_def Let_def list_ex_iff bank_of_def split: if_splits)
  then show ?thesis
    using arrived [of ?t "bank_lines o1" "known o1" "payments o1"] by (intro one_move) (simp add: bank_of_def [of o1] is_matched_def)
next
  case False
  then show ?thesis by (intro no_move) (auto simp: insert_bank_transaction_def draw_id_def Let_def split: if_splits)
qed

lemma import_moves: "bank_moves o1 (snd (apply_import_bank_transactions T v ps o1))"
proof (induction ps arbitrary: o1)
  case Nil
  show ?case by (simp add: no_move)
next
  case (Cons p ps)
  have "known (snd (insert_bank_transaction T v p o1)) = known o1"
    by (simp add: insert_bank_transaction_def draw_id_def known_def Let_def)
  then show ?case using moves_trans [OF import_line_moves _ Cons.IH] by (simp add: split_beta Let_def)
qed

lemma line_at_row: "bank_transaction_by_id o1 i = line_at (bank_lines o1) i"
  by (simp add: bank_transaction_by_id_def line_at_def)

lemma settle_moves:
  "apply_settle_bank_transaction c o1 = Some (Inr (u, o2)) \<Longrightarrow> bank_moves o1 o2"
  by (auto simp: apply_settle_bank_transaction_def line_at_row split: option.splits if_splits)
    (rule one_move, simp add: bank_of_def [of o1], rule settled_line, assumption+)

lemma no_receipt:
  assumes "bank_sound K (bank_of o1)" "t \<in> set (bank_lines o1)" "matched_expense_id t \<noteq> None \<or> is_settled t"
  shows "live_receipts (payments o1) (tx_id t) = []"
  using assms by (auto simp: bank_sound_def bank_of_def list_all_iff line_sound_def is_settled_def)

lemma unsettle_moves:
  assumes "bank_sound (known o1) (bank_of o1)" "apply_unsettle_bank_transaction i o1 = Some (Inr (u, o2))"
  shows "bank_moves o1 o2"
proof -
  obtain t where t: "line_at (bank_lines o1) i = Some t" "is_settled t" "o2 = clear_transaction_match i o1"
    using assms(2) by (auto simp: apply_unsettle_bank_transaction_def line_at_row split: option.splits if_splits)
  then have "live_receipts (payments o1) i = []"
    using no_receipt [OF assms(1)] line_at_Some [OF t(1)] by blast
  then show ?thesis using released [of "payments o1" i] by (intro one_move) (simp add: t(3) bank_of_def [of o1])
qed

lemma delete_moves:
  assumes "apply_delete_bank_transaction i o1 = Some (Inr (u, o2))"
  shows "bank_moves o1 o2"
proof -
  have d: "delete_bank_row i o1 = Some (Inr o2)" and l: "line_at (bank_lines o1) i \<noteq> None"
    using assms by (auto simp: apply_delete_bank_transaction_def line_at_row and_do_ok split: option.splits if_splits)
  then have "Some i \<notin> bank_transaction_id ` set (payments o1)"
    by (auto simp: delete_bank_row_def list_ex_iff line_at_def find_None_iff image_iff split: if_splits)
  then show ?thesis
    using d removed [of i "payments o1" "known o1" "bank_lines o1"]
    by (intro one_move) (auto simp: delete_bank_row_def bank_of_def split: if_splits)
qed

lemma expense_moves:
  assumes "bank_sound (known o1) (bank_of o1)" "expense_lines o1 o2"
  shows "bank_moves o1 o2"
proof -
  consider (idle) "only_lines id o1 o2"
    | (pays) i e t where "line_at (bank_lines o1) i = Some t" "\<not> is_matched t" "amount_cents t < 0"
        "only_lines (on_line i (\<lambda>t. t\<lparr>matched_expense_id := Some e\<rparr>)) o1 o2"
    | (frees) t where "t \<in> set (bank_lines o1)" "matched_expense_id t \<noteq> None" "only_lines (on_line (tx_id t) cleared) o1 o2"
    using assms(2) unfolding expense_lines_def by blast
  then show ?thesis
  proof cases
    case idle
    then show ?thesis by (intro no_move) (simp_all add: only_lines_def)
  next
    case pays
    then show ?thesis
      using pays_expense [of "bank_lines o1" i t "known o1" "payments o1" e]
      by (intro one_move) (simp add: bank_of_def only_lines_def)
  next
    case frees
    then show ?thesis
      using no_receipt [OF assms(1) frees(1)] released [of "payments o1" "tx_id t" "known o1" "bank_lines o1"]
      by (intro one_move) (simp add: bank_of_def only_lines_def)
  qed
qed

lemma write_off_tables:
  "apply_write_off_receivable T v c o1 = Some (Inr (w, o2)) \<Longrightarrow> payments o2 = payments o1 \<and> bank_lines o2 = bank_lines o1"
  "apply_retract_write_off rc o1 = Some (Inr (u, o2)) \<Longrightarrow> payments o2 = payments o1 \<and> bank_lines o2 = bank_lines o1"
  by (erule write_off_Inr, auto simp: insert_write_off_def split: if_splits)
    (auto simp: apply_retract_write_off_def set_retracted_on_def and_do_ok split: option.splits if_splits)

section \<open>Runs\<close>

lemma settlement_moves:
  assumes "bank_sound (known o1) (bank_of o1)" "settlement_command T o1 o2"
  shows "bank_moves o1 o2"
  using assms(2)
proof cases
  case (5 v ps n)
  then show ?thesis using import_moves [of o1 T v ps] by simp
qed (use assms(1) in \<open>auto intro: no_move record_payment_moves void_moves reconcile_moves unreconcile_moves settle_moves
      unsettle_moves delete_moves expense_moves expense_command_lines dest: write_off_tables\<close>)

lemma step_moves:
  assumes "bank_sound (known o1) (bank_of o1)" "billing_step T sha json o1 e o2"
  shows "bank_moves o1 o2"
  using assms(2)
proof cases
  case (emitting v c em)
  then obtain number o3 where a: "allocate_invoice_number (dyear (ei_issued_on c)) o1 = (number, o3)"
    and add: "\<exists>d. add_invoice T sha json v d o3 = Some (Inr (em, o2))"
    by (blast elim: emit_Inr)
  then show ?thesis using add_invoice_Inr(6,7) allocate_counter(3) [OF a] by (metis no_move)
next
  case (importing v c em)
  then have "\<exists>d. add_invoice T sha json v d o1 = Some (Inr (em, o2))" by (blast elim: import_Inr)
  then show ?thesis using add_invoice_Inr(6,7) by (metis no_move)
next
  case (crediting v c em)
  then obtain number o3 where a: "allocate_invoice_number (dyear (cn_issued_on c)) o1 = (number, o3)"
    and add: "\<exists>d. add_invoice T sha json v d o3 = Some (Inr (em, o2))"
    by (blast elim: credit_Inr)
  then show ?thesis using add_invoice_Inr(6,7) allocate_counter(3) [OF a] by (metis no_move)
next
  case settling
  then show ?thesis using settlement_moves [OF assms(1)] by blast
next
  case elsewhere
  then show ?thesis by (simp add: own_tables_kept_def no_move)
qed

lemma step_known: "billing_step T sha json o1 e o2 \<Longrightarrow> known o1 \<subseteq> known o2"
  by (erule billing_step_adds) (auto simp: known_def)

definition bank_office :: "office \<Rightarrow> bool" where
  "bank_office o1 \<longleftrightarrow> bank_sound (known o1) (bank_of o1)"

lemma bank_office_step:
  assumes "bank_office o1" "billing_step T sha json o1 e o2"
  shows "bank_office o2"
proof -
  obtain ms where "run (bank_move (known o1)) (bank_of o1) ms (bank_of o2)"
    using step_moves [OF assms(1) [unfolded bank_office_def] assms(2)] by (auto simp: bank_moves_def)
  from bank.run_inv [OF this assms(1) [unfolded bank_office_def]]
  show ?thesis unfolding bank_office_def by (rule bank_sound_mono) (rule step_known [OF assms(2)])
qed

interpretation tables: safe_steps "billing_step T sha json" bank_office "\<lambda>_. True" for T sha json
  by unfold_locales (auto intro: bank_office_step)

end
