(* ===== verification/Receivables.thy ===== *)
theory Receivables
  imports Bank_Runs
begin

text \<open>
  What the commands of billing and expenses guarantee of what clients owe, of the numbering and the
  chain of invoices, and of the lines of the bank; and where they do not do what they document.
\<close>

section \<open>Balances\<close>

lemma invoice_by_id_Some: "invoice_by_id o1 i = Some x \<Longrightarrow> inv_id x = i \<and> x \<in> set (invoices o1)"
  by (auto simp: invoice_by_id_def find_Some_iff)

lemma find_append_Some: "find P xs = Some x \<Longrightarrow> find P (xs @ ys) = Some x"
  by (induction xs) auto

lemma find_append_None: "find P xs = None \<Longrightarrow> find P (xs @ ys) = find P ys"
  by (induction xs) auto

text \<open>What was paid on an invoice, as the aged balance counts it.\<close>

definition paid_on :: "office \<Rightarrow> uuid \<Rightarrow> money" where
  "paid_on o1 i = sum_list (map pay_amount (filter (\<lambda>p. pay_invoice_id p = i \<and> \<not> is_voided p) (payments o1)))"

lemma sum_list_sort_key: "sum_list (map f (filter P (sort_key k xs))) = (sum_list (map f (filter P xs)) :: int)"
proof -
  have "mset (map f (filter P (sort_key k xs))) = mset (map f (filter P xs))" by simp
  then show ?thesis by (metis sum_mset_sum_list)
qed

lemma paid_amount_eq: "paid_amount T o1 i = paid_on o1 i"
  by (simp add: paid_amount_def payments_for_invoice_def paid_on_def sum_list_sort_key conj_commute)

lemma outstanding_Some:
  assumes "compute_totals (inv_lines iv) = Some t" "credited_total o1 (inv_id iv) = Some cr"
  shows "outstanding_of o1 iv = Some (total_ttc t + cr - paid_on o1 (inv_id iv)
     - (case active_write_off_for o1 (inv_id iv) of None \<Rightarrow> 0 | Some w \<Rightarrow> wo_ttc w))"
  using assms by (simp add: outstanding_of_def paid_on_def Let_def split: option.split)

lemma outstanding_cong:
  assumes "invoices o2 = invoices o1" "payments o2 = payments o1" "write_offs o2 = write_offs o1"
  shows "outstanding_of o2 = outstanding_of o1"
  using assms by (simp add: fun_eq_iff outstanding_of_def credited_total_def active_write_off_for_def)

lemma no_credit_note: "\<not> has_credit_note o1 i \<Longrightarrow> filter (\<lambda>c. credited_invoice_id c = Some i) (invoices o1) = []"
  by (simp add: has_credit_note_def list_ex_iff filter_empty_conv)

section \<open>Credit notes\<close>

lemma has_credit_note_later:
  assumes "run (billing_step T sha json) o1 es o2" "has_credit_note o1 i"
  shows "has_credit_note o2 i"
  using billing_run_adds [OF assms(1)] assms(2) by (auto simp: has_credit_note_def)

lemma invoice_later:
  assumes "run (billing_step T sha json) o1 es o2" "invoice_by_id o1 i = Some x"
  shows "invoice_by_id o2 i = Some x"
  using billing_run_adds [OF assms(1)] assms(2) by (auto simp: invoice_by_id_def find_append_Some)

lemma credit_refused_again:
  assumes "invoice_by_id o1 i = Some x" "origin x = OriginIssued" "credited_invoice_id x = None" "has_credit_note o1 i"
    and "cn_invoice_id c = i"
  shows "apply_issue_credit_note T sha json v c o1 = refuse (AlreadyCredited i)"
  using assms by (simp add: apply_issue_credit_note_def Let_def)

lemma credited_once:
  assumes "apply_issue_credit_note T sha json v c o1 = Some (Inr (em, o2))"
    and "invoice_by_id o1 (cn_invoice_id c) = Some x"
  shows "filter (\<lambda>y. credited_invoice_id y = Some (cn_invoice_id c)) (invoices o2) = [List.last (invoices o2)]
     \<and> inv_lines (List.last (invoices o2)) = map negate_line (inv_lines x)
     \<and> origin x = OriginIssued \<and> credited_invoice_id x = None \<and> has_credit_note o2 (cn_invoice_id c)
     \<and> invoice_by_id o2 (cn_invoice_id c) = Some x \<and> write_offs o2 = write_offs o1 \<and> payments o2 = payments o1
     \<and> active_write_off_for o1 (cn_invoice_id c) = None"
  using assms(1)
proof (rule credit_Inr)
  fix original :: invoice and number o3
  let ?d = "draft_invoice number (inv_client_id original) (inv_mission_id original)
       (map negate_line (inv_lines original)) OriginIssued (cn_issued_on c) (cn_issued_on c) (Some (cn_invoice_id c))"
  assume a: "invoice_by_id o1 (cn_invoice_id c) = Some original" "origin original = OriginIssued"
    "credited_invoice_id original = None" "\<not> has_credit_note o1 (cn_invoice_id c)"
    "active_write_off_for o1 (cn_invoice_id c) = None"
    "allocate_invoice_number (dyear (cn_issued_on c)) o1 = (number, o3)"
    and add: "add_invoice T sha json v ?d o3 = Some (Inr (em, o2))"
  have o: "original = x" using a(1) assms(2) by simp
  have i: "invoices o2 = invoices o1 @ [completed T sha json (em_id em) ?d o3]"
    using add_invoice_Inr(1) [OF add] allocate_counter(3) [OF a(6)] by simp
  have "invoice_by_id o2 (cn_invoice_id c) = Some x"
    using assms(2) by (simp add: invoice_by_id_def i find_append_Some)
  then show ?thesis
    using a no_credit_note [OF a(4)] add_invoice_Inr(6,8) [OF add] allocate_counter(3,4) [OF a(6)]
    by (simp add: i o has_credit_note_def)
qed

section \<open>Blocked numbers\<close>

text \<open>The next number of a year is already on an invoice.\<close>

definition blocked_year :: "int \<Rightarrow> office \<Rightarrow> bool" where
  "blocked_year y o1 \<longleftrightarrow> invoice_number y (counter o1 y + 1) \<in> inv_number ` set (invoices o1)"

fun numbers_in :: "int \<Rightarrow> billing_event \<Rightarrow> bool" where
  "numbers_in y (Emitted d em) \<longleftrightarrow> dyear d = y"
| "numbers_in y (Credited d i em) \<longleftrightarrow> dyear d = y"
| "numbers_in y e \<longleftrightarrow> False"

lemma blocked_cong: "same_invoices o1 o2 \<Longrightarrow> blocked_year y o1 \<Longrightarrow> blocked_year y o2"
  using counter_cong [of o2 o1] by (simp add: blocked_year_def same_invoices_def)

lemma blocked_added:
  assumes b: "blocked_year y o1" and a: "allocate_invoice_number z o1 = (number, o3)"
    and add: "add_invoice T sha json v d o3 = Some (Inr (em, o2))" and n: "inv_number d = number"
  shows "z \<noteq> y \<and> blocked_year y o2"
proof
  show z: "z \<noteq> y"
    using b add_invoice_Inr(3) [OF add] allocate_counter(1,3) [OF a] n by (auto simp: blocked_year_def)
  have "counter o2 y = counter o1 y"
    using z counter_cong [OF add_invoice_Inr(5) [OF add]] allocate_counter(2) [OF a, of y] by simp
  then show "blocked_year y o2"
    using b add_invoice_Inr(1) [OF add] allocate_counter(3) [OF a] by (auto simp: blocked_year_def)
qed

lemma blocked_step:
  assumes b: "blocked_year y o1" and step: "billing_step T sha json o1 e o2"
  shows "blocked_year y o2 \<and> \<not> numbers_in y e"
  using step
proof cases
  case (emitting v c em)
  from emitting(2) show ?thesis
    by (rule emit_Inr) (use blocked_added [OF b] emitting(1) in auto)
next
  case (importing v c em)
  then obtain d where add: "add_invoice T sha json v d o1 = Some (Inr (em, o2))" by (blast elim: import_Inr)
  then show ?thesis
    using b importing(1) counter_cong [OF add_invoice_Inr(5) [OF add]] add_invoice_Inr(1) [OF add] by (auto simp: blocked_year_def)
next
  case (crediting v c em)
  from crediting(2) show ?thesis
    by (rule credit_Inr) (use blocked_added [OF b] crediting(1) in auto)
next
  case settling
  then show ?thesis using b blocked_cong [OF settlement_same_invoices, of T o1 o2 y] by simp
next
  case elsewhere
  then show ?thesis using b blocked_cong by (auto simp: own_tables_kept_def)
qed

interpretation blocked: safe_steps "billing_step T sha json" "blocked_year y" "\<lambda>e. \<not> numbers_in y e" for T sha json y
  by unfold_locales (use blocked_step in blast)+

section \<open>Foreign keys of payments\<close>

lemma bank_move_keys: "bank_move K s e s' \<Longrightarrow> bank_transaction_id ` set (fst s) \<subseteq> bank_transaction_id ` set (fst s')"
  by (induction rule: bank_move.induct) (auto simp: void_in_sel)

lemma bank_run_keys:
  "run (bank_move K) s es s' \<Longrightarrow> bank_transaction_id ` set (fst s) \<subseteq> bank_transaction_id ` set (fst s')"
  by (induction rule: run.induct) (blast dest: bank_move_keys)+

lemma step_keys:
  assumes "bank_office o1" "billing_step T sha json o1 e o2"
  shows "bank_transaction_id ` set (payments o1) \<subseteq> bank_transaction_id ` set (payments o2)"
  using step_moves [OF assms(1) [unfolded bank_office_def] assms(2)] bank_run_keys
  by (fastforce simp: bank_moves_def bank_of_def)

lemma run_keys:
  "run (billing_step T sha json) o1 es o2 \<Longrightarrow> bank_office o1
     \<Longrightarrow> bank_office o2 \<and> bank_transaction_id ` set (payments o1) \<subseteq> bank_transaction_id ` set (payments o2)"
proof (induction rule: run.induct)
  case (run_snoc s es t e u)
  then show ?case using step_keys [of t T sha json e u] bank_office_step [of t T sha json e u] by blast
qed simp

lemma keyed_line_stays:
  assumes "bank_office o1" "Some i \<in> bank_transaction_id ` set (payments o1)"
  shows "\<exists>t. bank_transaction_by_id o1 i = Some t
     \<and> apply_delete_bank_transaction i o1 = (if is_matched t then refuse (TransactionStillMatched i) else fail Sqlite)"
proof -
  obtain p where p: "p \<in> set (payments o1)" "bank_transaction_id p = Some i" using assms(2) by force
  then have i: "i \<in> tx_id ` set (bank_lines o1)"
    using assms(1) by (auto simp: bank_office_def bank_sound_def bank_of_def list_all_iff payment_sound_def)
  then obtain t where t: "bank_transaction_by_id o1 i = Some t"
    by (cases "bank_transaction_by_id o1 i") (auto simp: bank_transaction_by_id_def find_None_iff)
  moreover have "delete_bank_row i o1 = fail Sqlite"
    using p i by (auto simp: delete_bank_row_def list_ex_iff)
  ultimately show ?thesis by (simp add: apply_delete_bank_transaction_def fail_def and_do_def)
qed

section \<open>Reconciling\<close>

lemma reconcile_tables:
  assumes "apply_reconcile_transaction T v c o1 = Some (Inr (p, o2))"
  obtains t q where "line_at (bank_lines o1) (rc_transaction_id c) = Some t" "\<not> is_matched t"
    "payments o2 = payments o1 @ [q]" "pay_id q = p" "\<not> is_voided q" "bank_transaction_id q = Some (rc_transaction_id c)"
    "p \<notin> pay_id ` set (payments o1)" "invoices o2 = invoices o1" "write_offs o2 = write_offs o1"
    "bank_lines o2 = on_line (rc_transaction_id c) (\<lambda>t. t\<lparr>matched_invoice_id := Some (rc_invoice_id c)\<rparr>) (bank_lines o1)"
  using assms
proof (rule reconcile_Inr)
  fix t :: bank_transaction and o3
  let ?q = "\<lparr>pay_id = p, pay_invoice_id = rc_invoice_id c, pay_amount = amount_cents t, received_on = occurred_on t,
       pay_method = BankTransfer, bank_transaction_id = Some (rc_transaction_id c), voided_at = None\<rparr>"
  assume t: "bank_transaction_by_id o1 (rc_transaction_id c) = Some t" "\<not> is_matched t"
    and i: "insert_payment ?q (snd (draw_id v o1)) = Some (Inr o3)"
    and s: "in_books (sync_collection T (draws v) p RefuseClosedYear)
       (mark_transaction_matched (rc_transaction_id c) (rc_invoice_id c) o3) = Some (Inr o2)"
  have b: "bank_of o2 = (payments o1 @ [?q],
      on_line (rc_transaction_id c) (\<lambda>t. t\<lparr>matched_invoice_id := Some (rc_invoice_id c)\<rparr>) (bank_lines o1))"
    using bank_of_insert [OF i] bank_of_synced [OF s] by (simp add: tables_of_bank)
  have "invoices o3 = invoices o1" "write_offs o3 = write_offs o1"
    using i by (auto simp: insert_payment_def draw_id_def split: if_splits)
  then have "invoices o2 = invoices o1" "write_offs o2 = write_offs o1"
    using in_books_sync(2) [OF s] by (simp_all add: same_but_books_def mark_transaction_matched_def update_bank_def)
  then show thesis
    using that [of t ?q] t b bank_of_insert [OF i] by (simp add: tables_of_bank line_at_row is_voided_def)
qed

lemma unmatched_cleared: "line_sound ps t \<Longrightarrow> \<not> is_matched t \<Longrightarrow> cleared t = t"
  by (cases t) (simp add: line_sound_def is_matched_def cleared_def)

lemma matched_then_cleared:
  assumes "bank_office o1" "line_at (bank_lines o1) i = Some t" "\<not> is_matched t"
  shows "on_line i cleared (on_line i (\<lambda>t. t\<lparr>matched_invoice_id := x\<rparr>) (bank_lines o1)) = bank_lines o1"
proof -
  have "cleared (u\<lparr>matched_invoice_id := x\<rparr>) = u" if "u \<in> set (bank_lines o1)" "tx_id u = i" for u
  proof -
    have "u = t" "line_sound (payments o1) t"
      using same_line_at [OF _ assms(2) that] line_at_Some [OF assms(2)] assms(1)
      by (auto simp: bank_office_def bank_sound_def bank_of_def list_all_iff)
    then have "cleared u = u" using unmatched_cleared assms(3) by blast
    then show ?thesis by (simp add: cleared_def)
  qed
  then show ?thesis by (simp add: on_line_def map_idI)
qed

lemma void_last:
  assumes "j \<notin> pay_id ` set ps"
  shows "void_in j at (ps @ [q]) = ps @ [if pay_id q = j \<and> voided_at q = None then q\<lparr>voided_at := Some at\<rparr> else q]"
proof -
  have "(if pay_id p = j \<and> voided_at p = None then p\<lparr>voided_at := Some at\<rparr> else p) = p" if "p \<in> set ps" for p
    using assms that by auto
  then show ?thesis by (simp add: void_in_def map_idI)
qed

lemma unreconcile_restores:
  assumes ok: "bank_office o1" and r: "apply_reconcile_transaction T v c o1 = Some (Inr (p, o2))"
    and u: "apply_unreconcile_transaction T v' (rc_transaction_id c) o2 = Some (Inr (q, o3))"
  shows "q = Some p \<and> bank_lines o3 = bank_lines o1 \<and> outstanding_of o3 = outstanding_of o1
     \<and> (\<exists>w. payments o3 = payments o1 @ [w] \<and> pay_id w = p \<and> is_voided w)"
  using r
proof (rule reconcile_tables)
  fix t :: bank_transaction and pay :: payment
  let ?i = "rc_transaction_id c"
  assume t: "line_at (bank_lines o1) ?i = Some t" "\<not> is_matched t"
    and pay: "payments o2 = payments o1 @ [pay]" "pay_id pay = p" "\<not> is_voided pay" "bank_transaction_id pay = Some ?i"
      "p \<notin> pay_id ` set (payments o1)"
    and same: "invoices o2 = invoices o1" "write_offs o2 = write_offs o1"
    and ls: "bank_lines o2 = on_line ?i (\<lambda>t. t\<lparr>matched_invoice_id := Some (rc_invoice_id c)\<rparr>) (bank_lines o1)"
  have "live_receipts (payments o1) ?i = []"
    using ok line_at_Some [OF t(1)] t(2)
    by (auto simp: bank_office_def bank_sound_def bank_of_def list_all_iff line_sound_def is_matched_def)
  then have only: "x = pay" if "x \<in> set (payments o2)" "bank_transaction_id x = Some ?i \<and> \<not> is_voided x" for x
    using that by (auto simp: pay(1) live_receipts_def filter_empty_conv)
  have f: "find (\<lambda>x. bank_transaction_id x = Some ?i \<and> \<not> is_voided x) (all_payments T o2) = Some pay"
  proof (cases "find (\<lambda>x. bank_transaction_id x = Some ?i \<and> \<not> is_voided x) (all_payments T o2)")
    case None
    then show ?thesis using pay by (fastforce simp: find_None_iff all_payments_set)
  next
    case (Some x)
    then have "x \<in> set (payments o2)" "bank_transaction_id x = Some ?i \<and> \<not> is_voided x"
      by (metis (mono_tags, lifting) find_Some_iff nth_mem all_payments_set)+
    with only Some show ?thesis by simp
  qed
  from u show ?thesis
  proof (rule unreconcile_Inr)
    fix t' o4
    assume o4: "case find (\<lambda>x. bank_transaction_id x = Some ?i \<and> \<not> is_voided x) (all_payments T o2) of
        None \<Rightarrow> q = None \<and> o4 = o2
      | Some x \<Rightarrow> q = Some (pay_id x) \<and> (\<exists>at. o4 = mark_payment_voided (pay_id x) at o2)"
      and s: "same_but_books (clear_transaction_match ?i o4) o3"
    then obtain at where at: "q = Some p" "o4 = mark_payment_voided p at o2" using f pay(2) by auto
    have b: "payments o3 = void_in p at (payments o2)" "bank_lines o3 = bank_lines o1"
      using bank_of_same [OF s] matched_then_cleared [OF ok t] by (simp_all add: at(2) tables_of_bank ls)
    have "invoices o3 = invoices o1" "write_offs o3 = write_offs o1"
      using s same by (simp_all add: same_but_books_def at(2) clear_transaction_match_def update_bank_def mark_payment_voided_def)
    moreover have w: "payments o3 = payments o1 @ [pay\<lparr>voided_at := Some at\<rparr>]"
      using pay void_last [OF pay(5)] by (simp add: b(1) is_voided_def)
    ultimately have "outstanding_of o3 = outstanding_of o1"
      by (simp add: fun_eq_iff outstanding_of_def credited_total_def active_write_off_for_def is_voided_def)
    then show ?thesis using at(1) b(2) w pay(2) by (simp add: is_voided_def)
  qed
qed

section \<open>Receipts of closed years\<close>

text \<open>The name of the receipt is part of the label of the entry.\<close>

definition expense_text :: "expense \<Rightarrow> string" where
  "expense_text e = (case receipt_filename e of
     None \<Rightarrow> exp_label e | Some file \<Rightarrow> exp_label e @ '' '' @ em_dash @ '' '' @ file)"

lemma entry_label: "entry j d piece label ls = Some e \<Longrightarrow> le_label e = label"
  by (auto simp: entry_def Let_def split: if_splits)

lemma payment_label:
  assumes "expense_payment_entry T e p im = Some (Some d)"
  shows "le_label d = expense_text e @ '' '' @ em_dash @ '' '' @ (case p of
     PaidFromBank on \<Rightarrow> ''relev'' @ e_acute @ '' du '' @ format_date T on
   | PaidByTheAssociate \<Rightarrow> ''pay'' @ e_acute @ '' par l'' @ [CHR 0x27] @ ''associ'' @ e_acute)"
  using assms unfolding expense_payment_entry_def expense_text_def Let_def
  by (cases p) (auto dest!: entry_label split: bind_splits)

lemma entry_ends: "entry j d piece label ls = None \<longleftrightarrow> entry j d piece label' ls = None"
  by (simp add: entry_def Let_def)

lemma receipt_keeps_entry:
  assumes "expense_payment_entry T e p im = Some (Some d)"
  shows "\<exists>d'. expense_payment_entry T (with_receipt c r e) p im = Some (Some d')"
proof -
  have "expense_payment_entry T (with_receipt c r e) p im \<noteq> None \<and> expense_payment_entry T (with_receipt c r e) p im \<noteq> Some None"
    using assms unfolding expense_payment_entry_def with_receipt_def Let_def
    by (cases p; cases "reverse_charge e") (auto simp: entry_def Let_def split: bind_splits if_splits)
  then show ?thesis by auto
qed

lemma receipt_changes_label:
  assumes "expense_payment_entry T e p im = Some (Some d)" "receipt_filename e \<noteq> Some (ar_receipt_filename c)"
  shows "\<exists>d'. expense_payment_entry T (with_receipt c r e) p im = Some (Some d') \<and> le_label d' \<noteq> le_label d"
proof -
  obtain d' where d': "expense_payment_entry T (with_receipt c r e) p im = Some (Some d')"
    using receipt_keeps_entry [OF assms(1)] by blast
  have "expense_text (with_receipt c r e) \<noteq> expense_text e"
    using assms(2) by (auto simp: expense_text_def with_receipt_def split: option.splits)
  then show ?thesis using payment_label [OF d'] payment_label [OF assms(1)] d' by simp
qed

lemma find_updated:
  assumes "find (\<lambda>e. exp_id e = i) es = Some e" "exp_revision e = r" "\<And>e. exp_id (f e) = exp_id e"
  shows "find (\<lambda>e. exp_id e = i) (map (\<lambda>e. if exp_id e = i \<and> exp_revision e = r then f e else e) es) = Some (f e)"
  using assms by (induction es) (auto split: if_splits)

lemma find_revision:
  "find (\<lambda>r. fst r = i) (map (\<lambda>e. (exp_id e, exp_revision e)) es)
     = map_option (\<lambda>e. (exp_id e, exp_revision e)) (find (\<lambda>e. exp_id e = i) es)"
  by (induction es) auto

lemma attach_receipt_blocked:
  assumes e: "expense_by_id o1 (ar_id c) = Some e" "exp_revision e = ar_revision c"
      "receipt_filename e \<noteq> Some (ar_receipt_filename c)" "in_i64 (exp_revision e + 1)"
    and live: "live_payment T (books o1) (ar_id c) = Inr (Some live)"
    and d: "desired_entry T (books o1) (ar_id c) = Some (Some d)" "same_booking (st_entry live) d"
    and closed: "date_in_recorded_exercise T (books o1) (le_date (st_entry live))"
  shows "\<exists>m. apply_attach_receipt T v c o1 = fail (Domain m)"
proof -
  let ?o = "update_expense_row (ar_id c) (ar_revision c) (with_receipt c (ar_revision c + 1)) o1"
  let ?e = "with_receipt c (ar_revision c + 1) e"
  have f: "find (\<lambda>x. exp_id x = ar_id c) (v_expenses (books o1)) = Some e" using e(1) by (simp add: expense_by_id_def)
  have f': "find (\<lambda>x. exp_id x = ar_id c) (v_expenses (books ?o)) = Some ?e"
    unfolding update_expense_row_def write_expenses_def
    using find_updated [OF f e(2), of "with_receipt c (ar_revision c + 1)"] by (simp add: with_receipt_def)
  have rows: "v_bank (books ?o) = v_bank (books o1)" "v_assets (books ?o) = v_assets (books o1)"
    "v_years (books ?o) = v_years (books o1)" "heads (books ?o) = heads (books o1)" "jlines (books ?o) = jlines (books o1)"
    by (simp_all add: update_expense_row_def write_expenses_def)
  have banked: "bank_date (books ?o) = bank_date (books o1)" by (simp add: fun_eq_iff bank_date_def rows)
  define im where "im = map_option (\<lambda>a. (as_str (fa_account a), fa_label a))
      (find (\<lambda>a. fa_expense_id a = Some (ar_id c)) (v_assets (books o1)))"
  define payment where "payment = (case paid_by e of PaidByAssociate \<Rightarrow> Some PaidByTheAssociate
      | PaidByCompany \<Rightarrow> map_option PaidFromBank (bank_date (books o1) (ar_id c)))"
  obtain p where p: "payment = Some p" "expense_payment_entry T e p im = Some (Some d)"
    using d(1) by (auto simp: desired_entry_def f Let_def simp flip: im_def payment_def split: option.splits)
  have "desired_entry T (books ?o) (ar_id c) = expense_payment_entry T ?e p im"
    using p(1) by (simp add: desired_entry_def f' rows banked Let_def im_def payment_def with_receipt_def
        cong: expense_paid_by.case_cong)
  then obtain d' where d': "desired_entry T (books ?o) (ar_id c) = Some (Some d')" "le_label d' \<noteq> le_label d"
    using receipt_changes_label [OF p(2) e(3), of "ar_revision c + 1"] by auto
  have live': "live_payment T (books ?o) (ar_id c) = Inr (Some live)"
  proof -
    have "load_entry T (books ?o) = load_entry T (books o1)"
      by (simp add: fun_eq_iff load_entry_def lines_of_def rows cong: option.case_cong)
    then show ?thesis using live by (simp add: live_payment_def live_source_def rows cong: option.case_cong)
  qed
  have "\<not> unchanged (Some live) (Some d')" using d(2) d'(2) by (simp add: unchanged_def same_booking_def)
  moreover obtain m where "ensure_open T RefuseClosedYear (Some live) (Some d') (books ?o) = Inl (Domain m)"
    using closed by (auto simp: ensure_open_def guarded_dates_def opt_list_def date_in_recorded_exercise_def rows)
  ultimately have "sync_expense_payment T (draws v) (ar_id c) RefuseClosedYear (books ?o) = Some (Inl (Domain m))"
    by (simp add: sync_expense_payment_def d' live' and_then_def)
  moreover have "require_expense_revision o1 (ar_id c) (ar_revision c) = Some (Inr (ar_revision c + 1))"
    using e f by (simp add: require_expense_revision_def current_revision_def find_revision require_revision_def i64_try_from_def)
  ultimately have "apply_attach_receipt T v c o1 = fail (Domain m)"
    using e by (simp add: apply_attach_receipt_def and_do_def ok_def fail_def sync_payment_def in_books_def)
  then show ?thesis by blast
qed

section \<open>The VAT of an expense\<close>

lemma ceiling_div:
  fixes x d :: int
  assumes "0 < d"
  shows "x \<le> d * (x div d + (if x mod d \<noteq> 0 then 1 else 0))" "d * (x div d + (if x mod d \<noteq> 0 then 1 else 0)) < x + d"
proof -
  have e: "d * (x div d) = x - x mod d" by (simp add: minus_mod_eq_mult_div)
  have "0 \<le> x mod d" "x mod d < d" using assms by simp_all
  then show "x \<le> d * (x div d + (if x mod d \<noteq> 0 then 1 else 0))" "d * (x div d + (if x mod d \<noteq> 0 then 1 else 0)) < x + d"
    by (auto simp: distrib_left e)
qed

lemma max_vat_bounds:
  assumes "0 < m" "in_i64 m"
  shows "m * int (basis_points r) \<le> (10000 + int (basis_points r)) * max_deductible_vat m r
     \<and> (10000 + int (basis_points r)) * max_deductible_vat m r < m * int (basis_points r) + (10000 + int (basis_points r))"
proof (cases "basis_points r = 0")
  case True
  then show ?thesis by (simp add: max_deductible_vat_def)
next
  case False
  let ?b = "int (basis_points r)"
  let ?most = "m * ?b div (10000 + ?b) + (if m * ?b mod (10000 + ?b) \<noteq> 0 then 1 else 0)"
  have b: "0 < ?b" "?b \<le> 2000" using False by (cases r; simp)+
  note c = ceiling_div [of "10000 + ?b" "m * ?b"]
  have "(10000 + ?b) * ?most < (10000 + ?b) * (m + 1)"
    using c(2) b assms(1) by (simp add: distrib_left distrib_right mult.commute)
  then have "?most \<le> m" using b by simp
  moreover have "0 \<le> ?most" using assms(1) b by (simp add: pos_imp_zdiv_nonneg_iff)
  ultimately have "in_i64 ?most" using assms(2) by (simp add: in_i64_def)
  then have "max_deductible_vat m r = ?most" using False assms(1) by (simp add: max_deductible_vat_def Let_def)
  then show ?thesis using c b by simp
qed

lemma invoiced_vat_accepted:
  assumes "0 < ht" "tax_on r ht = Some vat" "in_i64 (ht + vat)"
  shows "vat \<le> max_deductible_vat (ht + vat) r"
proof -
  let ?b = "int (basis_points r)"
  have b: "0 \<le> ?b" "?b \<le> 2000" by (cases r; simp)+
  have v: "vat = round_half_to_even (ht * ?b) 10000"
    using assms(2) by (auto simp: tax_on_def apply_rate_bps_def i64_try_from_eq_Some)
  then have n: "\<bar>2 * (vat * 10000 - ht * ?b)\<bar> \<le> 10000" using round_half_to_even_abs [of 10000 "ht * ?b"] by simp
  have "0 \<le> ht * ?b" using assms(1) b by simp
  moreover have "- 10000 \<le> 2 * (vat * 10000 - ht * ?b)" using n by (simp add: abs_le_iff)
  ultimately have "0 \<le> vat" by simp
  then have "(ht + vat) * ?b \<le> (10000 + ?b) * max_deductible_vat (ht + vat) r"
    using max_vat_bounds [of "ht + vat" r] assms by simp
  moreover have "(10000 + ?b) * vat \<le> (ht + vat) * ?b + 5000" using n by (simp add: algebra_simps)
  ultimately have "(10000 + ?b) * (vat - max_deductible_vat (ht + vat) r) \<le> 5000" by (simp add: algebra_simps)
  moreover have "(5000::int) < (10000 + ?b) * 1" using b by simp
  ultimately have "(10000 + ?b) * (vat - max_deductible_vat (ht + vat) r) < (10000 + ?b) * 1" by (rule le_less_trans)
  then show ?thesis using b by (simp add: mult_less_cancel_left)
qed

section \<open>Write-offs\<close>

lemma write_off_settles:
  assumes "apply_write_off_receivable T v c o1 = Some (Inr (w, o2))" "invoice_by_id o1 (wr_invoice_id c) = Some iv"
  shows "outstanding_of o2 iv = Some 0 \<and> outstanding_of o1 iv = Some (wo_ttc w) \<and> wo_ttc w = wo_ht w + wo_vat w
     \<and> active_write_off_for o2 (wr_invoice_id c) = Some w"
  using assms(1)
proof (rule write_off_Inr)
  fix iv' :: invoice and totals cr
  assume i: "invoice_by_id o1 (wr_invoice_id c) = Some iv'" "write_off_refusal T c iv' o1 = None"
    and t: "compute_totals (inv_lines iv') = Some totals" "credited_total o1 (wr_invoice_id c) = Some cr"
    and w: "wo_ttc w = total_ttc totals + cr - paid_amount T o1 (wr_invoice_id c)" "wo_ttc w = wo_ht w + wo_vat w"
      "wo_invoice_id w = wr_invoice_id c" "retracted_on w = None" "insert_write_off w (snd (draw_id v o1)) = Some (Inr o2)"
  have iv: "iv' = iv" "inv_id iv = wr_invoice_id c" using i(1) assms(2) invoice_by_id_Some by auto
  have none: "active_write_off_for o1 (wr_invoice_id c) = None"
    using i(2) by (auto simp: write_off_refusal_def Let_def split: if_splits)
  have o2: "invoices o2 = invoices o1" "payments o2 = payments o1" "write_offs o2 = write_offs o1 @ [w]"
    using w(5) by (auto simp: insert_write_off_def draw_id_def split: if_splits)
  have some: "active_write_off_for o2 (wr_invoice_id c) = Some w"
    using none w(3,4) by (simp add: active_write_off_for_def o2 find_append_None)
  have "credited_total o2 (wr_invoice_id c) = Some cr" "paid_on o2 (wr_invoice_id c) = paid_on o1 (wr_invoice_id c)"
    using t(2) by (simp_all add: credited_total_def paid_on_def o2)
  then show ?thesis
    using outstanding_Some [of iv totals o2 cr] outstanding_Some [of iv totals o1 cr] t none some w(1,2)
    by (simp add: iv paid_amount_eq)
qed

section \<open>A sample office\<close>

definition sample_client :: client where
  "sample_client = \<lparr>client_id = ''c1'', client_name = ''Acme'', client_siren = None, client_vat_number = None,
     client_address = None, switchboard_email = None, switchboard_phone = None, client_created_at = 0,
     client_revision = 1, client_archived_at = None\<rparr>"

definition sample_line :: bank_transaction where
  "sample_line = \<lparr>tx_id = ''t1'', occurred_on = Date 2026 4 2, amount_cents = 12000, tx_description = ''VIR'',
     matched_invoice_id = None, matched_expense_id = None, tx_settlement_account = None, settlement_label = None, fitid = None\<rparr>"

definition sample_office :: office where
  "sample_office = \<lparr>books = (sample_vault 4200)\<lparr>v_clients := [sample_client], v_bank := [sample_line]\<rparr>,
     invoice_sequences = [], write_offs = [], ca3_keys = [], missions_of = [], regime_set = None, opening_date = None\<rparr>"

definition sample_benv :: benv where
  "sample_benv = \<lparr>draws = sample_jenv, stamp = Inr 7\<rparr>"

definition sample_sha :: "string \<Rightarrow> string" where
  "sample_sha x = ''#'' @ x"

definition sample_sale :: "invoice_line list" where
  "sample_sale = [\<lparr>il_description = ''a'', quantity = 100, unit_price = 10000, il_vat_rate = Standard\<rparr>]"

definition sample_emission :: emit_invoice where
  "sample_emission = \<lparr>ei_client_id = ''c1'', ei_mission_id = None, ei_lines = sample_sale, ei_issued_on = Date 2026 3 1,
     payment_terms_days = 30\<rparr>"

definition output_of :: "(app_error + 'a \<times> office) option \<Rightarrow> 'a \<times> office" where
  "output_of r = (case r of Some (Inr x) \<Rightarrow> x | _ \<Rightarrow> undefined)"

definition returned :: "(app_error + 'a) option \<Rightarrow> bool" where
  "returned r = (case r of Some (Inr _) \<Rightarrow> True | _ \<Rightarrow> False)"

lemma returned_ok: "returned r \<Longrightarrow> r = Some (Inr (fst (output_of r), snd (output_of r)))"
  by (auto simp: returned_def output_of_def split: option.splits sum.splits)

text \<open>The office after the invoice was issued, then after the line of the bank paid it.\<close>

definition sample_emitted :: office where
  "sample_emitted = sample_office\<lparr>
     books := (books sample_office)\<lparr>
       heads := [\<lparr>jh_id = ''id01'', jh_journal = ''VE'', jh_date = ''2026-03-01'', jh_piece_ref = ''FA-2026-0001'',
         jh_piece_date = ''2026-03-01'', jh_label = ''Facture FA-2026-0001 '' @ em_dash @ '' Acme'', source_kind = ''sale'',
         source_id = ''id00'', reversal_of = None, reversed_at = None, jh_created_at = ''now''\<rparr>],
       jlines := [
       \<lparr>jl_entry_id = ''id01'', jl_position = 0, jl_account = acc_number CLIENTS, jl_account_label = acc_label CLIENTS,
         jl_amount = 12000, jl_aux_number = Some ''CC1'', jl_aux_label = Some ''Acme'', ecriture_lib = None\<rparr>,
       \<lparr>jl_entry_id = ''id01'', jl_position = 1, jl_account = acc_number SERVICES, jl_account_label = acc_label SERVICES,
         jl_amount = - 10000, jl_aux_number = None, jl_aux_label = None, ecriture_lib = None\<rparr>,
       \<lparr>jl_entry_id = ''id01'', jl_position = 2, jl_account = acc_number VAT_PENDING, jl_account_label = acc_label VAT_PENDING,
         jl_amount = - 2000, jl_aux_number = None, jl_aux_label = None, ecriture_lib = None\<rparr>],
       drawn := 2,
       v_invoices := [\<lparr>inv_id = ''id00'', inv_number = ''FA-2026-0001'', inv_client_id = ''c1'', inv_mission_id = None,
         inv_lines = sample_sale, inv_status = Issued, origin = OriginIssued, issued_on = Date 2026 3 1,
         due_on = Date 2026 3 31, previous_hash = None, inv_hash = ''#'' @ [CHR 0x00] @ ''FA-2026-0001'',
         credited_invoice_id = None\<rparr>]\<rparr>,
     invoice_sequences := [(2026, 1)]\<rparr>"

definition sample_matched :: office where
  "sample_matched = sample_emitted\<lparr>
     books := (books sample_emitted)\<lparr>
       heads := heads (books sample_emitted) @ [\<lparr>jh_id = ''id03'', jh_journal = ''BQ'', jh_date = ''2026-04-02'',
         jh_piece_ref = ''FA-2026-0001'', jh_piece_date = ''2026-04-02'',
         jh_label = ''R'' @ e_grave @ ''glement FA-2026-0001 (virement)'', source_kind = ''sale_collection'',
         source_id = ''id02'', reversal_of = None, reversed_at = None, jh_created_at = ''now''\<rparr>],
       jlines := jlines (books sample_emitted) @ [
       \<lparr>jl_entry_id = ''id03'', jl_position = 0, jl_account = acc_number BANK, jl_account_label = acc_label BANK,
         jl_amount = 12000, jl_aux_number = None, jl_aux_label = None, ecriture_lib = None\<rparr>,
       \<lparr>jl_entry_id = ''id03'', jl_position = 1, jl_account = acc_number CLIENTS, jl_account_label = acc_label CLIENTS,
         jl_amount = - 12000, jl_aux_number = Some ''CC1'', jl_aux_label = Some ''Acme'', ecriture_lib = None\<rparr>,
       \<lparr>jl_entry_id = ''id03'', jl_position = 2, jl_account = acc_number VAT_PENDING, jl_account_label = acc_label VAT_PENDING,
         jl_amount = 2000, jl_aux_number = None, jl_aux_label = None, ecriture_lib = None\<rparr>,
       \<lparr>jl_entry_id = ''id03'', jl_position = 3, jl_account = acc_number VAT_COLLECTED, jl_account_label = acc_label VAT_COLLECTED,
         jl_amount = - 2000, jl_aux_number = None, jl_aux_label = None, ecriture_lib = None\<rparr>],
       drawn := 4,
       v_bank := [sample_line\<lparr>matched_invoice_id := Some ''id00''\<rparr>],
       v_payments := [\<lparr>pay_id = ''id02'', pay_invoice_id = ''id00'', pay_amount = 12000, received_on = Date 2026 4 2,
         pay_method = BankTransfer, bank_transaction_id = Some ''t1'', voided_at = None\<rparr>]\<rparr>\<rparr>"

definition sample_reply :: emitted_invoice where
  "sample_reply = \<lparr>em_id = ''id00'', em_number = ''FA-2026-0001''\<rparr>"

lemma emission_ok:
  "apply_emit_invoice gregorian sample_sha ci_number sample_benv sample_emission sample_office
     = Some (Inr (sample_reply, sample_emitted))"
  by code_simp

definition sample_match :: reconcile_transaction where
  "sample_match = \<lparr>rc_transaction_id = ''t1'', rc_invoice_id = ''id00''\<rparr>"

lemma matching_ok:
  "apply_reconcile_transaction gregorian sample_benv sample_match sample_emitted = Some (Inr (''id02'', sample_matched))"
  by code_simp

definition unmatching :: "(app_error + uuid option \<times> office) option" where
  "unmatching = apply_unreconcile_transaction gregorian sample_benv ''t1'' sample_matched"

definition sample_unmatched :: office where
  "sample_unmatched = snd (output_of unmatching)"

lemma unmatching_ok:
  "apply_unreconcile_transaction gregorian sample_benv (rc_transaction_id sample_match) sample_matched
     = Some (Inr (fst (output_of unmatching), sample_unmatched))"
proof -
  have "unmatching = Some (Inr (fst (output_of unmatching), sample_unmatched))"
    unfolding sample_unmatched_def by (rule returned_ok) code_simp
  moreover have "rc_transaction_id sample_match = ''t1''" by (simp add: sample_match_def)
  ultimately show ?thesis unfolding unmatching_def by simp
qed

definition sample_credit :: issue_credit_note where
  "sample_credit = \<lparr>cn_invoice_id = ''id00'', cn_issued_on = Date 2026 5 1\<rparr>"

definition crediting_call :: "(app_error + emitted_invoice \<times> office) option" where
  "crediting_call = apply_issue_credit_note gregorian sample_sha ci_number sample_benv sample_credit sample_emitted"

lemma crediting_ok: "crediting_call = Some (Inr (fst (output_of crediting_call), snd (output_of crediting_call)))"
  by (rule returned_ok) code_simp

definition sample_loss :: write_off_receivable where
  "sample_loss = \<lparr>wr_invoice_id = ''id00'', wr_written_off_on = Date 2026 9 1\<rparr>"

definition losing :: "(app_error + invoice_write_off \<times> office) option" where
  "losing = apply_write_off_receivable gregorian sample_benv sample_loss sample_emitted"

lemma losing_ok: "losing = Some (Inr (fst (output_of losing), snd (output_of losing)))"
  by (rule returned_ok) code_simp

definition sample_import :: import_issued_invoice where
  "sample_import = \<lparr>ii_number = ''FA-2026-0001'', ii_client_id = ''c1'', ii_mission_id = None, ii_lines = sample_sale,
     ii_issued_on = Date 2026 2 1, ii_payment_terms_days = 30, ii_credited_invoice_id = None\<rparr>"

definition importing_call :: "(app_error + emitted_invoice \<times> office) option" where
  "importing_call = apply_import_issued_invoice gregorian sample_sha ci_number sample_benv sample_import sample_office"

lemma importing_ok: "importing_call = Some (Inr (fst (output_of importing_call), snd (output_of importing_call)))"
  by (rule returned_ok) code_simp

lemma sample_emits: "billing_step gregorian sample_sha ci_number sample_office
    (Emitted (Date 2026 3 1) sample_reply) sample_emitted"
proof -
  have d: "ei_issued_on sample_emission = Date 2026 3 1" by (simp add: sample_emission_def)
  show ?thesis using emitting [OF emission_ok] unfolding d .
qed

lemma sample_matches: "billing_step gregorian sample_sha ci_number sample_emitted Settled sample_matched"
  using settling settlement_command.intros(6) [OF matching_ok] by blast

lemma sample_billing_run: "run (billing_step gregorian sample_sha ci_number) sample_office
    [Emitted (Date 2026 3 1) sample_reply, Settled] sample_matched"
  by (rule run_Cons, rule sample_emits, rule run_single, rule sample_matches)

lemma sample_empty_office: "invoices sample_office = []" "invoice_sequences sample_office = []" "payments sample_office = []"
  by (simp_all add: sample_office_def sample_vault_def)

lemma bank_office_start:
  "invoices o1 = [] \<Longrightarrow> payments o1 = [] \<Longrightarrow> distinct (map tx_id (bank_lines o1))
     \<Longrightarrow> \<forall>t \<in> set (bank_lines o1). \<not> is_matched t \<and> settlement_label t = None \<Longrightarrow> bank_office o1"
  by (simp add: bank_office_def bank_sound_def bank_of_def list_all_iff line_sound_unmatched live_receipts_def)

lemma sample_bank_office: "bank_office sample_office"
  by (rule bank_office_start) (simp_all add: sample_office_def sample_vault_def sample_line_def is_matched_def)

lemma sample_emitted_office: "bank_office sample_emitted"
  using bank_office_step [OF sample_bank_office sample_emits] .

lemma empty_office_sound: "invoices o1 = [] \<Longrightarrow> invoice_sequences o1 = [] \<Longrightarrow> sound_office T sha json o1"
  by (simp add: sound_office_def numbered_office_def counter_def verify_invoice_chain_def)

section \<open>Properties\<close>

text \<open>C11: The invoices issued here in a year, credit notes included, are numbered FA-year-0001, 0002,
  and so on without gap or repetition, in the order of the register, whatever the commands that ran,
  failed or were refused from an empty office; no identifier and no number is ever used twice.\<close>

theorem numbering_without_gap:
  assumes "run (billing_step T sha json) o0 es o1" "invoices o0 = []" "invoice_sequences o0 = []"
  shows "distinct (map inv_id (invoices o1)) \<and> distinct (map inv_number (invoices o1))
     \<and> (let issued = filter (\<lambda>x. origin x = OriginIssued \<and> dyear (issued_on x) = y) (invoices o1)
        in map inv_number issued = map (\<lambda>k. invoice_number y (int k)) [1 ..< Suc (length issued)])"
proof -
  have s: "sound_office T sha json o1" using billing.run_inv [OF assms(1)] empty_office_sound [OF assms(2,3)] by blast
  then have n: "map inv_number (filter (issued_in y) (invoices o1))
      = map (\<lambda>k. invoice_number y (int k)) [1 ..< Suc (nat (counter o1 y))]"
    by (simp add: sound_office_def numbered_office_def)
  then have "length (filter (issued_in y) (invoices o1)) = nat (counter o1 y)"
    by (metis diff_Suc_1 length_map length_upt)
  with n s show ?thesis by (simp add: sound_office_def issued_in_def [abs_def] Let_def del: upt_Suc)
qed

theorem numbering_without_gap_witness:
  "invoices sample_office = [] \<and> distinct (map inv_number (invoices sample_matched))
   \<and> (let issued = filter (\<lambda>x. origin x = OriginIssued \<and> dyear (issued_on x) = 2026) (invoices sample_matched)
      in map inv_number issued = map (\<lambda>k. invoice_number 2026 (int k)) [1 ..< Suc (length issued)])"
  using numbering_without_gap [OF sample_billing_run sample_empty_office(1,2), of 2026] sample_empty_office(1) by blast



text \<open>C15: No command changes or removes an invoice: over any run the register keeps its invoices and
  gains, in order, exactly those whose identifier and number the commands reported.\<close>

theorem invoices_are_only_added:
  assumes "run (billing_step T sha json) o1 es o2"
  shows "\<exists>new. invoices o2 = invoices o1 @ new \<and> map (\<lambda>x. (inv_id x, inv_number x)) new = concat (map added es)"
  using assms by (rule billing_run_adds)

theorem invoices_are_only_added_witness:
  "\<exists>new. invoices sample_matched = invoices sample_office @ new
     \<and> map (\<lambda>x. (inv_id x, inv_number x)) new
       = concat (map added [Emitted (Date 2026 3 1) sample_reply, Settled])"
  by (rule invoices_are_only_added [OF sample_billing_run])

text \<open>C12: Every command of billing and of expenses changes the payments and the lines of the bank only
  by moves of the abstract machine: a payment is added, or voided; a line arrives unmatched, gives one
  payment, settles an account, pays an expense, is released when it has no live payment, is released
  with its payment, or leaves when no payment names it.\<close>

theorem commands_refine_bank_machine:
  assumes "bank_sound (inv_id ` set (invoices o1)) (payments o1, bank_lines o1)" "billing_step T sha json o1 e o2"
  shows "\<exists>ms. run (bank_move (inv_id ` set (invoices o1))) (payments o1, bank_lines o1) ms (payments o2, bank_lines o2)"
  using step_moves [OF _ assms(2)] assms(1) by (simp add: known_def bank_of_def bank_moves_def)

theorem commands_refine_bank_machine_witness:
  "\<exists>ms. run (bank_move (inv_id ` set (invoices sample_emitted))) (payments sample_emitted, bank_lines sample_emitted) ms
     (payments sample_matched, bank_lines sample_matched)"
  using commands_refine_bank_machine [OF _ sample_matches] sample_emitted_office
  by (simp add: bank_office_def known_def bank_of_def)

text \<open>C10: In every office a run reaches, the tables are well formed: identifiers are unique, every
  payment is positive and names an invoice and a line that exist, a line has at most one use, an
  expense is paid by a debit, and a line matched to an invoice has exactly one live payment, on that
  invoice, of its amount and its day.\<close>

theorem bank_tables_well_formed:
  assumes "run (billing_step T sha json) o0 es o1"
    and "bank_sound (inv_id ` set (invoices o0)) (payments o0, bank_lines o0)"
  shows "bank_sound (inv_id ` set (invoices o1)) (payments o1, bank_lines o1)"
  using tables.run_inv [OF assms(1)] assms(2) by (simp add: bank_office_def known_def bank_of_def)

theorem bank_tables_well_formed_witness:
  "bank_sound (inv_id ` set (invoices sample_matched)) (payments sample_matched, bank_lines sample_matched)"
  using bank_tables_well_formed [OF sample_billing_run] sample_bank_office by (simp add: bank_office_def known_def bank_of_def)


text \<open>C13: A credit note negates every line of its invoice, and the invoice is then owed exactly what was
  paid on it, back to the client; whatever runs afterwards, a second credit note on it is refused.\<close>

theorem credit_note_settles:
  assumes "apply_issue_credit_note T sha json v c o1 = Some (Inr (em, o2))"
    and "invoice_by_id o1 (cn_invoice_id c) = Some x" "compute_totals (inv_lines x) = Some t"
    and "compute_totals (map negate_line (inv_lines x)) = Some t'" "\<forall>l \<in> set (inv_lines x). amount_of l \<noteq> - (2 ^ 63)"
  shows "outstanding_of o2 x = Some (- sum_list (map pay_amount
        (filter (\<lambda>p. pay_invoice_id p = inv_id x \<and> \<not> is_voided p) (payments o2))))
     \<and> (\<forall>es o3 v' c'. run (billing_step T sha json) o2 es o3 \<and> cn_invoice_id c' = cn_invoice_id c
          \<longrightarrow> apply_issue_credit_note T sha json v' c' o3 = refuse (AlreadyCredited (cn_invoice_id c)))"
proof -
  note o = credited_once [OF assms(1,2)]
  have i: "inv_id x = cn_invoice_id c" using invoice_by_id_Some [OF assms(2)] by simp
  have "credited_total o2 (inv_id x) = Some (total_ttc t')" using o assms(4) by (simp add: credited_total_def i)
  moreover have "active_write_off_for o2 (inv_id x) = None" using o by (simp add: active_write_off_for_def i)
  ultimately have "outstanding_of o2 x = Some (- paid_on o2 (inv_id x))"
    using outstanding_Some [OF assms(3), of o2] credit_note_cancels [OF assms(3-5)] by simp
  moreover have "apply_issue_credit_note T sha json v' c' o3 = refuse (AlreadyCredited (cn_invoice_id c))"
    if "run (billing_step T sha json) o2 es o3" "cn_invoice_id c' = cn_invoice_id c" for es o3 v' c'
    using that o credit_refused_again invoice_later [OF that(1)] has_credit_note_later [OF that(1)] by metis
  ultimately show ?thesis unfolding paid_on_def by blast
qed

theorem credit_note_settles_witness:
  "\<exists>em o2. apply_issue_credit_note gregorian sample_sha ci_number sample_benv sample_credit sample_emitted = Some (Inr (em, o2))
     \<and> outstanding_of o2 (the (invoice_by_id sample_emitted ''id00''))
       = Some (- sum_list (map pay_amount (filter (\<lambda>p. pay_invoice_id p = ''id00'' \<and> \<not> is_voided p) (payments o2))))"
proof -
  let ?x = "the (invoice_by_id sample_emitted ''id00'')"
  have x: "invoice_by_id sample_emitted (cn_invoice_id sample_credit) \<noteq> None \<and> cn_invoice_id sample_credit = ''id00''
      \<and> inv_id ?x = ''id00'' \<and> inv_lines ?x = sample_sale" by code_simp
  have t: "compute_totals sample_sale \<noteq> None" "compute_totals (map negate_line sample_sale) \<noteq> None"
    "\<forall>l \<in> set sample_sale. amount_of l \<noteq> - (2 ^ 63)" by code_simp+
  then obtain t1 t2 where "compute_totals (inv_lines ?x) = Some t1" "compute_totals (map negate_line (inv_lines ?x)) = Some t2"
    using x by auto
  from credit_note_settles [OF crediting_ok [unfolded crediting_call_def] _ this] x t(3)
  show ?thesis using crediting_ok [unfolded crediting_call_def] by fastforce
qed

text \<open>C18: Once an invoice imported from elsewhere carries the next number of a year, no invoice and no
  credit note of that year is ever issued again, whatever runs afterwards.\<close>

theorem imported_number_blocks_year:
  assumes "apply_import_issued_invoice T sha json v c o1 = Some (Inr (em, o2))"
    and "trim (ii_number c) = invoice_number y (counter o1 y + 1)" "run (billing_step T sha json) o2 es o3"
  shows "\<forall>e \<in> set es. \<not> numbers_in y e"
  using assms(1)
proof (rule import_Inr)
  assume add: "add_invoice T sha json v (draft_invoice (trim (ii_number c)) (ii_client_id c) (ii_mission_id c) (ii_lines c) OriginImported
       (ii_issued_on c) (due_date T (ii_issued_on c) (ii_payment_terms_days c)) (ii_credited_invoice_id c)) o1 = Some (Inr (em, o2))"
  have "blocked_year y o2"
    using add_invoice_Inr(1) [OF add] counter_cong [OF add_invoice_Inr(5) [OF add]] assms(2) by (simp add: blocked_year_def)
  from blocked.run_allowed [OF assms(3) this] show ?thesis .
qed

theorem imported_number_blocks_year_witness:
  "\<exists>em o2. apply_import_issued_invoice gregorian sample_sha ci_number sample_benv sample_import sample_office = Some (Inr (em, o2))
     \<and> list_all (\<lambda>e. \<not> numbers_in 2026 e) [ElsewhereChanged]"
proof -
  let ?o = "snd (output_of importing_call)"
  have "run (billing_step gregorian sample_sha ci_number) ?o [ElsewhereChanged] ?o"
    by (rule run_single, rule elsewhere) (simp add: own_tables_kept_def)
  moreover have "trim (ii_number sample_import) = invoice_number 2026 (counter sample_office 2026 + 1)" by code_simp
  ultimately show ?thesis
    using imported_number_blocks_year [OF importing_ok [unfolded importing_call_def]] importing_ok [unfolded importing_call_def]
    by (fastforce simp: list_all_iff)
qed

text \<open>C17: Undoing the reconciliation of a line restores the statement and every balance as they were
  before it, and leaves the payment in the register, voided.\<close>

theorem unreconcile_undoes_reconcile:
  assumes "bank_sound (inv_id ` set (invoices o1)) (payments o1, bank_lines o1)"
    and "apply_reconcile_transaction T v c o1 = Some (Inr (p, o2))"
    and "apply_unreconcile_transaction T v' (rc_transaction_id c) o2 = Some (Inr (q, o3))"
  shows "q = Some p \<and> bank_lines o3 = bank_lines o1 \<and> outstanding_of o3 = outstanding_of o1
     \<and> (\<exists>w. payments o3 = payments o1 @ [w] \<and> pay_id w = p \<and> is_voided w)"
  using unreconcile_restores [OF _ assms(2,3)] assms(1) by (simp add: bank_office_def known_def bank_of_def)

theorem unreconcile_undoes_reconcile_witness:
  "bank_lines sample_unmatched = bank_lines sample_emitted \<and> bank_lines sample_matched \<noteq> bank_lines sample_emitted"
proof -
  have "bank_lines sample_unmatched = bank_lines sample_emitted"
    using unreconcile_undoes_reconcile [OF _ matching_ok unmatching_ok] sample_emitted_office by (simp add: bank_office_def known_def bank_of_def)
  moreover have "bank_lines sample_matched \<noteq> bank_lines sample_emitted" by code_simp
  ultimately show ?thesis by blast
qed

text \<open>C19: Once a line was reconciled with an invoice it can never be deleted, even after the
  reconciliation is undone: while it is matched the deletion is refused, and afterwards it fails on the
  foreign key of the voided payment, with an error of the database.\<close>

theorem reconciled_line_is_never_deleted:
  assumes "bank_sound (inv_id ` set (invoices o1)) (payments o1, bank_lines o1)"
    and "apply_reconcile_transaction T v c o1 = Some (Inr (p, o2))" "run (billing_step T sha json) o2 es o3"
  shows "\<exists>t. bank_transaction_by_id o3 (rc_transaction_id c) = Some t
     \<and> apply_delete_bank_transaction (rc_transaction_id c) o3
       = (if is_matched t then refuse (TransactionStillMatched (rc_transaction_id c)) else fail Sqlite)"
proof -
  have "bank_office o2"
    using bank_office_step [OF _ settling, OF _ settlement_command.intros(6) [OF assms(2)]] assms(1)
    by (simp add: bank_office_def known_def bank_of_def)
  moreover have "Some (rc_transaction_id c) \<in> bank_transaction_id ` set (payments o2)"
    by (rule reconcile_tables [OF assms(2)]) force
  ultimately show ?thesis using run_keys [OF assms(3)] keyed_line_stays by blast
qed

theorem reconciled_line_is_never_deleted_witness:
  "\<not> is_matched (the (bank_transaction_by_id sample_unmatched ''t1''))
   \<and> apply_delete_bank_transaction ''t1'' sample_unmatched = fail Sqlite"
proof -
  have "run (billing_step gregorian sample_sha ci_number) sample_matched [Settled] sample_unmatched"
    by (rule run_single, rule settling, rule settlement_command.intros(7), rule unmatching_ok)
  from reconciled_line_is_never_deleted [OF _ matching_ok this] sample_emitted_office
  obtain t where "bank_transaction_by_id sample_unmatched ''t1'' = Some t" "apply_delete_bank_transaction ''t1'' sample_unmatched
      = (if is_matched t then refuse (TransactionStillMatched ''t1'') else fail Sqlite)"
    by (auto simp: bank_office_def known_def bank_of_def sample_match_def)
  moreover have "bank_lines sample_unmatched = bank_lines sample_emitted"
    using unreconcile_restores [OF sample_emitted_office matching_ok unmatching_ok] by blast
  then have "\<not> is_matched (the (bank_transaction_by_id sample_unmatched ''t1''))"
    by (simp add: bank_transaction_by_id_def sample_emitted_def sample_office_def sample_vault_def sample_line_def is_matched_def)
  ultimately show ?thesis by simp
qed

text \<open>C16: A write-off covers exactly what is still owed, split without loss between the amount before
  tax and the VAT, and leaves nothing outstanding.\<close>

theorem write_off_clears_the_balance:
  assumes "apply_write_off_receivable T v c o1 = Some (Inr (w, o2))" "invoice_by_id o1 (wr_invoice_id c) = Some iv"
  shows "outstanding_of o1 iv = Some (wo_ttc w) \<and> wo_ttc w = wo_ht w + wo_vat w \<and> outstanding_of o2 iv = Some 0"
  using write_off_settles [OF assms] by simp

theorem write_off_clears_the_balance_witness:
  "wo_ttc (fst (output_of losing)) = wo_ht (fst (output_of losing)) + wo_vat (fst (output_of losing))
   \<and> outstanding_of (snd (output_of losing)) (the (invoice_by_id sample_emitted ''id00'')) = Some 0"
proof -
  have "invoice_by_id sample_emitted (wr_invoice_id sample_loss) \<noteq> None" "wr_invoice_id sample_loss = ''id00''" by code_simp+
  then obtain iv where iv: "invoice_by_id sample_emitted ''id00'' = Some iv" "invoice_by_id sample_emitted (wr_invoice_id sample_loss) = Some iv"
    by auto
  from write_off_clears_the_balance [OF losing_ok [unfolded losing_def] iv(2)] iv(1)
  show ?thesis unfolding losing_def by simp
qed

text \<open>The VAT of an invoice computed and rounded at a rate is always accepted as deductible on its
  total including tax, for every amount before tax; what is accepted exceeds the exact share of the VAT
  in the total by less than a cent.\<close>

lemma invoiced_vat_is_deductible:
  assumes "0 < ht" "tax_on r ht = Some vat" "in_i64 (ht + vat)" "0 < ht + vat"
  shows "posted_vat False (ht + vat) r vat = ok vat
     \<and> (ht + vat) * int (basis_points r) \<le> (10000 + int (basis_points r)) * max_deductible_vat (ht + vat) r
     \<and> (10000 + int (basis_points r)) * max_deductible_vat (ht + vat) r
         < (ht + vat) * int (basis_points r) + (10000 + int (basis_points r))"
  using invoiced_vat_accepted [OF assms(1-3)] max_vat_bounds [OF assms(4,3), of r]
  by (simp add: posted_vat_def ensure_vat_within_amount_def Let_def and_do_def ok_def)

text \<open>C20: Attaching or replacing the receipt of a paid expense whose entry lies in a closed exercise is
  refused: the name of the file is part of the label of the kept entry, so that the entry would have to
  be reversed in the closed exercise.\<close>

theorem attach_receipt_refused_after_closing:
  assumes "expense_by_id o1 (ar_id c) = Some e" "exp_revision e = ar_revision c"
      "receipt_filename e \<noteq> Some (ar_receipt_filename c)" "in_i64 (exp_revision e + 1)"
    and "live_payment T (books o1) (ar_id c) = Inr (Some live)"
    and "desired_entry T (books o1) (ar_id c) = Some (Some d)" "same_booking (st_entry live) d"
    and "date_in_recorded_exercise T (books o1) (le_date (st_entry live))"
  shows "\<exists>m. apply_attach_receipt T v c o1 = fail (Domain m)"
  using assms by (rule attach_receipt_blocked)

definition sample_closed :: office where
  "sample_closed = sample_office\<lparr>books := (sample_vault 4200)\<lparr>
     heads := [\<lparr>jh_id = ''id00'', jh_journal = ''AC'', jh_date = ''2026-03-10'', jh_piece_ref = ''DEP-e1'',
       jh_piece_date = ''2026-03-10'',
       jh_label = ''Train '' @ em_dash @ '' pay'' @ e_acute @ '' par l'' @ [CHR 0x27] @ ''associ'' @ e_acute,
       source_kind = ''expense_payment'', source_id = ''e1'', reversal_of = None, reversed_at = None, jh_created_at = ''now''\<rparr>],
     jlines := [
       \<lparr>jl_entry_id = ''id00'', jl_position = 0, jl_account = acc_number TRAVEL, jl_account_label = acc_label TRAVEL,
         jl_amount = 4200, jl_aux_number = None, jl_aux_label = None, ecriture_lib = None\<rparr>,
       \<lparr>jl_entry_id = ''id00'', jl_position = 1, jl_account = acc_number SHAREHOLDER_ACCOUNT,
         jl_account_label = acc_label SHAREHOLDER_ACCOUNT,
         jl_amount = - 4200, jl_aux_number = None, jl_aux_label = None, ecriture_lib = None\<rparr>],
     drawn := 1,
     v_years := [sample_record\<lparr>starts_on := Date 2026 1 1, ends_on := Date 2026 12 31\<rparr>]\<rparr>\<rparr>"

definition sample_receipt :: attach_receipt where
  "sample_receipt = \<lparr>ar_id = ''e1'', ar_revision = 1, ar_receipt_hash = ''h'', ar_receipt_filename = ''train.pdf''\<rparr>"

lemma sample_paid_and_closed:
  "case (expense_by_id sample_closed (ar_id sample_receipt), live_payment gregorian (books sample_closed) (ar_id sample_receipt),
      desired_entry gregorian (books sample_closed) (ar_id sample_receipt)) of
     (Some e, Inr (Some live), Some (Some d)) \<Rightarrow> exp_revision e = ar_revision sample_receipt
       \<and> receipt_filename e \<noteq> Some (ar_receipt_filename sample_receipt) \<and> in_i64 (exp_revision e + 1) \<and> same_booking (st_entry live) d
       \<and> date_in_recorded_exercise gregorian (books sample_closed) (le_date (st_entry live))
   | _ \<Rightarrow> False"
  by code_simp

theorem attach_receipt_refused_after_closing_witness:
  "\<exists>m. apply_attach_receipt gregorian sample_benv sample_receipt sample_closed = fail (Domain m)"
proof -
  obtain e live d where "expense_by_id sample_closed (ar_id sample_receipt) = Some e"
    "exp_revision e = ar_revision sample_receipt" "receipt_filename e \<noteq> Some (ar_receipt_filename sample_receipt)"
    "in_i64 (exp_revision e + 1)" "live_payment gregorian (books sample_closed) (ar_id sample_receipt) = Inr (Some live)"
    "desired_entry gregorian (books sample_closed) (ar_id sample_receipt) = Some (Some d)"
    "same_booking (st_entry live) d" "date_in_recorded_exercise gregorian (books sample_closed) (le_date (st_entry live))"
    using sample_paid_and_closed by (auto split: option.splits sum.splits)
  then show ?thesis by (rule attach_receipt_refused_after_closing)
qed

end
