(* ===== verification/Vat_Return.thy ===== *)
theory Vat_Return
  imports Journal Calendar
begin

text \<open>
  The VAT return: what \<open>accounting.rs\<close> reads on the books for a month and for a period, the CA3
  periods of \<open>fiscal.rs\<close> and the boxes of the form in \<open>society/mod.rs\<close>, with the tables of
  \<open>society/vat_carry.rs\<close>, \<open>vat_reversal.rs\<close>, \<open>vat_refund.rs\<close> and \<open>filings.rs\<close> they read. The desk is the
  state: the vault of the kept journal and the other tables, as decoded records in the order of
  their insertion. The books are rebuilt from it at every reading, as \<open>build_ledger\<close> does. A result is
  \<open>None\<close> for a panic, else an error or a value.
\<close>

section \<open>The desk\<close>

record vat_carry_in =
  after_period :: string
  ci_credit :: money
  ci_source :: "string option"
  ci_revision :: int
  ci_created_at :: string

record vat_reversal =
  rv_period_key :: string
  rv_amount :: money
  recorded_on :: date

record vat_refund =
  rf_period_key :: string
  rf_amount :: money
  requested_on :: date

datatype fiscal_deadline_kind =
    Ca3 | VatInstalment | Ca12 | IsAcompte | IsSolde | Cfe | Liasse | ApprovalMeeting
  | AccountsFiling | Dsn | Das2 | Dividends2777

fun deadline_kind_as_str :: "fiscal_deadline_kind \<Rightarrow> string" where
  "deadline_kind_as_str Ca3 = ''ca3''"
| "deadline_kind_as_str VatInstalment = ''vat_acompte''"
| "deadline_kind_as_str Ca12 = ''ca12''"
| "deadline_kind_as_str IsAcompte = ''is_acompte''"
| "deadline_kind_as_str IsSolde = ''is_solde''"
| "deadline_kind_as_str Cfe = ''cfe''"
| "deadline_kind_as_str Liasse = ''liasse''"
| "deadline_kind_as_str ApprovalMeeting = ''approval_meeting''"
| "deadline_kind_as_str AccountsFiling = ''accounts_filing''"
| "deadline_kind_as_str Dsn = ''dsn''"
| "deadline_kind_as_str Das2 = ''das2''"
| "deadline_kind_as_str Dividends2777 = ''dividends_2777''"

definition deadline_kind_parse :: "string \<Rightarrow> fiscal_deadline_kind option" where
  "deadline_kind_parse s =
     (if s = ''ca3'' then Some Ca3
      else if s = ''vat_acompte'' \<or> s = ''vat-acompte'' then Some VatInstalment
      else if s = ''ca12'' then Some Ca12
      else if s = ''is_acompte'' \<or> s = ''is-acompte'' then Some IsAcompte
      else if s = ''is_solde'' \<or> s = ''is-solde'' then Some IsSolde
      else if s = ''cfe'' then Some Cfe
      else if s = ''liasse'' then Some Liasse
      else if s = ''approval_meeting'' \<or> s = ''approval-meeting'' then Some ApprovalMeeting
      else if s = ''accounts_filing'' \<or> s = ''accounts-filing'' then Some AccountsFiling
      else if s = ''dsn'' then Some Dsn
      else if s = ''das2'' then Some Das2
      else if s = ''dividends_2777'' \<or> s = ''dividends-2777'' then Some Dividends2777
      else None)"

record duty_filing =
  df_id :: uuid
  df_kind :: fiscal_deadline_kind
  df_period_key :: string
  due_on :: date
  filed_on :: date

record desk =
  dk_profile :: "company_profile option"
  dk_opening :: "opening_balance option"
  dk_books :: vault
  dk_write_offs :: "invoice_write_off list"
  carry_row :: "vat_carry_in option"
  reversals :: "vat_reversal list"
  refunds :: "vat_refund list"
  filings :: "duty_filing list"

definition vat_reversal_for :: "desk \<Rightarrow> string \<Rightarrow> vat_reversal option" where
  "vat_reversal_for dk key = find (\<lambda>r. rv_period_key r = key) (reversals dk)"

definition vat_refund_for :: "desk \<Rightarrow> string \<Rightarrow> vat_refund option" where
  "vat_refund_for dk key = find (\<lambda>r. rf_period_key r = key) (refunds dk)"

definition filing_for :: "desk \<Rightarrow> fiscal_deadline_kind \<Rightarrow> string \<Rightarrow> duty_filing option" where
  "filing_for dk k key = find (\<lambda>f. df_kind f = k \<and> df_period_key f = key) (filings dk)"

definition reversal_amount :: "desk \<Rightarrow> string \<Rightarrow> money" where
  "reversal_amount dk key = (case vat_reversal_for dk key of None \<Rightarrow> 0 | Some r \<Rightarrow> rv_amount r)"

definition refund_amount :: "desk \<Rightarrow> string \<Rightarrow> money" where
  "refund_amount dk key = (case vat_refund_for dk key of None \<Rightarrow> 0 | Some r \<Rightarrow> rf_amount r)"

section \<open>The books\<close>

definition no_profile :: app_error where
  "no_profile = Domain ((''aucun profil d'' @ [CHR 0x27] @ ''entreprise d'' @ e_acute @ ''fini : le grand livre en d'' @ e_acute @ ''pend (company set-profile)''))"

fun ledger_error_text :: "ledger_error \<Rightarrow> string" where
  "ledger_error_text Overflow =
     ((''les montants du grand livre sont trop grands pour '' @ [CHR 0xC3, CHR 0xAA] @ ''tre totalis'' @ e_acute @ ''s sans d'' @ e_acute @ ''border '' @ em_dash @ '' v'' @ e_acute @ ''rifiez les montants saisis (une ligne de bilan ou une facture aberrante)''))"

text \<open>Each table in the order of its query; what the query leaves tied keeps the order of insertion.\<close>

definition read_facts :: "time_api \<Rightarrow> desk \<Rightarrow> app_error + loaded" where
  "read_facts T dk =
     (case dk_profile dk of
        None \<Rightarrow> Inl no_profile
      | Some profile \<Rightarrow>
          and_then (list_entries T (dk_books dk)) (\<lambda>es. Inr
            \<lparr>ld_profile = profile,
             ld_invoices = rev (v_invoices (dk_books dk)),
             ld_write_offs = sort_key (\<lambda>w. (written_off_on w, wo_id w)) (dk_write_offs dk),
             ld_clients = sort_key client_created_at (v_clients (dk_books dk)),
             ld_payments = rev (sort_key (\<lambda>p. (received_on p, pay_id p)) (v_payments (dk_books dk))),
             ld_expenses = rev (sort_key (\<lambda>x. (incurred_on x, exp_created_at x)) (v_expenses (dk_books dk))),
             ld_assets = sort_key (\<lambda>a. (acquired_on a, fa_created_at a)) (v_assets (dk_books dk)),
             ld_bank_transactions = rev (sort_key (\<lambda>t. (occurred_on t, tx_id t)) (v_bank (dk_books dk))),
             ld_posted = es,
             ld_opening = dk_opening dk,
             ld_fiscal_years = sort_key starts_on (v_years (dk_books dk))\<rparr>))"

text \<open>A recursion over exercises that does not end exhausts the stack, which is a panic too.\<close>

definition build_ledger :: "time_api \<Rightarrow> desk \<Rightarrow> fiscal_year \<Rightarrow> (app_error + ledger) option" where
  "build_ledger T dk ex =
     (case read_facts T dk of
        Inl e \<Rightarrow> fail e
      | Inr ld \<Rightarrow>
          do { built \<leftarrow> loaded_ledger T ld ex;
               r \<leftarrow> built;
               case r of Inl e \<Rightarrow> fail (Domain (ledger_error_text e)) | Inr l \<Rightarrow> ok l })"

section \<open>A month on the books\<close>

record ca3_month =
  collected :: money
  collected_signed :: money
  taxable_ht :: money
  deductible_book :: money
  deductible_rounded :: money
  deductible_assets :: money
  deductible_other :: money
  credit_on_book :: money
  intracom :: money

definition Ca3Month_ZERO :: ca3_month where
  "Ca3Month_ZERO =
     \<lparr>collected = 0, collected_signed = 0, taxable_ht = 0, deductible_book = 0, deductible_rounded = 0,
      deductible_assets = 0, deductible_other = 0, credit_on_book = 0, intracom = 0\<rparr>"

definition account_sum :: "ledger_entry \<Rightarrow> string \<Rightarrow> money" where
  "account_sum e n =
     sum_list (map ll_amount (filter (\<lambda>l. acc_number (ll_account l) = n) (le_lines e)))"

definition transfers_pending_vat :: "ledger_entry \<Rightarrow> bool" where
  "transfers_pending_vat e \<longleftrightarrow> account_sum e (acc_number VAT_PENDING) \<noteq> 0 \<and> account_sum e (acc_number VAT_COLLECTED) \<noteq> 0"

definition debits_asset :: "ledger_entry \<Rightarrow> bool" where
  "debits_asset e \<longleftrightarrow>
     list_ex (\<lambda>l. (case acc_number (ll_account l) of c # _ \<Rightarrow> c = CHR ''2'' | [] \<Rightarrow> False) \<and> ll_amount l > 0) (le_lines e)"

definition own_ca3_piece :: "string \<Rightarrow> string \<Rightarrow> bool" where
  "own_ca3_piece key piece \<longleftrightarrow> piece = ''CA3-'' @ key \<or> piece = ''EXT-CA3-'' @ key"

definition sum_account :: "ledger \<Rightarrow> string \<Rightarrow> (ledger_entry \<Rightarrow> bool) \<Rightarrow> money" where
  "sum_account l n keep =
     sum_list (map ll_amount (filter (\<lambda>x. acc_number (ll_account x) = n) (concat (map le_lines (filter keep (l_entries l))))))"

text \<open>The mutable locals of the loop over the entries of the window.\<close>

record ca3_sums =
  s_collected :: money
  s_taxable :: money
  raw_assets :: money
  raw_other :: money
  intracom_deductible :: money
  intracom_due :: money

definition ca3_step :: "ledger_entry \<Rightarrow> ca3_sums \<Rightarrow> ca3_sums" where
  "ca3_step e s =
     (let s1 = (if transfers_pending_vat e
                then let pending = account_sum e (acc_number VAT_COLLECTED);
                         clients = account_sum e (acc_number CLIENTS)
                     in s\<lparr>s_collected := s_collected s + pending, s_taxable := s_taxable s + (- clients + pending)\<rparr>
                else s);
          deductible = account_sum e (acc_number VAT_DEDUCTIBLE);
          s2 = (if deductible = 0 then s1
                else if debits_asset e then s1\<lparr>raw_assets := raw_assets s1 + deductible\<rparr>
                else s1\<lparr>raw_other := raw_other s1 + deductible\<rparr>)
      in s2\<lparr>intracom_deductible := intracom_deductible s2 + account_sum e (acc_number VAT_INTRACOM_DEDUCTIBLE),
            intracom_due := intracom_due s2 + account_sum e (acc_number VAT_INTRACOM_DUE)\<rparr>)"

definition ca3_movement :: "date \<Rightarrow> date \<Rightarrow> string \<Rightarrow> ledger_entry \<Rightarrow> bool" where
  "ca3_movement s t key e \<longleftrightarrow> le_date e \<ge> s \<and> le_date e \<le> t \<and> le_journal e \<noteq> Opening \<and> \<not> own_ca3_piece key (piece_ref e)"

definition ca3_sums_of :: "ledger_entry list \<Rightarrow> ca3_sums" where
  "ca3_sums_of es =
     fold ca3_step es \<lparr>s_collected = 0, s_taxable = 0, raw_assets = 0, raw_other = 0, intracom_deductible = 0, intracom_due = 0\<rparr>"

definition ca3_of_sums :: "ca3_sums \<Rightarrow> money \<Rightarrow> ca3_month" where
  "ca3_of_sums s credit =
     (let net = raw_assets s + raw_other s;
          book = (if net < 0 then 0 else net);
          rounded = round_to_euro book;
          assets_base = (if raw_assets s > 0 then raw_assets s else 0);
          assets0 = round_to_euro assets_base;
          assets = (if assets0 > rounded then rounded else assets0)
      in \<lparr>collected = (if s_collected s < 0 then - s_collected s else 0),
          collected_signed = s_collected s, taxable_ht = s_taxable s, deductible_book = book,
          deductible_rounded = rounded, deductible_assets = assets, deductible_other = rounded - assets,
          credit_on_book = credit,
          intracom = (if intracom_deductible s = - intracom_due s then intracom_deductible s else 0)\<rparr>)"

definition ca3_on_ledger :: "ledger \<Rightarrow> date \<Rightarrow> date \<Rightarrow> string \<Rightarrow> ca3_month" where
  "ca3_on_ledger l s t key =
     ca3_of_sums (ca3_sums_of (filter (ca3_movement s t key) (l_entries l)))
       (sum_account l (acc_number VAT_CREDIT) (\<lambda>e. le_date e \<le> t \<and> \<not> own_ca3_piece key (piece_ref e)))"

definition ca3_window :: "time_api \<Rightarrow> desk \<Rightarrow> date \<Rightarrow> date \<Rightarrow> string \<Rightarrow> (app_error + ca3_month) option" where
  "ca3_window T dk s t key =
     (case dk_profile dk of
        None \<Rightarrow> ok Ca3Month_ZERO
      | Some profile \<Rightarrow>
          do { ex \<leftarrow> containing T (case fiscal_year_end_of profile of None \<Rightarrow> fye_CALENDAR | Some e \<Rightarrow> e) t;
               and_do (build_ledger T dk ex) (\<lambda>l. ok (ca3_on_ledger l s t key)) })"

definition ca3_month_of :: "time_api \<Rightarrow> desk \<Rightarrow> month \<Rightarrow> (app_error + ca3_month) option" where
  "ca3_month_of T dk mo =
     do { s \<leftarrow> first_day T mo; t \<leftarrow> last_day T mo; ca3_window T dk s t (display_month mo) }"

section \<open>The return of a period\<close>

record vat_return =
  period_start :: date
  period_end :: date
  vr_collected :: money
  vr_deductible :: money
  vr_due :: money
  collected_by_rate :: "vat_breakdown_line list"
  vr_deductible_assets :: money
  vr_deductible_other :: money
  vr_taxable_ht :: money

record vat_acc =
  a_collected :: money
  a_deductible :: money
  a_assets :: money
  a_other :: money
  a_taxable :: money

definition vat_acc_ZERO :: vat_acc where
  "vat_acc_ZERO = \<lparr>a_collected = 0, a_deductible = 0, a_assets = 0, a_other = 0, a_taxable = 0\<rparr>"

definition add_part :: "ca3_month \<Rightarrow> vat_acc \<Rightarrow> vat_acc" where
  "add_part p acc =
     \<lparr>a_collected = a_collected acc + collected p, a_deductible = a_deductible acc + deductible_rounded p,
      a_assets = a_assets acc + deductible_assets p, a_other = a_other acc + deductible_other p,
      a_taxable = a_taxable acc + taxable_ht p\<rparr>"

text \<open>One round of the loop, without its exit.\<close>

definition add_month :: "time_api \<Rightarrow> desk \<Rightarrow> date \<Rightarrow> date \<Rightarrow> month \<Rightarrow> vat_acc \<Rightarrow> (app_error + vat_acc) option" where
  "add_month T dk s e mo acc =
     do { f \<leftarrow> first_day T mo; t \<leftarrow> last_day T mo;
          if max f s \<le> min t e
          then and_do (ca3_window T dk (max f s) (min t e) (display_month mo)) (\<lambda>p. ok (add_part p acc))
          else ok acc }"

text \<open>The loop has no bound of its own: its outer \<open>None\<close> is a loop that does not end.\<close>

partial_function (option) vat_months ::
    "time_api \<Rightarrow> desk \<Rightarrow> date \<Rightarrow> date \<Rightarrow> month \<Rightarrow> month \<Rightarrow> vat_acc \<Rightarrow> (app_error + vat_acc) option option" where
  "vat_months T dk s e final mo acc =
     (case add_month T dk s e mo acc of
        None \<Rightarrow> Some None
      | Some (Inl err) \<Rightarrow> Some (fail err)
      | Some (Inr acc1) \<Rightarrow>
          if mo = final then Some (ok acc1) else vat_months T dk s e final (month_succ mo) acc1)"

declare vat_months.simps [code]

definition return_of :: "date \<Rightarrow> date \<Rightarrow> vat_acc \<Rightarrow> vat_return" where
  "return_of s e acc =
     \<lparr>period_start = s, period_end = e, vr_collected = a_collected acc, vr_deductible = a_deductible acc,
      vr_due = a_collected acc - a_deductible acc,
      collected_by_rate =
        (if a_collected acc = 0 \<and> a_taxable acc = 0 then []
         else [\<lparr>vb_rate = Standard, taxable_amount = a_taxable acc, vat_amount = a_collected acc\<rparr>]),
      vr_deductible_assets = a_assets acc, vr_deductible_other = a_other acc, vr_taxable_ht = a_taxable acc\<rparr>"

definition vat_due_loop :: "time_api \<Rightarrow> desk \<Rightarrow> date \<Rightarrow> date \<Rightarrow> (app_error + vat_return) option option" where
  "vat_due_loop T dk s e =
     (if s \<le> e
      then case (month_new (dyear s) (dmonth s), month_new (dyear e) (dmonth e)) of
             (Inr mo, Inr final) \<Rightarrow>
               do { r \<leftarrow> vat_months T dk s e final mo vat_acc_ZERO;
                    Some (and_do r (\<lambda>acc. ok (return_of s e acc))) }
           | _ \<Rightarrow> Some None
      else Some (ok (return_of s e vat_acc_ZERO)))"

definition vat_due_for_period :: "time_api \<Rightarrow> desk \<Rightarrow> date \<Rightarrow> date \<Rightarrow> (app_error + vat_return) option" where
  "vat_due_for_period T dk s e = do { r \<leftarrow> vat_due_loop T dk s e; r }"

section \<open>Periods\<close>

datatype ca3_periodicity = Monthly | Quarterly

fun from_regime :: "vat_regime option \<Rightarrow> ca3_periodicity option" where
  "from_regime None = Some Monthly"
| "from_regime (Some RealNormalMonthly) = Some Monthly"
| "from_regime (Some RealNormalQuarterly) = Some Quarterly"
| "from_regime (Some RealSimplified) = None"
| "from_regime (Some Franchise) = None"

fun files_in :: "ca3_periodicity \<Rightarrow> month \<Rightarrow> bool" where
  "files_in Monthly mo \<longleftrightarrow> True"
| "files_in Quarterly mo \<longleftrightarrow> m_month mo \<in> {1, 4, 7, 10}"

fun period_first_month :: "ca3_periodicity \<Rightarrow> month \<Rightarrow> month" where
  "period_first_month Monthly mo = month_pred mo"
| "period_first_month Quarterly mo = month_pred (month_pred (month_pred mo))"

record ca3_filing =
  cf_period_start :: month
  cf_period_end :: month
  nominal_due_on :: date
  cf_due_on :: date

definition nth_of_month :: "time_api \<Rightarrow> month \<Rightarrow> nat \<Rightarrow> date option" where
  "nth_of_month T mo d = from_calendar_date T (m_year mo) (m_month mo) d"

text \<open>The derived order of \<open>Month\<close>: the year, then the month.\<close>

definition month_le :: "month \<Rightarrow> month \<Rightarrow> bool" where
  "month_le a b \<longleftrightarrow> m_year a < m_year b \<or> m_year a = m_year b \<and> m_month a \<le> m_month b"

partial_function (option) filing_loop ::
    "time_api \<Rightarrow> date \<Rightarrow> ca3_periodicity \<Rightarrow> nat \<Rightarrow> month option \<Rightarrow> month \<Rightarrow> ca3_filing option" where
  "filing_loop T today per d earliest mo =
     (if files_in per mo
      then do { nominal \<leftarrow> nth_of_month T mo d;
                due \<leftarrow> next_french_business_day_on_or_after T nominal;
                if due \<ge> today \<and> (case earliest of None \<Rightarrow> True | Some x \<Rightarrow> month_le x (period_first_month per mo))
                then Some \<lparr>cf_period_start = period_first_month per mo, cf_period_end = month_pred mo,
                           nominal_due_on = nominal, cf_due_on = due\<rparr>
                else filing_loop T today per d earliest (month_succ mo) }
      else filing_loop T today per d earliest (month_succ mo))"

declare filing_loop.simps [code]

definition next_ca3_filing_from ::
    "time_api \<Rightarrow> date \<Rightarrow> ca3_periodicity \<Rightarrow> nat \<Rightarrow> month option \<Rightarrow> ca3_filing option" where
  "next_ca3_filing_from T today per d earliest =
     (case month_new (dyear today) (dmonth today) of
        Inl _ \<Rightarrow> None
      | Inr mo \<Rightarrow> filing_loop T today per (max EARLIEST_DAY (min d 24)) earliest mo)"

definition next_ca3_filing :: "time_api \<Rightarrow> date \<Rightarrow> ca3_periodicity \<Rightarrow> nat \<Rightarrow> ca3_filing option" where
  "next_ca3_filing T today per d = next_ca3_filing_from T today per d None"

definition CA12_REFUND_THRESHOLD :: money where "CA12_REFUND_THRESHOLD = 15000"
definition VAT_REFUND_IN_YEAR_THRESHOLD :: money where "VAT_REFUND_IN_YEAR_THRESHOLD = 76000"

definition ca3_period_key :: "month \<Rightarrow> string" where
  "ca3_period_key mo = pad_int 4 (m_year mo) @ ''-'' @ show_2 (m_month mo)"

text \<open>\<open>str::parse\<close> at \<open>i32\<close> and \<open>u8\<close>.\<close>

definition parse_i32 :: "string \<Rightarrow> int option" where
  "parse_i32 s =
     (let (neg, t) = (case s of c # cs \<Rightarrow> if c = CHR ''-'' then (True, cs) else if c = CHR ''+'' then (False, cs) else (False, s)
                              | [] \<Rightarrow> (False, []));
          v = (if neg then - int (nat_of_digits t) else int (nat_of_digits t))
      in if t = [] \<or> \<not> list_all is_ascii_digit t \<or> v < - (2 ^ 31) \<or> v \<ge> 2 ^ 31 then None else Some v)"

definition parse_u8 :: "string \<Rightarrow> nat option" where
  "parse_u8 s =
     (let t = (case s of c # cs \<Rightarrow> if c = CHR ''+'' then cs else s | [] \<Rightarrow> [])
      in if t = [] \<or> \<not> list_all is_ascii_digit t \<or> nat_of_digits t > 255 then None else Some (nat_of_digits t))"

definition parse_year_month :: "string \<Rightarrow> month option" where
  "parse_year_month key =
     do { (y, m) \<leftarrow> split_once CHR ''-'' key;
          if length m \<noteq> 2 then None
          else do { year \<leftarrow> parse_i32 y;
                    mth \<leftarrow> parse_u8 m;
                    case month_new year mth of Inl _ \<Rightarrow> None | Inr mo \<Rightarrow> Some mo } }"

section \<open>The form\<close>

datatype box_role = Fill | LeaveEmpty | SiteComputes | BoxCheck
datatype box_coverage = Complete | Incomplete | NotApplicable

record form_box =
  form :: string
  case_of :: string
  box_value :: "money option"
  box_role_of :: box_role

definition ca3_box :: "string \<Rightarrow> money option \<Rightarrow> box_role \<Rightarrow> form_box" where
  "ca3_box c m r = \<lparr>form = ''3310-CA3'', case_of = c, box_value = m, box_role_of = r\<rparr>"

definition ca3_periodicity_of :: "desk \<Rightarrow> ca3_periodicity" where
  "ca3_periodicity_of dk =
     (case from_regime (Option.bind (dk_profile dk) vat_regime_of) of None \<Rightarrow> Monthly | Some p \<Rightarrow> p)"

fun period_before :: "ca3_periodicity \<Rightarrow> month \<Rightarrow> month" where
  "period_before Monthly mo = month_pred mo"
| "period_before Quarterly mo = month_pred (month_pred (month_pred mo))"

definition previous_ca3_period_key :: "string \<Rightarrow> ca3_periodicity \<Rightarrow> string option" where
  "previous_ca3_period_key key per = map_option (\<lambda>mo. ca3_period_key (period_before per mo)) (parse_year_month key)"

fun period_last_month :: "ca3_periodicity \<Rightarrow> month \<Rightarrow> month" where
  "period_last_month Monthly mo = mo"
| "period_last_month Quarterly mo = month_succ (month_succ mo)"

definition ca3_bounds_for :: "time_api \<Rightarrow> string \<Rightarrow> ca3_periodicity \<Rightarrow> (app_error + date \<times> date) option" where
  "ca3_bounds_for T key per =
     (case parse_year_month key of
        None \<Rightarrow> fail (Domain ((''p'' @ e_acute @ ''riode CA3 invalide : '') @ key))
      | Some start \<Rightarrow>
          do { s \<leftarrow> first_day T start; t \<leftarrow> last_day T (period_last_month per start); ok (s, t) })"

text \<open>One round of \<open>fold_carried_credit\<close>.\<close>

definition carried_step ::
    "time_api \<Rightarrow> desk \<Rightarrow> date \<times> date \<times> string \<Rightarrow> money \<Rightarrow> (app_error + money) option" where
  "carried_step T dk p credit =
     (case p of (s, e, key) \<Rightarrow>
        and_do (vat_due_for_period T dk s e) (\<lambda>vat.
          let net = vr_due vat + reversal_amount dk key - credit
          in ok (if net \<ge> 0 then 0 else - net - refund_amount dk key)))"

fun fold_carried ::
    "time_api \<Rightarrow> desk \<Rightarrow> money \<Rightarrow> (date \<times> date \<times> string) list \<Rightarrow> (app_error + money) option" where
  "fold_carried T dk credit [] = ok credit"
| "fold_carried T dk credit (p # ps) = and_do (carried_step T dk p credit) (\<lambda>c. fold_carried T dk c ps)"

definition fold_carried_credit ::
    "time_api \<Rightarrow> desk \<Rightarrow> money \<Rightarrow> (date \<times> date \<times> string) list \<Rightarrow> (app_error + money) option" where
  "fold_carried_credit T dk credit between = fold_carried T dk credit (rev between)"

text \<open>The walk back to the declared credit: at most as many rounds as the first argument.\<close>

fun walk_back ::
    "nat \<Rightarrow> time_api \<Rightarrow> desk \<Rightarrow> vat_carry_in \<Rightarrow> ca3_periodicity \<Rightarrow> string \<Rightarrow> (date \<times> date \<times> string) list
       \<Rightarrow> (app_error + money) option" where
  "walk_back 0 T dk carry per key between = fold_carried_credit T dk 0 between"
| "walk_back (Suc k) T dk carry per key between =
     (case previous_ca3_period_key key per of
        None \<Rightarrow> fold_carried_credit T dk 0 between
      | Some prev \<Rightarrow>
          if after_period carry = prev then fold_carried_credit T dk (ci_credit carry) between
          else and_do (ca3_bounds_for T prev per) (\<lambda>(s, e).
            if (case dk_opening dk of None \<Rightarrow> False | Some ob \<Rightarrow> s < opens_on ob)
            then fold_carried_credit T dk 0 between
            else walk_back k T dk carry per prev (between @ [(s, e, prev)])))"

definition ca3_prior_credit :: "time_api \<Rightarrow> desk \<Rightarrow> string \<Rightarrow> ca3_periodicity \<Rightarrow> (app_error + money) option" where
  "ca3_prior_credit T dk key per =
     (case carry_row dk of
        None \<Rightarrow>
          and_do (ca3_bounds_for T key per) (\<lambda>(s, e).
            case month_new (dyear e) (dmonth e) of
              Inl _ \<Rightarrow> None
            | Inr mo \<Rightarrow> and_do (ca3_month_of T dk mo) (\<lambda>m. ok (credit_on_book m)))
      | Some carry \<Rightarrow> walk_back 24 T dk carry per key [])"

definition ca3_period_bounds :: "time_api \<Rightarrow> desk \<Rightarrow> date \<Rightarrow> string \<Rightarrow> (app_error + date \<times> date) option" where
  "ca3_period_bounds T dk today key =
     (let per = ca3_periodicity_of dk
      in if parse_year_month key \<noteq> None then ca3_bounds_for T key per
         else let d = (case dk_profile dk of
                         None \<Rightarrow> EARLIEST_DAY
                       | Some p \<Rightarrow> filing_rule_day (ca3_derive (legal_form p) (cp_name p) (cp_siren p) (postal_code (cp_address p))))
              in do { f \<leftarrow> next_ca3_filing T today per d;
                      s \<leftarrow> first_day T (cf_period_start f);
                      t \<leftarrow> last_day T (cf_period_end f);
                      ok (s, t) })"

definition nonzero_box :: "string \<Rightarrow> money \<Rightarrow> form_box list" where
  "nonzero_box c m = (if m = 0 then [] else [ca3_box c (Some m) Fill])"

definition credit_boxes :: "money \<Rightarrow> vat_refund option \<Rightarrow> form_box list" where
  "credit_boxes credit refund =
     ca3_box ''25'' (Some credit) Fill #
     (case refund of
        Some r \<Rightarrow>
          ca3_box ''26'' (Some (rf_amount r)) Fill #
          (let remainder = credit - rf_amount r
           in if remainder > 0 then [ca3_box ''27'' (Some remainder) Fill] else [])
      | None \<Rightarrow> [ca3_box ''27'' (Some credit) Fill])"

definition filled_boxes :: "vat_return \<Rightarrow> money \<Rightarrow> money \<Rightarrow> vat_refund option \<Rightarrow> form_box list" where
  "filled_boxes vat reversal prior refund =
     (let net = vr_due vat + reversal - prior
      in nonzero_box ''02'' (vr_taxable_ht vat) @ nonzero_box ''08'' (vr_collected vat)
         @ nonzero_box ''15'' reversal @ nonzero_box ''19'' (vr_deductible_assets vat)
         @ nonzero_box ''20'' (vr_deductible_other vat) @ nonzero_box ''22'' prior
         @ (if net \<ge> 0 then [ca3_box ''28'' (Some net) Fill] else credit_boxes (- net) refund))"

definition ca3_boxes ::
    "time_api \<Rightarrow> desk \<Rightarrow> date \<Rightarrow> string \<Rightarrow> (app_error + form_box list \<times> box_coverage) option" where
  "ca3_boxes T dk today key =
     and_do (ca3_period_bounds T dk today key) (\<lambda>(s, e).
       if (case dk_opening dk of None \<Rightarrow> False | Some ob \<Rightarrow> s < opens_on ob)
       then ok ([ca3_box ''02'' None Fill, ca3_box ''08'' None Fill, ca3_box ''20'' None Fill, ca3_box ''28'' None Fill], Incomplete)
       else and_do (vat_due_for_period T dk s e) (\<lambda>vat.
            and_do (ca3_prior_credit T dk key (ca3_periodicity_of dk)) (\<lambda>prior.
              ok (filled_boxes vat (reversal_amount dk key) prior (vat_refund_for dk key), Complete))))"

definition box_of :: "form_box list \<Rightarrow> string \<Rightarrow> money option" where
  "box_of bs c = Option.bind (find (\<lambda>b. case_of b = c) bs) box_value"

definition ca3_signed_due :: "time_api \<Rightarrow> desk \<Rightarrow> date \<Rightarrow> string \<Rightarrow> (app_error + money option) option" where
  "ca3_signed_due T dk today key =
     and_do (ca3_boxes T dk today key) (\<lambda>(bs, cov).
       ok (if cov \<noteq> Complete then None
           else case box_of bs ''28'' of
                  Some due \<Rightarrow> Some due
                | None \<Rightarrow> (case box_of bs ''25'' of Some credit \<Rightarrow> Some (- credit) | None \<Rightarrow> Some 0)))"

end
