(* ===== verification/Vat_Desk.thy ===== *)
theory Vat_Desk
  imports Vat_Return
begin

text \<open>
  The commands on the VAT of a period: the credit taken over (\<open>society/vat_carry.rs\<close>), the VAT to pay
  back (\<open>vat_reversal.rs\<close>), the refund of a credit (\<open>vat_refund.rs\<close>), the register of filed returns
  (\<open>filings.rs\<close>) and the entry that clears the VAT accounts of a month (\<open>vat_liquidation.rs\<close>). A command
  gives a panic (\<open>None\<close>), an error, which leaves no trace, or its output and the new desk. Only
  \<open>MarkCatchUpFiled\<close>, which walks the obligations of the company, is not here.
\<close>

section \<open>The period of a command\<close>

definition parse_after_period :: "string \<Rightarrow> month option" where
  "parse_after_period raw =
     do { (y, m) \<leftarrow> split_once CHR ''-'' (trim raw);
          if length m \<noteq> 2 then None
          else do { year \<leftarrow> parse_i32 y;
                    mth \<leftarrow> parse_u8 m;
                    case month_new year mth of Inl _ \<Rightarrow> None | Inr mo \<Rightarrow> Some mo } }"

section \<open>The credit taken over\<close>

datatype vat_carry_in_error =
    CarryNotFound
  | CarryAlreadyRecorded string
  | CarryInvalidPeriod string
  | NegativeCredit
  | Immutable

text \<open>The debug form \<open>{:?}\<close> of a text is an argument of the messages.\<close>

primrec carry_error_text :: "(string \<Rightarrow> string) \<Rightarrow> vat_carry_in_error \<Rightarrow> string" where
  "carry_error_text dbg CarryNotFound = (''aucun cr'' @ e_acute @ ''dit de TVA repris'')"
| "carry_error_text dbg (CarryAlreadyRecorded p) = (''un cr'' @ e_acute @ ''dit de TVA repris existe d'' @ e_acute @ ''j'' @ [CHR 0xC3, CHR 0xA0] @ '' (apr'' @ e_grave @ ''s '') @ p @ ('') : il est fig'' @ e_acute @ ''. La suite se d'' @ e_acute @ ''clare p'' @ e_acute @ ''riode par p'' @ e_acute @ ''riode, '' @ [CHR 0xC3, CHR 0xA0] @ '' partir des factures et des d'' @ e_acute @ ''penses'')"
| "carry_error_text dbg (CarryInvalidPeriod p) = (''p'' @ e_acute @ ''riode invalide '') @ dbg p @ ('' : attendu AAAA-MM (mois de la derni'' @ e_grave @ ''re CA3 d'' @ e_acute @ ''j'' @ [CHR 0xC3, CHR 0xA0] @ '' d'' @ e_acute @ ''pos'' @ e_acute @ ''e)'')"
| "carry_error_text dbg NegativeCredit = (''le cr'' @ e_acute @ ''dit '' @ [CHR 0xC3, CHR 0xA0] @ '' reporter ne peut pas '' @ [CHR 0xC3, CHR 0xAA] @ ''tre n'' @ e_acute @ ''gatif'')"
| "carry_error_text dbg Immutable = (''le cr'' @ e_acute @ ''dit de TVA repris est fig'' @ e_acute @ '' : on ne le recollera pas. La suite se d'' @ e_acute @ ''clare sur chaque CA3, '' @ [CHR 0xC3, CHR 0xA0] @ '' partir des factures et des d'' @ e_acute @ ''penses'')"

text \<open>What a call reads of its surroundings: the clock and identifiers of the journal, and \<open>{:?}\<close>.\<close>

record venv =
  v_draws :: jenv
  debug_text :: "string \<Rightarrow> string"

definition carry_refused :: "venv \<Rightarrow> vat_carry_in_error \<Rightarrow> (app_error + 'a) option" where
  "carry_refused v e = fail (Domain (carry_error_text (debug_text v) e))"

record record_vat_carry_in =
  rc_after_period :: string
  rc_credit :: money
  rc_source :: "string option"

definition require_credit :: "money \<Rightarrow> vat_carry_in_error option" where
  "require_credit credit = (if credit < 0 then Some NegativeCredit else None)"

definition apply_record_vat_carry_in :: "venv \<Rightarrow> record_vat_carry_in \<Rightarrow> desk \<Rightarrow> (app_error + int \<times> desk) option" where
  "apply_record_vat_carry_in v c dk =
     (case parse_after_period (rc_after_period c) of
        None \<Rightarrow> carry_refused v (CarryInvalidPeriod (rc_after_period c))
      | Some mo \<Rightarrow>
          (case require_credit (rc_credit c) of
             Some e \<Rightarrow> carry_refused v e
           | None \<Rightarrow>
               (case carry_row dk of
                  Some existing \<Rightarrow> carry_refused v (CarryAlreadyRecorded (after_period existing))
                | None \<Rightarrow>
                    (case clock_text (v_draws v) of
                       Inl e \<Rightarrow> fail e
                     | Inr now \<Rightarrow>
                         ok (1, dk\<lparr>carry_row := Some \<lparr>after_period = ca3_period_key mo, ci_credit = rc_credit c,
                                     ci_source = rc_source c, ci_revision = 1, ci_created_at = now\<rparr>\<rparr>)))))"

record update_vat_carry_in =
  uc_revision :: int
  uc_after_period :: string
  uc_credit :: money
  uc_source :: "string option"

definition apply_update_vat_carry_in :: "venv \<Rightarrow> update_vat_carry_in \<Rightarrow> desk \<Rightarrow> (app_error + int \<times> desk) option" where
  "apply_update_vat_carry_in v c dk = carry_refused v Immutable"

definition apply_delete_vat_carry_in :: "venv \<Rightarrow> int \<Rightarrow> desk \<Rightarrow> (app_error + unit \<times> desk) option" where
  "apply_delete_vat_carry_in v revision dk = carry_refused v Immutable"

section \<open>VAT to pay back\<close>

datatype vat_reversal_error =
    ReversalNotPositive
  | ReversalAlreadyRecorded string
  | ReversalPeriodNotInVault
  | ReversalDeclarationAlreadyFiled
  | ReversalNotFound
  | ReversalInvalidPeriod string
  | RefundWouldExceed money

primrec reversal_error_text :: "(string \<Rightarrow> string) \<Rightarrow> vat_reversal_error \<Rightarrow> string" where
  "reversal_error_text dbg ReversalNotPositive = (''un montant '' @ [CHR 0xC3, CHR 0xA0] @ '' rendre est un nombre positif'')"
| "reversal_error_text dbg (ReversalAlreadyRecorded p) = (''une TVA trop d'' @ e_acute @ ''duite a d'' @ e_acute @ ''j'' @ [CHR 0xC3, CHR 0xA0] @ '' '' @ e_acute @ ''t'' @ e_acute @ '' enregistr'' @ e_acute @ ''e pour '') @ p @ ('' : r'' @ e_acute @ ''tractez-la avant d'' @ [CHR 0x27] @ ''en poser une autre'')"
| "reversal_error_text dbg ReversalPeriodNotInVault = (''cette p'' @ e_acute @ ''riode pr'' @ e_acute @ ''c'' @ e_grave @ ''de le bilan d'' @ [CHR 0x27] @ ''ouverture : les chiffres ne sont pas dans le coffre'')"
| "reversal_error_text dbg ReversalDeclarationAlreadyFiled = (''cette d'' @ e_acute @ ''claration est d'' @ e_acute @ ''j'' @ [CHR 0xC3, CHR 0xA0] @ '' d'' @ e_acute @ ''pos'' @ e_acute @ ''e : r'' @ e_acute @ ''tractez le d'' @ e_acute @ ''p'' @ o_circ @ ''t avant de changer le montant rendu'')"
| "reversal_error_text dbg ReversalNotFound = (''aucune TVA trop d'' @ e_acute @ ''duite enregistr'' @ e_acute @ ''e pour cette p'' @ e_acute @ ''riode'')"
| "reversal_error_text dbg (ReversalInvalidPeriod p) = (''p'' @ e_acute @ ''riode invalide '') @ dbg p @ '' : attendu AAAA-MM''"
| "reversal_error_text dbg (RefundWouldExceed m) = (''rendre autant ferait passer le versement demand'' @ e_acute @ '' au-dessus du cr'' @ e_acute @ ''dit restant ('') @ display_money m @ '')''"

definition reversal_refused :: "venv \<Rightarrow> vat_reversal_error \<Rightarrow> (app_error + 'a) option" where
  "reversal_refused v e = fail (Domain (reversal_error_text (debug_text v) e))"

record vat_request =
  rq_period_key :: string
  rq_amount :: money
  rq_on :: date

definition box_amount :: "form_box list \<Rightarrow> string \<Rightarrow> money" where
  "box_amount bs c = (case box_of bs c of None \<Rightarrow> 0 | Some m \<Rightarrow> m)"

definition apply_record_vat_reversal ::
    "time_api \<Rightarrow> venv \<Rightarrow> vat_request \<Rightarrow> desk \<Rightarrow> (app_error + vat_reversal \<times> desk) option" where
  "apply_record_vat_reversal T v c dk =
     (case parse_after_period (rq_period_key c) of
        None \<Rightarrow> reversal_refused v (ReversalInvalidPeriod (rq_period_key c))
      | Some mo \<Rightarrow>
          if rq_amount c \<le> 0 then reversal_refused v ReversalNotPositive
          else let key = ca3_period_key mo
          in and_do (ca3_boxes T dk (rq_on c) key) (\<lambda>(bs, cov).
             if cov = Incomplete then reversal_refused v ReversalPeriodNotInVault
             else if filing_for dk Ca3 key \<noteq> None then reversal_refused v ReversalDeclarationAlreadyFiled
             else if vat_reversal_for dk key \<noteq> None then reversal_refused v (ReversalAlreadyRecorded key)
             else let new_25 = box_amount bs ''25'' - rq_amount c
             in if (case vat_refund_for dk key of None \<Rightarrow> False | Some refund \<Rightarrow> rf_amount refund > new_25)
                then reversal_refused v (RefundWouldExceed (if new_25 < 0 then 0 else new_25))
                else let row = \<lparr>rv_period_key = key, rv_amount = rq_amount c, recorded_on = rq_on c\<rparr>
                     in ok (row, dk\<lparr>reversals := reversals dk @ [row]\<rparr>)))"

definition apply_retract_vat_reversal :: "venv \<Rightarrow> string \<Rightarrow> desk \<Rightarrow> (app_error + unit \<times> desk) option" where
  "apply_retract_vat_reversal v key dk =
     (if filing_for dk Ca3 key \<noteq> None then reversal_refused v ReversalDeclarationAlreadyFiled
      else if vat_reversal_for dk key = None then reversal_refused v ReversalNotFound
      else ok ((), dk\<lparr>reversals := filter (\<lambda>r. rv_period_key r \<noteq> key) (reversals dk)\<rparr>))"

section \<open>The refund of a credit\<close>

datatype vat_refund_error =
    BelowThreshold money bool
  | ExceedsCredit money
  | RefundNotPositive
  | AlreadyRequested string
  | NoCredit
  | RefundPeriodNotInVault
  | RefundDeclarationAlreadyFiled
  | RefundNotFound
  | RefundInvalidPeriod string

definition below_threshold_msg :: "money \<Rightarrow> bool \<Rightarrow> string" where
  "below_threshold_msg least year_end =
     (if year_end then ([CHR 0xC3, CHR 0xA0] @ '' la derni'' @ e_grave @ ''re d'' @ e_acute @ ''claration de l'' @ [CHR 0x27] @ ''ann'' @ e_acute @ ''e, '' @ [CHR 0xC3, CHR 0xA0] @ '' partir de '') @ display_money least
      else (''en cours d'' @ [CHR 0x27] @ ''ann'' @ e_acute @ ''e, le versement commence '' @ [CHR 0xC3, CHR 0xA0] @ '' '') @ display_money least)"

primrec refund_error_text :: "(string \<Rightarrow> string) \<Rightarrow> vat_refund_error \<Rightarrow> string" where
  "refund_error_text dbg (BelowThreshold least year_end) = below_threshold_msg least year_end"
| "refund_error_text dbg (ExceedsCredit m) = (''le versement d'' @ e_acute @ ''passe le cr'' @ e_acute @ ''dit de cette p'' @ e_acute @ ''riode ('') @ display_money m @ '')''"
| "refund_error_text dbg RefundNotPositive = (''le versement demand'' @ e_acute @ '' doit '' @ [CHR 0xC3, CHR 0xAA] @ ''tre strictement positif'')"
| "refund_error_text dbg (AlreadyRequested p) = (''un versement de cr'' @ e_acute @ ''dit de TVA a d'' @ e_acute @ ''j'' @ [CHR 0xC3, CHR 0xA0] @ '' '' @ e_acute @ ''t'' @ e_acute @ '' demand'' @ e_acute @ '' pour '') @ p @ ('' : r'' @ e_acute @ ''tractez-le avant d'' @ [CHR 0x27] @ ''en demander un autre'')"
| "refund_error_text dbg NoCredit = (''cette p'' @ e_acute @ ''riode n'' @ [CHR 0x27] @ ''a pas de cr'' @ e_acute @ ''dit de TVA '' @ [CHR 0xC3, CHR 0xA0] @ '' verser'')"
| "refund_error_text dbg RefundPeriodNotInVault = (''cette p'' @ e_acute @ ''riode pr'' @ e_acute @ ''c'' @ e_grave @ ''de le bilan d'' @ [CHR 0x27] @ ''ouverture : les chiffres ne sont pas dans le coffre'')"
| "refund_error_text dbg RefundDeclarationAlreadyFiled = (''cette d'' @ e_acute @ ''claration est d'' @ e_acute @ ''j'' @ [CHR 0xC3, CHR 0xA0] @ '' d'' @ e_acute @ ''pos'' @ e_acute @ ''e : r'' @ e_acute @ ''tractez le d'' @ e_acute @ ''p'' @ o_circ @ ''t avant de changer le versement'')"
| "refund_error_text dbg RefundNotFound = (''aucune demande de versement de cr'' @ e_acute @ ''dit de TVA pour cette p'' @ e_acute @ ''riode'')"
| "refund_error_text dbg (RefundInvalidPeriod p) = (''p'' @ e_acute @ ''riode invalide '') @ dbg p @ '' : attendu AAAA-MM''"

definition refund_refused :: "venv \<Rightarrow> vat_refund_error \<Rightarrow> (app_error + 'a) option" where
  "refund_refused v e = fail (Domain (refund_error_text (debug_text v) e))"

fun calendar_year_end_month :: "month \<Rightarrow> ca3_periodicity \<Rightarrow> bool" where
  "calendar_year_end_month mo Monthly \<longleftrightarrow> m_month mo = 12"
| "calendar_year_end_month mo Quarterly \<longleftrightarrow> m_month mo = 10"

definition calendar_year_end :: "string \<Rightarrow> ca3_periodicity \<Rightarrow> bool" where
  "calendar_year_end key per =
     (case parse_after_period key of None \<Rightarrow> False | Some mo \<Rightarrow> calendar_year_end_month mo per)"

definition refund_min :: "bool \<Rightarrow> money" where
  "refund_min year_end = (if year_end then CA12_REFUND_THRESHOLD else VAT_REFUND_IN_YEAR_THRESHOLD)"

definition apply_request_vat_refund ::
    "time_api \<Rightarrow> venv \<Rightarrow> vat_request \<Rightarrow> desk \<Rightarrow> (app_error + vat_refund \<times> desk) option" where
  "apply_request_vat_refund T v c dk =
     (case parse_after_period (rq_period_key c) of
        None \<Rightarrow> refund_refused v (RefundInvalidPeriod (rq_period_key c))
      | Some mo \<Rightarrow>
          if rq_amount c \<le> 0 then refund_refused v RefundNotPositive
          else and_do (ca3_boxes T dk (rq_on c) (rq_period_key c)) (\<lambda>(bs, cov).
             if cov = Incomplete then refund_refused v RefundPeriodNotInVault
             else let credit = (case box_of bs ''25'' of None \<Rightarrow> 0 | Some m \<Rightarrow> m);
                      year_end = calendar_year_end_month mo (ca3_periodicity_of dk);
                      least = refund_min year_end;
                      key = ca3_period_key mo
             in if credit = 0 then refund_refused v NoCredit
                else if rq_amount c > credit then refund_refused v (ExceedsCredit credit)
                else if rq_amount c < least then refund_refused v (BelowThreshold least year_end)
                else if filing_for dk Ca3 (rq_period_key c) \<noteq> None then refund_refused v RefundDeclarationAlreadyFiled
                else if vat_refund_for dk key \<noteq> None then refund_refused v (AlreadyRequested key)
                else let row = \<lparr>rf_period_key = key, rf_amount = rq_amount c, requested_on = rq_on c\<rparr>
                     in ok (row, dk\<lparr>refunds := refunds dk @ [row]\<rparr>)))"

definition apply_retract_vat_refund :: "venv \<Rightarrow> string \<Rightarrow> desk \<Rightarrow> (app_error + unit \<times> desk) option" where
  "apply_retract_vat_refund v key dk =
     (if filing_for dk Ca3 key \<noteq> None then refund_refused v RefundDeclarationAlreadyFiled
      else if vat_refund_for dk key = None then refund_refused v RefundNotFound
      else ok ((), dk\<lparr>refunds := filter (\<lambda>r. rf_period_key r \<noteq> key) (refunds dk)\<rparr>))"

datatype vat_refund_status =
    StatusBelowThreshold money money bool
  | Offered money money bool
  | Requested money money

definition status_for_boxes :: "desk \<Rightarrow> string \<Rightarrow> box_coverage \<Rightarrow> form_box list \<Rightarrow> vat_refund_status option" where
  "status_for_boxes dk key cov bs =
     (if cov \<noteq> Complete then None
      else case box_of bs ''25'' of
             None \<Rightarrow> None
           | Some credit \<Rightarrow>
               (case vat_refund_for dk key of
                  Some r \<Rightarrow> Some (Requested (rf_amount r) (box_amount bs ''27''))
                | None \<Rightarrow>
                    (let year_end = calendar_year_end key (ca3_periodicity_of dk);
                         least = refund_min year_end
                     in Some (if credit < least then StatusBelowThreshold credit least year_end
                              else Offered credit least year_end))))"

section \<open>The register of filed returns\<close>

record mark_duty_filed =
  md_kind :: fiscal_deadline_kind
  md_period_key :: string
  md_due_on :: date
  md_filed_on :: date

text \<open>The insertion fails on the identifier.\<close>

definition apply_mark_duty_filed :: "venv \<Rightarrow> mark_duty_filed \<Rightarrow> desk \<Rightarrow> (app_error + duty_filing \<times> desk) option" where
  "apply_mark_duty_filed v c dk =
     (case filing_for dk (md_kind c) (md_period_key c) of
        Some existing \<Rightarrow> ok (existing, dk)
      | None \<Rightarrow>
          (let new = uuid_at (v_draws v) (drawn (dk_books dk));
               f = \<lparr>df_id = new, df_kind = md_kind c, df_period_key = md_period_key c,
                    due_on = md_due_on c, filed_on = md_filed_on c\<rparr>
           in if new \<in> df_id ` set (filings dk) then fail Sqlite
              else ok (f, dk\<lparr>filings := filings dk @ [f], dk_books := (dk_books dk)\<lparr>drawn := drawn (dk_books dk) + 1\<rparr>\<rparr>)))"

definition duty_not_found :: string where
  "duty_not_found = (''aucun d'' @ e_acute @ ''p'' @ o_circ @ ''t ne correspond '' @ [CHR 0xC3, CHR 0xA0] @ '' cette d'' @ e_acute @ ''marche'')"

definition apply_retract_duty_filed ::
    "fiscal_deadline_kind \<Rightarrow> string \<Rightarrow> desk \<Rightarrow> (app_error + unit \<times> desk) option" where
  "apply_retract_duty_filed k key dk =
     (if filing_for dk k key = None then fail (Domain duty_not_found)
      else ok ((), dk\<lparr>filings := filter (\<lambda>f. \<not> (df_kind f = k \<and> df_period_key f = key)) (filings dk)\<rparr>))"

section \<open>The entry that clears a month\<close>

datatype vat_liquidation_error =
    LiquidationInvalidPeriod string
  | MonthNotFinished
  | FiscalYearClosed
  | LiquidationDeclarationAlreadyFiled
  | ProfileMissing
  | FiscalYearEndMissing
  | DeductibleExceedsRoundedEuro int int
  | VatCreditCreditor int

primrec liquidation_error_text :: "vat_liquidation_error \<Rightarrow> string" where
  "liquidation_error_text (LiquidationInvalidPeriod p) = (''p'' @ e_acute @ ''riode CA3 illisible ('') @ p @ '') : attendu AAAA-MM''"
| "liquidation_error_text MonthNotFinished = (''le mois n'' @ [CHR 0x27] @ ''est pas fini'')"
| "liquidation_error_text FiscalYearClosed = ''exercice clos''"
| "liquidation_error_text LiquidationDeclarationAlreadyFiled = (''d'' @ e_acute @ ''claration d'' @ e_acute @ ''j'' @ [CHR 0xC3, CHR 0xA0] @ '' d'' @ e_acute @ ''pos'' @ e_acute @ ''e'')"
| "liquidation_error_text ProfileMissing = (''le profil de la soci'' @ e_acute @ ''t'' @ e_acute @ '' est absent'')"
| "liquidation_error_text FiscalYearEndMissing = (''la date de cl'' @ o_circ @ ''ture d'' @ [CHR 0x27] @ ''exercice n'' @ [CHR 0x27] @ ''est pas configur'' @ e_acute @ ''e'')"
| "liquidation_error_text (DeductibleExceedsRoundedEuro b r) =
     (''la TVA d'' @ e_acute @ ''ductible du livre ('') @ pad_int 0 b @ ('' centimes) d'' @ e_acute @ ''passe la ligne arrondie ('') @ pad_int 0 r @ '' centimes)''"
| "liquidation_error_text (VatCreditCreditor c) = (''le 445670 est cr'' @ e_acute @ ''diteur de '') @ pad_int 0 c @ '' centimes''"

definition liquidation_refused :: "vat_liquidation_error \<Rightarrow> (app_error + 'a) option" where
  "liquidation_refused e = fail (Domain (liquidation_error_text e))"

record booked_vat =
  bv_deductible :: money
  bv_rounded :: money
  bv_collected :: money
  bv_previous :: money
  bv_reversal :: money
  bv_intracom :: money

definition booked_vat_of :: "time_api \<Rightarrow> desk \<Rightarrow> month \<Rightarrow> string \<Rightarrow> (app_error + booked_vat) option" where
  "booked_vat_of T dk mo key =
     (case dk_profile dk of
        None \<Rightarrow> liquidation_refused ProfileMissing
      | Some profile \<Rightarrow>
          if fiscal_year_end_of profile = None then liquidation_refused FiscalYearEndMissing
          else and_do (ca3_month_of T dk mo) (\<lambda>book.
            let reversal = (case vat_reversal_for dk key of
                              Some r \<Rightarrow> (if rv_amount r > 0 then rv_amount r else 0) | None \<Rightarrow> 0)
            in ok \<lparr>bv_deductible = deductible_book book, bv_rounded = deductible_rounded book,
                   bv_collected = collected_signed book, bv_previous = credit_on_book book,
                   bv_reversal = reversal, bv_intracom = intracom book\<rparr>))"

definition french_months :: "string list" where
  "french_months =
     [''Janvier'', (''F'' @ e_acute @ ''vrier''), ''Mars'', ''Avril'', ''Mai'', ''Juin'', ''Juillet'', (''Ao'' @ [CHR 0xC3, CHR 0xBB] @ ''t''), ''Septembre'',
      ''Octobre'', ''Novembre'', (''D'' @ e_acute @ ''cembre'')]"

definition french_month :: "month \<Rightarrow> string option" where
  "french_month mo = (if 1 \<le> m_month mo \<and> m_month mo \<le> 12 then Some (french_months ! (m_month mo - 1)) else None)"

definition ca3_line :: "account \<Rightarrow> money \<Rightarrow> string \<Rightarrow> ledger_line" where
  "ca3_line a m label = \<lparr>ll_account = a, ll_aux = None, ll_amount = m, line_label = Some label\<rparr>"

definition liquidation_position :: "booked_vat \<Rightarrow> money" where
  "liquidation_position b = bv_previous b + bv_rounded b - bv_reversal b + bv_collected b"

definition liquidation_lines :: "booked_vat \<Rightarrow> money \<Rightarrow> string \<Rightarrow> ledger_line list" where
  "liquidation_lines b gap name =
     (let label = (\<lambda>suffix. ''3310-CA3 '' @ name @ '' - '' @ suffix);
          position = liquidation_position b;
          ecart = label (e_acute_upper @ ''carts de TVA'')
      in (if bv_rounded b > 0 then [ca3_line VAT_DEDUCTIBLE (- bv_rounded b) (label (''TVA D'' @ e_acute @ ''ductible ABS''))] else [])
       @ (if bv_previous b > 0 then [ca3_line VAT_CREDIT (- bv_previous b) (label (''Report du cr'' @ e_acute @ ''dit de TVA''))] else [])
       @ (if bv_collected b \<noteq> 0 then [ca3_line VAT_COLLECTED (- bv_collected b) (label (''TVA collect'' @ e_acute @ ''e''))] else [])
       @ (if position > 0 then [ca3_line VAT_CREDIT position (label (''Cr'' @ e_acute @ ''dit de TVA''))]
          else if position < 0 then [ca3_line VAT_DUE position (label (''TVA '' @ [CHR 0xC3, CHR 0xA0] @ '' d'' @ e_acute @ ''caisser''))] else [])
       @ (if gap > 0 then [ca3_line VAT_DEDUCTIBLE gap ecart, ca3_line SUNDRY_INCOME (- gap) ecart] else [])
       @ (if bv_reversal b > 0 then [ca3_line VAT_DEDUCTIBLE (bv_reversal b) (label (''TVA ant'' @ e_acute @ ''rieurement d'' @ e_acute @ ''duite '' @ [CHR 0xC3, CHR 0xA0] @ '' reverser''))] else [])
       @ (if bv_intracom b \<noteq> 0
          then [ca3_line VAT_INTRACOM_DUE (bv_intracom b) (label ''TVA due intracommunautaire''),
                ca3_line VAT_INTRACOM_DEDUCTIBLE (- bv_intracom b) (label (''TVA d'' @ e_acute @ ''ductible intracommunautaire''))] else []))"

definition unbalanced_liquidation :: string where
  "unbalanced_liquidation = (e_acute @ ''criture de liquidation de TVA d'' @ e_acute @ ''s'' @ e_acute @ ''quilibr'' @ e_acute @ ''e '' @ em_dash @ '' refus'' @ e_acute @ ''e'')"

definition desired_liquidation ::
    "time_api \<Rightarrow> desk \<Rightarrow> month \<Rightarrow> string \<Rightarrow> date \<Rightarrow> (app_error + ledger_entry option) option" where
  "desired_liquidation T dk mo key last_on =
     and_do (booked_vat_of T dk mo key) (\<lambda>b.
       let gap = bv_rounded b - bv_deductible b
       in if gap < 0 then liquidation_refused (DeductibleExceedsRoundedEuro (bv_deductible b) (bv_rounded b))
          else if bv_previous b < 0 then liquidation_refused (VatCreditCreditor (- bv_previous b))
          else do { name \<leftarrow> french_month mo;
                    let ls = liquidation_lines b gap name;
                    if ls = [] then ok None
                    else let e = \<lparr>le_journal = Misc, le_number = 0, le_date = last_on, piece_ref = ''CA3-'' @ key,
                                  piece_date = last_on, le_label = ''3310-CA3 '' @ name, le_lines = ls\<rparr>
                         in if \<not> is_balanced e then fail (Domain unbalanced_liquidation) else ok (Some e) })"

record liquidate_ca3 =
  lq_period_key :: string
  lq_on :: date

record posted_vat_liquidation =
  pl_period_key :: string
  pl_piece_ref :: string
  pl_on :: date
  written :: bool

definition apply_liquidate_ca3 ::
    "time_api \<Rightarrow> venv \<Rightarrow> liquidate_ca3 \<Rightarrow> desk \<Rightarrow> (app_error + posted_vat_liquidation \<times> desk) option" where
  "apply_liquidate_ca3 T v c dk =
     (case parse_after_period (lq_period_key c) of
        None \<Rightarrow> liquidation_refused (LiquidationInvalidPeriod (lq_period_key c))
      | Some mo \<Rightarrow>
          let key = display_month mo
          in do { last_on \<leftarrow> last_day T mo;
                  if lq_on c < last_on then liquidation_refused MonthNotFinished
                  else if date_in_recorded_exercise T (dk_books dk) last_on then liquidation_refused FiscalYearClosed
                  else if filing_for dk Ca3 key \<noteq> None then liquidation_refused LiquidationDeclarationAlreadyFiled
                  else and_do (desired_liquidation T dk mo key last_on) (\<lambda>desired.
                       case sync_vat_liquidation T (v_draws v) key desired (dk_books dk) of
                         Inl e \<Rightarrow> fail e
                       | Inr (w, st) \<Rightarrow>
                           ok (\<lparr>pl_period_key = key, pl_piece_ref = ''CA3-'' @ key, pl_on = last_on, written = w\<rparr>,
                               dk\<lparr>dk_books := st\<rparr>)) })"

end
