(* ===== verification/Vat_Loop.thy ===== *)
theory Vat_Loop
  imports Vat_Desk Kept
begin

text \<open>
  The loops of the VAT return: months as consecutive indices, the loop over the months of a period
  (it always ends, and adds up the months it covers), the search of the next filing (it always ends),
  and the text keys of periods.
\<close>

section \<open>Months in a row\<close>

definition month_index :: "month \<Rightarrow> int" where
  "month_index mo = 12 * m_year mo + int (m_month mo)"

lemma month_index_succ [simp]: "valid_month mo \<Longrightarrow> month_index (month_succ mo) = month_index mo + 1"
  by (auto simp: month_index_def month_succ_def valid_month_def)

lemma month_index_pred [simp]: "valid_month mo \<Longrightarrow> month_index (month_pred mo) = month_index mo - 1"
  by (auto simp: month_index_def month_pred_def valid_month_def)

lemma valid_succ [simp]: "valid_month mo \<Longrightarrow> valid_month (month_succ mo)"
  by (rule month_succ_valid)

lemma valid_pred [simp]: "valid_month mo \<Longrightarrow> valid_month (month_pred mo)"
  by (auto simp: month_pred_def valid_month_def)

lemma valid_later [simp]: "valid_month mo \<Longrightarrow> valid_month ((month_succ ^^ k) mo)"
  by (induction k) simp_all

lemma month_index_later [simp]: "valid_month mo \<Longrightarrow> month_index ((month_succ ^^ k) mo) = month_index mo + int k"
  by (induction k) simp_all

lemma month_index_eq:
  assumes "valid_month a" "valid_month b" "month_index a = month_index b"
  shows "a = b"
proof -
  have "m_year a = (month_index a - 1) div 12" "m_year b = (month_index b - 1) div 12"
    using assms(1,2) by (auto simp: month_index_def valid_month_def)
  with assms(3) have "m_year a = m_year b" by simp
  with assms(3) show ?thesis by (simp add: month_index_def)
qed

lemma month_index_le:
  "valid_month a \<Longrightarrow> valid_month b \<Longrightarrow>
     month_index a \<le> month_index b \<longleftrightarrow> m_year a < m_year b \<or> m_year a = m_year b \<and> m_month a \<le> m_month b"
  by (auto simp: month_index_def valid_month_def)

lemma later_eq_iff: "valid_month mo \<Longrightarrow> (month_succ ^^ j) mo = (month_succ ^^ k) mo \<longleftrightarrow> j = k"
  using month_index_later [of mo j] month_index_later [of mo k] by (metis add_left_cancel of_nat_eq_iff)

lemma later_year:
  assumes "valid_month mo"
  shows "m_year mo \<le> m_year ((month_succ ^^ k) mo)" "m_year ((month_succ ^^ k) mo) \<le> m_year mo + int k"
proof -
  have "m_year x = (month_index x - 1) div 12" if "valid_month x" for x
    using that by (auto simp: month_index_def valid_month_def)
  then have "m_year ((month_succ ^^ k) mo) = (month_index mo - 1 + int k) div 12" "m_year mo = (month_index mo - 1) div 12"
    using assms by (simp_all add: algebra_simps)
  then show "m_year mo \<le> m_year ((month_succ ^^ k) mo)" "m_year ((month_succ ^^ k) mo) \<le> m_year mo + int k"
    by linarith+
qed

lemma month_new_of: "valid_month mo \<Longrightarrow> month_new (m_year mo) (m_month mo) = Inr mo"
  by (simp add: month_new_def valid_month_def)

section \<open>The loop over the months\<close>

lemma vat_months_returns:
  assumes "valid_month mo" "valid_month final" "month_index mo \<le> month_index final"
  shows "\<exists>r. vat_months T dk s e final mo acc = Some r"
  using assms
proof (induction "nat (month_index final - month_index mo)" arbitrary: mo acc)
  case 0
  then have "mo = final" by (intro month_index_eq) auto
  then show ?case by (subst vat_months.simps) (auto split: option.split sum.split)
next
  case (Suc n)
  then have "mo \<noteq> final" by auto
  have "\<exists>r. vat_months T dk s e final (month_succ mo) acc1 = Some r" for acc1
    using Suc.prems Suc.hyps(2) by (intro Suc.hyps(1)) auto
  then show ?case
    by (subst vat_months.simps) (auto simp: \<open>mo \<noteq> final\<close> split: option.split sum.split)
qed

lemma date_month_index:
  assumes "s \<le> e" "month_new (dyear s) (dmonth s) = Inr mo" "month_new (dyear e) (dmonth e) = Inr final"
  shows "valid_month mo" "valid_month final" "month_index mo \<le> month_index final"
proof -
  show v: "valid_month mo" "valid_month final" using assms(2,3) month_new_valid by blast+
  show "month_index mo \<le> month_index final"
    using assms month_new_valid by (cases s; cases e) (auto simp: month_index_le [OF v] dest!: month_new_valid)
qed

lemma vat_due_loop_returns: "\<exists>r. vat_due_loop T dk s e = Some r"
proof (cases "s \<le> e")
  case True
  show ?thesis
  proof (cases "month_new (dyear s) (dmonth s)")
    case a: (Inr mo)
    show ?thesis
    proof (cases "month_new (dyear e) (dmonth e)")
      case b: (Inr final)
      obtain r where "vat_months T dk s e final mo vat_acc_ZERO = Some r"
        using vat_months_returns date_month_index [OF True a b] by blast
      then show ?thesis by (simp add: vat_due_loop_def True a b)
    qed (simp add: vat_due_loop_def True a)
  qed (simp add: vat_due_loop_def True)
qed (simp add: vat_due_loop_def)

text \<open>The same loop on two desks that agree month by month.\<close>

lemma vat_months_cong:
  assumes "\<And>mo acc. add_month T dk s e mo acc = add_month T dk2 s e mo acc"
    and "valid_month mo" "valid_month final" "month_index mo \<le> month_index final"
  shows "vat_months T dk s e final mo acc = vat_months T dk2 s e final mo acc"
  using assms(2-)
proof (induction "nat (month_index final - month_index mo)" arbitrary: mo acc)
  case 0
  then have "mo = final" by (intro month_index_eq) auto
  then show ?case
    by (subst (1 2) vat_months.simps) (simp add: assms(1) split: option.split sum.split)
next
  case (Suc n)
  then have "mo \<noteq> final" by auto
  have "vat_months T dk s e final (month_succ mo) acc1 = vat_months T dk2 s e final (month_succ mo) acc1" for acc1
    using Suc.prems Suc.hyps(2) by (intro Suc.hyps(1)) auto
  then show ?case
    by (subst (1 2) vat_months.simps) (simp add: assms(1) \<open>mo \<noteq> final\<close> split: option.split sum.split)
qed

section \<open>What the return reads\<close>

definition same_facts :: "desk \<Rightarrow> desk \<Rightarrow> bool" where
  "same_facts d1 d2 \<longleftrightarrow> dk_profile d1 = dk_profile d2 \<and> dk_opening d1 = dk_opening d2
     \<and> dk_books d1 = dk_books d2 \<and> dk_write_offs d1 = dk_write_offs d2"

lemma same_facts_read: "same_facts d1 d2 \<Longrightarrow> read_facts T d1 = read_facts T d2"
  by (cases "dk_profile d2") (simp_all add: same_facts_def read_facts_def)

lemma same_facts_window: "same_facts d1 d2 \<Longrightarrow> ca3_window T d1 = ca3_window T d2"
proof -
  assume a: "same_facts d1 d2"
  then have "dk_profile d1 = dk_profile d2" by (simp add: same_facts_def)
  then show ?thesis
    by (intro ext) (simp only: ca3_window_def build_ledger_def same_facts_read [OF a, of T])
qed

lemma same_facts_month: "same_facts d1 d2 \<Longrightarrow> ca3_month_of T d1 mo = ca3_month_of T d2 mo"
  by (simp add: ca3_month_of_def same_facts_window)

lemma same_facts_due:
  assumes "same_facts d1 d2"
  shows "vat_due_for_period T d1 s e = vat_due_for_period T d2 s e"
proof -
  have add: "add_month T d1 s e mo acc = add_month T d2 s e mo acc" for mo acc
    unfolding add_month_def same_facts_window [OF assms, of T] ..
  have "vat_due_loop T d1 s e = vat_due_loop T d2 s e"
  proof (cases "s \<le> e")
    case True
    show ?thesis
    proof (cases "month_new (dyear s) (dmonth s)")
      case a: (Inr mo)
      show ?thesis
      proof (cases "month_new (dyear e) (dmonth e)")
        case b: (Inr final)
        show ?thesis
          using vat_months_cong [of T d1 s e d2, OF add] date_month_index [OF True a b]
          by (simp add: vat_due_loop_def True a b)
      qed (simp add: vat_due_loop_def True a)
    qed (simp add: vat_due_loop_def True)
  qed (simp add: vat_due_loop_def)
  then show ?thesis by (simp add: vat_due_for_period_def)
qed

lemma same_facts_periodicity: "same_facts d1 d2 \<Longrightarrow> ca3_periodicity_of d1 = ca3_periodicity_of d2"
  by (simp add: same_facts_def ca3_periodicity_of_def)

lemma same_facts_bounds: "same_facts d1 d2 \<Longrightarrow> ca3_period_bounds T d1 today key = ca3_period_bounds T d2 today key"
proof -
  assume "same_facts d1 d2"
  then have "dk_profile d1 = dk_profile d2" by (simp add: same_facts_def)
  then show ?thesis by (simp only: ca3_period_bounds_def ca3_periodicity_of_def)
qed

section \<open>Keys of periods\<close>

definition calendar_month :: "month \<Rightarrow> bool" where
  "calendar_month mo \<longleftrightarrow> valid_month mo \<and> 0 \<le> m_year mo \<and> m_year mo \<le> 9998"

lemma calendar_valid [simp]: "calendar_month mo \<Longrightarrow> valid_month mo"
  by (simp add: calendar_month_def)

lemma pad_int_digits: "0 \<le> x \<Longrightarrow> list_all is_ascii_digit (pad_int k x)"
  by (simp add: pad_int_def zero_pad_def list_all_iff is_ascii_digit_def)
     (use show_nat_digits [of "nat x"] in \<open>auto simp: list_all_iff is_ascii_digit_def\<close>)

lemma digits_no_dash: "list_all is_ascii_digit s \<Longrightarrow> CHR ''-'' \<notin> set s"
  by (auto simp: list_all_iff is_ascii_digit_def)

lemma digits_no_plus: "list_all is_ascii_digit s \<Longrightarrow> CHR ''+'' \<notin> set s"
  by (auto simp: list_all_iff is_ascii_digit_def)

lemma nat_of_digits_zero_pad [simp]: "nat_of_digits (zero_pad k s) = nat_of_digits s"
proof -
  have "nat_of_digits (replicate n (CHR ''0'')) = 0" for n
    by (induction n) (simp_all add: nat_of_digits_snoc replicate_append_same [symmetric] nat_of_digits_def digit_value_def)
  then show ?thesis by (simp add: zero_pad_def nat_of_digits_append)
qed

lemma parse_i32_digits:
  assumes "list_all is_ascii_digit s" "s \<noteq> []" "int (nat_of_digits s) < 2 ^ 31"
  shows "parse_i32 s = Some (int (nat_of_digits s))"
proof -
  obtain c cs where s: "s = c # cs" using assms(2) by (cases s) auto
  have "c \<noteq> CHR ''-''" "c \<noteq> CHR ''+''"
    using digits_no_dash [OF assms(1)] digits_no_plus [OF assms(1)] by (auto simp: s)
  then show ?thesis using assms by (simp add: parse_i32_def s)
qed

lemma parse_u8_show_2: "n \<le> 99 \<Longrightarrow> parse_u8 (show_2 n) = Some n"
proof -
  assume n: "n \<le> 99"
  obtain c cs where s: "show_2 n = c # cs" using length_show_2 [of n] n by (cases "show_2 n") auto
  have "c \<noteq> CHR ''+''" using digits_no_plus [OF show_2_digits [of n]] by (auto simp: s)
  then have "(case show_2 n of c # cs \<Rightarrow> if c = CHR ''+'' then cs else show_2 n | [] \<Rightarrow> []) = show_2 n" by (simp add: s)
  moreover have "show_2 n \<noteq> []" by (simp add: s)
  ultimately show ?thesis using n by (simp only: parse_u8_def Let_def) simp
qed

lemma pad_int_nonempty [simp]: "0 \<le> x \<Longrightarrow> pad_int k x \<noteq> []"
  by (simp add: pad_int_def zero_pad_def)

lemma nat_of_digits_pad_int [simp]: "0 \<le> x \<Longrightarrow> int (nat_of_digits (pad_int k x)) = x"
  by (simp add: pad_int_def)

lemma parse_key:
  assumes "valid_month mo" "0 \<le> m_year mo" "m_year mo < 2 ^ 31"
  shows "parse_year_month (ca3_period_key mo) = Some mo"
proof -
  have m: "m_month mo \<le> 12" using assms(1) by (simp add: valid_month_def)
  have split: "split_once CHR ''-'' (ca3_period_key mo) = Some (pad_int 4 (m_year mo), show_2 (m_month mo))"
    using split_once_append [OF digits_no_dash [OF pad_int_digits [OF assms(2)]]] by (simp add: ca3_period_key_def)
  have year: "parse_i32 (pad_int 4 (m_year mo)) = Some (m_year mo)"
    using parse_i32_digits [OF pad_int_digits [OF assms(2), of 4]] assms(2,3) by simp
  show ?thesis
    using m by (simp add: parse_year_month_def split year parse_u8_show_2 month_new_of [OF assms(1)])
qed

lemma parse_calendar: "calendar_month mo \<Longrightarrow> parse_year_month (ca3_period_key mo) = Some mo"
  by (rule parse_key) (auto simp: calendar_month_def)

lemma trim_key: "0 \<le> m_year mo \<Longrightarrow> valid_month mo \<Longrightarrow> trim (ca3_period_key mo) = ca3_period_key mo"
proof -
  assume a: "0 \<le> m_year mo" "valid_month mo"
  have w: "\<not> is_ascii_digit c" if "c \<in> hd ` set white_space \<or> c \<in> List.last ` set white_space" for c
    using that by (auto simp: white_space_def is_ascii_digit_def)
  have "hd (pad_int 4 (m_year mo)) \<in> set (pad_int 4 (m_year mo))" using a(1) by simp
  then have "is_ascii_digit (hd (pad_int 4 (m_year mo)))" using pad_int_digits [OF a(1), of 4] by (auto simp: list_all_iff)
  moreover have two: "show_2 (m_month mo) \<noteq> []" by (simp add: show_2_def)
  moreover have "is_ascii_digit (List.last (show_2 (m_month mo)))"
    using show_2_digits [of "m_month mo"] last_in_set [OF two] by (auto simp: list_all_iff)
  ultimately have ends: "is_ascii_digit (hd (ca3_period_key mo))" "is_ascii_digit (List.last (ca3_period_key mo))"
    using a(1) by (simp_all add: ca3_period_key_def hd_append)
  show ?thesis
  proof (rule trim_trimmed [OF trimmed_by_ends])
    show "hd (ca3_period_key mo) \<notin> hd ` set white_space" using w ends(1) by blast
    show "List.last (ca3_period_key mo) \<notin> List.last ` set white_space" using w ends(2) by blast
  qed (simp add: ca3_period_key_def)
qed

lemma parse_after_calendar: "calendar_month mo \<Longrightarrow> parse_after_period (ca3_period_key mo) = Some mo"
  using parse_calendar [of mo] by (simp add: parse_after_period_def parse_year_month_def trim_key calendar_month_def)

lemma parse_year_month_valid: "parse_year_month key = Some mo \<Longrightarrow> valid_month mo"
  by (auto simp: parse_year_month_def split: bind_splits sum.splits if_splits dest: month_new_valid)

lemma parse_after_valid: "parse_after_period key = Some mo \<Longrightarrow> valid_month mo"
  by (auto simp: parse_after_period_def split: bind_splits sum.splits if_splits dest: month_new_valid)

lemma key_inject: "calendar_month a \<Longrightarrow> calendar_month b \<Longrightarrow> ca3_period_key a = ca3_period_key b \<longleftrightarrow> a = b"
  using parse_calendar by (metis option.inject)

lemma display_month_key: "display_month mo = ca3_period_key mo"
  by (simp add: display_month_def ca3_period_key_def pad_int_def)

section \<open>Whole months\<close>

text \<open>The reference: the windows of the months, one after the other, added up.\<close>

fun add_months_up :: "time_api \<Rightarrow> desk \<Rightarrow> month list \<Rightarrow> vat_acc \<Rightarrow> (app_error + vat_acc) option" where
  "add_months_up T dk [] acc = ok acc"
| "add_months_up T dk (mo # ms) acc = and_do (ca3_month_of T dk mo) (\<lambda>p. add_months_up T dk ms (add_part p acc))"

definition months_from :: "month \<Rightarrow> nat \<Rightarrow> month list" where
  "months_from mo n = map (\<lambda>k. (month_succ ^^ k) mo) [0 ..< n]"

lemma months_from_Suc: "months_from mo (Suc n) = mo # months_from (month_succ mo) n"
  by (simp add: months_from_def upt_conv_Cons map_Suc_upt [symmetric] funpow_swap1 comp_def del: upt_Suc)

definition month_first :: "month \<Rightarrow> date" where
  "month_first mo = Date (m_year mo) (m_month mo) 1"

definition month_last :: "month \<Rightarrow> date" where
  "month_last mo = Date (m_year mo) (m_month mo) (month_length (m_year mo) (m_month mo))"

lemma month_ends_le: "month_first mo \<le> month_last mo"
  by (simp add: month_first_def month_last_def)

lemma month_ends_order:
  assumes "valid_month a" "valid_month b" "month_index a < month_index b"
  shows "month_last a < month_first b" "month_first a < month_first b" "month_last a < month_last b"
  using assms month_index_le [OF assms(2,1)]
  by (auto simp: month_first_def month_last_def not_le)

context time_crate
begin

lemma first_day_eq: "valid_month mo \<Longrightarrow> - 9999 \<le> m_year mo \<Longrightarrow> m_year mo \<le> 9999 \<Longrightarrow> first_day T mo = Some (month_first mo)"
  by (auto simp: first_day_def month_first_def from_calendar_date valid_month_def)

lemma last_day_month: "valid_month mo \<Longrightarrow> - 9999 \<le> m_year mo \<Longrightarrow> m_year mo \<le> 9998 \<Longrightarrow> last_day T mo = Some (month_last mo)"
  by (simp add: last_day_eq month_last_def)

lemma add_whole_month:
  assumes "valid_month a" "valid_month b" "valid_month mo" "month_index a \<le> month_index mo" "month_index mo \<le> month_index b"
    and "- 9999 \<le> m_year mo" "m_year mo \<le> 9998"
  shows "add_month T dk (month_first a) (month_last b) mo acc = and_do (ca3_month_of T dk mo) (\<lambda>p. ok (add_part p acc))"
proof -
  have a: "month_first a \<le> month_first mo"
    using month_ends_order(2) [OF assms(1,3)] month_index_eq [OF assms(1,3)] assms(4) by (cases "month_index a = month_index mo") auto
  have b: "month_last mo \<le> month_last b"
    using month_ends_order(3) [OF assms(3,2)] month_index_eq [OF assms(3,2)] assms(5) by (cases "month_index mo = month_index b") auto
  have ends: "first_day T mo = Some (month_first mo)" "last_day T mo = Some (month_last mo)"
    using assms(3,6,7) by (simp_all add: first_day_eq last_day_month)
  have cut: "max (month_first mo) (month_first a) = month_first mo" "min (month_last mo) (month_last b) = month_last mo"
    using a b by (simp_all add: max_absorb1 min_absorb1)
  show ?thesis
    by (simp only: add_month_def ca3_month_of_def ends cut Option.bind.bind_lunit month_ends_le if_True)
qed

lemma whole_months_loop:
  assumes "valid_month a" "valid_month mo" "month_index a \<le> month_index mo" "- 9999 \<le> m_year mo"
    and "m_year ((month_succ ^^ n) mo) \<le> 9998"
  defines "final \<equiv> (month_succ ^^ n) mo"
  shows "vat_months T dk (month_first a) (month_last final) final mo acc
     = Some (add_months_up T dk (months_from mo (Suc n)) acc)"
  using assms(2-5) unfolding final_def
proof (induction n arbitrary: mo acc)
  case 0
  then have "add_month T dk (month_first a) (month_last mo) mo acc = and_do (ca3_month_of T dk mo) (\<lambda>p. ok (add_part p acc))"
    by (intro add_whole_month) (simp_all add: assms(1))
  then show ?case
    by (subst vat_months.simps) (simp add: months_from_def and_do_def ok_def fail_def split: option.split sum.split)
next
  case (Suc n)
  let ?f = "(month_succ ^^ n) (month_succ mo)"
  have f: "(month_succ ^^ Suc n) mo = ?f" by (simp add: funpow_swap1)
  have year: "m_year mo \<le> 9998" using later_year(1) [OF Suc.prems(1), of "Suc n"] Suc.prems(4) by linarith
  have succ: "- 9999 \<le> m_year (month_succ mo)" using later_year(1) [OF Suc.prems(1), of 1] Suc.prems(3) by simp
  have ne: "mo \<noteq> ?f" using month_index_later [OF Suc.prems(1), of "Suc n"] f by (metis add_cancel_right_right of_nat_eq_0_iff nat.distinct(2))
  have add: "add_month T dk (month_first a) (month_last ?f) mo acc = and_do (ca3_month_of T dk mo) (\<lambda>p. ok (add_part p acc))"
    using Suc.prems(1-3) year by (intro add_whole_month) (simp_all add: assms(1))
  have rec: "vat_months T dk (month_first a) (month_last ?f) ?f (month_succ mo) acc1
      = Some (add_months_up T dk (months_from (month_succ mo) (Suc n)) acc1)" for acc1
    using Suc.prems f succ by (intro Suc.IH) simp_all
  show ?case unfolding f
    by (subst vat_months.simps)
       (simp add: add ne rec months_from_Suc [of mo "Suc n"] and_do_def ok_def fail_def split: option.split sum.split)
qed

lemma vat_due_whole_months:
  assumes "valid_month mo" "- 9999 \<le> m_year mo" "m_year ((month_succ ^^ n) mo) \<le> 9998"
  shows "vat_due_for_period T dk (month_first mo) (month_last ((month_succ ^^ n) mo))
     = and_do (add_months_up T dk (months_from mo (Suc n)) vat_acc_ZERO)
         (\<lambda>acc. ok (return_of (month_first mo) (month_last ((month_succ ^^ n) mo)) acc))"
proof -
  let ?f = "(month_succ ^^ n) mo"
  have "month_first mo \<le> month_last ?f"
    using month_ends_order(1) [OF assms(1) valid_later [OF assms(1)], of n] month_ends_le [of mo] month_ends_le [of ?f] assms(1)
    by (cases "n = 0") auto
  moreover have "month_new (dyear (month_first mo)) (dmonth (month_first mo)) = Inr mo"
    "month_new (dyear (month_last ?f)) (dmonth (month_last ?f)) = Inr ?f"
    using month_new_of assms(1) by (simp_all add: month_first_def month_last_def)
  ultimately show ?thesis
    using whole_months_loop [OF assms(1,1) order_refl assms(2,3)]
    by (simp add: vat_due_for_period_def vat_due_loop_def)
qed

end

section \<open>The next filing\<close>

definition filing_due :: "time_api \<Rightarrow> month \<Rightarrow> nat \<Rightarrow> date option" where
  "filing_due T mo d = Option.bind (nth_of_month T mo d) (next_french_business_day_on_or_after T)"

context time_crate
begin

lemma filing_due_found:
  assumes "calendar_month mo" "15 \<le> d" "d \<le> 24"
  shows "\<exists>due. filing_due T mo d = Some due \<and> valid_date due \<and> Date (m_year mo) (m_month mo) d \<le> due
     \<and> is_french_business_day T due = Some True"
proof -
  have len: "24 \<le> month_length (m_year mo) (m_month mo)" by (rule order_trans [OF _ month_length_bounds(1)]) simp
  have nominal: "valid_date (Date (m_year mo) (m_month mo) d)"
    using assms len by (auto simp: calendar_month_def valid_month_def)
  then have nth: "nth_of_month T mo d = Some (Date (m_year mo) (m_month mo) d)"
    by (simp add: nth_of_month_def from_calendar_date)
  show ?thesis
    using next_business_day_correct [OF time_crate_axioms nominal] assms(1)
    by (auto simp: filing_due_def nth calendar_month_def)
qed

text \<open>The search goes from month to month up to the first one that qualifies.\<close>

lemma filing_loop_walk:
  assumes "K = k + n" "calendar_month ((month_succ ^^ K) mo)" "0 \<le> m_year mo" "valid_month mo"
    and "15 \<le> d" "d \<le> 24"
    and "files_in per ((month_succ ^^ K) mo)" "filing_due T ((month_succ ^^ K) mo) d = Some due" "today \<le> due"
    and "\<forall>j < K. files_in per ((month_succ ^^ j) mo) \<longrightarrow> (\<exists>x. filing_due T ((month_succ ^^ j) mo) d = Some x \<and> x < today)"
  shows "\<exists>f. filing_loop T today per d None ((month_succ ^^ k) mo) = Some f \<and> cf_due_on f = due
     \<and> cf_period_start f = period_first_month per ((month_succ ^^ K) mo)
     \<and> cf_period_end f = month_pred ((month_succ ^^ K) mo)"
  using assms(1)
proof (induction n arbitrary: k)
  case 0
  then have "K = k" by simp
  moreover obtain nominal where "nth_of_month T ((month_succ ^^ K) mo) d = Some nominal"
    "next_french_business_day_on_or_after T nominal = Some due"
    using assms(8) by (auto simp: filing_due_def bind_eq_Some_conv)
  ultimately show ?case using assms(7,9) by (subst filing_loop.simps) simp
next
  case (Suc n)
  have rec: "\<exists>f. filing_loop T today per d None (month_succ ((month_succ ^^ k) mo)) = Some f \<and> cf_due_on f = due
     \<and> cf_period_start f = period_first_month per ((month_succ ^^ K) mo)
     \<and> cf_period_end f = month_pred ((month_succ ^^ K) mo)"
    using Suc.IH [of "Suc k"] Suc.prems by simp
  have k: "k < K" using Suc.prems by simp
  show ?case
  proof (cases "files_in per ((month_succ ^^ k) mo)")
    case True
    then obtain x nominal where "nth_of_month T ((month_succ ^^ k) mo) d = Some nominal"
      "next_french_business_day_on_or_after T nominal = Some x" "\<not> today \<le> x"
      using assms(10) k by (auto simp: filing_due_def bind_eq_Some_conv not_le)
    then show ?thesis using rec True by (subst filing_loop.simps) simp
  next
    case False
    then show ?thesis using rec by (subst filing_loop.simps) simp
  qed
qed

lemma quarter_month_soon: "valid_month mo \<Longrightarrow> \<exists>j. 1 \<le> j \<and> j \<le> (3::nat) \<and> files_in per ((month_succ ^^ j) mo)"
proof (cases per)
  case Quarterly
  assume v: "valid_month mo"
  then have "m_month mo \<in> {1, 2, 3, 4, 5, 6, 7, 8, 9, 10, 11, 12}" by (simp add: valid_month_def) presburger
  then have "files_in Quarterly ((month_succ ^^ 1) mo) \<or> files_in Quarterly ((month_succ ^^ 2) mo)
      \<or> files_in Quarterly ((month_succ ^^ 3) mo)"
    by (auto simp: month_succ_def numeral_eq_Suc)
  then obtain j where "j \<in> {1, 2, 3 :: nat}" "files_in Quarterly ((month_succ ^^ j) mo)" by blast
  with Quarterly show ?thesis by (intro exI [of _ j]) auto
qed (auto intro!: exI [of _ 1])

end

end
