(* ===== verification/Vat_Credit.thy ===== *)
theory Vat_Credit
  imports Vat_Loop
begin

text \<open>
  The credit of VAT from one period to the next: where the walk back of \<open>ca3_prior_credit\<close> ends, what
  it reads of the desk, and what the boxes of the form say of a period, before and after a command.
\<close>

section \<open>Folding periods\<close>

lemma and_do_assoc: "and_do (and_do r f) g = and_do r (\<lambda>x. and_do (f x) g)"
  by (simp add: and_do_def split: option.split sum.split)

lemma and_do_simps [simp]:
  "and_do (ok x) f = f x" "and_do (fail e) f = fail e" "and_do None f = None" "and_do r ok = r"
  by (simp_all add: and_do_def ok_def fail_def split: option.split sum.split)

lemma fail_ok [simp]: "fail e \<noteq> Some (Inr x)" "ok x \<noteq> fail e" "fail e \<noteq> ok x" "ok x \<noteq> None" "fail e \<noteq> None"
  "ok x = ok y \<longleftrightarrow> x = y"
  by (simp_all add: ok_def fail_def)

lemma and_do_is_ok: "and_do r f = ok y \<longleftrightarrow> (\<exists>x. r = ok x \<and> f x = ok y)"
  by (auto simp: ok_def and_do_def split: option.split sum.split)

lemma bind_is_ok: "Option.bind x f = ok y \<longleftrightarrow> (\<exists>z. x = Some z \<and> f z = ok y)"
  by (simp add: ok_def bind_eq_Some_conv)

lemma fold_carried_append:
  "fold_carried T dk c (xs @ ys) = and_do (fold_carried T dk c xs) (\<lambda>x. fold_carried T dk x ys)"
  by (induction xs arbitrary: c) (simp_all add: and_do_assoc)

section \<open>Periods in a row\<close>

fun months_of :: "ca3_periodicity \<Rightarrow> nat" where
  "months_of Monthly = 1"
| "months_of Quarterly = 3"

definition period_after :: "ca3_periodicity \<Rightarrow> month \<Rightarrow> nat \<Rightarrow> month" where
  "period_after per mo k = (month_succ ^^ (months_of per * k)) mo"

definition period_end_month :: "ca3_periodicity \<Rightarrow> month \<Rightarrow> month" where
  "period_end_month per mo = (month_succ ^^ (months_of per - 1)) mo"

definition period_row :: "ca3_periodicity \<Rightarrow> month \<Rightarrow> date \<times> date \<times> string" where
  "period_row per mo = (month_first mo, month_last (period_end_month per mo), ca3_period_key mo)"

lemma period_after_0 [simp]: "period_after per mo 0 = mo"
  by (simp add: period_after_def)

lemma valid_period_after [simp]: "valid_month mo \<Longrightarrow> valid_month (period_after per mo k)"
  by (simp add: period_after_def)

lemma period_after_index [simp]:
  "valid_month mo \<Longrightarrow> month_index (period_after per mo k) = month_index mo + int (months_of per * k)"
  by (simp add: period_after_def)

lemma months_of_pos [simp]: "0 < months_of per"
  by (cases per) simp_all

lemma period_before_after: "valid_month mo \<Longrightarrow> period_before per (period_after per mo (Suc k)) = period_after per mo k"
  by (cases per) (simp_all add: period_after_def numeral_eq_Suc month_pred_succ)

lemma period_last_month_eq: "period_last_month per mo = period_end_month per mo"
  by (cases per) (simp_all add: period_end_month_def numeral_eq_Suc)

lemma period_after_mono: "valid_month mo \<Longrightarrow> j \<le> k \<Longrightarrow> m_year (period_after per mo j) \<le> m_year (period_after per mo k)"
proof -
  assume "valid_month mo" "j \<le> k"
  moreover have "month_index (period_after per mo j) \<le> month_index (period_after per mo k)"
    using calculation by simp
  ultimately show ?thesis
    using month_index_le [of "period_after per mo j" "period_after per mo k"] by auto
qed

lemma period_after_key:
  assumes "calendar_month mo" "calendar_month (period_after per mo k)" "i \<le> k" "j \<le> k"
  shows "ca3_period_key (period_after per mo i) = ca3_period_key (period_after per mo j) \<longleftrightarrow> i = j"
proof -
  have cal: "calendar_month (period_after per mo l)" if "l \<le> k" for l
    using assms(1,2) period_after_mono [of mo 0 l per] period_after_mono [OF _ that, of mo per]
    by (auto simp: calendar_month_def)
  have "period_after per mo i = period_after per mo j \<longleftrightarrow> i = j"
    using period_after_index [of mo per i] period_after_index [of mo per j] assms(1) months_of_pos [of per]
    by (metis calendar_valid add_left_cancel of_nat_eq_iff mult_cancel1 less_irrefl)
  with key_inject [OF cal [OF assms(3)] cal [OF assms(4)]] show ?thesis by simp
qed

lemma calendar_between:
  assumes "calendar_month mo" "m_year (period_after per mo k) \<le> 9997" "j \<le> k"
  shows "calendar_month (period_after per mo j)" "- 9999 \<le> m_year (period_after per mo j)"
    "m_year (period_end_month per (period_after per mo j)) \<le> 9998"
proof -
  have y: "0 \<le> m_year (period_after per mo j)" "m_year (period_after per mo j) \<le> 9997"
    using assms(1,2) period_after_mono [of mo 0 j per] period_after_mono [OF _ assms(3), of mo per]
    by (auto simp: calendar_month_def)
  then show "calendar_month (period_after per mo j)" "- 9999 \<le> m_year (period_after per mo j)"
    using assms(1) by (simp_all add: calendar_month_def)
  let ?p = "period_after per mo j"
  have v: "valid_month ?p" using assms(1) by simp
  have "m_year ((month_succ ^^ 2) ?p) \<le> m_year ?p + 1"
    using v by (auto simp: month_succ_def numeral_eq_Suc valid_month_def)
  with y show "m_year (period_end_month per ?p) \<le> 9998"
    by (cases per) (simp_all add: period_end_month_def)
qed

section \<open>The walk back\<close>

definition opened_by :: "desk \<Rightarrow> month \<Rightarrow> bool" where
  "opened_by dk mo \<longleftrightarrow> (case dk_opening dk of None \<Rightarrow> True | Some ob \<Rightarrow> opens_on ob \<le> month_first mo)"

lemma opened_by_later:
  assumes "opened_by dk mo" "valid_month mo"
  shows "\<not> (case dk_opening dk of None \<Rightarrow> False | Some ob \<Rightarrow> month_first (period_after per mo k) < opens_on ob)"
proof -
  have "month_first mo \<le> month_first (period_after per mo k)"
    using assms(2) month_ends_order(2) [OF assms(2) valid_period_after [OF assms(2)], of per k]
    by (cases "k = 0") simp_all
  with assms(1) show ?thesis by (auto simp: opened_by_def split: option.splits)
qed

context time_crate
begin

lemma bounds_of_period:
  assumes "calendar_month mo" "m_year (period_end_month per mo) \<le> 9998"
  shows "ca3_bounds_for T (ca3_period_key mo) per = ok (month_first mo, month_last (period_end_month per mo))"
proof -
  have "m_year mo \<le> 9998" "0 \<le> m_year mo" "valid_month mo" using assms(1) by (auto simp: calendar_month_def)
  moreover have "0 \<le> m_year (period_end_month per mo)"
    using later_year(1) [OF calendar_valid [OF assms(1)], of "months_of per - 1"] \<open>0 \<le> m_year mo\<close>
    by (simp add: period_end_month_def)
  ultimately show ?thesis
    using assms(2)
    by (simp add: ca3_bounds_for_def parse_calendar [OF assms(1)] period_last_month_eq first_day_eq last_day_month)
       (simp add: period_end_month_def last_day_month)
qed

lemma walk_back_anchored:
  assumes "calendar_month mo" "m_year (period_after per mo k) \<le> 9997"
    and "after_period c = ca3_period_key mo" "opened_by dk (period_after per mo 1)" "1 \<le> k"
  shows "walk_back n T dk c per (ca3_period_key (period_after per mo k)) between
     = fold_carried T dk (if k \<le> n then ci_credit c else 0)
         (map (\<lambda>j. period_row per (period_after per mo j)) [max 1 (k - n) ..< k] @ rev between)"
  using assms(2,5)
proof (induction n arbitrary: k between)
  case 0
  then show ?case by (simp add: fold_carried_credit_def)
next
  case (Suc n)
  obtain i where i: "k = Suc i" using Suc.prems(2) by (cases k) auto
  have v: "valid_month mo" using assms(1) by simp
  have year: "m_year (period_after per mo i) \<le> 9997"
    using period_after_mono [OF v, of i k per] Suc.prems(1) i by simp
  have parse: "parse_year_month (ca3_period_key (period_after per mo k)) = Some (period_after per mo k)"
    using calendar_between(1) [OF assms(1) Suc.prems(1) order_refl] by (rule parse_calendar)
  have prev: "previous_ca3_period_key (ca3_period_key (period_after per mo k)) per = Some (ca3_period_key (period_after per mo i))"
    unfolding previous_ca3_period_key_def parse using period_before_after [OF v] by (simp add: i)
  show ?case
  proof (cases "i = 0")
    case True
    then show ?thesis using prev i assms(3) by (simp add: fold_carried_credit_def)
  next
    case False
    have ne: "after_period c \<noteq> ca3_period_key (period_after per mo i)"
      using period_after_key [OF assms(1) calendar_between(1) [OF assms(1) Suc.prems(1) order_refl], of 0 i] False i
      by (simp add: assms(3))
    obtain l where l: "i = Suc l" using False by (cases i) auto
    have after: "period_after per mo i = period_after per (period_after per mo 1) l"
    proof -
      have "months_of per * l + months_of per = months_of per * i" by (simp add: l)
      then have "(month_succ ^^ (months_of per * i)) mo = (month_succ ^^ (months_of per * l)) ((month_succ ^^ months_of per) mo)"
        by (metis funpow_add o_apply)
      then show ?thesis by (simp add: period_after_def)
    qed
    have cut: "\<not> (case dk_opening dk of None \<Rightarrow> False | Some ob \<Rightarrow> month_first (period_after per mo i) < opens_on ob)"
      unfolding after using opened_by_later [OF assms(4)] v by simp
    have bounds: "ca3_bounds_for T (ca3_period_key (period_after per mo i)) per
        = ok (month_first (period_after per mo i), month_last (period_end_month per (period_after per mo i)))"
      using calendar_between [OF assms(1) year order_refl] by (intro bounds_of_period)
    have "1 \<le> i" using False by simp
    have upt: "[max 1 (k - Suc n) ..< k] = [max 1 (i - n) ..< i] @ [i]" using False i by simp
    have step: "walk_back (Suc n) T dk c per (ca3_period_key (period_after per mo k)) between
      = walk_back n T dk c per (ca3_period_key (period_after per mo i)) (between @ [period_row per (period_after per mo i)])"
      using prev ne cut by (simp add: bounds period_row_def)
    show ?thesis unfolding step Suc.IH [OF year \<open>1 \<le> i\<close>] upt
      using i by simp
  qed
qed

lemma prior_anchored:
  assumes "calendar_month mo" "m_year (period_after per mo k) \<le> 9997" "carry_row dk = Some c"
    and "after_period c = ca3_period_key mo" "opened_by dk (period_after per mo 1)" "1 \<le> k"
  shows "ca3_prior_credit T dk (ca3_period_key (period_after per mo k)) per
     = fold_carried T dk (if k \<le> 24 then ci_credit c else 0)
         (map (\<lambda>j. period_row per (period_after per mo j)) [max 1 (k - 24) ..< k])"
  using walk_back_anchored [OF assms(1,2,4-6), of 24 "[]"] assms(3) by (simp add: ca3_prior_credit_def)

lemma prior_next:
  assumes "calendar_month mo" "m_year (period_after per mo (Suc k)) \<le> 9997" "carry_row dk = Some c"
    and "after_period c = ca3_period_key mo" "opened_by dk (period_after per mo 1)" "1 \<le> k" "k < 24"
  shows "ca3_prior_credit T dk (ca3_period_key (period_after per mo (Suc k))) per
     = and_do (ca3_prior_credit T dk (ca3_period_key (period_after per mo k)) per)
         (carried_step T dk (period_row per (period_after per mo k)))"
proof -
  have year: "m_year (period_after per mo k) \<le> 9997"
    using period_after_mono [OF calendar_valid [OF assms(1)], of k "Suc k" per] assms(2) by simp
  have "max 1 (k - 24) = 1" "max 1 (Suc k - 24) = 1" using assms(7) by simp_all
  then have "[max 1 (Suc k - 24) ..< Suc k] = [max 1 (k - 24) ..< k] @ [k]" using assms(6) by simp
  then show ?thesis
    unfolding prior_anchored [OF assms(1,2,3,4,5) le_SucI [OF assms(6)]] prior_anchored [OF assms(1) year assms(3-6)]
    using assms(7) by (simp add: fold_carried_append)
qed

end

section \<open>The boxes\<close>

lemma find_of_append: "find P (xs @ ys) = (case find P xs of None \<Rightarrow> find P ys | Some x \<Rightarrow> Some x)"
  by (induction xs) auto

lemma box_of_append: "box_of (xs @ ys) c = (case find (\<lambda>b. case_of b = c) xs of None \<Rightarrow> box_of ys c | Some b \<Rightarrow> box_value b)"
  by (simp add: box_of_def find_of_append split: option.split)

lemma find_nonzero_box: "find (\<lambda>b. case_of b = c) (nonzero_box d m) = (if m = 0 \<or> d \<noteq> c then None else Some (ca3_box d (Some m) Fill))"
  by (simp add: nonzero_box_def ca3_box_def)

lemma box_of_last:
  "box_of [ca3_box d m r] c = (if d = c then m else None)"
  "box_of (credit_boxes x rf) ''25'' = Some x" "box_of (credit_boxes x rf) ''26'' = map_option rf_amount rf"
  "box_of (credit_boxes x rf) ''27'' =
     (case rf of None \<Rightarrow> Some x | Some r \<Rightarrow> if x - rf_amount r > 0 then Some (x - rf_amount r) else None)"
  "c \<notin> {''25'', ''26'', ''27''} \<Longrightarrow> box_of (credit_boxes x rf) c = None"
  by (auto simp: box_of_def credit_boxes_def ca3_box_def split: option.split)

definition net_of :: "vat_return \<Rightarrow> money \<Rightarrow> money \<Rightarrow> money" where
  "net_of vat reversal prior = vr_due vat + reversal - prior"

lemma filled_box:
  "box_of (filled_boxes vat rev0 prior rf) ''15'' = (if rev0 = 0 then None else Some rev0)"
  "box_of (filled_boxes vat rev0 prior rf) ''22'' = (if prior = 0 then None else Some prior)"
  "box_of (filled_boxes vat rev0 prior rf) ''25'' =
     (if net_of vat rev0 prior \<ge> 0 then None else Some (- net_of vat rev0 prior))"
  "box_of (filled_boxes vat rev0 prior rf) ''26'' =
     (if net_of vat rev0 prior \<ge> 0 then None else map_option rf_amount rf)"
  "box_of (filled_boxes vat rev0 prior rf) ''27'' =
     (if net_of vat rev0 prior \<ge> 0 then None
      else case rf of None \<Rightarrow> Some (- net_of vat rev0 prior)
           | Some r \<Rightarrow> if - net_of vat rev0 prior - rf_amount r > 0 then Some (- net_of vat rev0 prior - rf_amount r) else None)"
  "box_of (filled_boxes vat rev0 prior rf) ''28'' =
     (if net_of vat rev0 prior \<ge> 0 then Some (net_of vat rev0 prior) else None)"
proof -
  let ?pre = "nonzero_box ''02'' (vr_taxable_ht vat) @ nonzero_box ''08'' (vr_collected vat) @ nonzero_box ''15'' rev0
    @ nonzero_box ''19'' (vr_deductible_assets vat) @ nonzero_box ''20'' (vr_deductible_other vat) @ nonzero_box ''22'' prior"
  let ?net = "net_of vat rev0 prior"
  have shape: "filled_boxes vat rev0 prior rf = ?pre @ (if ?net \<ge> 0 then [ca3_box ''28'' (Some ?net) Fill] else credit_boxes (- ?net) rf)"
    by (simp add: filled_boxes_def net_of_def)
  have pre: "find (\<lambda>b. case_of b = c) ?pre = None" if "c \<in> {''25'', ''26'', ''27'', ''28''}" for c
    using that by (auto simp: find_of_append find_nonzero_box)
  show "box_of (filled_boxes vat rev0 prior rf) ''15'' = (if rev0 = 0 then None else Some rev0)"
    "box_of (filled_boxes vat rev0 prior rf) ''22'' = (if prior = 0 then None else Some prior)"
    unfolding shape by (simp_all add: box_of_append find_of_append find_nonzero_box box_of_last) (simp_all add: ca3_box_def)
  show "box_of (filled_boxes vat rev0 prior rf) ''25'' = (if ?net \<ge> 0 then None else Some (- ?net))"
    "box_of (filled_boxes vat rev0 prior rf) ''26'' = (if ?net \<ge> 0 then None else map_option rf_amount rf)"
    "box_of (filled_boxes vat rev0 prior rf) ''27'' =
     (if ?net \<ge> 0 then None
      else case rf of None \<Rightarrow> Some (- ?net) | Some r \<Rightarrow> if - ?net - rf_amount r > 0 then Some (- ?net - rf_amount r) else None)"
    "box_of (filled_boxes vat rev0 prior rf) ''28'' = (if ?net \<ge> 0 then Some ?net else None)"
    unfolding shape box_of_append [of ?pre] by (simp_all add: pre box_of_last)
qed

text \<open>What a form declares: a payment (box 28) or the opposite of a credit (box 25).\<close>

definition due_of :: "form_box list \<Rightarrow> money" where
  "due_of bs = box_amount bs ''28'' - box_amount bs ''25''"

lemma due_of_filled: "due_of (filled_boxes vat r0 prior rf) = net_of vat r0 prior"
  by (simp add: due_of_def box_amount_def filled_box)

section \<open>What the rows of a period reach\<close>

lemma parse_year_month_range: "parse_year_month key = Some mo \<Longrightarrow> 0 \<le> m_year mo \<and> m_year mo < 2 ^ 31"
proof -
  assume a: "parse_year_month key = Some mo"
  then obtain y m yr mth where s: "split_once CHR ''-'' key = Some (y, m)" "parse_i32 y = Some yr" "month_new yr mth = Inr mo"
    by (auto simp: parse_year_month_def split: bind_splits sum.splits if_splits)
  have "CHR ''-'' \<notin> set y" using split_once_Some [OF s(1)] by simp
  then have "0 \<le> yr \<and> yr < 2 ^ 31"
    using s(2) by (cases y) (auto simp: parse_i32_def Let_def split: if_splits)
  then show ?thesis using month_new_valid [OF s(3)] by simp
qed

lemma parse_negative: "m_year mo < 0 \<Longrightarrow> parse_year_month (ca3_period_key mo) = None"
  by (simp add: parse_year_month_def ca3_period_key_def pad_int_def parse_i32_def Let_def)

lemma valid_period_before [simp]: "valid_month mo \<Longrightarrow> valid_month (period_before per mo)"
  by (cases per) simp_all

lemma period_before_index: "valid_month mo \<Longrightarrow> month_index (period_before per mo) < month_index mo"
  by (cases per) simp_all

lemma parse_period_before:
  assumes "parse_year_month k = Some m" "parse_year_month (ca3_period_key (period_before per m)) = Some m2"
  shows "m2 = period_before per m" "month_index m2 < month_index m"
proof -
  have v: "valid_month m" by (rule parse_year_month_valid [OF assms(1)])
  have "month_index (period_before per m) < month_index m" by (rule period_before_index [OF v])
  then have le: "m_year (period_before per m) \<le> m_year m" using v month_index_le [of "period_before per m" m] by auto
  have nonneg: "0 \<le> m_year (period_before per m)" using parse_negative assms(2) by (metis not_le option.distinct(1))
  then have "parse_year_month (ca3_period_key (period_before per m)) = Some (period_before per m)"
    using v le parse_year_month_range [OF assms(1)] by (intro parse_key) auto
  then show "m2 = period_before per m" using assms(2) by simp
  then show "month_index m2 < month_index m" using period_before_index [OF v] by simp
qed

text \<open>Two desks that differ at most in the rows of one period.\<close>

definition differ_at :: "string \<Rightarrow> desk \<Rightarrow> desk \<Rightarrow> bool" where
  "differ_at key d1 d2 \<longleftrightarrow> same_facts d1 d2 \<and> carry_row d1 = carry_row d2
     \<and> (\<forall>k. k \<noteq> key \<longrightarrow> refund_amount d1 k = refund_amount d2 k \<and> reversal_amount d1 k = reversal_amount d2 k)"

lemma fold_carried_cong:
  assumes "differ_at key d1 d2" "\<forall>x \<in> set xs. snd (snd x) \<noteq> key"
  shows "fold_carried T d1 c xs = fold_carried T d2 c xs"
  using assms(2)
proof (induction xs arbitrary: c)
  case (Cons x xs)
  obtain s e k where x: "x = (s, e, k)" by (cases x) auto
  have amounts: "refund_amount d1 k = refund_amount d2 k" "reversal_amount d1 k = reversal_amount d2 k"
    using Cons.prems assms(1) by (simp_all add: x differ_at_def)
  have due: "vat_due_for_period T d1 s e = vat_due_for_period T d2 s e"
    using assms(1) by (intro same_facts_due) (simp add: differ_at_def)
  have "carried_step T d1 x c = carried_step T d2 x c" by (simp only: x carried_step_def amounts due prod.case)
  then show ?case using Cons by simp
qed simp

lemma walk_back_cong:
  assumes "differ_at key d1 d2" "parse_year_month key = Some mo"
    and "parse_year_month k = Some m" "month_index m \<le> month_index mo" "\<forall>x \<in> set between. snd (snd x) \<noteq> key"
  shows "walk_back n T d1 c per k between = walk_back n T d2 c per k between"
  using assms(3-5)
proof (induction n arbitrary: k m between)
  case 0
  then show ?case by (simp add: fold_carried_credit_def fold_carried_cong [OF assms(1)])
next
  case (Suc n)
  have fold: "fold_carried_credit T d1 x between = fold_carried_credit T d2 x between" for x
    using Suc.prems(3) by (simp add: fold_carried_credit_def fold_carried_cong [OF assms(1)])
  have start: "dk_opening d1 = dk_opening d2" using assms(1) by (simp add: differ_at_def same_facts_def)
  let ?prev = "ca3_period_key (period_before per m)"
  have prev: "previous_ca3_period_key k per = Some ?prev" by (simp add: previous_ca3_period_key_def Suc.prems(1))
  show ?case
  proof (cases "parse_year_month ?prev")
    case None
    then show ?thesis by (simp add: prev fold ca3_bounds_for_def)
  next
    case (Some m2)
    have less: "month_index m2 < month_index m" by (rule parse_period_before(2) [OF Suc.prems(1) Some])
    have "?prev \<noteq> key" using less Suc.prems(2) Some assms(2) by auto
    then have rec: "walk_back n T d1 c per ?prev (between @ [(s, e, ?prev)]) = walk_back n T d2 c per ?prev (between @ [(s, e, ?prev)])" for s e
      using Suc.prems less Some by (intro Suc.IH [of _ m2]) auto
    show ?thesis by (simp add: prev fold rec start split_beta cong: if_cong)
  qed
qed

lemma prior_cong:
  assumes "differ_at key d1 d2" "parse_year_month key = Some mo"
  shows "ca3_prior_credit T d1 key per = ca3_prior_credit T d2 key per"
proof (cases "carry_row d1")
  case None
  then have "carry_row d2 = None" using assms(1) by (simp add: differ_at_def)
  moreover have month: "ca3_month_of T d1 mo = ca3_month_of T d2 mo" for mo
    using assms(1) same_facts_month [of d1 d2 T] by (simp add: differ_at_def)
  ultimately show ?thesis using None by (simp only: ca3_prior_credit_def option.case month)
next
  case (Some c)
  then have "carry_row d2 = Some c" using assms(1) by (simp add: differ_at_def)
  then show ?thesis using walk_back_cong [OF assms assms(2) order_refl, of "[]"] Some by (simp add: ca3_prior_credit_def)
qed

text \<open>The boxes of a period, its reversal and its refund apart.\<close>

lemma ca3_boxes_complete:
  "ca3_boxes T dk today key = ok (bs, Complete) \<longleftrightarrow>
     (\<exists>s e vat prior. ca3_period_bounds T dk today key = ok (s, e)
        \<and> \<not> (case dk_opening dk of None \<Rightarrow> False | Some ob \<Rightarrow> s < opens_on ob)
        \<and> vat_due_for_period T dk s e = ok vat
        \<and> ca3_prior_credit T dk key (ca3_periodicity_of dk) = ok prior
        \<and> bs = filled_boxes vat (reversal_amount dk key) prior (vat_refund_for dk key))"
  by (fastforce simp: ca3_boxes_def and_do_is_ok split: if_splits)

lemma ca3_boxes_coverage: "ca3_boxes T dk today key = ok (bs, cov) \<Longrightarrow> cov \<noteq> Incomplete \<Longrightarrow> cov = Complete"
  by (auto simp: ca3_boxes_def and_do_is_ok split: if_splits)

lemma boxes_of_period:
  assumes "differ_at key d1 d2" "parse_year_month key = Some mo" "ca3_boxes T d1 today key = ok (bs, Complete)"
  shows "\<exists>vat prior. bs = filled_boxes vat (reversal_amount d1 key) prior (vat_refund_for d1 key)
     \<and> ca3_boxes T d2 today key = ok (filled_boxes vat (reversal_amount d2 key) prior (vat_refund_for d2 key), Complete)"
proof -
  have facts: "same_facts d1 d2" using assms(1) by (simp add: differ_at_def)
  obtain s e vat prior where a: "ca3_period_bounds T d1 today key = ok (s, e)"
    "\<not> (case dk_opening d1 of None \<Rightarrow> False | Some ob \<Rightarrow> s < opens_on ob)" "vat_due_for_period T d1 s e = ok vat"
    "ca3_prior_credit T d1 key (ca3_periodicity_of d1) = ok prior"
    and bs: "bs = filled_boxes vat (reversal_amount d1 key) prior (vat_refund_for d1 key)"
    using assms(3) unfolding ca3_boxes_complete by blast
  have "ca3_boxes T d2 today key = ok (filled_boxes vat (reversal_amount d2 key) prior (vat_refund_for d2 key), Complete)"
    unfolding ca3_boxes_complete
    using a same_facts_bounds [OF facts, of T today key] same_facts_due [OF facts, of T s e] same_facts_periodicity [OF facts]
      prior_cong [OF assms(1,2), of T "ca3_periodicity_of d1"] facts
    by (intro exI [of _ s] exI [of _ e] exI [of _ vat] exI [of _ prior]) (simp add: same_facts_def)
  with bs show ?thesis by blast
qed

end
