(* ===== verification/Declarations.thy ===== *)
theory Declarations
  imports Vat_Credit
begin

text \<open>
  What the VAT returns of the desk guarantee and where they fail: the loops end, a period is the sum of
  its months, the credit of a period is the one the next begins with, what a refund and a reversal
  change, the entry that clears a month against the form it stands for, and the cases in which the
  code loses a credit, refunds it twice, unlocks a filed return or panics.
\<close>

section \<open>Desks without entries\<close>

definition empty_books :: "desk \<Rightarrow> bool" where
  "empty_books dk \<longleftrightarrow> dk_profile dk \<noteq> None \<and> dk_opening dk = None \<and> dk_write_offs dk = []
     \<and> heads (dk_books dk) = [] \<and> v_assets (dk_books dk) = [] \<and> v_bank (dk_books dk) = [] \<and> v_years (dk_books dk) = []"

lemma empty_build:
  assumes "lf_write_offs f = []" "posted f = []" "lf_assets f = []" "lf_bank_transactions f = []" "lf_opening f = None"
    "lf_snapshot f = None" "appropriations f = []"
  shows "build T f = Some (Inr \<lparr>l_exercise = lf_exercise f, l_entries = []\<rparr>)"
proof -
  have es: "entries_before_tax T f = Some []"
    using assms(1-5,7) by (simp add: entries_before_tax_def depreciation_entries_def prepaid_entries_def opening_entries_def
        write_off_entries_def settlement_entries_def appropriation_entries_def Let_def)
  have "impute_prior_losses 0 x = Some \<lparr>imputed = 0, li_taxable_result = 0, remaining = max x 0\<rparr>" for x
    by (simp add: impute_prior_losses_def)
  moreover have "i64_try_from 0 = Some 0" by (simp add: in_i64_def)
  ultimately have tax: "tax_of f [] = Some 0"
    using assms(6) by (simp add: tax_of_def line_amounts_def income_before_tax_def corporate_income_tax_def)
  have "corporate_tax_entry fi 0 = None" "carry_back_entry fi 0 = None" "credit_of f = 0" for fi
    using assms(6) by (simp_all add: corporate_tax_entry_def corporate_tax_booking_def carry_back_entry_def credit_of_def)
  then show ?thesis by (simp add: build_def es tax Let_def opt_list_def magnitude_def)
qed

lemma empty_ledger:
  assumes "empty_books dk"
  shows "build_ledger T dk ex = ok \<lparr>l_exercise = ex, l_entries = []\<rparr>"
proof -
  obtain p where p: "dk_profile dk = Some p" using assms by (auto simp: empty_books_def)
  obtain ld where ld: "read_facts T dk = Inr ld" "ld_write_offs ld = []" "ld_posted ld = []" "ld_assets ld = []"
    "ld_bank_transactions ld = []" "ld_opening ld = None" "ld_fiscal_years ld = []"
    using assms by (auto simp: read_facts_def p empty_books_def list_entries_def and_then_def)
  have "build T (facts_for ld ex None []) = Some (Inr \<lparr>l_exercise = ex, l_entries = []\<rparr>)"
    using empty_build [of "facts_for ld ex None []" T] ld by (simp add: facts_for_def)
  then have "loaded_ledger T ld ex = Some (Some (Inr \<lparr>l_exercise = ex, l_entries = []\<rparr>))"
    using ld by (subst loaded_ledger.simps) (simp add: own_opening_def previous_record_def)
  then show ?thesis by (simp add: build_ledger_def ld(1))
qed

context time_crate
begin

lemma empty_window:
  assumes "empty_books dk" "calendar_month mo" "1 \<le> m_year mo" "m_year mo \<le> 9997"
    and "\<And>p e. dk_profile dk = Some p \<Longrightarrow> fiscal_year_end_of p = Some e \<Longrightarrow> valid_fye e"
  shows "ca3_month_of T dk mo = ok Ca3Month_ZERO"
proof -
  obtain p where p: "dk_profile dk = Some p" using assms(1) by (auto simp: empty_books_def)
  let ?fye = "case fiscal_year_end_of p of None \<Rightarrow> fye_CALENDAR | Some e \<Rightarrow> e"
  have fye: "valid_fye ?fye"
    using assms(5) [OF p] by (auto simp: fye_CALENDAR_def valid_fye_def split: option.split)
  have valid: "valid_date (month_last mo)" using assms(2-4) by (auto simp: month_last_def calendar_month_def valid_month_def)
  have "\<exists>ex. containing T ?fye (month_last mo) = Some ex"
    using containing_eq(1) [OF fye valid] assms(3,4) by (auto simp: month_last_def)
  then obtain ex where ex: "containing T ?fye (month_last mo) = Some ex" by blast
  have ends: "first_day T mo = Some (month_first mo)" "last_day T mo = Some (month_last mo)"
    using assms(2-4) by (simp_all add: first_day_eq last_day_month)
  have zero: "ca3_on_ledger \<lparr>l_exercise = ex, l_entries = []\<rparr> s t key = Ca3Month_ZERO" for s t key
    by (simp add: ca3_on_ledger_def ca3_sums_of_def ca3_of_sums_def sum_account_def Ca3Month_ZERO_def round_to_euro_def
        signed_divide_int_def)
  show ?thesis
    by (simp add: ca3_month_of_def ends ca3_window_def p ex empty_ledger [OF assms(1)] zero)
qed

lemma empty_months:
  assumes "empty_books dk" "\<And>p e. dk_profile dk = Some p \<Longrightarrow> fiscal_year_end_of p = Some e \<Longrightarrow> valid_fye e"
    and "\<forall>mo \<in> set ms. calendar_month mo \<and> 1 \<le> m_year mo \<and> m_year mo \<le> 9997"
  shows "add_months_up T dk ms vat_acc_ZERO = ok vat_acc_ZERO"
  using assms(3)
proof (induction ms)
  case (Cons mo ms)
  then have "ca3_month_of T dk mo = ok Ca3Month_ZERO" using assms(1,2) by (intro empty_window) auto
  moreover have "add_part Ca3Month_ZERO vat_acc_ZERO = vat_acc_ZERO"
    by (simp add: add_part_def Ca3Month_ZERO_def vat_acc_ZERO_def)
  ultimately show ?case using Cons by simp
qed simp

end

text \<open>A period in which nothing is due.\<close>

definition quiet_period :: "time_api \<Rightarrow> desk \<Rightarrow> ca3_periodicity \<Rightarrow> month \<Rightarrow> bool" where
  "quiet_period T dk per mo \<longleftrightarrow>
     (\<exists>r. vat_due_for_period T dk (month_first mo) (month_last (period_end_month per mo)) = ok r \<and> vr_due r = 0)"

lemma quiet_step:
  "quiet_period T dk per mo \<Longrightarrow> carried_step T dk (period_row per mo) c
     = ok (if reversal_amount dk (ca3_period_key mo) \<ge> c then 0
           else c - reversal_amount dk (ca3_period_key mo) - refund_amount dk (ca3_period_key mo))"
  by (auto simp: quiet_period_def carried_step_def period_row_def)

lemma no_rows [simp]:
  "reversals dk = [] \<Longrightarrow> reversal_amount dk key = 0" "refunds dk = [] \<Longrightarrow> refund_amount dk key = 0"
  "refunds dk = [] \<Longrightarrow> vat_refund_for dk key = None" "filings dk = [] \<Longrightarrow> filing_for dk k key = None"
  by (simp_all add: reversal_amount_def refund_amount_def vat_reversal_for_def vat_refund_for_def filing_for_def)

lemma quiet_fold:
  assumes "reversals dk = []" "refunds dk = []" "0 \<le> c" "\<forall>p \<in> set ps. quiet_period T dk per p"
  shows "fold_carried T dk c (map (period_row per) ps) = ok c"
  using assms(3,4) by (induction ps) (auto simp: quiet_step assms(1,2))

lemma quiet_same: "same_facts d1 d2 \<Longrightarrow> quiet_period T d1 per mo \<longleftrightarrow> quiet_period T d2 per mo"
  by (simp add: quiet_period_def same_facts_due)

context time_crate
begin

lemma empty_quiet:
  assumes "empty_books dk" "\<And>p e. dk_profile dk = Some p \<Longrightarrow> fiscal_year_end_of p = Some e \<Longrightarrow> valid_fye e"
    and "valid_month mo" "1 \<le> m_year mo" "m_year mo \<le> 9990"
  shows "quiet_period T dk per mo"
proof -
  let ?n = "months_of per - 1"
  have n: "?n \<le> 2" by (cases per) simp_all
  have ms: "calendar_month x \<and> 1 \<le> m_year x \<and> m_year x \<le> 9997" if "x \<in> set (months_from mo (Suc ?n))" for x
  proof -
    have "x \<in> (\<lambda>k. (month_succ ^^ k) mo) ` {0 ..< Suc ?n}" using that by (simp only: months_from_def set_map set_upt)
    then obtain k where k: "x = (month_succ ^^ k) mo" "k \<in> {0 ..< Suc ?n}" by (rule imageE)
    then have "k \<le> ?n" by simp
    note k = this k(1)
    with n later_year [OF assms(3), of k] assms(3-5) show ?thesis by (simp add: calendar_month_def)
  qed
  have "m_year ((month_succ ^^ ?n) mo) \<le> 9998" using later_year(2) [OF assms(3), of ?n] n assms(5) by linarith
  then have "vat_due_for_period T dk (month_first mo) (month_last (period_end_month per mo))
      = ok (return_of (month_first mo) (month_last (period_end_month per mo)) vat_acc_ZERO)"
    using vat_due_whole_months [of mo ?n dk] assms(3,4) empty_months [OF assms(1,2)] ms
    by (simp add: period_end_month_def)
  then show ?thesis by (simp add: quiet_period_def return_of_def vat_acc_ZERO_def)
qed

end

section \<open>A sample desk\<close>

definition sample_books :: vault where
  "sample_books = \<lparr>heads = [], jlines = [], drawn = 0, v_expenses = [], v_bank = [], v_assets = [], v_invoices = [],
     v_payments = [], v_clients = [], v_years = []\<rparr>"

definition sample_carry :: vat_carry_in where
  "sample_carry = \<lparr>after_period = ca3_period_key \<lparr>m_year = 2026, m_month = 1\<rparr>, ci_credit = 100000, ci_source = None,
     ci_revision = 1, ci_created_at = ''now''\<rparr>"

definition sample_desk :: desk where
  "sample_desk = \<lparr>dk_profile = Some sample_profile, dk_opening = None, dk_books = sample_books, dk_write_offs = [],
     carry_row = Some sample_carry, reversals = [], refunds = [], filings = []\<rparr>"

definition january :: month where
  "january = \<lparr>m_year = 2026, m_month = 1\<rparr>"

definition sample_filing :: duty_filing where
  "sample_filing = \<lparr>df_id = ''f1'', df_kind = Ca3, df_period_key = ca3_period_key (period_after Monthly january 1),
     due_on = Date 2026 3 24, filed_on = Date 2026 3 9\<rparr>"

definition sample_venv :: venv where
  "sample_venv = \<lparr>v_draws = \<lparr>uuid_at = (\<lambda>n. ''u'' @ show_nat n), clock_text = Inr ''now''\<rparr>, debug_text = (\<lambda>s. s)\<rparr>"

lemma sample_fields [simp]:
  "carry_row sample_desk = Some sample_carry" "reversals sample_desk = []" "refunds sample_desk = []"
  "filings sample_desk = []" "dk_opening sample_desk = None" "after_period sample_carry = ca3_period_key january"
  "ci_credit sample_carry = 100000" "calendar_month january" "ca3_periodicity_of sample_desk = Monthly"
  by (simp_all add: sample_desk_def sample_carry_def january_def calendar_month_def valid_month_def
      ca3_periodicity_of_def sample_profile_def)

lemma sample_quiet:
  assumes "valid_month mo" "1 \<le> m_year mo" "m_year mo \<le> 9990"
  shows "quiet_period gregorian sample_desk per mo"
proof -
  have "empty_books sample_desk" by (simp add: empty_books_def sample_desk_def sample_books_def)
  then show ?thesis
    using assms by (intro time_crate.empty_quiet [OF gregorian.time_crate_axioms]) (auto simp: sample_desk_def sample_profile_def)
qed

lemma january_later:
  "k \<le> 60 \<Longrightarrow> valid_month (period_after Monthly january k) \<and> 2026 \<le> m_year (period_after Monthly january k)
     \<and> m_year (period_after Monthly january k) \<le> 2086"
proof -
  assume "k \<le> 60"
  moreover have v: "valid_month january" "m_year january = 2026" by (simp_all add: january_def valid_month_def)
  ultimately show ?thesis using later_year [OF v(1), of k] by (simp add: period_after_def)
qed

context time_crate
begin

lemma next_begins_with_the_rest:
  assumes "carry_row dk = Some c" "after_period c = ca3_period_key mo" "calendar_month mo"
    and "opened_by dk (period_after (ca3_periodicity_of dk) mo 1)" "1 \<le> k" "k < 24"
    and "m_year (period_after (ca3_periodicity_of dk) mo (Suc k)) \<le> 9997"
    and "ca3_boxes T dk d1 (ca3_period_key (period_after (ca3_periodicity_of dk) mo k)) = ok (b1, Complete)"
    and "ca3_boxes T dk d2 (ca3_period_key (period_after (ca3_periodicity_of dk) mo (Suc k))) = ok (b2, Complete)"
  shows "box_amount b2 ''22'' = box_amount b1 ''25'' - box_amount b1 ''26''"
proof -
  let ?per = "ca3_periodicity_of dk"
  let ?p = "period_after ?per mo k" and ?q = "period_after ?per mo (Suc k)"
  have year: "m_year ?p \<le> 9997" using period_after_mono [OF calendar_valid [OF assms(3)], of k "Suc k" ?per] assms(7) by simp
  obtain s e vat prior where a: "ca3_period_bounds T dk d1 (ca3_period_key ?p) = ok (s, e)"
    "vat_due_for_period T dk s e = ok vat" "ca3_prior_credit T dk (ca3_period_key ?p) ?per = ok prior"
    and b1: "b1 = filled_boxes vat (reversal_amount dk (ca3_period_key ?p)) prior (vat_refund_for dk (ca3_period_key ?p))"
    using assms(8) unfolding ca3_boxes_complete by blast
  obtain vat2 prior2 where q: "ca3_prior_credit T dk (ca3_period_key ?q) ?per = ok prior2"
    and b2: "b2 = filled_boxes vat2 (reversal_amount dk (ca3_period_key ?q)) prior2 (vat_refund_for dk (ca3_period_key ?q))"
    using assms(9) unfolding ca3_boxes_complete by blast
  have "ca3_bounds_for T (ca3_period_key ?p) ?per = ok (month_first ?p, month_last (period_end_month ?per ?p))"
    by (rule bounds_of_period) (rule calendar_between [OF assms(3) year order_refl])+
  then have "(s, e) = (month_first ?p, month_last (period_end_month ?per ?p))"
    using a(1) parse_calendar [OF calendar_between(1) [OF assms(3) year order_refl]] by (simp add: ca3_period_bounds_def Let_def)
  then have "ok prior2 = carried_step T dk (s, e, ca3_period_key ?p) prior"
    using prior_next [OF assms(3,7,1,2,4-6)] a(3) q by (simp add: period_row_def)
  then have "prior2 = (if net_of vat (reversal_amount dk (ca3_period_key ?p)) prior \<ge> 0 then 0
      else - net_of vat (reversal_amount dk (ca3_period_key ?p)) prior - refund_amount dk (ca3_period_key ?p))"
    by (simp add: carried_step_def a(2) net_of_def Let_def split: if_splits)
  then show ?thesis
    unfolding b1 b2 by (simp add: box_amount_def filled_box refund_amount_def split: option.split)
qed


end

section \<open>Periods in which nothing happens\<close>

context time_crate
begin

lemma boxes_at:
  assumes "calendar_month mo" "m_year (period_end_month (ca3_periodicity_of dk) mo) \<le> 9998" "dk_opening dk = None"
    and "vat_due_for_period T dk (month_first mo) (month_last (period_end_month (ca3_periodicity_of dk) mo)) = ok vat"
    and "ca3_prior_credit T dk (ca3_period_key mo) (ca3_periodicity_of dk) = ok prior"
  shows "ca3_boxes T dk today (ca3_period_key mo) = ok (filled_boxes vat (reversal_amount dk (ca3_period_key mo)) prior
     (vat_refund_for dk (ca3_period_key mo)), Complete)"
  unfolding ca3_boxes_complete
  using assms bounds_of_period [OF assms(1,2)] parse_calendar [OF assms(1)]
  by (intro exI [of _ "month_first mo"] exI [of _ "month_last (period_end_month (ca3_periodicity_of dk) mo)"] exI [of _ vat]
      exI [of _ prior]) (simp add: ca3_period_bounds_def Let_def)

lemma quiet_boxes:
  assumes "calendar_month mo" "m_year (period_end_month (ca3_periodicity_of dk) mo) \<le> 9998" "dk_opening dk = None"
    and "quiet_period T dk (ca3_periodicity_of dk) mo"
    and "ca3_prior_credit T dk (ca3_period_key mo) (ca3_periodicity_of dk) = ok prior"
  shows "\<exists>vat. vr_due vat = 0 \<and> ca3_boxes T dk today (ca3_period_key mo)
     = ok (filled_boxes vat (reversal_amount dk (ca3_period_key mo)) prior (vat_refund_for dk (ca3_period_key mo)), Complete)"
  using boxes_at [OF assms(1-3) _ assms(5)] assms(4) by (auto simp: quiet_period_def)

lemma quiet_prior:
  assumes "carry_row dk = Some c" "after_period c = ca3_period_key mo" "calendar_month mo"
    and "opened_by dk (period_after per mo 1)" "1 \<le> k" "m_year (period_after per mo k) \<le> 9997"
    and "reversals dk = []" "refunds dk = []" "0 \<le> ci_credit c"
    and "\<forall>j. 1 \<le> j \<and> j < k \<longrightarrow> quiet_period T dk per (period_after per mo j)"
  shows "ca3_prior_credit T dk (ca3_period_key (period_after per mo k)) per = ok (if k \<le> 24 then ci_credit c else 0)"
proof -
  have "fold_carried T dk x (map (\<lambda>j. period_row per (period_after per mo j)) [max 1 (k - 24) ..< k]) = ok x" if "0 \<le> x" for x
    using quiet_fold [OF assms(7,8) that, of "map (period_after per mo) [max 1 (k - 24) ..< k]" T per] assms(10)
    by (simp add: comp_def del: upt_Suc)
  then show ?thesis unfolding prior_anchored [OF assms(3,6,1,2,4,5)] using assms(9) by simp
qed

end

lemma sample_opened [simp]: "opened_by sample_desk mo"
  by (simp add: opened_by_def)

lemma sample_prior:
  assumes "1 \<le> k" "k \<le> 60"
  shows "ca3_prior_credit gregorian sample_desk (ca3_period_key (period_after Monthly january k)) Monthly
     = ok (if k \<le> 24 then 100000 else 0)"
proof -
  have "quiet_period gregorian sample_desk Monthly (period_after Monthly january j)" if "j < k" for j
    using january_later [of j] that assms(2) by (intro sample_quiet) simp_all
  then show ?thesis
    using gregorian.quiet_prior [of sample_desk sample_carry january Monthly k] january_later [OF assms(2)] assms(1) by simp
qed

lemma sample_boxes:
  assumes "1 \<le> k" "k \<le> 24"
  shows "\<exists>bs. ca3_boxes gregorian sample_desk d (ca3_period_key (period_after Monthly january k)) = ok (bs, Complete)
     \<and> box_amount bs ''25'' = 100000"
proof -
  have v: "calendar_month (period_after Monthly january k)" "m_year (period_end_month Monthly (period_after Monthly january k)) \<le> 9998"
    "quiet_period gregorian sample_desk Monthly (period_after Monthly january k)"
    using january_later [of k] assms sample_quiet by (auto simp: calendar_month_def period_end_month_def)
  have "ca3_prior_credit gregorian sample_desk (ca3_period_key (period_after Monthly january k)) Monthly = ok 100000"
    using sample_prior [of k] assms by simp
  then obtain vat where "vr_due vat = 0" "ca3_boxes gregorian sample_desk d (ca3_period_key (period_after Monthly january k))
      = ok (filled_boxes vat 0 100000 None, Complete)"
    using gregorian.quiet_boxes [of "period_after Monthly january k" sample_desk 100000 d] v by auto
  then show ?thesis by (auto simp: box_amount_def filled_box net_of_def)
qed

section \<open>What a command adds\<close>

lemma find_snoc_other: "\<not> P x \<Longrightarrow> find P (xs @ [x]) = find P xs"
  by (simp add: find_of_append split: option.split)

lemma find_snoc_new: "find P xs = None \<Longrightarrow> P x \<Longrightarrow> find P (xs @ [x]) = Some x"
  by (simp add: find_of_append)

lemma new_refund:
  assumes "vat_refund_for dk (rf_period_key r) = None"
  defines "dk2 \<equiv> dk\<lparr>refunds := refunds dk @ [r]\<rparr>"
  shows "differ_at (rf_period_key r) dk dk2" "vat_refund_for dk2 (rf_period_key r) = Some r"
    "reversal_amount dk2 = reversal_amount dk" "filing_for dk2 = filing_for dk" "ca3_periodicity_of dk2 = ca3_periodicity_of dk"
    "k \<noteq> rf_period_key r \<Longrightarrow> vat_refund_for dk2 k = vat_refund_for dk k"
  using assms(1)
  by (auto simp: dk2_def differ_at_def same_facts_def refund_amount_def reversal_amount_def vat_reversal_for_def vat_refund_for_def
      filing_for_def find_snoc_other find_snoc_new ca3_periodicity_of_def fun_eq_iff)

lemma new_reversal:
  assumes "vat_reversal_for dk (rv_period_key r) = None"
  defines "dk2 \<equiv> dk\<lparr>reversals := reversals dk @ [r]\<rparr>"
  shows "differ_at (rv_period_key r) dk dk2" "reversal_amount dk2 (rv_period_key r) = rv_amount r"
    "vat_refund_for dk2 = vat_refund_for dk" "reversal_amount dk (rv_period_key r) = 0"
  using assms(1)
  by (auto simp: dk2_def differ_at_def same_facts_def refund_amount_def reversal_amount_def vat_reversal_for_def vat_refund_for_def
      find_snoc_other find_snoc_new fun_eq_iff)

text \<open>What an accepted request has checked.\<close>

lemma refund_accepted:
  assumes "apply_request_vat_refund T v c dk = ok (row, dk2)" "parse_after_period (rq_period_key c) = Some mo"
  shows "\<exists>bs. ca3_boxes T dk (rq_on c) (rq_period_key c) = ok (bs, Complete)
     \<and> 0 < rq_amount c \<and> rq_amount c \<le> box_amount bs ''25''
     \<and> refund_min (calendar_year_end_month mo (ca3_periodicity_of dk)) \<le> rq_amount c
     \<and> filing_for dk Ca3 (rq_period_key c) = None \<and> vat_refund_for dk (ca3_period_key mo) = None
     \<and> row = \<lparr>rf_period_key = ca3_period_key mo, rf_amount = rq_amount c, requested_on = rq_on c\<rparr>
     \<and> dk2 = dk\<lparr>refunds := refunds dk @ [row]\<rparr>"
  using assms
  by (auto simp: apply_request_vat_refund_def refund_refused_def and_do_is_ok Let_def box_amount_def
      dest: ca3_boxes_coverage split: if_splits option.splits)

lemma refund_accepted_iff:
  assumes "parse_after_period (rq_period_key c) = Some mo" "ca3_boxes T dk (rq_on c) (rq_period_key c) = ok (bs, Complete)"
    and "0 < rq_amount c" "rq_amount c \<le> box_amount bs ''25''"
    and "refund_min (calendar_year_end_month mo (ca3_periodicity_of dk)) \<le> rq_amount c"
    and "filing_for dk Ca3 (rq_period_key c) = None" "vat_refund_for dk (ca3_period_key mo) = None"
  shows "apply_request_vat_refund T v c dk = ok (\<lparr>rf_period_key = ca3_period_key mo, rf_amount = rq_amount c, requested_on = rq_on c\<rparr>,
     dk\<lparr>refunds := refunds dk @ [\<lparr>rf_period_key = ca3_period_key mo, rf_amount = rq_amount c, requested_on = rq_on c\<rparr>]\<rparr>)"
  using assms by (simp add: apply_request_vat_refund_def Let_def box_amount_def)

lemma reversal_accepted:
  assumes "apply_record_vat_reversal T v c dk = ok (row, dk2)" "parse_after_period (rq_period_key c) = Some mo"
  shows "\<exists>bs. ca3_boxes T dk (rq_on c) (ca3_period_key mo) = ok (bs, Complete)
     \<and> 0 < rq_amount c
     \<and> (\<forall>r. vat_refund_for dk (ca3_period_key mo) = Some r \<longrightarrow> rf_amount r \<le> box_amount bs ''25'' - rq_amount c)
     \<and> filing_for dk Ca3 (ca3_period_key mo) = None \<and> vat_reversal_for dk (ca3_period_key mo) = None
     \<and> row = \<lparr>rv_period_key = ca3_period_key mo, rv_amount = rq_amount c, recorded_on = rq_on c\<rparr>
     \<and> dk2 = dk\<lparr>reversals := reversals dk @ [row]\<rparr>"
  using assms
  by (auto simp: apply_record_vat_reversal_def reversal_refused_def and_do_is_ok Let_def
      dest: ca3_boxes_coverage split: if_splits option.splits)

lemma refund_min_pos: "0 < refund_min b"
  by (simp add: refund_min_def CA12_REFUND_THRESHOLD_def VAT_REFUND_IN_YEAR_THRESHOLD_def)

lemma reversal_accepted_iff:
  assumes "parse_after_period (rq_period_key c) = Some mo" "ca3_boxes T dk (rq_on c) (ca3_period_key mo) = ok (bs, Complete)"
    and "0 < rq_amount c" "filing_for dk Ca3 (ca3_period_key mo) = None"
    and "vat_reversal_for dk (ca3_period_key mo) = None" "vat_refund_for dk (ca3_period_key mo) = None"
  shows "apply_record_vat_reversal T v c dk = ok (\<lparr>rv_period_key = ca3_period_key mo, rv_amount = rq_amount c, recorded_on = rq_on c\<rparr>,
     dk\<lparr>reversals := reversals dk @ [\<lparr>rv_period_key = ca3_period_key mo, rv_amount = rq_amount c, recorded_on = rq_on c\<rparr>]\<rparr>)"
  using assms by (simp add: apply_record_vat_reversal_def Let_def)

text \<open>The text of a period with a sign before the year.\<close>

lemma parse_i32_plus:
  assumes "list_all is_ascii_digit s" "s \<noteq> []"
  shows "parse_i32 (CHR ''+'' # s) = parse_i32 s"
proof -
  obtain c cs where s: "s = c # cs" using assms(2) by (cases s) auto
  have "c \<noteq> CHR ''-''" "c \<noteq> CHR ''+''"
    using digits_no_dash [OF assms(1)] digits_no_plus [OF assms(1)] by (auto simp: s)
  then show ?thesis by (simp add: parse_i32_def s)
qed

lemma signed_key:
  assumes "calendar_month mo"
  shows "parse_year_month (CHR ''+'' # ca3_period_key mo) = Some mo" "parse_after_period (CHR ''+'' # ca3_period_key mo) = Some mo"
    "CHR ''+'' # ca3_period_key mo \<noteq> ca3_period_key mo"
proof -
  have year: "0 \<le> m_year mo" "m_year mo < 2 ^ 31" and v: "valid_month mo" using assms by (auto simp: calendar_month_def)
  have digits: "list_all is_ascii_digit (pad_int 4 (m_year mo))" by (rule pad_int_digits [OF year(1)])
  have split: "split_once CHR ''-'' (CHR ''+'' # ca3_period_key mo) = Some (CHR ''+'' # pad_int 4 (m_year mo), show_2 (m_month mo))"
    using split_once_append [OF digits_no_dash [OF digits], of "show_2 (m_month mo)"] by (simp add: ca3_period_key_def)
  have "parse_i32 (CHR ''+'' # pad_int 4 (m_year mo)) = Some (m_year mo)"
    using parse_i32_digits [OF digits] parse_i32_plus [OF digits] year by simp
  then show parsed: "parse_year_month (CHR ''+'' # ca3_period_key mo) = Some mo"
    using v parse_u8_show_2 [of "m_month mo"] unfolding parse_year_month_def split
    by (simp add: month_new_of) (simp add: valid_month_def month_new_of)
  have plain: "CHR ''+'' \<notin> hd ` set white_space" by (auto simp: white_space_def)
  have "trim (CHR ''+'' # ca3_period_key mo) = CHR ''+'' # ca3_period_key mo"
  proof (rule trim_trimmed [OF trimmed_by_ends])
    have two: "show_2 (m_month mo) \<noteq> []" by (simp add: show_2_def)
    then have "is_ascii_digit (List.last (CHR ''+'' # ca3_period_key mo))"
      using show_2_digits [of "m_month mo"] last_in_set [OF two] by (auto simp: list_all_iff ca3_period_key_def)
    moreover have "\<not> is_ascii_digit c" if "c \<in> List.last ` set white_space" for c
      using that by (auto simp: white_space_def is_ascii_digit_def)
    ultimately show "List.last (CHR ''+'' # ca3_period_key mo) \<notin> List.last ` set white_space" by blast
  qed (use plain in simp_all)
  then show "parse_after_period (CHR ''+'' # ca3_period_key mo) = Some mo"
    using parsed by (simp add: parse_after_period_def parse_year_month_def)
  show "CHR ''+'' # ca3_period_key mo \<noteq> ca3_period_key mo" by simp
qed

lemma walk_back_same_month:
  assumes "parse_year_month k1 = Some mo" "parse_year_month k2 = Some mo"
  shows "walk_back n T dk c per k1 between = walk_back n T dk c per k2 between"
  using assms by (cases n) (simp_all add: previous_ca3_period_key_def)

lemma prior_same_month:
  assumes "parse_year_month k1 = Some mo" "parse_year_month k2 = Some mo"
  shows "ca3_prior_credit T dk k1 per = ca3_prior_credit T dk k2 per"
  using walk_back_same_month [OF assms, of 24 T dk] assms
  by (simp add: ca3_prior_credit_def ca3_bounds_for_def split: option.split)

lemma boxes_same_month:
  assumes "parse_year_month k1 = Some mo" "parse_year_month k2 = Some mo"
    and "ca3_boxes T dk today k1 = ok (bs, Complete)"
  shows "\<exists>vat prior. bs = filled_boxes vat (reversal_amount dk k1) prior (vat_refund_for dk k1)
     \<and> ca3_boxes T dk today k2 = ok (filled_boxes vat (reversal_amount dk k2) prior (vat_refund_for dk k2), Complete)"
proof -
  have "ca3_period_bounds T dk today k1 = ca3_period_bounds T dk today k2"
    using assms by (simp add: ca3_period_bounds_def ca3_bounds_for_def)
  moreover obtain s e vat prior where a: "ca3_period_bounds T dk today k1 = ok (s, e)"
    "\<not> (case dk_opening dk of None \<Rightarrow> False | Some ob \<Rightarrow> s < opens_on ob)" "vat_due_for_period T dk s e = ok vat"
    "ca3_prior_credit T dk k1 (ca3_periodicity_of dk) = ok prior"
    "bs = filled_boxes vat (reversal_amount dk k1) prior (vat_refund_for dk k1)"
    using assms(3) unfolding ca3_boxes_complete by blast
  ultimately have "ca3_boxes T dk today k2 = ok (filled_boxes vat (reversal_amount dk k2) prior (vat_refund_for dk k2), Complete)"
    unfolding ca3_boxes_complete using prior_same_month [OF assms(1,2), of T dk]
    by (intro exI [of _ s] exI [of _ e] exI [of _ vat] exI [of _ prior]) simp
  with a(5) show ?thesis by blast
qed

text \<open>Months the calendar of the program does not have.\<close>

context time_crate
begin

lemma late_month: "9999 < m_year mo \<Longrightarrow> first_day T mo = None \<and> last_day T mo = None"
  by (simp add: first_day_def last_day_def from_calendar_date month_succ_def)

lemma late_boxes: "parse_year_month key = Some mo \<Longrightarrow> 9999 < m_year mo \<Longrightarrow> ca3_boxes T dk today key = None"
  by (simp add: ca3_boxes_def ca3_period_bounds_def ca3_bounds_for_def late_month Let_def)

end

section \<open>A credit on the books\<close>

definition credit_opening :: opening_balance where
  "credit_opening = \<lparr>opens_on = Date 2026 1 1, ob_source = None,
     ob_lines = [\<lparr>obl_account = AccountCode ''445670'', obl_label = ''TVA'', obl_side = Debit, obl_amount = 100000\<rparr>,
                 \<lparr>obl_account = AccountCode ''101000'', obl_label = ''Capital'', obl_side = Credit, obl_amount = 100000\<rparr>],
     tax_losses = 0\<rparr>"

definition credit_desk :: desk where
  "credit_desk = sample_desk\<lparr>carry_row := None, dk_opening := Some credit_opening\<rparr>"

section \<open>Properties\<close>

text \<open>Whatever the desk and the two dates, the loop over the months of a period ends: it gives a return,
  an error or a panic, never an endless loop.\<close>

lemma return_always_ends: "\<exists>r. vat_due_loop T dk s e = Some r"
  by (rule vat_due_loop_returns)

text \<open>C30: The VAT return of a run of whole months is the sum of the readings of its months, each rounded on
  its own and read under its own key, in their order: a quarterly return is what three monthly
  ones would have added up to, and an error of a month is the error of the period.\<close>

theorem return_of_whole_months:
  assumes "time_crate T" "valid_month mo" "- 9999 \<le> m_year mo" "m_year ((month_succ ^^ n) mo) \<le> 9998"
  shows "vat_due_for_period T dk (month_first mo) (month_last ((month_succ ^^ n) mo))
     = and_do (add_months_up T dk (months_from mo (Suc n)) vat_acc_ZERO)
         (\<lambda>acc. ok (return_of (month_first mo) (month_last ((month_succ ^^ n) mo)) acc))"
  by (rule time_crate.vat_due_whole_months [OF assms])

theorem return_of_whole_months_witness:
  "vat_due_for_period gregorian sample_desk (month_first january) (month_last ((month_succ ^^ 2) january))
     = and_do (add_months_up gregorian sample_desk (months_from january (Suc 2)) vat_acc_ZERO)
         (\<lambda>acc. ok (return_of (month_first january) (month_last ((month_succ ^^ 2) january)) acc))"
  by (rule return_of_whole_months [OF gregorian.time_crate_axioms]) (simp_all add: january_def valid_month_def month_succ_def numeral_2_eq_2)

text \<open>C31: Along the chain that starts at the credit taken over, for its first 24 periods, the credit a form
  begins with (box 22) is the credit the form before it ends with: its box 25 less the refund of
  its box 26, whatever the two days on which the forms are read.\<close>

theorem credit_carries_over:
  assumes "time_crate T" "carry_row dk = Some c" "after_period c = ca3_period_key mo" "calendar_month mo"
    and "opened_by dk (period_after (ca3_periodicity_of dk) mo 1)" "1 \<le> k" "k < 24"
    and "m_year (period_after (ca3_periodicity_of dk) mo (Suc k)) \<le> 9997"
    and "ca3_boxes T dk d1 (ca3_period_key (period_after (ca3_periodicity_of dk) mo k)) = ok (b1, Complete)"
    and "ca3_boxes T dk d2 (ca3_period_key (period_after (ca3_periodicity_of dk) mo (Suc k))) = ok (b2, Complete)"
  shows "box_amount b2 ''22'' = box_amount b1 ''25'' - box_amount b1 ''26''"
  by (rule time_crate.next_begins_with_the_rest [OF assms])

theorem credit_carries_over_witness:
  "\<exists>b1 b2. ca3_boxes gregorian sample_desk (Date 2026 3 10) (ca3_period_key (period_after Monthly january 1)) = ok (b1, Complete)
     \<and> ca3_boxes gregorian sample_desk (Date 2026 4 10) (ca3_period_key (period_after Monthly january (Suc 1))) = ok (b2, Complete)
     \<and> box_amount b2 ''22'' = box_amount b1 ''25'' - box_amount b1 ''26''"
proof -
  obtain b1 b2 where b: "ca3_boxes gregorian sample_desk (Date 2026 3 10) (ca3_period_key (period_after Monthly january 1)) = ok (b1, Complete)"
    "ca3_boxes gregorian sample_desk (Date 2026 4 10) (ca3_period_key (period_after Monthly january (Suc 1))) = ok (b2, Complete)"
    using sample_boxes [of 1 "Date 2026 3 10"] sample_boxes [of "Suc 1" "Date 2026 4 10"] by auto
  have "box_amount b2 ''22'' = box_amount b1 ''25'' - box_amount b1 ''26''"
    using credit_carries_over [OF gregorian.time_crate_axioms, of sample_desk sample_carry january 1 "Date 2026 3 10" b1 "Date 2026 4 10" b2]
      b january_later [of 2] by (simp add: numeral_2_eq_2)
  with b show ?thesis by blast
qed

text \<open>C34: A credit taken over that no entry, reversal or refund touches is box 22 of 24 periods and is then
  forgotten: the walk back stops after 24 periods without having met it, and starts from nothing.
  From the 25th period on the form begins with a credit of zero.\<close>

theorem carried_credit_is_forgotten:
  assumes "time_crate T" "carry_row dk = Some c" "after_period c = ca3_period_key mo" "calendar_month mo"
    and "opened_by dk (period_after per mo 1)" "1 \<le> k" "m_year (period_after per mo k) \<le> 9997"
    and "reversals dk = []" "refunds dk = []" "0 \<le> ci_credit c"
    and "\<forall>j. 1 \<le> j \<and> j < k \<longrightarrow> quiet_period T dk per (period_after per mo j)"
  shows "ca3_prior_credit T dk (ca3_period_key (period_after per mo k)) per = ok (if k \<le> 24 then ci_credit c else 0)"
  by (rule time_crate.quiet_prior [OF assms])

theorem carried_credit_is_forgotten_witness:
  "ca3_prior_credit gregorian sample_desk (ca3_period_key (period_after Monthly january 24)) Monthly = ok 100000
   \<and> ca3_prior_credit gregorian sample_desk (ca3_period_key (period_after Monthly january 25)) Monthly = ok 0"
proof -
  have quiet: "quiet_period gregorian sample_desk Monthly (period_after Monthly january j)" if "j < 25" for j
    using january_later [of j] that by (intro sample_quiet) simp_all
  have "ca3_prior_credit gregorian sample_desk (ca3_period_key (period_after Monthly january k)) Monthly
      = ok (if k \<le> 24 then 100000 else 0)" if "1 \<le> k" "k \<le> 25" for k
    using carried_credit_is_forgotten [OF gregorian.time_crate_axioms, of sample_desk sample_carry january Monthly k]
      quiet january_later [of k] that by simp
  from this [of 24] this [of 25] show ?thesis by simp
qed



text \<open>C33: A VAT to pay back that is accepted on a period raises what its form declares by exactly its
  amount, from a credit to a payment where it crosses zero, appears in box 15, and leaves in the
  credit of the period the refund already asked for.\<close>

theorem accepted_reversal_raises_the_due:
  assumes "calendar_month mo" "rq_period_key c = ca3_period_key mo" "apply_record_vat_reversal T v c dk = ok (row, dk2)"
  shows "\<exists>b1 b2. ca3_boxes T dk (rq_on c) (ca3_period_key mo) = ok (b1, Complete)
     \<and> ca3_boxes T dk2 (rq_on c) (ca3_period_key mo) = ok (b2, Complete)
     \<and> due_of b2 = due_of b1 + rq_amount c \<and> box_of b1 ''15'' = None \<and> box_of b2 ''15'' = Some (rq_amount c)
     \<and> box_of b2 ''22'' = box_of b1 ''22''
     \<and> (\<forall>r. vat_refund_for dk (ca3_period_key mo) = Some r \<and> 0 < rf_amount r \<longrightarrow>
          box_of b2 ''26'' = Some (rf_amount r) \<and> rf_amount r \<le> box_amount b2 ''25'')"
proof -
  note key = parse_calendar [OF assms(1)]
  obtain b1 where b1: "ca3_boxes T dk (rq_on c) (ca3_period_key mo) = ok (b1, Complete)" "0 < rq_amount c"
    and refund: "\<forall>r. vat_refund_for dk (ca3_period_key mo) = Some r \<longrightarrow> rf_amount r \<le> box_amount b1 ''25'' - rq_amount c"
    and none: "vat_reversal_for dk (ca3_period_key mo) = None"
    and row: "row = \<lparr>rv_period_key = ca3_period_key mo, rv_amount = rq_amount c, recorded_on = rq_on c\<rparr>"
      "dk2 = dk\<lparr>reversals := reversals dk @ [row]\<rparr>"
    using reversal_accepted [OF assms(3), of mo] parse_after_calendar [OF assms(1)] by (auto simp: assms(2))
  have new: "differ_at (ca3_period_key mo) dk dk2" "reversal_amount dk2 (ca3_period_key mo) = rq_amount c"
    "vat_refund_for dk2 = vat_refund_for dk" "reversal_amount dk (ca3_period_key mo) = 0"
    using new_reversal [of dk row] none row by simp_all
  obtain vat prior where b: "b1 = filled_boxes vat 0 prior (vat_refund_for dk (ca3_period_key mo))"
    "ca3_boxes T dk2 (rq_on c) (ca3_period_key mo) = ok (filled_boxes vat (rq_amount c) prior (vat_refund_for dk (ca3_period_key mo)), Complete)"
    using boxes_of_period [OF new(1) key b1(1)] new(2-4) by auto
  have "net_of vat (rq_amount c) prior = net_of vat 0 prior + rq_amount c" by (simp add: net_of_def)
  with b b1 refund show ?thesis
    by (intro exI [of _ b1] exI [of _ "filled_boxes vat (rq_amount c) prior (vat_refund_for dk (ca3_period_key mo))"])
       (auto simp: due_of_filled filled_box box_amount_def split: if_splits)
qed

theorem accepted_reversal_raises_the_due_witness:
  "\<exists>row dk2 b1 b2. apply_record_vat_reversal gregorian sample_venv
       \<lparr>rq_period_key = ca3_period_key (period_after Monthly january 1), rq_amount = 130000, rq_on = Date 2026 3 10\<rparr> sample_desk = ok (row, dk2)
     \<and> ca3_boxes gregorian dk2 (Date 2026 3 10) (ca3_period_key (period_after Monthly january 1)) = ok (b2, Complete)
     \<and> due_of b2 = due_of b1 + 130000"
proof -
  let ?mo = "period_after Monthly january 1"
  let ?c = "\<lparr>rq_period_key = ca3_period_key ?mo, rq_amount = 130000, rq_on = Date 2026 3 10\<rparr>"
  have cal: "calendar_month ?mo" using january_later [of 1] by (simp add: calendar_month_def)
  obtain bs where "ca3_boxes gregorian sample_desk (Date 2026 3 10) (ca3_period_key ?mo) = ok (bs, Complete)"
    using sample_boxes [of 1] by auto
  then obtain row dk2 where a: "apply_record_vat_reversal gregorian sample_venv ?c sample_desk = ok (row, dk2)"
    using reversal_accepted_iff [of ?c ?mo gregorian sample_desk bs sample_venv] parse_after_calendar [OF cal]
    by (auto simp: filing_for_def vat_refund_for_def vat_reversal_for_def)
  from accepted_reversal_raises_the_due [OF cal _ a] a show ?thesis by auto
qed

text \<open>C35: The same credit can be refunded twice. On a desk whose credit taken over reaches the threshold
  and is left alone for two periods, asking for all of it on the second period and then for all of
  it on the first is accepted both times: each request is compared with the credit of its own
  period only, not with the refunds already asked for later.\<close>

theorem same_credit_refunded_twice:
  assumes "time_crate T" "carry_row dk = Some c" "after_period c = ca3_period_key mo" "calendar_month mo"
    and "dk_opening dk = None" "reversals dk = []" "refunds dk = []" "filings dk = []"
    and "m_year (period_after (ca3_periodicity_of dk) mo 2) \<le> 9997" "VAT_REFUND_IN_YEAR_THRESHOLD \<le> ci_credit c"
    and "\<forall>j \<in> {1, 2}. quiet_period T dk (ca3_periodicity_of dk) (period_after (ca3_periodicity_of dk) mo j)"
  shows "\<exists>r1 r2 d1 d2.
       apply_request_vat_refund T v \<lparr>rq_period_key = ca3_period_key (period_after (ca3_periodicity_of dk) mo 2),
         rq_amount = ci_credit c, rq_on = today\<rparr> dk = ok (r1, d1)
     \<and> apply_request_vat_refund T v \<lparr>rq_period_key = ca3_period_key (period_after (ca3_periodicity_of dk) mo 1),
         rq_amount = ci_credit c, rq_on = today\<rparr> d1 = ok (r2, d2)
     \<and> sum_list (map rf_amount (refunds d2)) = 2 * ci_credit c"
proof -
  let ?per = "ca3_periodicity_of dk"
  let ?p1 = "period_after ?per mo 1" and ?p2 = "period_after ?per mo 2"
  let ?r = "\<lambda>p. \<lparr>rf_period_key = ca3_period_key p, rf_amount = ci_credit c, requested_on = today\<rparr>"
  let ?c = "\<lambda>p. \<lparr>rq_period_key = ca3_period_key p, rq_amount = ci_credit c, rq_on = today\<rparr>"
  let ?d1 = "dk\<lparr>refunds := [?r ?p2]\<rparr>"
  have pos: "0 < ci_credit c" using assms(10) by (simp add: VAT_REFUND_IN_YEAR_THRESHOLD_def)
  have min: "refund_min b \<le> ci_credit c" for b
    using assms(10) by (simp add: refund_min_def VAT_REFUND_IN_YEAR_THRESHOLD_def CA12_REFUND_THRESHOLD_def)
  have opened: "opened_by dk x" for x by (simp add: opened_by_def assms(5))
  have year: "m_year ?p1 \<le> 9997" using period_after_mono [OF calendar_valid [OF assms(4)], of 1 2 ?per] assms(9) by simp
  note cal1 = calendar_between [OF assms(4) year order_refl] and cal2 = calendar_between [OF assms(4,9) order_refl]
  have prior1: "ca3_prior_credit T dk (ca3_period_key ?p1) ?per = ok (ci_credit c)"
    using time_crate.quiet_prior [OF assms(1-4) opened, of 1 ?per] year assms(6,7) pos by simp
  have prior2: "ca3_prior_credit T dk (ca3_period_key ?p2) ?per = ok (ci_credit c)"
    using time_crate.quiet_prior [OF assms(1-4) opened, of 2 ?per] assms(6,7,9,11) pos by (auto simp: less_2_cases_iff)
  obtain vat1 where b1: "vr_due vat1 = 0" "ca3_boxes T dk today (ca3_period_key ?p1) = ok (filled_boxes vat1 0 (ci_credit c) None, Complete)"
    using time_crate.quiet_boxes [OF assms(1) cal1(1,3) assms(5) _ prior1, of today] assms(6,7,11) by auto
  obtain vat2 where b2: "vr_due vat2 = 0" "ca3_boxes T dk today (ca3_period_key ?p2) = ok (filled_boxes vat2 0 (ci_credit c) None, Complete)"
    using time_crate.quiet_boxes [OF assms(1) cal2(1,3) assms(5) _ prior2, of today] assms(6,7,11) by auto
  have first: "apply_request_vat_refund T v (?c ?p2) dk = ok (?r ?p2, ?d1)"
    using refund_accepted_iff [of "?c ?p2" ?p2 T dk _ v] b2 min pos parse_after_calendar [OF cal2(1)] assms(7,8)
    by (simp add: box_amount_def filled_box net_of_def)
  have ne: "ca3_period_key ?p1 \<noteq> ca3_period_key ?p2" using period_after_key [OF assms(4) cal2(1), of 1 2] by simp
  have new: "differ_at (ca3_period_key ?p2) dk ?d1" using new_refund(1) [of dk "?r ?p2"] assms(7) by simp
  have facts: "same_facts dk ?d1" by (simp add: same_facts_def)
  have prior1': "ca3_prior_credit T ?d1 (ca3_period_key ?p1) ?per = ok (ci_credit c)"
    using time_crate.prior_anchored [OF assms(1,4) year, of ?d1 c] assms(2,3,5) by (simp add: opened_by_def)
  have "ca3_boxes T ?d1 today (ca3_period_key ?p1) = ok (filled_boxes vat1 0 (ci_credit c) None, Complete)"
  proof -
    obtain vat where vat: "vat_due_for_period T dk (month_first ?p1) (month_last (period_end_month ?per ?p1)) = ok vat" "vr_due vat = 0"
      using assms(11) by (auto simp: quiet_period_def)
    have "ca3_boxes T dk today (ca3_period_key ?p1) = ok (filled_boxes vat 0 (ci_credit c) None, Complete)"
      using time_crate.boxes_at [OF assms(1) cal1(1,3) assms(5) vat(1) prior1, of today] assms(6,7) by simp
    moreover have "ca3_boxes T ?d1 today (ca3_period_key ?p1) = ok (filled_boxes vat 0 (ci_credit c) None, Complete)"
      using time_crate.boxes_at [OF assms(1) cal1(1), of ?d1 vat "ci_credit c" today] cal1(3) assms(5,6) vat(1) prior1'
        same_facts_periodicity [OF facts] same_facts_due [OF facts, of T] ne by (simp add: vat_refund_for_def)
    ultimately show ?thesis using b1(2) by simp
  qed
  then have "apply_request_vat_refund T v (?c ?p1) ?d1 = ok (?r ?p1, ?d1\<lparr>refunds := refunds ?d1 @ [?r ?p1]\<rparr>)"
    using refund_accepted_iff [of "?c ?p1" ?p1 T ?d1 _ v] b1(1) min pos parse_after_calendar [OF cal1(1)] assms(8) ne
    by (simp add: box_amount_def filled_box net_of_def vat_refund_for_def filing_for_def)
  with first show ?thesis by force
qed

theorem same_credit_refunded_twice_witness:
  "\<exists>r1 r2 d1 d2.
       apply_request_vat_refund gregorian sample_venv \<lparr>rq_period_key = ca3_period_key (period_after Monthly january 2),
         rq_amount = 100000, rq_on = Date 2026 5 4\<rparr> sample_desk = ok (r1, d1)
     \<and> apply_request_vat_refund gregorian sample_venv \<lparr>rq_period_key = ca3_period_key (period_after Monthly january 1),
         rq_amount = 100000, rq_on = Date 2026 5 4\<rparr> d1 = ok (r2, d2)
     \<and> sum_list (map rf_amount (refunds d2)) = 200000"
proof -
  have quiet: "quiet_period gregorian sample_desk Monthly (period_after Monthly january j)" if "j \<le> 60" for j
    using january_later [OF that] by (intro sample_quiet) simp_all
  then have "\<forall>j \<in> {1, 2}. quiet_period gregorian sample_desk Monthly (period_after Monthly january j)" by simp
  then show ?thesis
    using same_credit_refunded_twice [OF gregorian.time_crate_axioms, of sample_desk sample_carry january sample_venv "Date 2026 5 4"]
      january_later [of 2] by (auto simp: VAT_REFUND_IN_YEAR_THRESHOLD_def)
qed

text \<open>C36: A period written with a sign, as in \<open>+2026-03\<close>, gets around the lock of a filed return: the
  register of filings is asked for the text as given, the refund is stored under the canonical key.
  With the canonical key the same request is refused, with the sign it is accepted and changes the
  boxes of the return already filed.\<close>

theorem filed_lock_is_bypassed:
  assumes "calendar_month mo" "filing_for dk Ca3 (ca3_period_key mo) \<noteq> None"
    and "ca3_boxes T dk today (ca3_period_key mo) = ok (bs, Complete)"
    and "refund_min (calendar_year_end_month mo (ca3_periodicity_of dk)) \<le> x" "x \<le> box_amount bs ''25''"
    and "vat_reversal_for dk (ca3_period_key mo) = None" "vat_refund_for dk (ca3_period_key mo) = None"
    and "\<forall>key \<in> rv_period_key ` set (reversals dk) \<union> rf_period_key ` set (refunds dk) \<union> df_period_key ` set (filings dk).
           key \<noteq> CHR ''+'' # ca3_period_key mo"
  shows "apply_request_vat_refund T v \<lparr>rq_period_key = ca3_period_key mo, rq_amount = x, rq_on = today\<rparr> dk
       = refund_refused v RefundDeclarationAlreadyFiled
     \<and> (\<exists>row. apply_request_vat_refund T v \<lparr>rq_period_key = CHR ''+'' # ca3_period_key mo, rq_amount = x, rq_on = today\<rparr> dk
            = ok (row, dk\<lparr>refunds := refunds dk @ [row]\<rparr>) \<and> rf_period_key row = ca3_period_key mo)"
proof -
  let ?key = "ca3_period_key mo" and ?signed = "CHR ''+'' # ca3_period_key mo"
  note key = parse_calendar [OF assms(1)] and signed = signed_key [OF assms(1)]
  have pos: "0 < x" using assms(4) refund_min_pos [of "calendar_year_end_month mo (ca3_periodicity_of dk)"] by linarith
  have none: "vat_reversal_for dk ?signed = None" "vat_refund_for dk ?signed = None" "filing_for dk Ca3 ?signed = None"
    using assms(8) by (auto simp: vat_reversal_for_def vat_refund_for_def filing_for_def find_None_iff)
  obtain vat prior where "bs = filled_boxes vat (reversal_amount dk ?key) prior (vat_refund_for dk ?key)"
    "ca3_boxes T dk today ?signed = ok (filled_boxes vat (reversal_amount dk ?signed) prior (vat_refund_for dk ?signed), Complete)"
    using boxes_same_month [OF key signed(1) assms(3)] by blast
  then have boxes: "ca3_boxes T dk today ?signed = ok (bs, Complete)"
    using none assms(6,7) by (simp add: reversal_amount_def)
  have "apply_request_vat_refund T v \<lparr>rq_period_key = ?signed, rq_amount = x, rq_on = today\<rparr> dk
      = ok (\<lparr>rf_period_key = ?key, rf_amount = x, requested_on = today\<rparr>,
          dk\<lparr>refunds := refunds dk @ [\<lparr>rf_period_key = ?key, rf_amount = x, requested_on = today\<rparr>]\<rparr>)"
    using refund_accepted_iff [of "\<lparr>rq_period_key = ?signed, rq_amount = x, rq_on = today\<rparr>" mo T dk bs v]
      signed(2) boxes pos assms(4,5,7) none by simp
  moreover have "apply_request_vat_refund T v \<lparr>rq_period_key = ?key, rq_amount = x, rq_on = today\<rparr> dk
      = refund_refused v RefundDeclarationAlreadyFiled"
  proof -
    have some: "box_amount bs ''25'' \<noteq> 0" using assms(5) pos by auto
    show ?thesis
      using some assms(2-5) pos parse_after_calendar [OF assms(1)]
      by (simp add: apply_request_vat_refund_def Let_def box_amount_def)
  qed
  ultimately show ?thesis by auto
qed

theorem filed_lock_is_bypassed_witness:
  "\<exists>row. apply_request_vat_refund gregorian sample_venv
       \<lparr>rq_period_key = CHR ''+'' # ca3_period_key (period_after Monthly january 1), rq_amount = 100000, rq_on = Date 2026 3 10\<rparr>
       (sample_desk\<lparr>filings := [sample_filing]\<rparr>)
     = ok (row, sample_desk\<lparr>filings := [sample_filing], refunds := [row]\<rparr>)
     \<and> rf_period_key row = df_period_key sample_filing"
proof -
  let ?mo = "period_after Monthly january 1"
  let ?dk = "sample_desk\<lparr>filings := [sample_filing]\<rparr>"
  have cal: "calendar_month ?mo" using january_later [of 1] by (simp add: calendar_month_def)
  obtain b0 where b0: "ca3_boxes gregorian sample_desk (Date 2026 3 10) (ca3_period_key ?mo) = ok (b0, Complete)" "box_amount b0 ''25'' = 100000"
    using sample_boxes [of 1] by auto
  have same: "differ_at (ca3_period_key ?mo) sample_desk ?dk" "vat_refund_for ?dk = vat_refund_for sample_desk"
    "reversal_amount ?dk = reversal_amount sample_desk"
    by (auto simp: differ_at_def same_facts_def refund_amount_def reversal_amount_def vat_refund_for_def vat_reversal_for_def fun_eq_iff)
  have "ca3_boxes gregorian ?dk (Date 2026 3 10) (ca3_period_key ?mo) = ok (b0, Complete)"
    using boxes_of_period [OF same(1) parse_calendar [OF cal] b0(1)] same(2,3) by auto
  moreover have "filing_for ?dk Ca3 (ca3_period_key ?mo) \<noteq> None" by (simp add: filing_for_def sample_filing_def)
  moreover have "CHR ''+'' # ca3_period_key ?mo \<noteq> ca3_period_key ?mo" by simp
  moreover have "ca3_periodicity_of ?dk = Monthly" by (simp add: sample_desk_def ca3_periodicity_of_def sample_profile_def)
  ultimately show ?thesis
    using filed_lock_is_bypassed [OF cal, of ?dk gregorian "Date 2026 3 10" b0 100000 sample_venv] b0(2)
    by (auto simp: vat_reversal_for_def vat_refund_for_def sample_filing_def refund_min_def CA12_REFUND_THRESHOLD_def
        VAT_REFUND_IN_YEAR_THRESHOLD_def)
qed

text \<open>A period whose year the calendar of the program does not have, such as \<open>10000-01\<close>, is read as
  a period and makes the commands panic, where they document an error for a period that is not one.\<close>

lemma far_years_panic:
  assumes "time_crate T" "parse_after_period key = Some mo" "parse_year_month key = Some mo" "9999 < m_year mo" "0 < x"
  shows "apply_record_vat_reversal T v \<lparr>rq_period_key = key, rq_amount = x, rq_on = today\<rparr> dk = None
     \<and> apply_request_vat_refund T v \<lparr>rq_period_key = key, rq_amount = x, rq_on = today\<rparr> dk = None
     \<and> apply_liquidate_ca3 T v \<lparr>lq_period_key = key, lq_on = today\<rparr> dk = None"
proof -
  have "parse_year_month (ca3_period_key mo) = Some mo"
    using parse_year_month_range [OF assms(3)] parse_year_month_valid [OF assms(3)] assms(4) by (intro parse_key) auto
  then have "ca3_boxes T dk today (ca3_period_key mo) = None" "ca3_boxes T dk today key = None" "last_day T mo = None"
    using time_crate.late_boxes [OF assms(1) _ assms(4)] time_crate.late_month [OF assms(1,4)] assms(3) by blast+
  then show ?thesis
    using assms(2,5) by (simp add: apply_record_vat_reversal_def apply_request_vat_refund_def apply_liquidate_ca3_def Let_def)
qed

text \<open>Without a credit taken over, the credit a form begins with is read on the books alone: a refund
  that has been asked for does not lower it, although the request is documented as cutting the
  chain from one form to the next. In the witness a credit of 1000 euros is asked for in full in
  January and February begins with it again.\<close>

lemma refund_is_not_deducted_on_the_books:
  assumes "carry_row dk = None" "apply_request_vat_refund T v c dk = ok (row, dk2)"
  shows "ca3_prior_credit T dk2 key per = ca3_prior_credit T dk key per"
proof -
  obtain mo where "parse_after_period (rq_period_key c) = Some mo"
    using assms(2) by (cases "parse_after_period (rq_period_key c)") (auto simp: apply_request_vat_refund_def refund_refused_def)
  then have dk2: "dk2 = dk\<lparr>refunds := refunds dk @ [row]\<rparr>" using refund_accepted [OF assms(2)] by blast
  have "ca3_month_of T dk2 x = ca3_month_of T dk x" for x
    by (rule same_facts_month) (simp add: same_facts_def dk2)
  then show ?thesis using assms(1) by (simp only: ca3_prior_credit_def dk2) simp
qed

end
