(* ===== verification/Liquidation.thy ===== *)
theory Liquidation
  imports Vat_Credit
begin

text \<open>
  The entry that clears the VAT accounts of a month: what its lines add up to on each account, when it is
  refused, and its agreement with the boxes of the form of the same month.
\<close>

section \<open>The reading of a month\<close>

lemma ca3_of_sums_sound:
  fixes s :: ca3_sums and credit :: money
  defines "m \<equiv> ca3_of_sums s credit"
  shows "0 \<le> deductible_assets m" "0 \<le> deductible_other m" "deductible_assets m + deductible_other m = deductible_rounded m"
    "100 dvd deductible_rounded m" "\<bar>deductible_rounded m - deductible_book m\<bar> \<le> 50" "0 \<le> deductible_book m"
    "collected m = max 0 (- collected_signed m)" "100 dvd deductible_assets m"
proof -
  let ?net = "raw_assets s + raw_other s"
  let ?book = "if ?net < 0 then 0 else ?net" and ?base = "if raw_assets s > 0 then raw_assets s else 0"
  have pos: "0 \<le> ?book" "0 \<le> ?base" by simp_all
  have rounded: "0 \<le> round_to_euro ?book" "0 \<le> round_to_euro ?base" using pos round_to_euro_nonneg by blast+
  show "0 \<le> deductible_assets m" "0 \<le> deductible_other m" "deductible_assets m + deductible_other m = deductible_rounded m"
    using rounded by (auto simp: m_def ca3_of_sums_def Let_def)
  show "100 dvd deductible_rounded m" "100 dvd deductible_assets m" by (simp_all add: m_def ca3_of_sums_def Let_def)
  show "\<bar>deductible_rounded m - deductible_book m\<bar> \<le> 50"
    using round_to_euro_near [of ?book] by (simp add: m_def ca3_of_sums_def Let_def)
  show "0 \<le> deductible_book m" "collected m = max 0 (- collected_signed m)" by (simp_all add: m_def ca3_of_sums_def Let_def)
qed

lemma window_reads:
  assumes "ca3_window T dk s t key = ok m"
  shows "m = Ca3Month_ZERO \<or> (\<exists>x credit. m = ca3_of_sums x credit)"
  using assms by (auto simp: ca3_window_def ca3_on_ledger_def and_do_is_ok bind_is_ok split: option.splits)

lemma zero_month_sound:
  "deductible_rounded Ca3Month_ZERO = round_to_euro (deductible_book Ca3Month_ZERO)" "0 \<le> deductible_book Ca3Month_ZERO"
  "collected Ca3Month_ZERO = max 0 (- collected_signed Ca3Month_ZERO)"
  by (simp_all add: Ca3Month_ZERO_def round_to_euro_eq)

lemma month_reads:
  assumes "ca3_month_of T dk mo = ok m"
  shows "0 \<le> deductible_rounded m" "0 \<le> deductible_book m" "deductible_rounded m = round_to_euro (deductible_book m)"
    "collected m = max 0 (- collected_signed m)"
proof -
  obtain s t where "ca3_window T dk s t (display_month mo) = ok m"
    using assms by (auto simp: ca3_month_of_def bind_is_ok)
  then consider "m = Ca3Month_ZERO" | x credit where "m = ca3_of_sums x credit" using window_reads by blast
  then show book: "0 \<le> deductible_book m" and rounded: "deductible_rounded m = round_to_euro (deductible_book m)"
    and "collected m = max 0 (- collected_signed m)"
    using zero_month_sound ca3_of_sums_sound(6,7) by (cases; simp add: ca3_of_sums_def Let_def)+
  from book rounded show "0 \<le> deductible_rounded m" by (simp add: round_to_euro_nonneg)
qed

section \<open>The lines\<close>

lemma ca3_line_sel [simp]:
  "ll_amount (ca3_line a m t) = m" "ll_account (ca3_line a m t) = a"
  by (simp_all add: ca3_line_def)

definition sound_booking :: "booked_vat \<Rightarrow> money \<Rightarrow> bool" where
  "sound_booking b gap \<longleftrightarrow> 0 \<le> bv_rounded b \<and> 0 \<le> bv_previous b \<and> 0 \<le> bv_reversal b \<and> 0 \<le> gap"

lemma lines_balance: "sound_booking b gap \<Longrightarrow> sum_list (map ll_amount (liquidation_lines b gap name)) = 0"
  by (auto simp: sound_booking_def liquidation_lines_def liquidation_position_def Let_def)

definition on_account :: "account \<Rightarrow> ledger_line list \<Rightarrow> money" where
  "on_account a ls = sum_list (map ll_amount (filter (\<lambda>l. acc_number (ll_account l) = acc_number a) ls))"

lemma on_account_append [simp]: "on_account a (xs @ ys) = on_account a xs + on_account a ys"
  by (simp add: on_account_def)

lemma on_account_if [simp]: "on_account a (if P then xs else ys) = (if P then on_account a xs else on_account a ys)"
  by simp

lemma on_account_Nil [simp]: "on_account a [] = 0"
  by (simp add: on_account_def)

lemma on_account_line [simp]:
  "on_account a [ca3_line b m t] = (if acc_number b = acc_number a then m else 0)"
  "on_account a [ca3_line b m t, ca3_line c n u] = (if acc_number b = acc_number a then m else 0) + (if acc_number c = acc_number a then n else 0)"
  by (simp_all add: on_account_def)

lemma vat_numbers:
  "acc_number VAT_DEDUCTIBLE = ''445660''" "acc_number VAT_CREDIT = ''445670''" "acc_number VAT_COLLECTED = ''445710''"
  "acc_number VAT_DUE = ''445510''" "acc_number SUNDRY_INCOME = ''758000''" "acc_number VAT_INTRACOM_DUE = ''445200''"
  "acc_number VAT_INTRACOM_DEDUCTIBLE = ''445662''"
  by (simp_all add: chart_defs)

lemma lines_on_accounts:
  fixes b :: booked_vat and gap :: money and name :: string
  assumes "sound_booking b gap"
  defines "ls \<equiv> liquidation_lines b gap name" and "pos \<equiv> liquidation_position b"
  shows "on_account VAT_COLLECTED ls = - bv_collected b"
    "on_account VAT_DEDUCTIBLE ls = gap - bv_rounded b + bv_reversal b"
    "on_account VAT_CREDIT ls = max pos 0 - bv_previous b"
    "on_account VAT_DUE ls = min pos 0"
    "on_account SUNDRY_INCOME ls = - gap"
    "on_account VAT_INTRACOM_DUE ls = bv_intracom b" "on_account VAT_INTRACOM_DEDUCTIBLE ls = - bv_intracom b"
  using assms(1) unfolding ls_def pos_def sound_booking_def liquidation_lines_def Let_def
  by (simp_all add: vat_numbers)

section \<open>The entry\<close>

definition reversal_booked :: "desk \<Rightarrow> string \<Rightarrow> money" where
  "reversal_booked dk key = max 0 (reversal_amount dk key)"

lemma booked_reads:
  assumes "booked_vat_of T dk mo key = ok b"
  shows "\<exists>m. ca3_month_of T dk mo = ok m \<and> bv_deductible b = deductible_book m \<and> bv_rounded b = deductible_rounded m
     \<and> bv_collected b = collected_signed m \<and> bv_previous b = credit_on_book m \<and> bv_reversal b = reversal_booked dk key
     \<and> bv_intracom b = intracom m"
  using assms
  by (auto simp: booked_vat_of_def liquidation_refused_def and_do_is_ok reversal_booked_def reversal_amount_def Let_def
      split: option.splits if_splits)

lemma desired_parts:
  assumes "desired_liquidation T dk mo key d = ok (Some e)"
  shows "\<exists>b name. booked_vat_of T dk mo key = ok b \<and> \<not> bv_rounded b - bv_deductible b < 0 \<and> \<not> bv_previous b < 0
     \<and> le_lines e = liquidation_lines b (bv_rounded b - bv_deductible b) name
     \<and> (le_date e = d \<and> piece_ref e = ''CA3-'' @ key \<and> le_journal e = Misc)"
  using assms unfolding desired_liquidation_def and_do_is_ok
  by (auto simp: liquidation_refused_def Let_def bind_is_ok split: if_splits)

lemma desired_entry_is:
  assumes "desired_liquidation T dk mo key d = ok (Some e)"
  shows "\<exists>m b name. ca3_month_of T dk mo = ok m \<and> booked_vat_of T dk mo key = ok b
     \<and> sound_booking b (deductible_rounded m - deductible_book m)
     \<and> le_lines e = liquidation_lines b (deductible_rounded m - deductible_book m) name
     \<and> le_date e = d \<and> piece_ref e = ''CA3-'' @ key \<and> le_journal e = Misc"
proof -
  obtain b name where b: "booked_vat_of T dk mo key = ok b" "\<not> bv_rounded b - bv_deductible b < 0" "\<not> bv_previous b < 0"
    and e: "le_lines e = liquidation_lines b (bv_rounded b - bv_deductible b) name"
       "le_date e = d \<and> piece_ref e = ''CA3-'' @ key \<and> le_journal e = Misc"
    using desired_parts [OF assms] by blast
  obtain m where m: "ca3_month_of T dk mo = ok m" "bv_deductible b = deductible_book m" "bv_rounded b = deductible_rounded m"
    "bv_reversal b = reversal_booked dk key"
    using booked_reads [OF b(1)] by blast
  then have "sound_booking b (deductible_rounded m - deductible_book m)"
    using b month_reads(1) [OF m(1)] by (simp add: sound_booking_def reversal_booked_def)
  with m b e show ?thesis by auto
qed

lemma account_sum_on: "account_sum e (acc_number a) = on_account a (le_lines e)"
  by (simp add: account_sum_def on_account_def)

lemma entry_on_accounts:
  assumes "desired_liquidation T dk mo key d = ok (Some e)"
  shows "\<exists>m. ca3_month_of T dk mo = ok m \<and> is_balanced e
     \<and> account_sum e (acc_number VAT_COLLECTED) = - collected_signed m
     \<and> account_sum e (acc_number VAT_DEDUCTIBLE) = - deductible_book m + reversal_booked dk key
     \<and> credit_on_book m + account_sum e (acc_number VAT_CREDIT)
         = max 0 (credit_on_book m + deductible_rounded m - reversal_booked dk key + collected_signed m)
     \<and> account_sum e (acc_number VAT_DUE)
         = min 0 (credit_on_book m + deductible_rounded m - reversal_booked dk key + collected_signed m)
     \<and> account_sum e (acc_number SUNDRY_INCOME) = deductible_book m - deductible_rounded m
     \<and> account_sum e (acc_number VAT_INTRACOM_DUE) = intracom m
     \<and> account_sum e (acc_number VAT_INTRACOM_DEDUCTIBLE) = - intracom m"
proof -
  obtain m b name where a: "ca3_month_of T dk mo = ok m" "booked_vat_of T dk mo key = ok b"
    "sound_booking b (deductible_rounded m - deductible_book m)"
    "le_lines e = liquidation_lines b (deductible_rounded m - deductible_book m) name"
    using desired_entry_is [OF assms] by blast
  have b: "bv_rounded b = deductible_rounded m" "bv_collected b = collected_signed m" "bv_previous b = credit_on_book m"
    "bv_reversal b = reversal_booked dk key" "bv_intracom b = intracom m"
    using booked_reads [OF a(2)] a(1) by auto
  note on = lines_on_accounts [OF a(3), of name, unfolded liquidation_position_def b, folded a(4)]
  have "is_balanced e" using lines_balance [OF a(3), of name] by (simp add: is_balanced_def a(4))
  then show ?thesis
    using a(1) by (intro exI [of _ m]) (simp add: account_sum_on on max.commute min.commute)
qed

text \<open>The form of one month is the reading of this month.\<close>

context time_crate
begin

lemma month_return:
  assumes "calendar_month mo" "ca3_month_of T dk mo = ok m"
  shows "\<exists>vat. vat_due_for_period T dk (month_first mo) (month_last mo) = ok vat \<and> vr_due vat = collected m - deductible_rounded m"
proof -
  have "add_months_up T dk (months_from mo (Suc 0)) vat_acc_ZERO = ok (add_part m vat_acc_ZERO)"
    using assms(2) by (simp add: months_from_def)
  then have "vat_due_for_period T dk (month_first mo) (month_last mo) = ok (return_of (month_first mo) (month_last mo) (add_part m vat_acc_ZERO))"
    using vat_due_whole_months [of mo 0 dk] assms(1) by (simp add: calendar_month_def)
  then show ?thesis by (simp add: return_of_def add_part_def vat_acc_ZERO_def)
qed

lemma month_prior:
  assumes "calendar_month mo" "carry_row dk = None" "ca3_month_of T dk mo = ok m"
  shows "ca3_prior_credit T dk (ca3_period_key mo) Monthly = ok (credit_on_book m)"
proof -
  have "ca3_bounds_for T (ca3_period_key mo) Monthly = ok (month_first mo, month_last mo)"
    using bounds_of_period [OF assms(1), of Monthly] assms(1) by (simp add: period_end_month_def calendar_month_def)
  moreover have "month_new (dyear (month_last mo)) (dmonth (month_last mo)) = Inr mo"
    using month_new_of [of mo] assms(1) by (simp add: month_last_def)
  ultimately show ?thesis by (simp add: ca3_prior_credit_def assms(2,3))
qed

lemma month_boxes:
  assumes "calendar_month mo" "carry_row dk = None" "ca3_periodicity_of dk = Monthly" "ca3_month_of T dk mo = ok m"
    and "ca3_boxes T dk today (ca3_period_key mo) = ok (bs, Complete)"
  shows "due_of bs = collected m - deductible_rounded m + reversal_amount dk (ca3_period_key mo) - credit_on_book m"
    "0 \<le> box_amount bs ''25''" "0 \<le> box_amount bs ''28''" "box_amount bs ''25'' = 0 \<or> box_amount bs ''28'' = 0"
proof -
  have bounds: "ca3_period_bounds T dk today (ca3_period_key mo) = ok (month_first mo, month_last mo)"
    using bounds_of_period [OF assms(1), of Monthly] assms(1,3) parse_calendar [OF assms(1)]
    by (simp add: ca3_period_bounds_def Let_def period_end_month_def calendar_month_def)
  obtain vat where vat: "vat_due_for_period T dk (month_first mo) (month_last mo) = ok vat"
    "vr_due vat = collected m - deductible_rounded m" using month_return [OF assms(1,4)] by blast
  have "bs = filled_boxes vat (reversal_amount dk (ca3_period_key mo)) (credit_on_book m) (vat_refund_for dk (ca3_period_key mo))"
    using assms(5) bounds vat month_prior [OF assms(1,2,4)] unfolding ca3_boxes_complete by (auto simp: assms(3))
  then show "due_of bs = collected m - deductible_rounded m + reversal_amount dk (ca3_period_key mo) - credit_on_book m"
    "0 \<le> box_amount bs ''25''" "0 \<le> box_amount bs ''28''" "box_amount bs ''25'' = 0 \<or> box_amount bs ''28'' = 0"
    by (simp_all add: due_of_filled net_of_def vat(2) box_amount_def filled_box)
qed

end

end
