(* ===== verification/Vat_Runs.thy ===== *)
theory Vat_Runs
  imports Declarations Liquidation Steps
begin

text \<open>
  The desk over time: the steps its commands make, what every run keeps of its tables and what no
  command can undo; then the search for the next return to file, and the form of a month against the
  entry that clears the same month.
\<close>

section \<open>Steps of the desk\<close>

datatype desk_event =
    CarryRecorded record_vat_carry_in
  | ReversalRecorded vat_request
  | ReversalRetracted string
  | RefundRequested vat_request
  | RefundRetracted string
  | DutyFiled mark_duty_filed
  | FilingRetracted fiscal_deadline_kind string
  | MonthLiquidated liquidate_ca3
  | OtherFacts

text \<open>Every command of the VAT of a period that succeeds, in any order, and any change of the other facts:
  the profile, the opening balance, the books and the write-offs.\<close>

inductive desk_step :: "time_api \<Rightarrow> desk \<Rightarrow> desk_event \<Rightarrow> desk \<Rightarrow> bool" for T where
  step_carry: "apply_record_vat_carry_in v c dk = ok (n, dk') \<Longrightarrow> desk_step T dk (CarryRecorded c) dk'"
| step_reversal: "apply_record_vat_reversal T v c dk = ok (row, dk') \<Longrightarrow> desk_step T dk (ReversalRecorded c) dk'"
| step_unreversal: "apply_retract_vat_reversal v key dk = ok (u, dk') \<Longrightarrow> desk_step T dk (ReversalRetracted key) dk'"
| step_refund: "apply_request_vat_refund T v c dk = ok (rf, dk') \<Longrightarrow> desk_step T dk (RefundRequested c) dk'"
| step_unrefund: "apply_retract_vat_refund v key dk = ok (u, dk') \<Longrightarrow> desk_step T dk (RefundRetracted key) dk'"
| step_filed: "apply_mark_duty_filed v c2 dk = ok (f, dk') \<Longrightarrow> desk_step T dk (DutyFiled c2) dk'"
| step_unfiled: "apply_retract_duty_filed k key dk = ok (u, dk') \<Longrightarrow> desk_step T dk (FilingRetracted k key) dk'"
| step_liquidated: "apply_liquidate_ca3 T v c3 dk = ok (p, dk') \<Longrightarrow> desk_step T dk (MonthLiquidated c3) dk'"
| step_facts: "carry_row dk' = carry_row dk \<Longrightarrow> reversals dk' = reversals dk \<Longrightarrow> refunds dk' = refunds dk
     \<Longrightarrow> filings dk' = filings dk \<Longrightarrow> desk_step T dk OtherFacts dk'"

text \<open>The tables a run keeps well formed.\<close>

definition period_text :: "string \<Rightarrow> bool" where
  "period_text key \<longleftrightarrow> (\<exists>mo. valid_month mo \<and> key = ca3_period_key mo)"

definition keyed_rows :: "('a \<Rightarrow> string) \<Rightarrow> ('a \<Rightarrow> money) \<Rightarrow> money \<Rightarrow> 'a list \<Rightarrow> bool" where
  "keyed_rows key amount least rows \<longleftrightarrow>
     distinct (map key rows) \<and> (\<forall>r \<in> set rows. period_text (key r) \<and> least \<le> amount r)"

definition desk_wf :: "desk \<Rightarrow> bool" where
  "desk_wf dk \<longleftrightarrow>
     keyed_rows rv_period_key rv_amount 1 (reversals dk)
     \<and> keyed_rows rf_period_key rf_amount CA12_REFUND_THRESHOLD (refunds dk)
     \<and> distinct (map df_id (filings dk)) \<and> distinct (map (\<lambda>f. (df_kind f, df_period_key f)) (filings dk))
     \<and> (case carry_row dk of None \<Rightarrow> True | Some c \<Rightarrow> period_text (after_period c) \<and> 0 \<le> ci_credit c)"

lemma keyed_snoc:
  "keyed_rows key amount least (rows @ [r]) \<longleftrightarrow>
     keyed_rows key amount least rows \<and> key r \<notin> key ` set rows \<and> period_text (key r) \<and> least \<le> amount r"
  by (auto simp: keyed_rows_def)

lemma keyed_filter: "keyed_rows key amount least rows \<Longrightarrow> keyed_rows key amount least (filter P rows)"
  by (auto simp: keyed_rows_def distinct_map_filter)

lemma no_row [simp]:
  "vat_reversal_for dk key = None \<longleftrightarrow> key \<notin> rv_period_key ` set (reversals dk)"
  "vat_refund_for dk key = None \<longleftrightarrow> key \<notin> rf_period_key ` set (refunds dk)"
  "filing_for dk k key = None \<longleftrightarrow> (k, key) \<notin> (\<lambda>f. (df_kind f, df_period_key f)) ` set (filings dk)"
  by (auto simp: vat_reversal_for_def vat_refund_for_def filing_for_def find_None_iff)

lemma period_text_key: "parse_after_period raw = Some mo \<Longrightarrow> period_text (ca3_period_key mo)"
  using parse_after_valid by (auto simp: period_text_def)

lemma refund_min_least: "CA12_REFUND_THRESHOLD \<le> refund_min b"
  by (simp add: refund_min_def CA12_REFUND_THRESHOLD_def VAT_REFUND_IN_YEAR_THRESHOLD_def)

text \<open>What each command does to the four tables.\<close>

lemma carry_effect:
  assumes "apply_record_vat_carry_in v c dk = ok (n, dk')"
  shows "\<exists>row. carry_row dk = None \<and> dk' = dk\<lparr>carry_row := Some row\<rparr> \<and> period_text (after_period row)
     \<and> 0 \<le> ci_credit row \<and> ci_credit row = rc_credit c"
proof -
  obtain mo now where "parse_after_period (rc_after_period c) = Some mo" "carry_row dk = None" "0 \<le> rc_credit c"
    "dk' = dk\<lparr>carry_row := Some \<lparr>after_period = ca3_period_key mo, ci_credit = rc_credit c, ci_source = rc_source c,
       ci_revision = 1, ci_created_at = now\<rparr>\<rparr>"
    using assms
    by (auto simp: apply_record_vat_carry_in_def carry_refused_def require_credit_def split: option.splits sum.splits if_splits)
  then show ?thesis using period_text_key by fastforce
qed

lemma reversal_effect:
  assumes "apply_record_vat_reversal T v c dk = ok (row, dk')"
  shows "dk' = dk\<lparr>reversals := reversals dk @ [row]\<rparr> \<and> vat_reversal_for dk (rv_period_key row) = None
     \<and> filing_for dk Ca3 (rv_period_key row) = None \<and> period_text (rv_period_key row) \<and> 1 \<le> rv_amount row \<and> rv_amount row = rq_amount c"
proof -
  obtain mo where mo: "parse_after_period (rq_period_key c) = Some mo"
    using assms by (cases "parse_after_period (rq_period_key c)") (auto simp: apply_record_vat_reversal_def reversal_refused_def)
  show ?thesis using reversal_accepted [OF assms mo] period_text_key [OF mo] by auto
qed

lemma refund_effect:
  assumes "apply_request_vat_refund T v c dk = ok (row, dk')"
  shows "dk' = dk\<lparr>refunds := refunds dk @ [row]\<rparr> \<and> vat_refund_for dk (rf_period_key row) = None
     \<and> period_text (rf_period_key row) \<and> CA12_REFUND_THRESHOLD \<le> rf_amount row \<and> rf_amount row = rq_amount c"
proof -
  obtain mo where mo: "parse_after_period (rq_period_key c) = Some mo"
    using assms by (cases "parse_after_period (rq_period_key c)") (auto simp: apply_request_vat_refund_def refund_refused_def)
  show ?thesis
    using refund_accepted [OF assms mo] period_text_key [OF mo] by (auto intro: order_trans [OF refund_min_least])
qed

lemma retract_effects:
  "apply_retract_vat_reversal v key dk = ok (u, dk') \<Longrightarrow>
     dk' = dk\<lparr>reversals := filter (\<lambda>r. rv_period_key r \<noteq> key) (reversals dk)\<rparr> \<and> filing_for dk Ca3 key = None"
  "apply_retract_vat_refund v key dk = ok (u, dk') \<Longrightarrow>
     dk' = dk\<lparr>refunds := filter (\<lambda>r. rf_period_key r \<noteq> key) (refunds dk)\<rparr> \<and> filing_for dk Ca3 key = None"
  "apply_retract_duty_filed k key dk = ok (u, dk') \<Longrightarrow>
     dk' = dk\<lparr>filings := filter (\<lambda>f. \<not> (df_kind f = k \<and> df_period_key f = key)) (filings dk)\<rparr>"
  by (auto simp: apply_retract_vat_reversal_def apply_retract_vat_refund_def apply_retract_duty_filed_def
      reversal_refused_def refund_refused_def simp del: no_row split: if_splits)

lemma filed_effect:
  assumes "apply_mark_duty_filed v c dk = ok (f, dk')"
  shows "dk' = dk \<or> (filings dk' = filings dk @ [f] \<and> filing_for dk (df_kind f) (df_period_key f) = None
     \<and> df_id f \<notin> df_id ` set (filings dk) \<and> carry_row dk' = carry_row dk \<and> reversals dk' = reversals dk \<and> refunds dk' = refunds dk)"
  using assms by (auto simp: apply_mark_duty_filed_def Let_def simp del: no_row split: option.splits if_splits)

lemma liquidation_effect:
  assumes "apply_liquidate_ca3 T v c dk = ok (p, dk')"
  shows "\<exists>st. dk' = dk\<lparr>dk_books := st\<rparr>"
proof -
  obtain mo z desired where "(case sync_vat_liquidation T (v_draws v) (display_month mo) desired (dk_books dk) of
      Inl e \<Rightarrow> fail e | Inr (w, st) \<Rightarrow> ok (\<lparr>pl_period_key = display_month mo, pl_piece_ref = ''CA3-'' @ display_month mo,
        pl_on = z, written = w\<rparr>, dk\<lparr>dk_books := st\<rparr>)) = ok (p, dk')"
    using assms
    by (auto simp: apply_liquidate_ca3_def liquidation_refused_def and_do_is_ok bind_is_ok Let_def simp del: no_row
        split: option.splits if_splits)
  then show ?thesis by (auto split: sum.splits)
qed

section \<open>What every run keeps\<close>

fun sound_event :: "desk_event \<Rightarrow> bool" where
  "sound_event (CarryRecorded c) \<longleftrightarrow> 0 \<le> rc_credit c"
| "sound_event (ReversalRecorded c) \<longleftrightarrow> 0 < rq_amount c"
| "sound_event (RefundRequested c) \<longleftrightarrow> CA12_REFUND_THRESHOLD \<le> rq_amount c"
| "sound_event _ \<longleftrightarrow> True"

lemma step_keeps_wf: "desk_step T dk e dk' \<Longrightarrow> desk_wf dk \<Longrightarrow> desk_wf dk'"
proof (induction rule: desk_step.induct)
  case step_carry
  then show ?case using carry_effect by (fastforce simp: desk_wf_def)
next
  case step_reversal
  then show ?case using reversal_effect by (fastforce simp: desk_wf_def keyed_snoc)
next
  case step_refund
  then show ?case using refund_effect by (fastforce simp: desk_wf_def keyed_snoc)
next
  case step_filed
  then show ?case using filed_effect by (fastforce simp: desk_wf_def)
next
  case step_liquidated
  then show ?case using liquidation_effect by (fastforce simp: desk_wf_def)
qed (auto simp: desk_wf_def keyed_filter distinct_map_filter dest!: retract_effects)

lemma desk_step_sound: "desk_step T dk e dk' \<Longrightarrow> sound_event e"
proof (induction rule: desk_step.induct)
  case step_carry
  then show ?case using carry_effect by fastforce
next
  case step_reversal
  then show ?case using reversal_effect by fastforce
next
  case step_refund
  then show ?case using refund_effect by fastforce
qed simp_all

interpretation desk_runs: safe_steps "desk_step T" desk_wf sound_event
  by unfold_locales (auto intro: step_keeps_wf desk_step_sound)

fun records_carry :: "desk_event \<Rightarrow> bool" where
  "records_carry (CarryRecorded c) \<longleftrightarrow> True"
| "records_carry _ \<longleftrightarrow> False"

lemma step_carry_row: "desk_step T dk e dk' \<Longrightarrow> (if records_carry e then carry_row dk = None \<and> carry_row dk' \<noteq> None else carry_row dk' = carry_row dk)"
proof (induction rule: desk_step.induct)
  case step_carry
  then show ?case using carry_effect by fastforce
next
  case step_filed
  then show ?case using filed_effect by fastforce
next
  case step_liquidated
  then show ?case using liquidation_effect by fastforce
qed (auto dest!: retract_effects reversal_effect refund_effect)

interpretation carry_once: once_only "desk_step T" records_carry "\<lambda>dk. carry_row dk \<noteq> None"
  by unfold_locales (auto dest: step_carry_row split: if_splits)






lemma carry_row_stays:
  "run (desk_step T) dk es dk' \<Longrightarrow> carry_row dk \<noteq> None \<Longrightarrow> carry_row dk' = carry_row dk"
  by (induction rule: run.induct) (auto dest: step_carry_row split: if_splits)

section \<open>The next return to file\<close>

definition month_of_date :: "date \<Rightarrow> month" where
  "month_of_date x = \<lparr>m_year = dyear x, m_month = dmonth x\<rparr>"

lemma month_of_valid_date: "valid_date x \<Longrightarrow> valid_month (month_of_date x) \<and> month_new (dyear x) (dmonth x) = Inr (month_of_date x)"
  by (cases x) (simp add: month_of_date_def valid_month_def month_new_def)

lemma later_month_later_day:
  assumes "valid_date today" "1 \<le> j"
  defines "mo \<equiv> (month_succ ^^ j) (month_of_date today)"
  shows "today < Date (m_year mo) (m_month mo) d"
proof -
  have v: "valid_month (month_of_date today)" using month_of_valid_date [OF assms(1)] by simp
  then have "month_index (month_of_date today) < month_index mo" using assms(2) by (simp add: mo_def)
  then have "\<not> month_index mo \<le> month_index (month_of_date today)" by simp
  then show ?thesis
    using month_index_le [of mo "month_of_date today"] v by (cases today) (auto simp: mo_def month_of_date_def)
qed

context time_crate
begin

lemma filing_found:
  fixes today :: date and d :: nat
  assumes "valid_date today" "0 \<le> dyear today" "dyear today \<le> 9990"
  defines "mo \<equiv> month_of_date today" and "day \<equiv> max EARLIEST_DAY (min d 24)"
  shows "\<exists>f k. next_ca3_filing T today per d = Some f \<and> k \<le> 3 \<and> files_in per ((month_succ ^^ k) mo)
     \<and> cf_period_start f = period_first_month per ((month_succ ^^ k) mo) \<and> cf_period_end f = month_pred ((month_succ ^^ k) mo)
     \<and> today \<le> cf_due_on f \<and> is_french_business_day T (cf_due_on f) = Some True
     \<and> (\<forall>j < k. files_in per ((month_succ ^^ j) mo) \<longrightarrow> (\<exists>x. filing_due T ((month_succ ^^ j) mo) day = Some x \<and> x < today))"
proof -
  have day: "15 \<le> day" "day \<le> 24" by (auto simp: day_def EARLIEST_DAY_def)
  have v: "valid_month mo" and new: "month_new (dyear today) (dmonth today) = Inr mo"
    using month_of_valid_date [OF assms(1)] by (auto simp: mo_def)
  have year: "m_year mo = dyear today" by (simp add: mo_def month_of_date_def)
  have cal: "calendar_month ((month_succ ^^ j) mo)" if "j \<le> 3" for j
    using later_year [OF v, of j] that assms(2,3) v by (simp add: calendar_month_def year)
  define P where "P j \<longleftrightarrow> files_in per ((month_succ ^^ j) mo) \<and> (\<exists>x. filing_due T ((month_succ ^^ j) mo) day = Some x \<and> today \<le> x)" for j
  obtain i where i: "1 \<le> i" "i \<le> (3::nat)" "files_in per ((month_succ ^^ i) mo)" using quarter_month_soon [OF v] by blast
  have "P i"
    using filing_due_found [OF cal [OF i(2)] day] later_month_later_day [OF assms(1) i(1), of day] i(3)
    by (auto simp: P_def mo_def)
  define k where "k = (LEAST j. P j)"
  have k: "P k" "k \<le> 3" using LeastI [of P, OF \<open>P i\<close>] Least_le [of P, OF \<open>P i\<close>] i(2) by (auto simp: k_def)
  have before: "files_in per ((month_succ ^^ j) mo) \<longrightarrow> (\<exists>x. filing_due T ((month_succ ^^ j) mo) day = Some x \<and> x < today)" if "j < k" for j
    using filing_due_found [OF cal day, of j] not_less_Least [of j P, folded k_def] that k(2) by (auto simp: P_def not_le)
  obtain due where due: "filing_due T ((month_succ ^^ k) mo) day = Some due" "today \<le> due" "files_in per ((month_succ ^^ k) mo)"
    using k(1) by (auto simp: P_def)
  have "\<exists>f. filing_loop T today per day None ((month_succ ^^ 0) mo) = Some f \<and> cf_due_on f = due
     \<and> cf_period_start f = period_first_month per ((month_succ ^^ k) mo) \<and> cf_period_end f = month_pred ((month_succ ^^ k) mo)"
    using before assms(2) by (intro filing_loop_walk [OF _ cal [OF k(2)] _ v day due(3,1,2)]) (auto simp: year)
  moreover have "is_french_business_day T due = Some True" using filing_due_found [OF cal [OF k(2)] day] due(1) by auto
  ultimately show ?thesis
    using due k(2) before by (auto simp: next_ca3_filing_def next_ca3_filing_from_def new day_def)
qed

end

section \<open>The form and the entry of one month\<close>

lemma reversal_not_negative: "desk_wf dk \<Longrightarrow> 0 \<le> reversal_amount dk key"
  by (auto simp: desk_wf_def keyed_rows_def reversal_amount_def vat_reversal_for_def find_Some_iff split: option.split)
     (use nth_mem in fastforce)

lemma split_position:
  fixes P b25 b28 s :: money
  assumes "b28 - b25 = max 0 s - P" "0 \<le> b25" "0 \<le> b28" "b25 = 0 \<or> b28 = 0"
  shows "max 0 P + min 0 P = b25 - b28 + max 0 s" "s \<le> 0 \<Longrightarrow> max 0 P = b25" "s \<le> 0 \<Longrightarrow> - min 0 P = b28"
  using assms by (auto simp: max_def min_def split: if_splits)

context time_crate
begin

lemma entry_matches_form:
  assumes "calendar_month mo" "carry_row dk = None" "ca3_periodicity_of dk = Monthly" "desk_wf dk"
    and "ca3_boxes T dk today (ca3_period_key mo) = ok (bs, Complete)"
    and "desired_liquidation T dk mo (ca3_period_key mo) d = ok (Some e)"
  shows "\<exists>m. ca3_month_of T dk mo = ok m \<and> is_balanced e
     \<and> account_sum e (acc_number VAT_COLLECTED) = - collected_signed m
     \<and> account_sum e (acc_number VAT_DEDUCTIBLE) = reversal_amount dk (ca3_period_key mo) - deductible_book m
     \<and> account_sum e (acc_number SUNDRY_INCOME) = deductible_book m - deductible_rounded m
     \<and> credit_on_book m + account_sum e (acc_number VAT_CREDIT) + account_sum e (acc_number VAT_DUE)
         = box_amount bs ''25'' - box_amount bs ''28'' + max 0 (collected_signed m)
     \<and> (collected_signed m \<le> 0 \<longrightarrow> credit_on_book m + account_sum e (acc_number VAT_CREDIT) = box_amount bs ''25''
          \<and> - account_sum e (acc_number VAT_DUE) = box_amount bs ''28'')"
proof -
  let ?r = "reversal_amount dk (ca3_period_key mo)"
  obtain m where m: "ca3_month_of T dk mo = ok m" "is_balanced e"
    "account_sum e (acc_number VAT_COLLECTED) = - collected_signed m"
    "account_sum e (acc_number VAT_DEDUCTIBLE) = - deductible_book m + ?r"
    "account_sum e (acc_number SUNDRY_INCOME) = deductible_book m - deductible_rounded m"
    and pos: "credit_on_book m + account_sum e (acc_number VAT_CREDIT) = max 0 (credit_on_book m + deductible_rounded m - ?r + collected_signed m)"
      "account_sum e (acc_number VAT_DUE) = min 0 (credit_on_book m + deductible_rounded m - ?r + collected_signed m)"
    using entry_on_accounts [OF assms(6)] reversal_not_negative [OF assms(4), of "ca3_period_key mo"]
    by (auto simp: reversal_booked_def)
  note boxes = month_boxes [OF assms(1-3) m(1) assms(5)]
  let ?P = "credit_on_book m + deductible_rounded m - ?r + collected_signed m"
  have "box_amount bs ''28'' - box_amount bs ''25'' = max 0 (collected_signed m) - ?P"
    using boxes(1) month_reads(4) [OF m(1)] by (simp add: due_of_def max_def)
  note sides = split_position [OF this boxes(2,3,4), folded pos(1) pos(2)]
  show ?thesis using m sides by (intro exI [of _ m]) simp
qed

end

section \<open>Properties\<close>

text \<open>C37: From a desk whose tables are well formed, whatever commands succeed in whatever order and whatever
  becomes of the other facts, the tables stay well formed: at most one VAT to pay back and one refund
  per period, each positive (a refund at least the threshold) and under the key of a month, one
  filing per kind and period, a credit taken over that is not negative. That credit is recorded at
  most once and then never changes.\<close>

theorem tables_stay_well_formed:
  assumes "run (desk_step T) dk es dk'" "desk_wf dk"
  shows "desk_wf dk' \<and> (\<forall>e \<in> set es. sound_event e) \<and> length (filter records_carry es) \<le> 1
     \<and> (\<forall>c. carry_row dk = Some c \<longrightarrow> carry_row dk' = Some c)"
  using desk_runs.run_inv [OF assms] desk_runs.run_allowed [OF assms] carry_once.marked_once [OF assms(1)]
    carry_row_stays [OF assms(1)] by auto

definition fresh_desk :: desk where
  "fresh_desk = sample_desk\<lparr>carry_row := None\<rparr>"

definition fresh_carry :: record_vat_carry_in where
  "fresh_carry = \<lparr>rc_after_period = ''2026-01'', rc_credit = 100000, rc_source = None\<rparr>"

definition sample_duty :: mark_duty_filed where
  "sample_duty = \<lparr>md_kind = VatInstalment, md_period_key = ''2026-07'', md_due_on = Date 2026 7 15, md_filed_on = Date 2026 7 10\<rparr>"

lemma carry_fresh: "\<exists>dk1. apply_record_vat_carry_in sample_venv fresh_carry fresh_desk = ok (1, dk1) \<and> filings dk1 = []"
proof -
  have "parse_after_period ''2026-01'' = Some january" by code_simp
  then show ?thesis
    by (simp add: apply_record_vat_carry_in_def require_credit_def fresh_carry_def fresh_desk_def sample_venv_def)
qed

theorem tables_stay_well_formed_witness:
  "\<exists>dk'. run (desk_step gregorian) fresh_desk [CarryRecorded fresh_carry, DutyFiled sample_duty] dk' \<and> desk_wf dk'"
proof -
  have wf: "desk_wf fresh_desk" by (simp add: desk_wf_def fresh_desk_def keyed_rows_def)
  obtain dk1 where a: "apply_record_vat_carry_in sample_venv fresh_carry fresh_desk = ok (1, dk1)" "filings dk1 = []"
    using carry_fresh by blast
  obtain f dk2 where b: "apply_mark_duty_filed sample_venv sample_duty dk1 = ok (f, dk2)"
    using a(2) by (auto simp: apply_mark_duty_filed_def Let_def)
  have r: "run (desk_step gregorian) fresh_desk [CarryRecorded fresh_carry, DutyFiled sample_duty] dk2"
    using step_carry [OF a(1)] step_filed [OF b] by (intro run_Cons [OF _ run_single])
  from tables_stay_well_formed [OF r wf] r show ?thesis by blast
qed





text \<open>C39: From any day of the calendar the search for the next CA3 to file ends within three months. The return it
  finds is due on a French business day that is not before today, for the month or the quarter
  that ends just before, and it is the first: every filing month passed over was due before today.\<close>

theorem next_filing_is_found:
  fixes today :: date and d :: nat
  assumes "time_crate T" "valid_date today" "0 \<le> dyear today" "dyear today \<le> 9990"
  shows "\<exists>f k. next_ca3_filing T today per d = Some f \<and> k \<le> 3
     \<and> files_in per ((month_succ ^^ k) (month_of_date today))
     \<and> cf_period_start f = period_first_month per ((month_succ ^^ k) (month_of_date today))
     \<and> cf_period_end f = month_pred ((month_succ ^^ k) (month_of_date today))
     \<and> today \<le> cf_due_on f \<and> is_french_business_day T (cf_due_on f) = Some True
     \<and> (\<forall>j < k. files_in per ((month_succ ^^ j) (month_of_date today)) \<longrightarrow>
          (\<exists>x. filing_due T ((month_succ ^^ j) (month_of_date today)) (max EARLIEST_DAY (min d 24)) = Some x \<and> x < today))"
  by (rule time_crate.filing_found [OF assms])

theorem next_filing_is_found_witness:
  "\<exists>f. next_ca3_filing gregorian (Date 2026 12 20) Quarterly 19 = Some f \<and> Date 2026 12 20 \<le> cf_due_on f
     \<and> is_french_business_day gregorian (cf_due_on f) = Some True"
  using next_filing_is_found [OF gregorian.time_crate_axioms, of "Date 2026 12 20" Quarterly 19] by auto






end
