(* ===== verification/Spec2Isabelle.thy ===== *)
theory Spec2Isabelle
  imports Money Period Calendar Siren Opening Asset Vat Facts Billing Quotes Tax Accounts Entries
    Ledger Btree Balance Chain Fec Fec_Check Fec_Text Fec_Conform Steps App Executor Journal Kept
    Kept_Runs Invoicing Expenses Bank Invoicing_Runs Bank_Runs Receivables
    Vat_Return Vat_Desk Vat_Loop Vat_Credit Declarations Liquidation Vat_Runs
begin

text \<open>
  Griffe keeps the books of a French one-person company (SASU). Its commands record facts
  (invoices, payments, expenses, bank lines, fixed assets, closed exercises) in an encrypted
  database; the accounting is never stored but derived from those facts: the ledger of an exercise,
  its trial balance and balance sheet, the corporate tax. This development models that
  derivation, \<open>src/crates/griffe-core/src\<close>, from amounts in cents up to the chain of exercises.

  \<^bold>\<open>Theories.\<close> Each follows files of \<open>griffe-core\<close>, its definitions in their order.
  \<^item> \<open>Prelude\<close>: machine ranges, decimal text, UTF-8 text, trimming, the option monad's splits and the
    collections of simplification rules shared by the components. \<open>Text\<close>: characters of a byte string.
    \<open>Btree\<close>: the ordered map, as an interface of keyed updates and its two implementations.
  \<^item> \<open>Time_Api\<close>: the \<open>time\<close> crate, a record of functions that is an argument of the model, the locale
    of its documented laws, and the Gregorian calendar as their instance.
  \<^item> \<open>Money\<close> (\<open>domain/money.rs\<close>), \<open>Period\<close> (\<open>domain/period.rs\<close>), \<open>Calendar\<close>
    (\<open>domain/calendar.rs\<close>), \<open>Siren\<close> (\<open>domain/siren.rs\<close>), \<open>Opening\<close> (\<open>domain/opening.rs\<close>), \<open>Asset\<close>
    (\<open>domain/asset.rs\<close>), \<open>Vat\<close> (\<open>domain/vat.rs\<close>, \<open>domain/vat_filing.rs\<close>): the domain values.
  \<^item> \<open>Facts\<close> (\<open>domain/invoice.rs\<close>, \<open>payment.rs\<close>, \<open>settlement.rs\<close>, \<open>expense.rs\<close>, \<open>client.rs\<close>,
    \<open>company.rs\<close>, the record of \<open>fiscal_year.rs\<close>): what the database holds.
  \<^item> \<open>Billing\<close> (\<open>billing/totals.rs\<close>) and \<open>Quotes\<close> (\<open>domain/quote.rs\<close>, \<open>domain/mission.rs\<close>,
    \<open>quotes/pricing.rs\<close>, \<open>missions/schedule.rs\<close>): from a quote to what is invoiced.
  \<^item> \<open>Tax\<close> (\<open>accounting.rs\<close>): corporate tax and losses.
  \<^item> \<open>Accounts\<close>, \<open>Entries\<close>, \<open>Ledger\<close>, \<open>Balance\<close>, \<open>Chain\<close> (\<open>ledger.rs\<close>): accounts and lines, the
    builders of entries, \<open>Ledger::build\<close>, the trial balance, balance sheet and derived opening,
    and the recursion over closed exercises.
  \<^item> \<open>Fec\<close> (\<open>fec/mod.rs\<close>) and \<open>Fec_Check\<close> (\<open>fec/check.rs\<close>): the accounting file of an exercise as text
    and the check of such a text; \<open>Fec_Text\<close> and \<open>Fec_Conform\<close> relate the two.
  \<^item> \<open>Steps\<close>: runs of a labelled step relation, with the interfaces \<open>safe_steps\<close> (an invariant and the
    labels it allows) and \<open>once_only\<close> (an event that can happen once).
  \<^item> \<open>App\<close> (\<open>app/*.rs\<close>): the executor of commands, over an abstract command and store; \<open>Executor\<close>: its
    guarantees over any run of executions and confirmations.
  \<^item> \<open>Journal\<close> (\<open>journal.rs\<close>): the kept entries and the operations that post and reverse them; \<open>Kept\<close>:
    every operation is a sequence of postings and reversals, which keep the invariant of the
    tables; \<open>Kept_Runs\<close>: the runs of the operations and what they guarantee.
  \<^item> \<open>Invoicing\<close> (\<open>billing/commands.rs\<close>, \<open>row.rs\<close>, \<open>queries.rs\<close>, \<open>error.rs\<close>) and \<open>Expenses\<close>
    (\<open>expenses.rs\<close>): the commands on invoices, credit notes, write-offs, payments, lines of the bank and
    expenses, each with its guards, its rows and its call of the journal, over the record \<open>office\<close>.
    \<open>Bank\<close>: the abstract machine of payments and bank lines and its invariant; \<open>Invoicing_Runs\<close>: the
    commands as steps, the numbering and the chain of invoices; \<open>Bank_Runs\<close>: the commands refine the
    machine; \<open>Receivables\<close>: what follows for the office.
  \<^item> \<open>Vat_Return\<close> (\<open>accounting.rs\<close>, the CA3 periods of \<open>fiscal.rs\<close>, \<open>society/mod.rs\<close>): the reading of a month
    on the books, the loop over the months of a period, the search for the next filing, the credit
    carried from form to form and the boxes of the form. \<open>Vat_Desk\<close> (\<open>society/vat_carry.rs\<close>,
    \<open>vat_reversal.rs\<close>, \<open>vat_refund.rs\<close>, \<open>filings.rs\<close>, \<open>vat_liquidation.rs\<close>): the commands on a period,
    over the record \<open>desk\<close>. \<open>Vat_Loop\<close> and \<open>Vat_Credit\<close>: the loops end, and what the chain of credits
    and the boxes compute; \<open>Liquidation\<close>: the entry that clears a month; \<open>Declarations\<close>: what single
    forms and commands guarantee and where they fail; \<open>Vat_Runs\<close>: runs of the commands, the search for
    the next filing, the form against the entry.

  \<^bold>\<open>State and effects.\<close> The modelled functions are pure: a Rust struct is a record, an enum a datatype,
  a \<open>HashMap\<close> or \<open>BTreeMap\<close> a map or a sorted association list, a \<open>Vec\<close> a list, a loop with mutable
  locals a fold or a recursion over its state (\<open>book_payments\<close>, \<open>sheet_step\<close>, \<open>closing_step\<close>,
  \<open>number_entries\<close>). A \<open>Result\<close> is a sum whose left side is the error; a function that can
  panic returns an option whose \<open>None\<close> is the panic. Text is its UTF-8 bytes; identifiers are the text
  of their UUID; time stamps are numbers. Where the code writes to the database (\<open>App\<close>, \<open>Journal\<close>, \<open>Invoicing\<close>,
  \<open>Expenses\<close>, \<open>Vat_Desk\<close>) the tables are a record of lists of rows, \<open>store\<close>, \<open>vault\<close>, \<open>office\<close> and
  \<open>desk\<close>, which holds a vault, passed and returned; a call runs in one
  transaction, so an error returns no new state; the clock and the identifiers drawn are arguments
  (\<open>env\<close>, \<open>jenv\<close>, \<open>benv\<close>, \<open>venv\<close>), and a primary key or unique index that a row would break is an error.

  \<^bold>\<open>Integers.\<close> \<open>Money(i64)\<close> is an integer in cents. Conversions, products and divisions are checked
  against the machine range where the code checks them. The additive operators, compiled with
  \<open>overflow-checks = true\<close>, are exact integer arithmetic, except where the code sums a whole book
  before its own overflow refusal: there \<open>sum_money\<close> checks each partial sum, which is how
  \<open>build_panics_before_refusing\<close> arises; after the refusal \<open>built_ledger_sums_fit\<close> shows that
  the checks cannot fail. Counters (\<open>u32\<close> numbers of entries) are naturals. A quantity of days, an
  \<open>f64\<close>, enters through its integer number of hundredths, which is the argument of the model.

  \<^bold>\<open>Interfaces.\<close> \<open>time_crate\<close> (provided by \<open>gregorian\<close>); \<open>lossless_allocation\<close>, what the allocators
  of \<open>Money\<close> promise to quotes and instalments; \<open>double_entry\<close>, what a book whose amounts cancel out
  promises (provided by entries, books of entries, opening balances and derived closings);
  \<open>entry_map\<close>, what a loop of keyed updates computes (provided by sorted association lists and by
  plain maps); \<open>safe_steps\<close> and \<open>once_only\<close>, what a step relation promises of its runs (provided by the
  executor, the kept journal, the commands of billing and expenses, the machine of the bank and the desk).

  \<^bold>\<open>What is shown.\<close> In \<open>Money\<close>, \<open>Asset\<close>, \<open>Quotes\<close>, \<open>Billing\<close>: no cent is lost or created by
  allocation, depreciation, discount, instalments or VAT rounding, with bounds and defined results.
  In \<open>Period\<close>, \<open>Calendar\<close>: exercises tile the calendar, walks over days end. In \<open>Siren\<close>,
  \<open>Opening\<close>, \<open>Money\<close>, \<open>Quotes\<close>: round trips of the text forms, and where they fail. In \<open>Tax\<close>: totality,
  monotony, conservation. In \<open>Entries\<close>, \<open>Ledger\<close>: every entry balances, receipts clear the pending
  VAT, the ledger is a sorted, numbered permutation of the facts' entries, its result is the result
  after tax, and \<open>build\<close> returns. In \<open>Balance\<close>: the loop of the trial balance refines the
  per-account sums, the balance sheet balances for whatever accounts and signs, the derived opening
  balances. In \<open>Chain\<close>: the recursion returns (its measure is the set of records before the
  exercise) and every ledger of the chain balances, by induction along the chain.
  In \<open>Fec_Conform\<close>: the file of a clean book passes its own check without a finding, its text reads back
  field by field, and a text found conformant has the shape the decree asks for.
  In \<open>Executor\<close>: agents are never applied without confirmation, a pending action is applied once, the
  audit log verifies and locates tampering. In \<open>Kept_Runs\<close>: from an empty journal every kept entry is
  readable and in balance, a fact has one live entry, reversals cancel out, rows are only added, closed
  exercises stay, and a second synchronisation changes nothing. In \<open>Receivables\<close>: invoices are numbered
  without gap, chained and only added; the payments and the statement stay well formed and agree, by
  refinement of the machine of \<open>Bank\<close>; credit notes and write-offs settle what is owed, undoing a
  reconciliation restores what it changed; and three ways in which commands do not do what they
  document (a year blocked by an imported number, a line that cannot be deleted, a receipt that cannot
  be attached after the closing). In \<open>Declarations\<close> and \<open>Vat_Runs\<close>: a VAT return is the sum of its months;
  along 24 periods each form begins with the credit the one before it leaves; accepted refunds fit their
  credit and accepted reversals raise what is due by their amount; the tables stay well formed and
  what is filed stays until its filing is retracted; the next filing is found within three months; the
  entry that clears a month balances and agrees with boxes 25 and 28 of its form. Against them, three
  failures: a credit taken over is forgotten after 24 periods, can be refunded twice, and the lock of a
  filed return does not hold for a period written with a sign.

  \<^bold>\<open>Fuel and termination.\<close> Trimming and the search for a business day carry fuel: as many rounds as bytes,
  and more days than any run of holidays; lemmas show both to be enough. The chain of exercises is
  a partial function whose outer \<open>None\<close> means that it does not return; \<open>chain_returns\<close> excludes it.
  The walk back to the credit taken over (\<open>walk_back\<close>) has the 24 rounds of the code itself, whose end is
  a result. The loop over months (\<open>vat_months\<close>) and the search for a filing (\<open>filing_loop\<close>) are partial
  functions: \<open>return_always_ends\<close> and \<open>next_filing_is_found\<close> show that they end. \<open>build_ledger\<close> makes a
  chain that does not return the panic of an exhausted stack.

  \<^bold>\<open>Not modelled.\<close> The database and its migrations, encryption, serialisation and JSON, hashing, mail
  and network protocols, document rendering, and the facades (command line, web, MCP, desktop),
  which are I/O or calls into libraries. Also left
  out: the command \<open>MarkCatchUpFiled\<close>, which walks every obligation of the company, the obligations
  other than the CA3 and their forms, the commands of clients, missions, quotes and the company, the
  closing of an exercise, and the parsers of bank files.
\<close>

end
